(* ===== verification/BJ_Prelude.thy ===== *)
theory BJ_Prelude
  imports
    Main
    "HOL-Library.Multiset"
    "HOL-Library.Char_ord"
    "HOL-Library.List_Lexorder"
begin

text \<open>
  What the components share: the collections of facts the proofs draw on, the model of Go's
  \<open>int64\<close> counters, \<open>time.Time\<close> values and \<open>strconv.FormatInt\<close>, and the operations on
  the rows of a table (first match, upsert, delete) with their laws. Strings are compared
  bytewise, as Go compares them, through the lexicographic order of the library.
\<close>

subsection \<open>Collections of facts\<close>

named_theorems table_simps \<open>lookup after insert, update and delete\<close>
named_theorems aon_intros \<open>a program either succeeds or leaves the database as it was\<close>
named_theorems readonly_intros \<open>a program never changes the database\<close>
named_theorems prog_elims \<open>what a successful run of a program went through\<close>

subsection \<open>Signed 64-bit counters\<close>

text \<open>The value of a Go \<open>int64\<close> after an operation whose exact result is \<open>x\<close>.\<close>

definition wrap64 :: "int \<Rightarrow> int" where
  "wrap64 x = (x + 2 ^ 63) mod 2 ^ 64 - 2 ^ 63"

lemma wrap64_id: "- (2 ^ 63) \<le> x \<Longrightarrow> x < 2 ^ 63 \<Longrightarrow> wrap64 x = x"
  by (simp add: wrap64_def)

lemma wrap64_bounds: "- (2 ^ 63) \<le> wrap64 x \<and> wrap64 x < 2 ^ 63"
  using pos_mod_bound [of "2 ^ 64" "x + 2 ^ 63"] pos_mod_sign [of "2 ^ 64" "x + 2 ^ 63"]
  by (simp add: wrap64_def)

text \<open>An increment always changes the stored value, even when it wraps.\<close>

lemma wrap64_Suc_neq: "wrap64 (x + 1) \<noteq> x"
proof
  assume eq: "wrap64 (x + 1) = x"
  then have "- (2 ^ 63) \<le> x" "x < 2 ^ 63"
    using wrap64_bounds [of "x + 1"] by simp_all
  then consider "x + 1 < 2 ^ 63" | "x = 2 ^ 63 - 1" by linarith
  then show False
  proof cases
    case 1
    with \<open>- (2 ^ 63) \<le> x\<close> have "wrap64 (x + 1) = x + 1" by (intro wrap64_id) simp_all
    with eq show False by simp
  next
    case 2
    with eq show False by (simp add: wrap64_def)
  qed
qed

subsection \<open>Time\<close>

text \<open>
  A \<open>time.Time\<close> is the number of nanoseconds since the zero time, so that \<open>IsZero\<close> is
  equality with 0; a \<open>time.Duration\<close> is a number of nanoseconds.
\<close>

type_synonym time = int

definition Second :: int where "Second = 1000000000"

abbreviation IsZero :: "time \<Rightarrow> bool" where "IsZero t \<equiv> t = 0"

subsection \<open>Decimal formatting\<close>

fun digits_of :: "nat \<Rightarrow> string" where
  "digits_of n =
     (if n < 10 then [char_of (48 + n)] else digits_of (n div 10) @ [char_of (48 + n mod 10)])"

declare digits_of.simps [simp del]

text \<open>\<open>strconv.FormatInt(v, 10)\<close>.\<close>

definition FormatInt :: "int \<Rightarrow> string" where
  "FormatInt v = (if v < 0 then CHR ''-'' # digits_of (nat (- v)) else digits_of (nat v))"

fun digits_val :: "string \<Rightarrow> nat" where
  "digits_val s = foldl (\<lambda>a c. 10 * a + (of_char c - 48)) 0 s"

lemma digits_val_digits_of: "digits_val (digits_of n) = n"
proof (induction n rule: digits_of.induct)
  case (1 n)
  show ?case
  proof (cases "n < 10")
    case True
    then show ?thesis by (subst digits_of.simps) (simp add: take_bit_nat_eq_self)
  next
    case False
    with "1.IH" have IH: "digits_val (digits_of (n div 10)) = n div 10" by simp
    have "(48 + n mod 10) mod 256 = 48 + n mod 10" by (intro mod_less) auto
    with False IH show ?thesis
      by (subst digits_of.simps) simp
  qed
qed

lemma digits_of_inj: "digits_of m = digits_of n \<Longrightarrow> m = n"
  using digits_val_digits_of by metis

lemma digits_of_hd: "hd (digits_of n) \<noteq> CHR ''-''"
proof (induction n rule: digits_of.induct)
  case (1 n)
  have ne: "digits_of m \<noteq> []" for m by (subst digits_of.simps) simp
  have *: "char_of (48 + k) \<noteq> CHR ''-''" if "k < 10" for k :: nat
  proof
    assume "char_of (48 + k) = CHR ''-''"
    then have "of_char (char_of (48 + k)) = (of_char CHR ''-'' :: nat)" by simp
    with that show False by simp
  qed
  show ?case
  proof (cases "n < 10")
    case True
    then show ?thesis by (subst digits_of.simps) (simp add: *)
  next
    case False
    with "1.IH" ne [of "n div 10"] show ?thesis
      by (subst digits_of.simps) (simp add: hd_append)
  qed
qed

lemma FormatInt_inj: "FormatInt a = FormatInt b \<Longrightarrow> a = b"
proof -
  assume eq: "FormatInt a = FormatInt b"
  have "digits_of m \<noteq> CHR ''-'' # s" for m s
    using digits_of_hd [of m] by (cases "digits_of m") auto
  then have "digits_of m \<noteq> CHR ''-'' # s" "CHR ''-'' # s \<noteq> digits_of m" for m s
    by metis+
  with eq show "a = b"
    by (auto simp: FormatInt_def dest!: digits_of_inj split: if_splits)
qed

text \<open>\<open>strconv.ParseUint(s, 10, 64)\<close>: a non-empty string of digits whose value fits in 64 bits.\<close>

definition ParseUint :: "string \<Rightarrow> nat option" where
  "ParseUint s =
     (if s = [] \<or> \<not> list_all (\<lambda>c. CHR ''0'' \<le> c \<and> c \<le> CHR ''9'') s then None
      else if digits_val s < 2 ^ 64 then Some (digits_val s) else None)"

subsection \<open>White space\<close>

text \<open>\<open>strings.TrimSpace\<close> on ASCII text: tab, line feed, vertical tab, form feed, return, blank.\<close>

definition is_space :: "char \<Rightarrow> bool" where
  "is_space c \<longleftrightarrow> (of_char c :: nat) \<in> {9, 10, 11, 12, 13, 32}"

definition TrimSpace :: "string \<Rightarrow> string" where
  "TrimSpace s = rev (dropWhile is_space (rev (dropWhile is_space s)))"

lemma TrimSpace_id: "list_all (\<lambda>c. \<not> is_space c) s \<Longrightarrow> TrimSpace s = s"
proof -
  assume s: "list_all (\<lambda>c. \<not> is_space c) s"
  have "dropWhile is_space t = t" if "list_all (\<lambda>c. \<not> is_space c) t" for t
    using that by (cases t) simp_all
  with s show ?thesis by (simp add: TrimSpace_def list_all_rev)
qed

subsection \<open>Loops that stop at the first error\<close>

fun mapE :: "('a \<Rightarrow> 'e + 'b) \<Rightarrow> 'a list \<Rightarrow> 'e + 'b list" where
  "mapE f [] = Inr []"
| "mapE f (x # xs) =
     (case f x of
        Inl e \<Rightarrow> Inl e
      | Inr y \<Rightarrow> (case mapE f xs of Inl e \<Rightarrow> Inl e | Inr ys \<Rightarrow> Inr (y # ys)))"

lemma mapE_map: "(\<And>x. x \<in> set xs \<Longrightarrow> f (g x) = Inr x) \<Longrightarrow> mapE f (map g xs) = Inr xs"
  by (induction xs) simp_all

lemma mapE_Inr: "mapE f xs = Inr ys \<longleftrightarrow> list_all2 (\<lambda>x y. f x = Inr y) xs ys"
proof (induction xs arbitrary: ys)
  case Nil
  then show ?case by auto
next
  case (Cons x xs)
  show ?case
  proof (cases ys)
    case Nil
    then show ?thesis by (auto split: sum.splits)
  next
    case ys: (Cons y zs)
    show ?thesis
    proof (cases "mapE f xs")
      case (Inl e)
      with Cons.IH [of zs] ys show ?thesis by (auto split: sum.splits)
    next
      case (Inr us)
      with Cons.IH [of zs] ys show ?thesis by (auto split: sum.splits)
    qed
  qed
qed

text \<open>Applying a function to the value of a step that may fail.\<close>

definition mapR :: "('a \<Rightarrow> 'b) \<Rightarrow> 'e + 'a \<Rightarrow> 'e + 'b" where
  "mapR f r = (case r of Inl e \<Rightarrow> Inl e | Inr x \<Rightarrow> Inr (f x))"

lemma mapR_simps [simp]: "mapR f (Inl e) = Inl e" "mapR f (Inr x) = Inr (f x)"
  by (simp_all add: mapR_def)

lemma mapR_Inr [simp]: "mapR f r = Inr y \<longleftrightarrow> (\<exists>x. r = Inr x \<and> y = f x)"
  by (cases r) auto

lemma mapR_Inl [simp]: "mapR f r = Inl e \<longleftrightarrow> r = Inl e"
  by (cases r) auto

text \<open>\<open>x, err := f(); if err != nil \{ return err \}\<close> in a function without other effects.\<close>

definition bindE :: "'e + 'a \<Rightarrow> ('a \<Rightarrow> 'e + 'b) \<Rightarrow> 'e + 'b" where
  "bindE r f = (case r of Inl e \<Rightarrow> Inl e | Inr x \<Rightarrow> f x)"

lemma bindE_simps [simp]: "bindE (Inl e) f = Inl e" "bindE (Inr x) f = f x"
  by (simp_all add: bindE_def)

lemma bindE_Inr [prog_elims]: "bindE r f = Inr y \<longleftrightarrow> (\<exists>x. r = Inr x \<and> f x = Inr y)"
  by (cases r) simp_all

subsection \<open>Rows of a table\<close>

text \<open>
  A table is the list of its rows. \<open>tbl_first\<close> is the first row that satisfies a condition;
  \<open>tbl_save\<close> overwrites the row with the same key, or appends the row when there is none
  (GORM's \<open>Save\<close>); \<open>tbl_delete\<close> drops the rows that satisfy a condition.
\<close>

definition tbl_first :: "('r \<Rightarrow> bool) \<Rightarrow> 'r list \<Rightarrow> 'r option" where
  "tbl_first P t = List.find P t"

definition tbl_save :: "('r \<Rightarrow> 'k) \<Rightarrow> 'r \<Rightarrow> 'r list \<Rightarrow> 'r list" where
  "tbl_save key r t =
     (if list_ex (\<lambda>x. key x = key r) t
      then map (\<lambda>x. if key x = key r then r else x) t
      else t @ [r])"

definition tbl_delete :: "('r \<Rightarrow> bool) \<Rightarrow> 'r list \<Rightarrow> 'r list" where
  "tbl_delete P t = filter (\<lambda>x. \<not> P x) t"

lemma tbl_first_Nil [simp]: "tbl_first P [] = None"
  by (simp add: tbl_first_def)

lemma tbl_first_Cons [simp]: "tbl_first P (r # t) = (if P r then Some r else tbl_first P t)"
  by (simp add: tbl_first_def)

lemma tbl_first_Some: "tbl_first P t = Some r \<Longrightarrow> r \<in> set t \<and> P r"
  by (induction t) (auto split: if_splits)

lemma tbl_first_None: "tbl_first P t = None \<longleftrightarrow> (\<forall>r \<in> set t. \<not> P r)"
  by (induction t) auto

lemma tbl_first_append:
  "tbl_first P (s @ t) = (case tbl_first P s of None \<Rightarrow> tbl_first P t | Some r \<Rightarrow> Some r)"
  by (induction s) auto

lemma tbl_first_save_same [table_simps]:
  "tbl_first (\<lambda>x. key x = key r) (tbl_save key r t) = Some r"
proof -
  have "tbl_first (\<lambda>x. key x = key r) (map (\<lambda>x. if key x = key r then r else x) t)
      = (if list_ex (\<lambda>x. key x = key r) t then Some r else None)"
    by (induction t) auto
  then show ?thesis
    by (auto simp: tbl_save_def tbl_first_append list_ex_iff split: option.splits
        dest: tbl_first_Some)
qed

lemma tbl_first_save_other [table_simps]:
  assumes "k \<noteq> key r"
  shows "tbl_first (\<lambda>x. key x = k) (tbl_save key r t) = tbl_first (\<lambda>x. key x = k) t"
proof -
  have "tbl_first (\<lambda>x. key x = k) (map (\<lambda>x. if key x = key r then r else x) t)
      = tbl_first (\<lambda>x. key x = k) t"
    using assms by (induction t) auto
  with assms show ?thesis
    by (auto simp: tbl_save_def tbl_first_append split: option.splits)
qed

lemma set_tbl_delete [simp]: "set (tbl_delete P t) = {r \<in> set t. \<not> P r}"
  by (simp add: tbl_delete_def)

lemma tbl_first_delete [table_simps]:
  "tbl_first Q (tbl_delete P t) = tbl_first (\<lambda>r. Q r \<and> \<not> P r) t"
  by (induction t) (auto simp: tbl_delete_def)

lemma set_tbl_save:
  "set (tbl_save key r t) = insert r {x \<in> set t. key x \<noteq> key r}"
  by (auto simp: tbl_save_def list_ex_iff)

lemma distinct_tbl_save:
  "distinct (map key t) \<Longrightarrow> distinct (map key (tbl_save key r t))"
proof -
  assume d: "distinct (map key t)"
  have "map key (map (\<lambda>x. if key x = key r then r else x) t) = map key t"
    by (induction t) auto
  with d show ?thesis by (auto simp: tbl_save_def list_ex_iff simp del: map_map)
qed

lemma distinct_tbl_delete:
  "distinct (map key t) \<Longrightarrow> distinct (map key (tbl_delete P t))"
  by (simp add: tbl_delete_def distinct_map_filter)

text \<open>A row the key does not determine is found by any condition on the key alone.\<close>

lemma tbl_first_save:
  "tbl_first (\<lambda>x. key x = k) (tbl_save key r t) =
     (if k = key r then Some r else tbl_first (\<lambda>x. key x = k) t)"
  by (simp add: table_simps)

subsection \<open>A store of objects read by key\<close>

text \<open>
  The contract of a repository towards its clients: an object that was written is read back
  under its key (\<open>stored\<close> is what the write made of it), and no other key is affected. A write
  may fail; it then returns no state.
\<close>

locale repository =
  fixes rd :: "'k \<Rightarrow> 's \<Rightarrow> 'e + 'v"
    and wr :: "'v \<Rightarrow> 's \<Rightarrow> 'e + 's"
    and key :: "'v \<Rightarrow> 'k"
    and good :: "'v \<Rightarrow> bool"
    and stored :: "'v \<Rightarrow> 'v"
  assumes read_write: "good v \<Longrightarrow> wr v s = Inr s' \<Longrightarrow>
      rd k s' = (if k = key v then Inr (stored v) else rd k s)"
begin

lemma read_same: "good v \<Longrightarrow> wr v s = Inr s' \<Longrightarrow> rd (key v) s' = Inr (stored v)"
  by (simp add: read_write)

lemma read_other: "good v \<Longrightarrow> wr v s = Inr s' \<Longrightarrow> k \<noteq> key v \<Longrightarrow> rd k s' = rd k s"
  by (simp add: read_write)

lemma last_write_wins:
  assumes "good v" "good v'" "key v = key v'"
    and "wr v' s = Inr s1" "wr v s1 = Inr s2" "wr v s = Inr s3"
  shows "rd k s2 = rd k s3"
  using read_write [OF assms(1) assms(5), of k] read_write [OF assms(2) assms(4), of k]
    read_write [OF assms(1) assms(6), of k] assms(3) by simp

lemma writes_commute:
  assumes "good v" "good v'" "key v \<noteq> key v'"
    and "wr v s = Inr s1" "wr v' s1 = Inr s2"
    and "wr v' s = Inr s1'" "wr v s1' = Inr s2'"
  shows "rd k s2 = rd k s2'"
  using read_write [OF assms(1) assms(4), of k] read_write [OF assms(2) assms(5), of k]
    read_write [OF assms(2) assms(6), of k] read_write [OF assms(1) assms(7), of k] assms(3)
  by auto

end

text \<open>
  A store whose rows carry a version, with a conditional update (\<open>cas\<close>) that succeeds only on
  the version it was computed from. Of two updates computed from the same version at most one
  succeeds.
\<close>

locale versioned_store =
  fixes get :: "'s \<Rightarrow> 'k \<Rightarrow> 'v option"
    and inv :: "'s \<Rightarrow> bool"
    and key :: "'w \<Rightarrow> 'k"
    and ver :: "'v \<Rightarrow> int"
    and newver :: "'w \<Rightarrow> int"
    and merge :: "'w \<Rightarrow> 'v \<Rightarrow> 'v"
    and cas :: "'w \<Rightarrow> int \<Rightarrow> 's \<Rightarrow> 's \<times> bool"
  assumes ver_merge: "ver (merge w v) = newver w"
    and inv_cas: "inv s \<Longrightarrow> inv (fst (cas w n s))"
    and cas_hit: "inv s \<Longrightarrow> get s (key w) = Some v \<Longrightarrow> ver v = n \<Longrightarrow>
      snd (cas w n s) \<and> get (fst (cas w n s)) = (get s)(key w \<mapsto> merge w v)"
    and cas_miss: "inv s \<Longrightarrow> (\<And>v. get s (key w) = Some v \<Longrightarrow> ver v \<noteq> n) \<Longrightarrow>
      cas w n s = (s, False)"
begin

lemma cas_success:
  assumes "inv s" "cas w n s = (s', True)"
  obtains v where "get s (key w) = Some v" "ver v = n"
    "get s' = (get s)(key w \<mapsto> merge w v)"
proof -
  have "\<exists>v. get s (key w) = Some v \<and> ver v = n"
    using assms cas_miss [of s w n] by auto
  then obtain v where v: "get s (key w) = Some v" "ver v = n" by blast
  with cas_hit [OF assms(1) this] assms(2) that show ?thesis by simp
qed

lemma cas_failure:
  assumes "inv s" "cas w n s = (s', False)"
  shows "s' = s"
proof (cases "\<exists>v. get s (key w) = Some v \<and> ver v = n")
  case True
  with cas_hit [OF assms(1), of w _ n] assms(2) show ?thesis by auto
next
  case False
  with cas_miss [OF assms(1), of w n] assms(2) show ?thesis by auto
qed

lemma cas_exclusive:
  assumes "inv s" "cas w n s = (s', True)" "newver w \<noteq> n" "key w' = key w"
  shows "cas w' n s' = (s', False)"
proof -
  have "inv s'" using inv_cas [OF assms(1), of w n] assms(2) by simp
  then show ?thesis
  proof (rule cas_miss)
    fix v
    assume v: "get s' (key w') = Some v"
    from assms(1,2) obtain u where "get s' = (get s)(key w \<mapsto> merge w u)"
      by (rule cas_success)
    with v assms(4) have "v = merge w u" by simp
    with assms(3) show "ver v \<noteq> n" by (simp add: ver_merge)
  qed
qed

lemma cas_other_key:
  assumes "inv s" "cas w n s = (s', b)" "k \<noteq> key w"
  shows "get s' k = get s k"
proof (cases b)
  case True
  with assms(2) have "cas w n s = (s', True)" by simp
  with assms(1) obtain u where "get s' = (get s)(key w \<mapsto> merge w u)"
    by (rule cas_success)
  with assms(3) show ?thesis by simp
next
  case False
  with assms(2) have "cas w n s = (s', False)" by simp
  with assms(1) have "s' = s" by (rule cas_failure)
  then show ?thesis by simp
qed

end

end
