(* ===== verification/Model_Types.thy ===== *)
theory Model_Types
  imports BJ_Prelude
begin

text \<open>
  The string-typed enumerations and the error values of \<open>backend/model/types.go\<close> and
  \<open>backend/model/room_player.go\<close>. Each enumeration has one constructor per constant of the code
  and one for every other string the Go type can hold (a row of the database, a zero value);
  \<open>IsValid\<close> tells them apart. The conversions to and from strings are those the repository
  performs.
\<close>

subsection \<open>Errors\<close>

text \<open>
  The sentinel errors of the packages model, repository and usecase, which the code compares by
  identity; anonymous errors made by \<open>fmt.Errorf\<close>; a constraint violation reported by the
  database (with its SQLSTATE code); and any other failure of a call out of the program.
\<close>

datatype error =
    ErrInvalidStatus | ErrInvalidTransition | ErrInvalidVersion | ErrVersionConflict
  | ErrRoomFull | ErrInvalidSeat | ErrInvalidPlayerStatus | ErrInvalidDeck | ErrDeckExhausted
  | ErrNotPlayerTurn | ErrNotYourTurn | ErrCannotJoin | ErrForbiddenStart | ErrDuplicateAction
  | ErrNotFound | ErrAlreadyExists
  | ErrUnauthorizedUser | ErrInvalidGameState | ErrForbiddenAction
  | ErrUnauthorized | ErrInvalidInput | ErrUsernameTaken
  | Errorf string
  | PgError string
  | ExtError string

subsection \<open>Room status\<close>

datatype RoomStatus =
    RoomStatusWaiting | RoomStatusReady | RoomStatusPlaying | RoomStatusOther string

fun RoomStatus_IsValid :: "RoomStatus \<Rightarrow> bool" where
  "RoomStatus_IsValid RoomStatusWaiting = True"
| "RoomStatus_IsValid RoomStatusReady = True"
| "RoomStatus_IsValid RoomStatusPlaying = True"
| "RoomStatus_IsValid (RoomStatusOther _) = False"

fun RoomStatus_str :: "RoomStatus \<Rightarrow> string" where
  "RoomStatus_str RoomStatusWaiting = ''WAITING''"
| "RoomStatus_str RoomStatusReady = ''READY''"
| "RoomStatus_str RoomStatusPlaying = ''PLAYING''"
| "RoomStatus_str (RoomStatusOther s) = s"

definition RoomStatus_of :: "string \<Rightarrow> RoomStatus" where
  "RoomStatus_of s =
     (if s = ''WAITING'' then RoomStatusWaiting
      else if s = ''READY'' then RoomStatusReady
      else if s = ''PLAYING'' then RoomStatusPlaying
      else RoomStatusOther s)"

lemma RoomStatus_of_str: "RoomStatus_IsValid s \<Longrightarrow> RoomStatus_of (RoomStatus_str s) = s"
  by (cases s) (simp_all add: RoomStatus_of_def)

subsection \<open>Session status\<close>

datatype SessionStatus =
    SessionStatusDealing | SessionStatusPlayerTurn | SessionStatusDealerTurn
  | SessionStatusResult | SessionStatusResetting | SessionStatusOther string

fun SessionStatus_IsValid :: "SessionStatus \<Rightarrow> bool" where
  "SessionStatus_IsValid SessionStatusDealing = True"
| "SessionStatus_IsValid SessionStatusPlayerTurn = True"
| "SessionStatus_IsValid SessionStatusDealerTurn = True"
| "SessionStatus_IsValid SessionStatusResult = True"
| "SessionStatus_IsValid SessionStatusResetting = True"
| "SessionStatus_IsValid (SessionStatusOther _) = False"

fun SessionStatus_str :: "SessionStatus \<Rightarrow> string" where
  "SessionStatus_str SessionStatusDealing = ''DEALING''"
| "SessionStatus_str SessionStatusPlayerTurn = ''PLAYER_TURN''"
| "SessionStatus_str SessionStatusDealerTurn = ''DEALER_TURN''"
| "SessionStatus_str SessionStatusResult = ''RESULT''"
| "SessionStatus_str SessionStatusResetting = ''RESETTING''"
| "SessionStatus_str (SessionStatusOther s) = s"

definition SessionStatus_of :: "string \<Rightarrow> SessionStatus" where
  "SessionStatus_of s =
     (if s = ''DEALING'' then SessionStatusDealing
      else if s = ''PLAYER_TURN'' then SessionStatusPlayerTurn
      else if s = ''DEALER_TURN'' then SessionStatusDealerTurn
      else if s = ''RESULT'' then SessionStatusResult
      else if s = ''RESETTING'' then SessionStatusResetting
      else SessionStatusOther s)"

lemma SessionStatus_of_str:
  "SessionStatus_IsValid s \<Longrightarrow> SessionStatus_of (SessionStatus_str s) = s"
  by (cases s) (simp_all add: SessionStatus_of_def)

text \<open>
  The life cycle orders the statuses: a round goes DEALING, PLAYER_TURN, DEALER_TURN, RESULT,
  RESETTING. Unknown strings come last, among themselves in string order.
\<close>

fun stage :: "SessionStatus \<Rightarrow> nat" where
  "stage SessionStatusDealing = 0"
| "stage SessionStatusPlayerTurn = 1"
| "stage SessionStatusDealerTurn = 2"
| "stage SessionStatusResult = 3"
| "stage SessionStatusResetting = 4"
| "stage (SessionStatusOther _) = 5"

instantiation SessionStatus :: linorder
begin

definition less_eq_SessionStatus :: "SessionStatus \<Rightarrow> SessionStatus \<Rightarrow> bool" where
  "s \<le> t \<longleftrightarrow> stage s < stage t
     \<or> stage s = stage t \<and> SessionStatus_str s \<le> SessionStatus_str t"

definition less_SessionStatus :: "SessionStatus \<Rightarrow> SessionStatus \<Rightarrow> bool" where
  "s < t \<longleftrightarrow> stage s < stage t
     \<or> stage s = stage t \<and> SessionStatus_str s < SessionStatus_str t"

instance
proof
  fix s t u :: SessionStatus
  show "s < t \<longleftrightarrow> s \<le> t \<and> \<not> t \<le> s"
    by (auto simp: less_eq_SessionStatus_def less_SessionStatus_def)
  show "s \<le> s" by (simp add: less_eq_SessionStatus_def)
  show "s \<le> t \<Longrightarrow> t \<le> u \<Longrightarrow> s \<le> u"
    by (auto simp: less_eq_SessionStatus_def)
  show "s \<le> t \<Longrightarrow> t \<le> s \<Longrightarrow> s = t"
    by (cases s; cases t) (auto simp: less_eq_SessionStatus_def)
  show "s \<le> t \<or> t \<le> s"
    by (auto simp: less_eq_SessionStatus_def)
qed

end

lemma stage_mono: "s \<le> t \<Longrightarrow> stage s \<le> stage t"
  by (auto simp: less_eq_SessionStatus_def)

subsection \<open>Player status\<close>

datatype PlayerStatus =
    PlayerStatusActive | PlayerStatusStand | PlayerStatusBust | PlayerStatusBlackjack
  | PlayerStatusDisconnected | PlayerStatusLeft | PlayerStatusOther string

fun PlayerStatus_IsValid :: "PlayerStatus \<Rightarrow> bool" where
  "PlayerStatus_IsValid PlayerStatusActive = True"
| "PlayerStatus_IsValid PlayerStatusStand = True"
| "PlayerStatus_IsValid PlayerStatusBust = True"
| "PlayerStatus_IsValid PlayerStatusBlackjack = True"
| "PlayerStatus_IsValid PlayerStatusDisconnected = True"
| "PlayerStatus_IsValid PlayerStatusLeft = True"
| "PlayerStatus_IsValid (PlayerStatusOther _) = False"

fun PlayerStatus_str :: "PlayerStatus \<Rightarrow> string" where
  "PlayerStatus_str PlayerStatusActive = ''ACTIVE''"
| "PlayerStatus_str PlayerStatusStand = ''STAND''"
| "PlayerStatus_str PlayerStatusBust = ''BUST''"
| "PlayerStatus_str PlayerStatusBlackjack = ''BLACKJACK''"
| "PlayerStatus_str PlayerStatusDisconnected = ''DISCONNECTED''"
| "PlayerStatus_str PlayerStatusLeft = ''LEFT''"
| "PlayerStatus_str (PlayerStatusOther s) = s"

definition PlayerStatus_of :: "string \<Rightarrow> PlayerStatus" where
  "PlayerStatus_of s =
     (if s = ''ACTIVE'' then PlayerStatusActive
      else if s = ''STAND'' then PlayerStatusStand
      else if s = ''BUST'' then PlayerStatusBust
      else if s = ''BLACKJACK'' then PlayerStatusBlackjack
      else if s = ''DISCONNECTED'' then PlayerStatusDisconnected
      else if s = ''LEFT'' then PlayerStatusLeft
      else PlayerStatusOther s)"

lemma PlayerStatus_of_str:
  "PlayerStatus_IsValid s \<Longrightarrow> PlayerStatus_of (PlayerStatus_str s) = s"
  by (cases s) (simp_all add: PlayerStatus_of_def)

subsection \<open>Outcome\<close>

datatype Outcome = OutcomeWin | OutcomeLose | OutcomePush | OutcomeBust | OutcomeOther string

fun Outcome_IsValid :: "Outcome \<Rightarrow> bool" where
  "Outcome_IsValid OutcomeWin = True"
| "Outcome_IsValid OutcomeLose = True"
| "Outcome_IsValid OutcomePush = True"
| "Outcome_IsValid OutcomeBust = True"
| "Outcome_IsValid (OutcomeOther _) = False"

fun Outcome_str :: "Outcome \<Rightarrow> string" where
  "Outcome_str OutcomeWin = ''WIN''"
| "Outcome_str OutcomeLose = ''LOSE''"
| "Outcome_str OutcomePush = ''PUSH''"
| "Outcome_str OutcomeBust = ''BUST''"
| "Outcome_str (OutcomeOther s) = s"

definition Outcome_of :: "string \<Rightarrow> Outcome" where
  "Outcome_of s =
     (if s = ''WIN'' then OutcomeWin
      else if s = ''LOSE'' then OutcomeLose
      else if s = ''PUSH'' then OutcomePush
      else if s = ''BUST'' then OutcomeBust
      else OutcomeOther s)"

lemma Outcome_of_str: "Outcome_IsValid s \<Longrightarrow> Outcome_of (Outcome_str s) = s"
  by (cases s) (simp_all add: Outcome_of_def)

subsection \<open>Actor type\<close>

datatype ActorType = ActorTypeUser | ActorTypeSystem | ActorTypeOther string

fun ActorType_IsValid :: "ActorType \<Rightarrow> bool" where
  "ActorType_IsValid a = (a = ActorTypeUser \<or> a = ActorTypeSystem)"

fun ActorType_str :: "ActorType \<Rightarrow> string" where
  "ActorType_str ActorTypeUser = ''USER''"
| "ActorType_str ActorTypeSystem = ''SYSTEM''"
| "ActorType_str (ActorTypeOther s) = s"

definition ActorType_of :: "string \<Rightarrow> ActorType" where
  "ActorType_of s =
     (if s = ''USER'' then ActorTypeUser
      else if s = ''SYSTEM'' then ActorTypeSystem
      else ActorTypeOther s)"

lemma ActorType_of_str: "ActorType_IsValid s \<Longrightarrow> ActorType_of (ActorType_str s) = s"
  by (cases s) (simp_all add: ActorType_of_def)

subsection \<open>Room player status\<close>

datatype RoomPlayerStatus =
    RoomPlayerActive | RoomPlayerDisconnected | RoomPlayerLeft | RoomPlayerOther string

fun RoomPlayerStatus_IsValid :: "RoomPlayerStatus \<Rightarrow> bool" where
  "RoomPlayerStatus_IsValid RoomPlayerActive = True"
| "RoomPlayerStatus_IsValid RoomPlayerDisconnected = True"
| "RoomPlayerStatus_IsValid RoomPlayerLeft = True"
| "RoomPlayerStatus_IsValid (RoomPlayerOther _) = False"

fun RoomPlayerStatus_str :: "RoomPlayerStatus \<Rightarrow> string" where
  "RoomPlayerStatus_str RoomPlayerActive = ''ACTIVE''"
| "RoomPlayerStatus_str RoomPlayerDisconnected = ''DISCONNECTED''"
| "RoomPlayerStatus_str RoomPlayerLeft = ''LEFT''"
| "RoomPlayerStatus_str (RoomPlayerOther s) = s"

definition RoomPlayerStatus_of :: "string \<Rightarrow> RoomPlayerStatus" where
  "RoomPlayerStatus_of s =
     (if s = ''ACTIVE'' then RoomPlayerActive
      else if s = ''DISCONNECTED'' then RoomPlayerDisconnected
      else if s = ''LEFT'' then RoomPlayerLeft
      else RoomPlayerOther s)"

lemma RoomPlayerStatus_of_str:
  "RoomPlayerStatus_IsValid s \<Longrightarrow> RoomPlayerStatus_of (RoomPlayerStatus_str s) = s"
  by (cases s) (simp_all add: RoomPlayerStatus_of_def)

text \<open>The round trips of all the enumerations through their string form.\<close>

lemmas enum_roundtrips =
  RoomStatus_of_str SessionStatus_of_str PlayerStatus_of_str Outcome_of_str ActorType_of_str
  RoomPlayerStatus_of_str

end
