(* ===== verification/Entities.thy ===== *)
theory Entities
  imports Model_Types
begin

text \<open>
  The domain objects of \<open>backend/model\<close> (entities.go, deck.go, room_player.go, room_rules.go,
  player_rules.go, rematch.go, round_log.go, auth.go) as records, and their methods. A method
  with a pointer receiver returns the new receiver; a method that can fail returns a sum, with
  the error on the left and no receiver, because every error leaves the receiver unchanged.
  A pointer that may be \<open>nil\<close> is an option. \<open>time.Now()\<close> in a constructor is the
  argument \<open>clock\<close>.
\<close>

subsection \<open>Cards\<close>

record StoredCard =
  card_Rank :: string
  card_Suit :: string

subsection \<open>Rooms\<close>

record Room =
  room_ID :: string
  room_HostUserID :: string
  room_Status :: RoomStatus
  room_CurrentSessionID :: "string option"
  room_CreatedAt :: time
  room_UpdatedAt :: time

definition NewRoom :: "time \<Rightarrow> string \<Rightarrow> string \<Rightarrow> time \<Rightarrow> error + Room" where
  "NewRoom clock i hostUserID at =
     (if i = '''' \<or> hostUserID = '''' then Inl (Errorf ''room id and host user id are required'')
      else
        let at' = (if IsZero at then clock else at) in
        Inr \<lparr>room_ID = i, room_HostUserID = hostUserID, room_Status = RoomStatusWaiting,
             room_CurrentSessionID = None, room_CreatedAt = at', room_UpdatedAt = at'\<rparr>)"

definition Room_Touch :: "time \<Rightarrow> Room \<Rightarrow> Room" where
  "Room_Touch at r = (if \<not> IsZero at then r\<lparr>room_UpdatedAt := at\<rparr> else r)"

definition RecalculateStatus :: "Room \<Rightarrow> int \<Rightarrow> bool \<Rightarrow> error + Room" where
  "RecalculateStatus r activeHumanPlayers hasActiveSession =
     (if activeHumanPlayers < 0 then Inl (Errorf ''activeHumanPlayers must be >= 0'')
      else if activeHumanPlayers > 1 then Inl ErrRoomFull
      else if hasActiveSession then Inr (r\<lparr>room_Status := RoomStatusPlaying\<rparr>)
      else if activeHumanPlayers = 1 then Inr (r\<lparr>room_Status := RoomStatusReady\<rparr>)
      else Inr (r\<lparr>room_Status := RoomStatusWaiting\<rparr>))"

definition CanJoinAsHumanPlayer :: "RoomStatus \<Rightarrow> bool" where
  "CanJoinAsHumanPlayer roomStatus \<longleftrightarrow> roomStatus = RoomStatusWaiting \<or> roomStatus = RoomStatusReady"

definition AssertHostCanStart :: "Room option \<Rightarrow> string \<Rightarrow> bool \<Rightarrow> error option" where
  "AssertHostCanStart room actorUserID hasOngoingSession =
     (case room of
        None \<Rightarrow> Some ErrInvalidStatus
      | Some r \<Rightarrow>
          if room_HostUserID r \<noteq> actorUserID then Some ErrForbiddenStart
          else if room_Status r \<noteq> RoomStatusReady then Some ErrForbiddenStart
          else if hasOngoingSession then Some ErrForbiddenStart
          else None)"

subsection \<open>Game sessions\<close>

record GameSession =
  sess_ID :: string
  sess_RoomID :: string
  sess_RoundNo :: int
  sess_Status :: SessionStatus
  sess_Version :: int
  sess_TurnSeat :: int
  sess_Deck :: "StoredCard list"
  sess_DrawIndex :: int
  sess_TurnDeadlineAt :: "time option"
  sess_ResultSnapshot :: "string option"
  sess_RematchDeadlineAt :: "time option"
  sess_CreatedAt :: time
  sess_UpdatedAt :: time

definition NewGameSession :: "time \<Rightarrow> string \<Rightarrow> string \<Rightarrow> int \<Rightarrow> time \<Rightarrow> error + GameSession" where
  "NewGameSession clock i roomID roundNo at =
     (if i = '''' \<or> roomID = '''' then Inl (Errorf ''session id and room id are required'')
      else if roundNo \<le> 0 then Inl (Errorf ''roundNo must be > 0'')
      else
        let at' = (if IsZero at then clock else at) in
        Inr \<lparr>sess_ID = i, sess_RoomID = roomID, sess_RoundNo = roundNo,
             sess_Status = SessionStatusDealing, sess_Version = 1, sess_TurnSeat = 1,
             sess_Deck = [], sess_DrawIndex = 0, sess_TurnDeadlineAt = None,
             sess_ResultSnapshot = None, sess_RematchDeadlineAt = None,
             sess_CreatedAt = at', sess_UpdatedAt = at'\<rparr>)"

definition Session_Touch :: "time \<Rightarrow> GameSession \<Rightarrow> GameSession" where
  "Session_Touch at s = (if \<not> IsZero at then s\<lparr>sess_UpdatedAt := at\<rparr> else s)"

definition SetTurnDeadline :: "time option \<Rightarrow> GameSession \<Rightarrow> GameSession" where
  "SetTurnDeadline at s = s\<lparr>sess_TurnDeadlineAt := at\<rparr>"

definition CheckVersion :: "GameSession \<Rightarrow> int \<Rightarrow> error option" where
  "CheckVersion s expected =
     (if expected \<le> 0 then Some ErrInvalidVersion
      else if expected \<noteq> sess_Version s then Some ErrVersionConflict
      else None)"

definition IncrementVersion :: "GameSession \<Rightarrow> GameSession" where
  "IncrementVersion s = s\<lparr>sess_Version := wrap64 (sess_Version s + 1)\<rparr>"

definition TransitionTo :: "GameSession \<Rightarrow> SessionStatus \<Rightarrow> error + GameSession" where
  "TransitionTo s nxt =
     (if \<not> SessionStatus_IsValid nxt then Inl ErrInvalidStatus
      else
        let ok = Inr (s\<lparr>sess_Status := nxt\<rparr>) in
        case sess_Status s of
          SessionStatusDealing \<Rightarrow>
            if nxt \<noteq> SessionStatusPlayerTurn then Inl ErrInvalidTransition else ok
        | SessionStatusPlayerTurn \<Rightarrow>
            if nxt \<noteq> SessionStatusDealerTurn then Inl ErrInvalidTransition else ok
        | SessionStatusDealerTurn \<Rightarrow>
            if nxt \<noteq> SessionStatusResult then Inl ErrInvalidTransition else ok
        | SessionStatusResult \<Rightarrow>
            if nxt \<noteq> SessionStatusResetting then Inl ErrInvalidTransition else ok
        | SessionStatusResetting \<Rightarrow> Inl ErrInvalidTransition
        | SessionStatusOther _ \<Rightarrow> Inl ErrInvalidStatus)"

subsection \<open>The deck of a session\<close>

definition SetDeck :: "StoredCard list \<Rightarrow> GameSession \<Rightarrow> GameSession" where
  "SetDeck cards s = s\<lparr>sess_Deck := cards, sess_DrawIndex := 0\<rparr>"

definition DrawCard :: "GameSession \<Rightarrow> error + (StoredCard \<times> GameSession)" where
  "DrawCard s =
     (if sess_DrawIndex s < 0 \<or> sess_DrawIndex s > int (length (sess_Deck s))
      then Inl ErrInvalidDeck
      else if sess_DrawIndex s \<ge> int (length (sess_Deck s)) then Inl ErrDeckExhausted
      else Inr (sess_Deck s ! nat (sess_DrawIndex s),
                s\<lparr>sess_DrawIndex := sess_DrawIndex s + 1\<rparr>))"

definition RemainingDeckCards :: "GameSession \<Rightarrow> int" where
  "RemainingDeckCards s =
     (if sess_DrawIndex s < 0 \<or> sess_DrawIndex s > int (length (sess_Deck s)) then 0
      else int (length (sess_Deck s)) - sess_DrawIndex s)"

subsection \<open>Rematch deadline and unanimity\<close>

definition DefaultRematchDeadline :: int where "DefaultRematchDeadline = 30 * Second"

definition SetRematchDeadline :: "time \<Rightarrow> GameSession \<Rightarrow> GameSession" where
  "SetRematchDeadline now s =
     (if IsZero now then s\<lparr>sess_RematchDeadlineAt := None\<rparr>
      else s\<lparr>sess_RematchDeadlineAt := Some (now + DefaultRematchDeadline)\<rparr>)"

text \<open>A map read of a missing key gives the zero value, false.\<close>

definition agreed :: "(string \<rightharpoonup> bool) \<Rightarrow> string \<Rightarrow> bool" where
  "agreed m uid = (case m uid of None \<Rightarrow> False | Some v \<Rightarrow> v)"

definition RematchUnanimous :: "string list \<Rightarrow> (string \<rightharpoonup> bool) \<Rightarrow> bool" where
  "RematchUnanimous eligibleUserIDs agreeByUserID =
     (if eligibleUserIDs = [] then False
      else list_all (agreed agreeByUserID) eligibleUserIDs)"

subsection \<open>Player and dealer states\<close>

record PlayerState =
  ps_SessionID :: string
  ps_UserID :: string
  ps_SeatNo :: int
  ps_Hand :: "StoredCard list"
  ps_Status :: PlayerStatus
  ps_Outcome :: "Outcome option"
  ps_FinalScore :: "int option"

definition NewPlayerState :: "string \<Rightarrow> string \<Rightarrow> int \<Rightarrow> error + PlayerState" where
  "NewPlayerState sessionID userID seatNo =
     (if sessionID = '''' \<or> userID = ''''
      then Inl (Errorf ''session id and user id are required'')
      else if seatNo \<noteq> 1 then Inl ErrInvalidSeat
      else Inr \<lparr>ps_SessionID = sessionID, ps_UserID = userID, ps_SeatNo = seatNo,
                ps_Hand = [], ps_Status = PlayerStatusActive, ps_Outcome = None,
                ps_FinalScore = None\<rparr>)"

definition PlayerState_AppendCard :: "StoredCard \<Rightarrow> PlayerState \<Rightarrow> PlayerState" where
  "PlayerState_AppendCard c p = p\<lparr>ps_Hand := ps_Hand p @ [c]\<rparr>"

definition PlayerState_SetStatus :: "PlayerState \<Rightarrow> PlayerStatus \<Rightarrow> error + PlayerState" where
  "PlayerState_SetStatus p nxt =
     (if \<not> PlayerStatus_IsValid nxt then Inl ErrInvalidPlayerStatus
      else Inr (p\<lparr>ps_Status := nxt\<rparr>))"

definition CanAct :: "PlayerState \<Rightarrow> bool" where
  "CanAct p \<longleftrightarrow> ps_Status p = PlayerStatusActive"

definition SetOutcome :: "PlayerState \<Rightarrow> int \<Rightarrow> Outcome \<Rightarrow> error + PlayerState" where
  "SetOutcome p score oc =
     (if \<not> Outcome_IsValid oc then Inl ErrInvalidStatus
      else Inr (p\<lparr>ps_Outcome := Some oc, ps_FinalScore := Some score\<rparr>))"

definition AssertCanHitOrStand ::
    "PlayerState \<Rightarrow> GameSession option \<Rightarrow> string \<Rightarrow> error option" where
  "AssertCanHitOrStand p sess actorUserID =
     (case sess of
        None \<Rightarrow> Some ErrInvalidStatus
      | Some s \<Rightarrow>
          if sess_Status s \<noteq> SessionStatusPlayerTurn then Some ErrNotPlayerTurn
          else if sess_TurnSeat s \<noteq> ps_SeatNo p then Some ErrNotYourTurn
          else if ps_UserID p \<noteq> actorUserID then Some ErrNotYourTurn
          else if \<not> CanAct p then Some ErrInvalidPlayerStatus
          else None)"

record DealerState =
  ds_SessionID :: string
  ds_Hand :: "StoredCard list"
  ds_HoleHidden :: bool
  ds_FinalScore :: "int option"

definition NewDealerState :: "string \<Rightarrow> error + DealerState" where
  "NewDealerState sessionID =
     (if sessionID = '''' then Inl (Errorf ''session id is required'')
      else Inr \<lparr>ds_SessionID = sessionID, ds_Hand = [], ds_HoleHidden = True,
                ds_FinalScore = None\<rparr>)"

definition DealerState_AppendCard :: "StoredCard \<Rightarrow> DealerState \<Rightarrow> DealerState" where
  "DealerState_AppendCard c d = d\<lparr>ds_Hand := ds_Hand d @ [c]\<rparr>"

definition RevealHole :: "DealerState \<Rightarrow> DealerState" where
  "RevealHole d = d\<lparr>ds_HoleHidden := False\<rparr>"

definition SetFinalScore :: "int \<Rightarrow> DealerState \<Rightarrow> DealerState" where
  "SetFinalScore v d = d\<lparr>ds_FinalScore := Some v\<rparr>"

subsection \<open>Logs and votes\<close>

record ActionLog =
  al_SessionID :: string
  al_ActorType :: ActorType
  al_ActorUserID :: string
  al_TargetUserID :: string
  al_ActionID :: string
  al_RequestType :: string
  al_RequestPayloadHash :: string
  al_ResponseSnapshot :: string

definition ActionLog_Validate :: "ActionLog \<Rightarrow> error option" where
  "ActionLog_Validate a =
     (if al_SessionID a = '''' \<or> al_ActionID a = '''' \<or> al_RequestType a = ''''
         \<or> al_RequestPayloadHash a = ''''
      then Some (Errorf ''missing required action log fields'')
      else if \<not> ActorType_IsValid (al_ActorType a) then Some (Errorf ''invalid actor type'')
      else if al_ActorType a = ActorTypeUser \<and> al_ActorUserID a = ''''
      then Some (Errorf ''actor user id is required for USER actor'')
      else None)"

record RematchVote =
  rv_SessionID :: string
  rv_UserID :: string
  rv_Agree :: bool

definition RematchVote_Validate :: "RematchVote \<Rightarrow> error option" where
  "RematchVote_Validate v =
     (if rv_SessionID v = '''' \<or> rv_UserID v = ''''
      then Some (Errorf ''session id and user id are required'') else None)"

record RoundLog =
  rl_ID :: string
  rl_SessionID :: string
  rl_RoundNo :: int
  rl_ResultPayload :: string
  rl_CreatedAt :: time

definition RoundLog_Validate :: "RoundLog \<Rightarrow> error option" where
  "RoundLog_Validate r =
     (if rl_SessionID r = '''' \<or> rl_RoundNo r \<le> 0 \<or> rl_ResultPayload r = ''''
      then Some (Errorf ''invalid round log'') else None)"

subsection \<open>Room players\<close>

record RoomPlayer =
  rp_RoomID :: string
  rp_UserID :: string
  rp_SeatNo :: int
  rp_Status :: RoomPlayerStatus
  rp_JoinedAt :: time
  rp_LeftAt :: "time option"

definition NewRoomPlayer :: "string \<Rightarrow> string \<Rightarrow> int \<Rightarrow> time \<Rightarrow> error + RoomPlayer" where
  "NewRoomPlayer roomID userID seatNo joinedAt =
     (if roomID = '''' \<or> userID = '''' then Inl (Errorf ''room id and user id are required'')
      else if seatNo \<noteq> 1 then Inl ErrInvalidSeat
      else if IsZero joinedAt then Inl (Errorf ''joinedAt is required'')
      else Inr \<lparr>rp_RoomID = roomID, rp_UserID = userID, rp_SeatNo = seatNo,
                rp_Status = RoomPlayerActive, rp_JoinedAt = joinedAt, rp_LeftAt = None\<rparr>)"

definition RoomPlayer_SetStatus :: "RoomPlayer \<Rightarrow> RoomPlayerStatus \<Rightarrow> error + RoomPlayer" where
  "RoomPlayer_SetStatus p nxt =
     (if \<not> RoomPlayerStatus_IsValid nxt then Inl ErrInvalidStatus
      else Inr (p\<lparr>rp_Status := nxt\<rparr>))"

definition MarkLeft :: "time \<Rightarrow> RoomPlayer \<Rightarrow> RoomPlayer" where
  "MarkLeft at p = p\<lparr>rp_Status := RoomPlayerLeft, rp_LeftAt := Some at\<rparr>"

subsection \<open>Users and authentication sessions\<close>

record User =
  user_ID :: string
  user_Username :: string
  user_PasswordHash :: string
  user_CreatedAt :: time
  user_UpdatedAt :: time

record AuthSession =
  as_ID :: string
  as_UserID :: string
  as_ExpiresAt :: time
  as_CreatedAt :: time


subsection \<open>Facts about the session\<close>

text \<open>A transition is a step to the next stage of the life cycle, and changes nothing else.\<close>

lemma TransitionTo_iff:
  "TransitionTo s nxt = Inr s' \<longleftrightarrow>
     SessionStatus_IsValid nxt \<and> stage nxt = Suc (stage (sess_Status s)) \<and> s' = s\<lparr>sess_Status := nxt\<rparr>"
  by (cases "sess_Status s"; cases nxt) (auto simp: TransitionTo_def Let_def)

lemma TransitionTo_steps [simp]:
  "sess_Status s = SessionStatusDealing \<Longrightarrow>
     TransitionTo s SessionStatusPlayerTurn = Inr (s\<lparr>sess_Status := SessionStatusPlayerTurn\<rparr>)"
  "sess_Status s = SessionStatusPlayerTurn \<Longrightarrow>
     TransitionTo s SessionStatusDealerTurn = Inr (s\<lparr>sess_Status := SessionStatusDealerTurn\<rparr>)"
  "sess_Status s = SessionStatusDealerTurn \<Longrightarrow>
     TransitionTo s SessionStatusResult = Inr (s\<lparr>sess_Status := SessionStatusResult\<rparr>)"
  "sess_Status s = SessionStatusResult \<Longrightarrow>
     TransitionTo s SessionStatusResetting = Inr (s\<lparr>sess_Status := SessionStatusResetting\<rparr>)"
  by (simp_all add: TransitionTo_iff)

fun transitions :: "GameSession \<Rightarrow> SessionStatus list \<Rightarrow> error + GameSession" where
  "transitions s [] = Inr s"
| "transitions s (n # ns) = bindE (TransitionTo s n) (\<lambda>s. transitions s ns)"

lemma transitions_stages:
  "transitions s ns = Inr s' \<Longrightarrow>
     map stage ns = [Suc (stage (sess_Status s))..<Suc (stage (sess_Status s) + length ns)]
     \<and> list_all SessionStatus_IsValid ns
     \<and> s' = s\<lparr>sess_Status := last (sess_Status s # ns)\<rparr>"
proof (induction ns arbitrary: s)
  case (Cons n ns)
  from Cons.prems obtain s1 where t: "TransitionTo s n = Inr s1" and r: "transitions s1 ns = Inr s'"
    by (auto simp: prog_elims)
  from t have s1: "s1 = s\<lparr>sess_Status := n\<rparr>" and n: "stage n = Suc (stage (sess_Status s))"
    "SessionStatus_IsValid n" by (auto simp: TransitionTo_iff)
  from Cons.IH [OF r] s1 n show ?case by (auto simp: upt_conv_Cons)
qed simp

lemma DrawCard_iff:
  "DrawCard s = Inr (c, s') \<longleftrightarrow>
     0 \<le> sess_DrawIndex s \<and> sess_DrawIndex s < int (length (sess_Deck s))
     \<and> c = sess_Deck s ! nat (sess_DrawIndex s)
     \<and> s' = s\<lparr>sess_DrawIndex := sess_DrawIndex s + 1\<rparr>"
  by (auto simp: DrawCard_def)

text \<open>Drawing one card after the other.\<close>

fun draws :: "nat \<Rightarrow> GameSession \<Rightarrow> error + (StoredCard list \<times> GameSession)" where
  "draws 0 s = Inr ([], s)"
| "draws (Suc n) s =
     bindE (DrawCard s) (\<lambda>(c, s). bindE (draws n s) (\<lambda>(cs, s). Inr (c # cs, s)))"

lemma draws_result:
  assumes "0 \<le> sess_DrawIndex s" "sess_DrawIndex s + int n \<le> int (length (sess_Deck s))"
  shows "draws n s = Inr (take n (drop (nat (sess_DrawIndex s)) (sess_Deck s)),
           s\<lparr>sess_DrawIndex := sess_DrawIndex s + int n\<rparr>)"
  using assms
proof (induction n arbitrary: s)
  case (Suc n)
  let ?i = "nat (sess_DrawIndex s)"
  let ?s = "s\<lparr>sess_DrawIndex := sess_DrawIndex s + 1\<rparr>"
  have i: "?i < length (sess_Deck s)" using Suc.prems by simp
  have "DrawCard s = Inr (sess_Deck s ! ?i, ?s)" using Suc.prems by (simp add: DrawCard_iff)
  moreover have "draws n ?s = Inr (take n (drop (Suc ?i) (sess_Deck s)),
      ?s\<lparr>sess_DrawIndex := sess_DrawIndex s + 1 + int n\<rparr>)"
    using Suc.IH [of ?s] Suc.prems by (simp add: nat_add_distrib)
  ultimately show ?case using i by (simp add: Cons_nth_drop_Suc [symmetric] algebra_simps)
qed simp

lemma draws_exhausted:
  assumes "0 \<le> sess_DrawIndex s" "sess_DrawIndex s \<le> int (length (sess_Deck s))"
    and "sess_DrawIndex s + int n > int (length (sess_Deck s))"
  shows "draws n s = Inl ErrDeckExhausted"
  using assms
proof (induction n arbitrary: s)
  case (Suc n)
  show ?case
  proof (cases "sess_DrawIndex s = int (length (sess_Deck s))")
    case True
    with Suc.prems show ?thesis by (simp add: DrawCard_def)
  next
    case False
    let ?s = "s\<lparr>sess_DrawIndex := sess_DrawIndex s + 1\<rparr>"
    have "DrawCard s = Inr (sess_Deck s ! nat (sess_DrawIndex s), ?s)"
      using False Suc.prems by (simp add: DrawCard_iff)
    moreover have "draws n ?s = Inl ErrDeckExhausted"
      using False Suc.prems by (intro Suc.IH) auto
    ultimately show ?thesis by simp
  qed
qed simp

lemma RecalculateStatus_Inr:
  "RecalculateStatus r n b = Inr r' \<longleftrightarrow> (n = 0 \<or> n = 1) \<and>
     r' = r\<lparr>room_Status := (if b then RoomStatusPlaying
       else if n = 1 then RoomStatusReady else RoomStatusWaiting)\<rparr>"
  by (auto simp: RecalculateStatus_def)

lemma PlayerState_SetStatus_Inr [simp]:
  "PlayerState_SetStatus p st = Inr p' \<longleftrightarrow> PlayerStatus_IsValid st \<and> p' = p\<lparr>ps_Status := st\<rparr>"
  by (auto simp: PlayerState_SetStatus_def)

lemma SetOutcome_Inr [simp]:
  "SetOutcome p v oc = Inr p' \<longleftrightarrow>
     Outcome_IsValid oc \<and> p' = p\<lparr>ps_Outcome := Some oc, ps_FinalScore := Some v\<rparr>"
  by (auto simp: SetOutcome_def)

subsection \<open>Properties\<close>

theorem session_lifecycle:
  assumes "transitions s ns = Inr s'"
  shows "map stage ns = [Suc (stage (sess_Status s))..<Suc (stage (sess_Status s) + length ns)]
     \<and> list_all SessionStatus_IsValid ns \<and> length ns \<le> 4 - stage (sess_Status s)
     \<and> s' = s\<lparr>sess_Status := last (sess_Status s # ns)\<rparr>"
proof -
  note t = transitions_stages [OF assms]
  have "length ns \<le> 4 - stage (sess_Status s)"
  proof (cases ns rule: rev_cases)
    case (snoc ms n)
    have "stage n = stage (sess_Status s) + length ns" "SessionStatus_IsValid n"
      using t snoc by (auto simp: upt_Suc_append)
    then show ?thesis by (cases n) auto
  qed simp
  with t show ?thesis by simp
qed

definition two_card_session :: GameSession where
  "two_card_session = \<lparr>sess_ID = ''s'', sess_RoomID = ''r'', sess_RoundNo = 1,
     sess_Status = SessionStatusDealing, sess_Version = 1, sess_TurnSeat = 1,
     sess_Deck = [\<lparr>card_Rank = ''A'', card_Suit = ''S''\<rparr>, \<lparr>card_Rank = ''K'', card_Suit = ''H''\<rparr>],
     sess_DrawIndex = 0, sess_TurnDeadlineAt = None, sess_ResultSnapshot = None,
     sess_RematchDeadlineAt = None, sess_CreatedAt = 1, sess_UpdatedAt = 1\<rparr>"

theorem session_lifecycle_witness:
  "transitions two_card_session [SessionStatusPlayerTurn, SessionStatusDealerTurn, SessionStatusResult,
       SessionStatusResetting] = Inr (two_card_session\<lparr>sess_Status := SessionStatusResetting\<rparr>)
   \<and> map stage [SessionStatusPlayerTurn, SessionStatusDealerTurn, SessionStatusResult,
       SessionStatusResetting] = [1..<5]"
proof -
  have run: "transitions two_card_session [SessionStatusPlayerTurn, SessionStatusDealerTurn,
      SessionStatusResult, SessionStatusResetting] = Inr (two_card_session\<lparr>sess_Status := SessionStatusResetting\<rparr>)"
    by (simp add: two_card_session_def)
  from session_lifecycle [OF run] run show ?thesis by (simp add: two_card_session_def eval_nat_numeral)
qed

theorem draw_order:
  assumes "0 \<le> sess_DrawIndex s" "sess_DrawIndex s \<le> int (length (sess_Deck s))"
  shows "draws n s =
    (if int n \<le> RemainingDeckCards s
     then Inr (take n (drop (nat (sess_DrawIndex s)) (sess_Deck s)),
            s\<lparr>sess_DrawIndex := sess_DrawIndex s + int n\<rparr>)
     else Inl ErrDeckExhausted)"
  using assms draws_result [of s n] draws_exhausted [of s n] by (simp add: RemainingDeckCards_def)

theorem draw_order_witness:
  "draws 2 two_card_session = Inr (sess_Deck two_card_session, two_card_session\<lparr>sess_DrawIndex := 2\<rparr>)
   \<and> draws 3 two_card_session = Inl ErrDeckExhausted"
proof -
  have h: "0 \<le> sess_DrawIndex two_card_session"
    "sess_DrawIndex two_card_session \<le> int (length (sess_Deck two_card_session))"
    by (simp_all add: two_card_session_def)
  show ?thesis
    using draw_order [OF h, of 2] draw_order [OF h, of 3]
    by (simp add: RemainingDeckCards_def) (simp add: two_card_session_def)
qed

theorem stale_version_conflicts:
  "CheckVersion (IncrementVersion s) (sess_Version s) =
     (if sess_Version s \<le> 0 then Some ErrInvalidVersion else Some ErrVersionConflict)"
  using wrap64_Suc_neq [of "sess_Version s"] by (auto simp: CheckVersion_def IncrementVersion_def)

end
