(* ===== verification/Row_Mapping.thy ===== *)
theory Row_Mapping
  imports Entities
begin

text \<open>
  The rows of the database and their translation from and to the domain objects:
  \<open>backend/repository/game_repository_schema.go\<close> and \<open>game_repository_map.go\<close>. A \<open>jsonb\<close>
  column that holds cards is a JSON value (\<open>None\<close> for the empty byte slice); the columns with
  audit texts, which the program never parses, are strings. The mappings are applied to objects
  the callers hold, so their \<open>nil\<close> cases have no counterpart. The test hook of
  \<open>marshalStoredCards\<close> is unset, as in production.
\<close>

subsection \<open>JSON values of card lists\<close>

datatype json =
    JNull | JBool bool | JNum int | JStr string | JArr "json list" | JObj "(string \<times> json) list"

definition marshalStoredCards :: "StoredCard list \<Rightarrow> json" where
  "marshalStoredCards cs =
     JArr (map (\<lambda>c. JObj [(''Rank'', JStr (card_Rank c)), (''Suit'', JStr (card_Suit c))]) cs)"

text \<open>
  \<open>json.Unmarshal\<close> into a slice of \<open>StoredCard\<close>: \<open>null\<close> leaves a value as it is, an object's
  member goes to the field of its name (compared without case), other members are ignored, and
  a value of another type is an error.
\<close>

definition lower_char :: "char \<Rightarrow> char" where
  "lower_char c =
     (if CHR ''A'' \<le> c \<and> c \<le> CHR ''Z'' then char_of ((of_char c :: nat) + 32) else c)"

definition names_field :: "string \<Rightarrow> string \<Rightarrow> bool" where
  "names_field k f \<longleftrightarrow> map lower_char k = map lower_char f"

fun set_member :: "StoredCard \<Rightarrow> string \<times> json \<Rightarrow> error + StoredCard" where
  "set_member c (k, v) =
     (if names_field k ''Rank'' then
        (case v of JStr s \<Rightarrow> Inr (c\<lparr>card_Rank := s\<rparr>) | JNull \<Rightarrow> Inr c
         | _ \<Rightarrow> Inl (ExtError ''json: cannot unmarshal''))
      else if names_field k ''Suit'' then
        (case v of JStr s \<Rightarrow> Inr (c\<lparr>card_Suit := s\<rparr>) | JNull \<Rightarrow> Inr c
         | _ \<Rightarrow> Inl (ExtError ''json: cannot unmarshal''))
      else Inr c)"

fun set_members :: "StoredCard \<Rightarrow> (string \<times> json) list \<Rightarrow> error + StoredCard" where
  "set_members c [] = Inr c"
| "set_members c (m # ms) =
     (case set_member c m of Inl e \<Rightarrow> Inl e | Inr c' \<Rightarrow> set_members c' ms)"

definition unmarshal_card :: "json \<Rightarrow> error + StoredCard" where
  "unmarshal_card v =
     (case v of
        JNull \<Rightarrow> Inr \<lparr>card_Rank = '''', card_Suit = ''''\<rparr>
      | JObj ms \<Rightarrow> set_members \<lparr>card_Rank = '''', card_Suit = ''''\<rparr> ms
      | _ \<Rightarrow> Inl (ExtError ''json: cannot unmarshal''))"

fun unmarshal_cards :: "json list \<Rightarrow> error + StoredCard list" where
  "unmarshal_cards [] = Inr []"
| "unmarshal_cards (v # vs) =
     (case unmarshal_card v of
        Inl e \<Rightarrow> Inl e
      | Inr c \<Rightarrow> (case unmarshal_cards vs of Inl e \<Rightarrow> Inl e | Inr cs \<Rightarrow> Inr (c # cs)))"

definition unmarshalStoredCards :: "json option \<Rightarrow> error + StoredCard list" where
  "unmarshalStoredCards b =
     (case b of
        None \<Rightarrow> Inr []
      | Some JNull \<Rightarrow> Inr []
      | Some (JArr vs) \<Rightarrow> unmarshal_cards vs
      | Some _ \<Rightarrow> Inl (ExtError ''json: cannot unmarshal''))"

lemma names_field_Suit_Rank: "\<not> names_field ''Suit'' ''Rank''"
  by (simp add: names_field_def lower_char_def)

lemma names_field_refl [simp]: "names_field k k"
  by (simp add: names_field_def)

lemma unmarshal_marshal_cards:
  "unmarshal_cards
     (map (\<lambda>c. JObj [(''Rank'', JStr (card_Rank c)), (''Suit'', JStr (card_Suit c))]) cs) = Inr cs"
  by (induction cs) (simp_all add: unmarshal_card_def names_field_Suit_Rank)

lemma unmarshal_marshal [simp]: "unmarshalStoredCards (Some (marshalStoredCards cs)) = Inr cs"
  by (simp add: unmarshalStoredCards_def marshalStoredCards_def unmarshal_marshal_cards)

subsection \<open>Rooms\<close>

record RoomRecord =
  rr_ID :: string
  rr_HostUserID :: string
  rr_Status :: string
  rr_CurrentSessionID :: "string option"
  rr_CreatedAt :: time
  rr_UpdatedAt :: time

definition roomRecordFromDomain :: "Room \<Rightarrow> RoomRecord" where
  "roomRecordFromDomain r =
     \<lparr>rr_ID = room_ID r, rr_HostUserID = room_HostUserID r,
      rr_Status = RoomStatus_str (room_Status r),
      rr_CurrentSessionID = room_CurrentSessionID r,
      rr_CreatedAt = room_CreatedAt r, rr_UpdatedAt = room_UpdatedAt r\<rparr>"

definition roomRecordToDomain :: "RoomRecord \<Rightarrow> error + Room" where
  "roomRecordToDomain m =
     (let st = RoomStatus_of (rr_Status m) in
      if \<not> RoomStatus_IsValid st then Inl (Errorf (''invalid room status: '' @ rr_Status m))
      else Inr \<lparr>room_ID = rr_ID m, room_HostUserID = rr_HostUserID m, room_Status = st,
                room_CurrentSessionID = rr_CurrentSessionID m,
                room_CreatedAt = rr_CreatedAt m, room_UpdatedAt = rr_UpdatedAt m\<rparr>)"

subsection \<open>Game sessions\<close>

record GameSessionRecord =
  gs_ID :: string
  gs_RoomID :: string
  gs_RoundNo :: int
  gs_Status :: string
  gs_Version :: int
  gs_Deck :: "json option"
  gs_DrawIndex :: int
  gs_TurnSeat :: int
  gs_TurnDeadlineAt :: "time option"
  gs_ResultSnapshot :: string
  gs_RematchDeadlineAt :: "time option"
  gs_CreatedAt :: time
  gs_UpdatedAt :: time

definition gameSessionRecordFromDomain :: "GameSession \<Rightarrow> GameSessionRecord" where
  "gameSessionRecordFromDomain s =
     \<lparr>gs_ID = sess_ID s, gs_RoomID = sess_RoomID s, gs_RoundNo = sess_RoundNo s,
      gs_Status = SessionStatus_str (sess_Status s), gs_Version = sess_Version s,
      gs_Deck = Some (marshalStoredCards (sess_Deck s)), gs_DrawIndex = sess_DrawIndex s,
      gs_TurnSeat = sess_TurnSeat s, gs_TurnDeadlineAt = sess_TurnDeadlineAt s,
      gs_ResultSnapshot = (case sess_ResultSnapshot s of None \<Rightarrow> [] | Some t \<Rightarrow> t),
      gs_RematchDeadlineAt = sess_RematchDeadlineAt s,
      gs_CreatedAt = sess_CreatedAt s, gs_UpdatedAt = sess_UpdatedAt s\<rparr>"

definition gameSessionRecordToDomain :: "GameSessionRecord \<Rightarrow> error + GameSession" where
  "gameSessionRecordToDomain m =
     (let st = SessionStatus_of (gs_Status m) in
      if \<not> SessionStatus_IsValid st
      then Inl (Errorf (''invalid session status: '' @ gs_Status m))
      else
        case unmarshalStoredCards (gs_Deck m) of
          Inl e \<Rightarrow> Inl e
        | Inr deck \<Rightarrow>
            let rs = (if length (gs_ResultSnapshot m) > 0 then Some (gs_ResultSnapshot m) else None) in
            Inr \<lparr>sess_ID = gs_ID m, sess_RoomID = gs_RoomID m, sess_RoundNo = gs_RoundNo m,
                 sess_Status = st, sess_Version = gs_Version m, sess_TurnSeat = gs_TurnSeat m,
                 sess_Deck = deck, sess_DrawIndex = gs_DrawIndex m,
                 sess_TurnDeadlineAt = gs_TurnDeadlineAt m, sess_ResultSnapshot = rs,
                 sess_RematchDeadlineAt = gs_RematchDeadlineAt m,
                 sess_CreatedAt = gs_CreatedAt m, sess_UpdatedAt = gs_UpdatedAt m\<rparr>)"

subsection \<open>Player and dealer states\<close>

record PlayerStateRecord =
  psr_SessionID :: string
  psr_UserID :: string
  psr_SeatNo :: int
  psr_Hand :: "json option"
  psr_Status :: string
  psr_Outcome :: "string option"
  psr_FinalScore :: "int option"

definition playerStateRecordFromDomain :: "PlayerState \<Rightarrow> PlayerStateRecord" where
  "playerStateRecordFromDomain p =
     \<lparr>psr_SessionID = ps_SessionID p, psr_UserID = ps_UserID p, psr_SeatNo = ps_SeatNo p,
      psr_Hand = Some (marshalStoredCards (ps_Hand p)),
      psr_Status = PlayerStatus_str (ps_Status p),
      psr_Outcome = map_option Outcome_str (ps_Outcome p), psr_FinalScore = ps_FinalScore p\<rparr>"

definition playerStateRecordToDomain :: "PlayerStateRecord \<Rightarrow> error + PlayerState" where
  "playerStateRecordToDomain m =
     (let st = PlayerStatus_of (psr_Status m) in
      if \<not> PlayerStatus_IsValid st
      then Inl (Errorf (''invalid player status: '' @ psr_Status m))
      else
        case unmarshalStoredCards (psr_Hand m) of
          Inl e \<Rightarrow> Inl e
        | Inr hand \<Rightarrow>
            let mk = (\<lambda>oc. \<lparr>ps_SessionID = psr_SessionID m, ps_UserID = psr_UserID m,
                        ps_SeatNo = psr_SeatNo m, ps_Hand = hand, ps_Status = st,
                        ps_Outcome = oc, ps_FinalScore = psr_FinalScore m\<rparr>) in
            case psr_Outcome m of
              None \<Rightarrow> Inr (mk None)
            | Some t \<Rightarrow>
                let oc = Outcome_of t in
                if \<not> Outcome_IsValid oc then Inl (Errorf (''invalid outcome: '' @ t))
                else Inr (mk (Some oc)))"

record DealerStateRecord =
  dsr_SessionID :: string
  dsr_Hand :: "json option"
  dsr_HoleHidden :: bool
  dsr_FinalScore :: "int option"

definition dealerStateRecordFromDomain :: "DealerState \<Rightarrow> DealerStateRecord" where
  "dealerStateRecordFromDomain d =
     \<lparr>dsr_SessionID = ds_SessionID d, dsr_Hand = Some (marshalStoredCards (ds_Hand d)),
      dsr_HoleHidden = ds_HoleHidden d, dsr_FinalScore = ds_FinalScore d\<rparr>"

definition dealerStateRecordToDomain :: "DealerStateRecord \<Rightarrow> error + DealerState" where
  "dealerStateRecordToDomain m =
     (case unmarshalStoredCards (dsr_Hand m) of
        Inl e \<Rightarrow> Inl e
      | Inr hand \<Rightarrow>
          Inr \<lparr>ds_SessionID = dsr_SessionID m, ds_Hand = hand,
               ds_HoleHidden = dsr_HoleHidden m, ds_FinalScore = dsr_FinalScore m\<rparr>)"

subsection \<open>Users, authentication sessions and room players\<close>

record UserRecord =
  ur_ID :: string
  ur_Username :: string
  ur_PasswordHash :: string
  ur_CreatedAt :: time
  ur_UpdatedAt :: time

definition userRecordFromDomain :: "User \<Rightarrow> UserRecord" where
  "userRecordFromDomain u =
     \<lparr>ur_ID = user_ID u, ur_Username = user_Username u, ur_PasswordHash = user_PasswordHash u,
      ur_CreatedAt = user_CreatedAt u, ur_UpdatedAt = user_UpdatedAt u\<rparr>"

definition userRecordToDomain :: "UserRecord \<Rightarrow> error + User" where
  "userRecordToDomain m =
     Inr \<lparr>user_ID = ur_ID m, user_Username = ur_Username m, user_PasswordHash = ur_PasswordHash m,
          user_CreatedAt = ur_CreatedAt m, user_UpdatedAt = ur_UpdatedAt m\<rparr>"

record SessionRecord =
  sr_ID :: string
  sr_UserID :: string
  sr_ExpiresAt :: time
  sr_CreatedAt :: time

definition authSessionRecordFromDomain :: "AuthSession \<Rightarrow> SessionRecord" where
  "authSessionRecordFromDomain s =
     \<lparr>sr_ID = as_ID s, sr_UserID = as_UserID s, sr_ExpiresAt = as_ExpiresAt s,
      sr_CreatedAt = as_CreatedAt s\<rparr>"

definition authSessionRecordToDomain :: "SessionRecord \<Rightarrow> error + AuthSession" where
  "authSessionRecordToDomain m =
     Inr \<lparr>as_ID = sr_ID m, as_UserID = sr_UserID m, as_ExpiresAt = sr_ExpiresAt m,
          as_CreatedAt = sr_CreatedAt m\<rparr>"

record RoomPlayerRecord =
  rpr_RoomID :: string
  rpr_UserID :: string
  rpr_SeatNo :: int
  rpr_Status :: string
  rpr_JoinedAt :: time
  rpr_LeftAt :: "time option"

definition roomPlayerRecordFromDomain :: "RoomPlayer \<Rightarrow> RoomPlayerRecord" where
  "roomPlayerRecordFromDomain p =
     \<lparr>rpr_RoomID = rp_RoomID p, rpr_UserID = rp_UserID p, rpr_SeatNo = rp_SeatNo p,
      rpr_Status = RoomPlayerStatus_str (rp_Status p), rpr_JoinedAt = rp_JoinedAt p,
      rpr_LeftAt = rp_LeftAt p\<rparr>"

definition roomPlayerRecordToDomain :: "RoomPlayerRecord \<Rightarrow> error + RoomPlayer" where
  "roomPlayerRecordToDomain m =
     (let st = RoomPlayerStatus_of (rpr_Status m) in
      if \<not> RoomPlayerStatus_IsValid st
      then Inl (Errorf (''invalid room player status: '' @ rpr_Status m))
      else Inr \<lparr>rp_RoomID = rpr_RoomID m, rp_UserID = rpr_UserID m, rp_SeatNo = rpr_SeatNo m,
                rp_Status = st, rp_JoinedAt = rpr_JoinedAt m, rp_LeftAt = rpr_LeftAt m\<rparr>)"

subsection \<open>Action logs, votes and round logs\<close>

record ActionLogRecord =
  alr_ID :: nat
  alr_SessionID :: string
  alr_ActorType :: string
  alr_ActorUserID :: string
  alr_TargetUserID :: string
  alr_ActionID :: string
  alr_RequestType :: string
  alr_RequestPayloadHash :: string
  alr_ResponseSnapshot :: string

definition nil_uuid :: string where
  "nil_uuid = ''00000000-0000-0000-0000-000000000000''"

definition actionLogRecordFromDomain :: "ActionLog \<Rightarrow> ActionLogRecord" where
  "actionLogRecordFromDomain a =
     (let actor = TrimSpace (al_ActorUserID a);
          actorUserID =
            (if actor = '''' \<and> al_ActorType a = ActorTypeSystem
             then let tid = TrimSpace (al_TargetUserID a)
                  in if tid \<noteq> '''' then tid else nil_uuid
             else actor)
      in \<lparr>alr_ID = 0, alr_SessionID = al_SessionID a,
          alr_ActorType = ActorType_str (al_ActorType a), alr_ActorUserID = actorUserID,
          alr_TargetUserID = al_TargetUserID a, alr_ActionID = al_ActionID a,
          alr_RequestType = al_RequestType a,
          alr_RequestPayloadHash = al_RequestPayloadHash a,
          alr_ResponseSnapshot = al_ResponseSnapshot a\<rparr>)"

definition actionLogRecordToDomain :: "ActionLogRecord \<Rightarrow> error + ActionLog" where
  "actionLogRecordToDomain m =
     (let actorType = ActorType_of (alr_ActorType m) in
      if \<not> ActorType_IsValid actorType
      then Inl (Errorf (''invalid actor type: '' @ alr_ActorType m))
      else Inr \<lparr>al_SessionID = alr_SessionID m, al_ActorType = actorType,
                al_ActorUserID = alr_ActorUserID m, al_TargetUserID = alr_TargetUserID m,
                al_ActionID = alr_ActionID m, al_RequestType = alr_RequestType m,
                al_RequestPayloadHash = alr_RequestPayloadHash m,
                al_ResponseSnapshot = alr_ResponseSnapshot m\<rparr>)"

record RematchVoteRecord =
  rvr_ID :: nat
  rvr_SessionID :: string
  rvr_UserID :: string
  rvr_Agree :: bool
  rvr_CreatedAt :: time
  rvr_UpdatedAt :: time

definition rematchVoteRecordFromDomain :: "RematchVote \<Rightarrow> RematchVoteRecord" where
  "rematchVoteRecordFromDomain v =
     \<lparr>rvr_ID = 0, rvr_SessionID = rv_SessionID v, rvr_UserID = rv_UserID v,
      rvr_Agree = rv_Agree v, rvr_CreatedAt = 0, rvr_UpdatedAt = 0\<rparr>"

definition rematchVoteRecordToDomain :: "RematchVoteRecord \<Rightarrow> RematchVote" where
  "rematchVoteRecordToDomain m =
     \<lparr>rv_SessionID = rvr_SessionID m, rv_UserID = rvr_UserID m, rv_Agree = rvr_Agree m\<rparr>"

record RoundLogRecord =
  rlr_ID :: nat
  rlr_SessionID :: string
  rlr_RoundNo :: int
  rlr_ResultPayload :: string
  rlr_CreatedAt :: time

definition roundLogRecordFromDomain :: "RoundLog \<Rightarrow> error + RoundLogRecord" where
  "roundLogRecordFromDomain r =
     (let mk = (\<lambda>i. \<lparr>rlr_ID = i, rlr_SessionID = rl_SessionID r, rlr_RoundNo = rl_RoundNo r,
                    rlr_ResultPayload = rl_ResultPayload r, rlr_CreatedAt = rl_CreatedAt r\<rparr>)
      in if rl_ID r \<noteq> '''' then
           (case ParseUint (rl_ID r) of
              None \<Rightarrow> Inl (ExtError ''strconv.ParseUint'')
            | Some i \<Rightarrow> Inr (mk i))
         else Inr (mk 0))"

definition roundLogRecordToDomain :: "RoundLogRecord \<Rightarrow> RoundLog" where
  "roundLogRecordToDomain m =
     \<lparr>rl_ID = digits_of (rlr_ID m), rl_SessionID = rlr_SessionID m,
      rl_RoundNo = rlr_RoundNo m, rl_ResultPayload = rlr_ResultPayload m,
      rl_CreatedAt = rlr_CreatedAt m\<rparr>"

subsection \<open>Round trips\<close>

text \<open>
  What is read back is what was stored, for objects with valid statuses (every object the
  program holds has one: it comes from a constructor, from a guarded setter or from a read).
\<close>

lemma room_roundtrip:
  "RoomStatus_IsValid (room_Status r) \<Longrightarrow> roomRecordToDomain (roomRecordFromDomain r) = Inr r"
  by (simp add: roomRecordToDomain_def roomRecordFromDomain_def enum_roundtrips)

lemma session_roundtrip:
  assumes "SessionStatus_IsValid (sess_Status s)" "sess_ResultSnapshot s \<noteq> Some []"
  shows "gameSessionRecordToDomain (gameSessionRecordFromDomain s) = Inr s"
  using assms
  by (cases "sess_ResultSnapshot s")
    (simp_all add: gameSessionRecordToDomain_def gameSessionRecordFromDomain_def enum_roundtrips
      Let_def)

lemma player_roundtrip:
  assumes "PlayerStatus_IsValid (ps_Status p)" "pred_option Outcome_IsValid (ps_Outcome p)"
  shows "playerStateRecordToDomain (playerStateRecordFromDomain p) = Inr p"
  using assms
  by (cases "ps_Outcome p")
    (simp_all add: playerStateRecordToDomain_def playerStateRecordFromDomain_def enum_roundtrips
      Let_def)

lemma dealer_roundtrip: "dealerStateRecordToDomain (dealerStateRecordFromDomain d) = Inr d"
  by (simp add: dealerStateRecordToDomain_def dealerStateRecordFromDomain_def)

lemma user_roundtrip: "userRecordToDomain (userRecordFromDomain u) = Inr u"
  by (simp add: userRecordToDomain_def userRecordFromDomain_def)

lemma authSession_roundtrip: "authSessionRecordToDomain (authSessionRecordFromDomain s) = Inr s"
  by (simp add: authSessionRecordToDomain_def authSessionRecordFromDomain_def)

lemma roomPlayer_roundtrip:
  "RoomPlayerStatus_IsValid (rp_Status p) \<Longrightarrow>
     roomPlayerRecordToDomain (roomPlayerRecordFromDomain p) = Inr p"
  by (simp add: roomPlayerRecordToDomain_def roomPlayerRecordFromDomain_def enum_roundtrips)

lemma actionLog_roundtrip:
  assumes "ActorType_IsValid (al_ActorType a)" "al_ActorUserID a \<noteq> ''''"
    and "TrimSpace (al_ActorUserID a) = al_ActorUserID a"
  shows "actionLogRecordToDomain (actionLogRecordFromDomain a) = Inr a"
proof -
  have "ActorType_of (ActorType_str (al_ActorType a)) = al_ActorType a"
    using assms(1) by (rule ActorType_of_str)
  with assms show ?thesis
    by (simp add: actionLogRecordToDomain_def actionLogRecordFromDomain_def Let_def)
qed

lemma rematchVote_roundtrip: "rematchVoteRecordToDomain (rematchVoteRecordFromDomain v) = v"
  by (simp add: rematchVoteRecordToDomain_def rematchVoteRecordFromDomain_def)

lemmas row_roundtrips =
  room_roundtrip session_roundtrip player_roundtrip dealer_roundtrip user_roundtrip
  authSession_roundtrip roomPlayer_roundtrip actionLog_roundtrip rematchVote_roundtrip

text \<open>A row that is read has a valid status: no other row gets past the mapping.\<close>

lemma room_read_valid: "roomRecordToDomain m = Inr r \<Longrightarrow> RoomStatus_IsValid (room_Status r)"
  by (auto simp: roomRecordToDomain_def Let_def split: if_splits)

lemma session_read_valid:
  "gameSessionRecordToDomain m = Inr s \<Longrightarrow>
     SessionStatus_IsValid (sess_Status s) \<and> sess_ResultSnapshot s \<noteq> Some []"
  by (auto simp: gameSessionRecordToDomain_def Let_def split: if_splits sum.splits)

lemma player_read_valid:
  "playerStateRecordToDomain m = Inr p \<Longrightarrow>
     PlayerStatus_IsValid (ps_Status p) \<and> pred_option Outcome_IsValid (ps_Outcome p)"
  by (auto simp: playerStateRecordToDomain_def Let_def split: if_splits sum.splits option.splits)

lemma roomPlayer_read_valid:
  "roomPlayerRecordToDomain m = Inr p \<Longrightarrow> RoomPlayerStatus_IsValid (rp_Status p)"
  by (auto simp: roomPlayerRecordToDomain_def Let_def split: if_splits)

lemmas read_valid = room_read_valid session_read_valid player_read_valid roomPlayer_read_valid

text \<open>A read returns the row's own key.\<close>

lemma session_read_key:
  "gameSessionRecordToDomain m = Inr s \<Longrightarrow>
     sess_ID s = gs_ID m \<and> sess_Version s = gs_Version m \<and> sess_RoomID s = gs_RoomID m"
  by (auto simp: gameSessionRecordToDomain_def Let_def split: if_splits sum.splits)

lemma room_read_key: "roomRecordToDomain m = Inr r \<Longrightarrow> room_ID r = rr_ID m"
  by (auto simp: roomRecordToDomain_def Let_def split: if_splits)

lemma player_read_key:
  "playerStateRecordToDomain m = Inr p \<Longrightarrow>
     ps_SessionID p = psr_SessionID m \<and> ps_UserID p = psr_UserID m"
  by (auto simp: playerStateRecordToDomain_def Let_def split: if_splits sum.splits option.splits)

lemma dealer_read_key: "dealerStateRecordToDomain m = Inr d \<Longrightarrow> ds_SessionID d = dsr_SessionID m"
  by (auto simp: dealerStateRecordToDomain_def split: sum.splits)

lemma roomPlayer_read_key:
  "roomPlayerRecordToDomain m = Inr p \<Longrightarrow> rp_RoomID p = rpr_RoomID m \<and> rp_UserID p = rpr_UserID m"
  by (auto simp: roomPlayerRecordToDomain_def Let_def split: if_splits)

subsection \<open>Properties\<close>

text \<open>
  C40. A session with a valid status written to its row and read back is the same session,
  deck included, except that an empty result snapshot is read back as none. (What PostgreSQL
  does to the text of a jsonb column is outside.)
\<close>

theorem session_row_roundtrip:
  assumes "SessionStatus_IsValid (sess_Status s)"
  shows "gameSessionRecordToDomain (gameSessionRecordFromDomain s) =
    Inr (if sess_ResultSnapshot s = Some [] then s\<lparr>sess_ResultSnapshot := None\<rparr> else s)"
proof (cases "sess_ResultSnapshot s = Some []")
  case True
  then have "gameSessionRecordFromDomain s = gameSessionRecordFromDomain (s\<lparr>sess_ResultSnapshot := None\<rparr>)"
    by (simp add: gameSessionRecordFromDomain_def)
  then show ?thesis using True session_roundtrip [of "s\<lparr>sess_ResultSnapshot := None\<rparr>"] assms by simp
next
  case False
  then show ?thesis using session_roundtrip assms by simp
qed

theorem session_row_roundtrip_witness:
  "gameSessionRecordToDomain (gameSessionRecordFromDomain two_card_session) = Inr two_card_session"
proof -
  have "SessionStatus_IsValid (sess_Status two_card_session)"
    "sess_ResultSnapshot two_card_session \<noteq> Some []" by (simp_all add: two_card_session_def)
  with session_row_roundtrip [of two_card_session] show ?thesis by simp
qed

theorem player_row_roundtrip:
  assumes "PlayerStatus_IsValid (ps_Status p)" "pred_option Outcome_IsValid (ps_Outcome p)"
  shows "playerStateRecordToDomain (playerStateRecordFromDomain p) = Inr p"
  using assms by (rule player_roundtrip)

definition winner :: PlayerState where
  "winner = \<lparr>ps_SessionID = ''s'', ps_UserID = ''u'', ps_SeatNo = 1,
     ps_Hand = sess_Deck two_card_session, ps_Status = PlayerStatusBlackjack,
     ps_Outcome = Some OutcomeWin, ps_FinalScore = Some 21\<rparr>"

theorem player_row_roundtrip_witness:
  "playerStateRecordToDomain (playerStateRecordFromDomain winner) = Inr winner"
proof -
  have "PlayerStatus_IsValid (ps_Status winner)" "pred_option Outcome_IsValid (ps_Outcome winner)"
    by (simp_all add: winner_def)
  from player_row_roundtrip [OF this] show ?thesis .
qed

end
