(* ===== verification/Pg_Store.thy ===== *)
theory Pg_Store
  imports Row_Mapping
begin

text \<open>
  The repository \<open>pgStore\<close> (\<open>backend/repository/*.go\<close>) over the tables of the database. The
  state is the list of rows of each table. An operation is the query the code gives to GORM:
  its \<open>WHERE\<close>, \<open>ORDER BY\<close> and column list are those of the source, its keys, unique indexes
  and foreign keys those of \<open>game_repository_schema.go\<close> and \<open>backend/db/migrate.go\<close>. A read
  returns a value or an error, a write the new state or an error; a failure of the connection is
  added in \<open>Service_Monad\<close>. Rows come in the order of the table where the query does not ask
  for one.
\<close>

record DB =
  d_rooms :: "RoomRecord list"
  d_room_players :: "RoomPlayerRecord list"
  d_game_sessions :: "GameSessionRecord list"
  d_player_states :: "PlayerStateRecord list"
  d_dealer_states :: "DealerStateRecord list"
  d_action_logs :: "ActionLogRecord list"
  d_rematch_votes :: "RematchVoteRecord list"
  d_round_logs :: "RoundLogRecord list"
  d_users :: "UserRecord list"
  d_sessions :: "SessionRecord list"
  d_serial :: nat \<comment> \<open>the last number given out by a serial column\<close>

definition empty_db :: DB where
  "empty_db = \<lparr>d_rooms = [], d_room_players = [], d_game_sessions = [], d_player_states = [],
     d_dealer_states = [], d_action_logs = [], d_rematch_votes = [], d_round_logs = [],
     d_users = [], d_sessions = [], d_serial = 0\<rparr>"

subsection \<open>Errors of the driver\<close>

definition gormErrRecordNotFound :: error where
  "gormErrRecordNotFound = ExtError ''record not found''"

definition unique_violation :: error where "unique_violation = PgError ''23505''"

definition foreign_key_violation :: error where "foreign_key_violation = PgError ''23503''"

definition mapErr :: "error \<Rightarrow> error" where
  "mapErr err =
     (if err = gormErrRecordNotFound then ErrNotFound
      else if err = PgError ''23505'' then ErrAlreadyExists
      else err)"

subsection \<open>Statements\<close>

text \<open>\<open>First\<close>, with the error mapped; \<open>INSERT\<close>; \<open>Save\<close>, an update by primary key or insert.\<close>

definition gorm_First :: "('r \<Rightarrow> bool) \<Rightarrow> 'r list \<Rightarrow> error + 'r" where
  "gorm_First P t =
     (case tbl_first P t of None \<Rightarrow> Inl (mapErr gormErrRecordNotFound) | Some r \<Rightarrow> Inr r)"

definition insert_row ::
    "('r \<Rightarrow> 'r \<Rightarrow> bool) \<Rightarrow> ('r \<Rightarrow> bool) \<Rightarrow> 'r \<Rightarrow> 'r list \<Rightarrow> error + 'r list" where
  "insert_row clash fk r t =
     (if list_ex (clash r) t then Inl unique_violation
      else if \<not> fk r then Inl foreign_key_violation
      else Inr (t @ [r]))"

definition save_row ::
    "('r \<Rightarrow> 'k) \<Rightarrow> ('r \<Rightarrow> 'r \<Rightarrow> bool) \<Rightarrow> ('r \<Rightarrow> bool) \<Rightarrow> 'r \<Rightarrow> 'r list \<Rightarrow> error + 'r list" where
  "save_row key clash fk r t =
     (if list_ex (\<lambda>x. key x \<noteq> key r \<and> clash r x) t then Inl unique_violation
      else if \<not> fk r then Inl foreign_key_violation
      else Inr (tbl_save key r t))"

subsection \<open>Primary keys, unique indexes and foreign keys\<close>

definition room_exists :: "DB \<Rightarrow> string \<Rightarrow> bool" where
  "room_exists d i = list_ex (\<lambda>r. rr_ID r = i) (d_rooms d)"

definition session_exists :: "DB \<Rightarrow> string \<Rightarrow> bool" where
  "session_exists d i = list_ex (\<lambda>g. gs_ID g = i) (d_game_sessions d)"

definition user_exists :: "DB \<Rightarrow> string \<Rightarrow> bool" where
  "user_exists d i = list_ex (\<lambda>u. ur_ID u = i) (d_users d)"

definition room_clash :: "RoomRecord \<Rightarrow> RoomRecord \<Rightarrow> bool" where
  "room_clash a b \<longleftrightarrow> rr_ID a = rr_ID b"

definition room_fk :: "DB \<Rightarrow> RoomRecord \<Rightarrow> bool" where
  "room_fk d r = (case rr_CurrentSessionID r of None \<Rightarrow> True | Some i \<Rightarrow> session_exists d i)"

definition rpr_key :: "RoomPlayerRecord \<Rightarrow> string \<times> string" where
  "rpr_key p = (rpr_RoomID p, rpr_UserID p)"

definition room_player_clash :: "RoomPlayerRecord \<Rightarrow> RoomPlayerRecord \<Rightarrow> bool" where
  "room_player_clash a b \<longleftrightarrow>
     rpr_key a = rpr_key b \<or> rpr_RoomID a = rpr_RoomID b \<and> rpr_SeatNo a = rpr_SeatNo b"

definition session_clash :: "GameSessionRecord \<Rightarrow> GameSessionRecord \<Rightarrow> bool" where
  "session_clash a b \<longleftrightarrow>
     gs_ID a = gs_ID b \<or> gs_RoomID a = gs_RoomID b \<and> gs_RoundNo a = gs_RoundNo b"

definition psr_key :: "PlayerStateRecord \<Rightarrow> string \<times> string" where
  "psr_key p = (psr_SessionID p, psr_UserID p)"

definition player_state_clash :: "PlayerStateRecord \<Rightarrow> PlayerStateRecord \<Rightarrow> bool" where
  "player_state_clash a b \<longleftrightarrow>
     psr_key a = psr_key b \<or> psr_SessionID a = psr_SessionID b \<and> psr_SeatNo a = psr_SeatNo b"

definition dealer_state_clash :: "DealerStateRecord \<Rightarrow> DealerStateRecord \<Rightarrow> bool" where
  "dealer_state_clash a b \<longleftrightarrow> dsr_SessionID a = dsr_SessionID b"

definition action_log_clash :: "ActionLogRecord \<Rightarrow> ActionLogRecord \<Rightarrow> bool" where
  "action_log_clash a b \<longleftrightarrow>
     alr_ID a = alr_ID b \<or>
     alr_SessionID a = alr_SessionID b \<and> alr_ActorUserID a = alr_ActorUserID b
       \<and> alr_ActionID a = alr_ActionID b"

definition rvr_key :: "RematchVoteRecord \<Rightarrow> string \<times> string" where
  "rvr_key v = (rvr_SessionID v, rvr_UserID v)"

definition round_log_clash :: "RoundLogRecord \<Rightarrow> RoundLogRecord \<Rightarrow> bool" where
  "round_log_clash a b \<longleftrightarrow>
     rlr_ID a = rlr_ID b \<or>
     rlr_SessionID a = rlr_SessionID b \<and> rlr_RoundNo a = rlr_RoundNo b"

definition user_clash :: "UserRecord \<Rightarrow> UserRecord \<Rightarrow> bool" where
  "user_clash a b \<longleftrightarrow> ur_ID a = ur_ID b \<or> ur_Username a = ur_Username b"

subsection \<open>Rooms and room players (room\_repository.go)\<close>

definition CreateRoom :: "Room \<Rightarrow> DB \<Rightarrow> error + DB" where
  "CreateRoom room d =
     mapR (\<lambda>t. d\<lparr>d_rooms := t\<rparr>)
       (insert_row room_clash (room_fk d) (roomRecordFromDomain room) (d_rooms d))"

text \<open>GORM's \<open>Save\<close> sets the column \<open>updated_at\<close> to its own clock, the argument \<open>now\<close>.\<close>

definition UpdateRoom :: "time \<Rightarrow> Room \<Rightarrow> DB \<Rightarrow> error + DB" where
  "UpdateRoom now room d =
     mapR (\<lambda>t. d\<lparr>d_rooms := t\<rparr>)
       (save_row rr_ID room_clash (room_fk d) ((roomRecordFromDomain room)\<lparr>rr_UpdatedAt := now\<rparr>)
         (d_rooms d))"

definition DeleteRoomPlayersByRoomID :: "string \<Rightarrow> DB \<Rightarrow> error + DB" where
  "DeleteRoomPlayersByRoomID roomID d =
     Inr (d\<lparr>d_room_players := tbl_delete (\<lambda>p. rpr_RoomID p = roomID) (d_room_players d)\<rparr>)"

definition CountRooms :: "DB \<Rightarrow> error + int" where
  "CountRooms d = Inr (int (length (d_rooms d)))"

definition GetRoom :: "string \<Rightarrow> DB \<Rightarrow> error + Room" where
  "GetRoom i d =
     (case gorm_First (\<lambda>r. rr_ID r = i) (d_rooms d) of
        Inl e \<Rightarrow> Inl e | Inr rec \<Rightarrow> roomRecordToDomain rec)"

definition ListRoomsByUserID :: "string \<Rightarrow> DB \<Rightarrow> error + Room list" where
  "ListRoomsByUserID userID d =
     mapE roomRecordToDomain
       (sort_key (\<lambda>r. - rr_CreatedAt r) (filter (\<lambda>r. rr_HostUserID r = userID) (d_rooms d)))"

definition CreateRoomPlayer :: "RoomPlayer \<Rightarrow> DB \<Rightarrow> error + DB" where
  "CreateRoomPlayer p d =
     mapR (\<lambda>t. d\<lparr>d_room_players := t\<rparr>)
       (insert_row room_player_clash (\<lambda>r. room_exists d (rpr_RoomID r))
         (roomPlayerRecordFromDomain p) (d_room_players d))"

definition UpdateRoomPlayer :: "RoomPlayer \<Rightarrow> DB \<Rightarrow> error + DB" where
  "UpdateRoomPlayer p d =
     mapR (\<lambda>t. d\<lparr>d_room_players := t\<rparr>)
       (save_row rpr_key room_player_clash (\<lambda>r. room_exists d (rpr_RoomID r))
         (roomPlayerRecordFromDomain p) (d_room_players d))"

definition GetRoomPlayer :: "string \<Rightarrow> string \<Rightarrow> DB \<Rightarrow> error + RoomPlayer" where
  "GetRoomPlayer roomID userID d =
     (case gorm_First (\<lambda>p. rpr_key p = (roomID, userID)) (d_room_players d) of
        Inl e \<Rightarrow> Inl e | Inr rec \<Rightarrow> roomPlayerRecordToDomain rec)"

definition ListRoomPlayersByRoomID :: "string \<Rightarrow> DB \<Rightarrow> error + RoomPlayer list" where
  "ListRoomPlayersByRoomID roomID d =
     mapE roomPlayerRecordToDomain (filter (\<lambda>p. rpr_RoomID p = roomID) (d_room_players d))"

subsection \<open>Game sessions (game\_repository.go)\<close>

text \<open>
  The columns a conditional update writes; \<open>room_id\<close>, \<open>round_no\<close> and \<open>created_at\<close> stay.
  \<open>RowsAffected\<close> is the number of rows with the given id and version.
\<close>

definition session_columns :: "GameSessionRecord \<Rightarrow> GameSessionRecord \<Rightarrow> GameSessionRecord" where
  "session_columns row g =
     g\<lparr>gs_Status := gs_Status row, gs_Version := gs_Version row, gs_Deck := gs_Deck row,
       gs_DrawIndex := gs_DrawIndex row, gs_TurnSeat := gs_TurnSeat row,
       gs_TurnDeadlineAt := gs_TurnDeadlineAt row, gs_ResultSnapshot := gs_ResultSnapshot row,
       gs_RematchDeadlineAt := gs_RematchDeadlineAt row, gs_UpdatedAt := gs_UpdatedAt row\<rparr>"

definition UpdateSessionIfVersion :: "GameSession \<Rightarrow> int \<Rightarrow> DB \<Rightarrow> DB \<times> bool" where
  "UpdateSessionIfVersion session expectedVersion d =
     (let row = gameSessionRecordFromDomain session;
          hit = (\<lambda>g. gs_ID g = gs_ID row \<and> gs_Version g = expectedVersion);
          t = d_game_sessions d
      in (d\<lparr>d_game_sessions := map (\<lambda>g. if hit g then session_columns row g else g) t\<rparr>,
          length (filter hit t) = 1))"

definition CreateSession :: "GameSession \<Rightarrow> DB \<Rightarrow> error + DB" where
  "CreateSession session d =
     mapR (\<lambda>t. d\<lparr>d_game_sessions := t\<rparr>)
       (insert_row session_clash (\<lambda>g. room_exists d (gs_RoomID g))
         (gameSessionRecordFromDomain session) (d_game_sessions d))"

definition UpdateSession :: "time \<Rightarrow> GameSession \<Rightarrow> DB \<Rightarrow> error + DB" where
  "UpdateSession now session d =
     mapR (\<lambda>t. d\<lparr>d_game_sessions := t\<rparr>)
       (save_row gs_ID session_clash (\<lambda>g. room_exists d (gs_RoomID g))
         ((gameSessionRecordFromDomain session)\<lparr>gs_UpdatedAt := now\<rparr>) (d_game_sessions d))"

definition GetSession :: "string \<Rightarrow> DB \<Rightarrow> error + GameSession" where
  "GetSession i d =
     (case gorm_First (\<lambda>g. gs_ID g = i) (d_game_sessions d) of
        Inl e \<Rightarrow> Inl e | Inr rec \<Rightarrow> gameSessionRecordToDomain rec)"

text \<open>The row lock adds nothing here: a transaction runs alone in this model.\<close>

definition GetSessionForUpdate :: "string \<Rightarrow> DB \<Rightarrow> error + GameSession" where
  "GetSessionForUpdate i d =
     (case gorm_First (\<lambda>g. gs_ID g = i) (d_game_sessions d) of
        Inl e \<Rightarrow> Inl e | Inr rec \<Rightarrow> gameSessionRecordToDomain rec)"

text \<open>\<open>First\<close> also orders by the primary key, after the given order.\<close>

definition GetLatestSessionByRoomID :: "string \<Rightarrow> DB \<Rightarrow> error + GameSession" where
  "GetLatestSessionByRoomID roomID d =
     (case gorm_First (\<lambda>g. True)
         (sort_key (\<lambda>g. - gs_CreatedAt g)
           (sort_key gs_ID (filter (\<lambda>g. gs_RoomID g = roomID) (d_game_sessions d)))) of
        Inl e \<Rightarrow> Inl e | Inr rec \<Rightarrow> gameSessionRecordToDomain rec)"

definition due :: "time option \<Rightarrow> time \<Rightarrow> bool" where
  "due at deadline = (case at of None \<Rightarrow> False | Some t \<Rightarrow> t \<le> deadline)"

definition ListSessionsByStatusAndDeadlineBefore ::
    "SessionStatus \<Rightarrow> time \<Rightarrow> DB \<Rightarrow> error + GameSession list" where
  "ListSessionsByStatusAndDeadlineBefore status deadline d =
     mapE gameSessionRecordToDomain
       (sort_key (\<lambda>g. case gs_TurnDeadlineAt g of None \<Rightarrow> 0 | Some t \<Rightarrow> t)
         (filter (\<lambda>g. gs_Status g = SessionStatus_str status \<and> due (gs_TurnDeadlineAt g) deadline)
           (d_game_sessions d)))"

definition ListResettingSessionsDueBy :: "time \<Rightarrow> DB \<Rightarrow> error + GameSession list" where
  "ListResettingSessionsDueBy deadline d =
     mapE gameSessionRecordToDomain
       (sort_key (\<lambda>g. case gs_RematchDeadlineAt g of None \<Rightarrow> 0 | Some t \<Rightarrow> t)
         (filter (\<lambda>g. gs_Status g = SessionStatus_str SessionStatusResetting
              \<and> due (gs_RematchDeadlineAt g) deadline)
           (d_game_sessions d)))"

definition ListSessionsByStatus :: "SessionStatus \<Rightarrow> DB \<Rightarrow> error + GameSession list" where
  "ListSessionsByStatus status d =
     mapE gameSessionRecordToDomain
       (sort_key gs_UpdatedAt
         (filter (\<lambda>g. gs_Status g = SessionStatus_str status) (d_game_sessions d)))"

definition CountSessions :: "DB \<Rightarrow> error + int" where
  "CountSessions d = Inr (int (length (d_game_sessions d)))"

text \<open>
  Deleting sessions cascades to their states, logs and votes, and clears the rooms that name
  them as current (\<open>ensureForeignKeys\<close>).
\<close>

definition DeleteGameSessionsByRoomID :: "string \<Rightarrow> DB \<Rightarrow> error + DB" where
  "DeleteGameSessionsByRoomID roomID d =
     (let gone = (\<lambda>i. list_ex (\<lambda>g. gs_ID g = i \<and> gs_RoomID g = roomID) (d_game_sessions d));
          clear = (\<lambda>r. case rr_CurrentSessionID r of
                     None \<Rightarrow> r
                   | Some i \<Rightarrow> if gone i then r\<lparr>rr_CurrentSessionID := None\<rparr> else r)
      in Inr (d\<lparr>d_game_sessions := tbl_delete (\<lambda>g. gs_RoomID g = roomID) (d_game_sessions d),
               d_rooms := map clear (d_rooms d),
               d_player_states := tbl_delete (\<lambda>p. gone (psr_SessionID p)) (d_player_states d),
               d_dealer_states := tbl_delete (\<lambda>p. gone (dsr_SessionID p)) (d_dealer_states d),
               d_action_logs := tbl_delete (\<lambda>a. gone (alr_SessionID a)) (d_action_logs d),
               d_rematch_votes := tbl_delete (\<lambda>v. gone (rvr_SessionID v)) (d_rematch_votes d),
               d_round_logs := tbl_delete (\<lambda>l. gone (rlr_SessionID l)) (d_round_logs d)\<rparr>))"

subsection \<open>Player and dealer states\<close>

definition CreatePlayerState :: "PlayerState \<Rightarrow> DB \<Rightarrow> error + DB" where
  "CreatePlayerState p d =
     mapR (\<lambda>t. d\<lparr>d_player_states := t\<rparr>)
       (insert_row player_state_clash (\<lambda>r. session_exists d (psr_SessionID r))
         (playerStateRecordFromDomain p) (d_player_states d))"

definition UpdatePlayerState :: "PlayerState \<Rightarrow> DB \<Rightarrow> error + DB" where
  "UpdatePlayerState p d =
     mapR (\<lambda>t. d\<lparr>d_player_states := t\<rparr>)
       (save_row psr_key player_state_clash (\<lambda>r. session_exists d (psr_SessionID r))
         (playerStateRecordFromDomain p) (d_player_states d))"

definition GetPlayerState :: "string \<Rightarrow> string \<Rightarrow> DB \<Rightarrow> error + PlayerState" where
  "GetPlayerState sessionID userID d =
     (case gorm_First (\<lambda>p. psr_key p = (sessionID, userID)) (d_player_states d) of
        Inl e \<Rightarrow> Inl e | Inr rec \<Rightarrow> playerStateRecordToDomain rec)"

definition ListPlayerStatesBySessionID :: "string \<Rightarrow> DB \<Rightarrow> error + PlayerState list" where
  "ListPlayerStatesBySessionID sessionID d =
     mapE playerStateRecordToDomain
       (sort_key psr_SeatNo (filter (\<lambda>p. psr_SessionID p = sessionID) (d_player_states d)))"

definition CreateDealerState :: "DealerState \<Rightarrow> DB \<Rightarrow> error + DB" where
  "CreateDealerState x d =
     mapR (\<lambda>t. d\<lparr>d_dealer_states := t\<rparr>)
       (insert_row dealer_state_clash (\<lambda>r. session_exists d (dsr_SessionID r))
         (dealerStateRecordFromDomain x) (d_dealer_states d))"

definition UpdateDealerState :: "DealerState \<Rightarrow> DB \<Rightarrow> error + DB" where
  "UpdateDealerState x d =
     mapR (\<lambda>t. d\<lparr>d_dealer_states := t\<rparr>)
       (save_row dsr_SessionID dealer_state_clash (\<lambda>r. session_exists d (dsr_SessionID r))
         (dealerStateRecordFromDomain x) (d_dealer_states d))"

definition GetDealerState :: "string \<Rightarrow> DB \<Rightarrow> error + DealerState" where
  "GetDealerState sessionID d =
     (case gorm_First (\<lambda>p. dsr_SessionID p = sessionID) (d_dealer_states d) of
        Inl e \<Rightarrow> Inl e | Inr rec \<Rightarrow> dealerStateRecordToDomain rec)"

subsection \<open>Action logs, votes and round logs\<close>

definition next_serial :: "DB \<Rightarrow> nat" where
  "next_serial d = Suc (d_serial d)"

definition CreateActionLog :: "ActionLog \<Rightarrow> DB \<Rightarrow> error + DB" where
  "CreateActionLog a d =
     mapR (\<lambda>t. d\<lparr>d_action_logs := t, d_serial := next_serial d\<rparr>)
       (insert_row action_log_clash (\<lambda>r. session_exists d (alr_SessionID r))
         ((actionLogRecordFromDomain a)\<lparr>alr_ID := next_serial d\<rparr>) (d_action_logs d))"

definition GetActionLogByActionID ::
    "string \<Rightarrow> string \<Rightarrow> string \<Rightarrow> DB \<Rightarrow> error + ActionLog" where
  "GetActionLogByActionID sessionID actorUserID actionID d =
     (case gorm_First (\<lambda>a. alr_SessionID a = sessionID \<and> alr_ActorUserID a = actorUserID
            \<and> alr_ActionID a = actionID) (d_action_logs d) of
        Inl e \<Rightarrow> Inl e | Inr rec \<Rightarrow> actionLogRecordToDomain rec)"

text \<open>
  \<open>Assign(...).FirstOrCreate\<close>: the row of this session and user gets the new vote, or is
  created with it.
\<close>

definition UpsertRematchVote :: "time \<Rightarrow> RematchVote \<Rightarrow> DB \<Rightarrow> error + DB" where
  "UpsertRematchVote now vote d =
     (let row = rematchVoteRecordFromDomain vote;
          mine = (\<lambda>v. rvr_key v = rvr_key row)
      in case tbl_first mine (d_rematch_votes d) of
           Some old \<Rightarrow>
             Inr (d\<lparr>d_rematch_votes := tbl_save rvr_key
                      (old\<lparr>rvr_Agree := rvr_Agree row, rvr_UpdatedAt := now\<rparr>)
                      (d_rematch_votes d)\<rparr>)
         | None \<Rightarrow>
             if \<not> session_exists d (rvr_SessionID row) then Inl foreign_key_violation
             else Inr (d\<lparr>d_rematch_votes := d_rematch_votes d @
                           [row\<lparr>rvr_ID := next_serial d, rvr_CreatedAt := now, rvr_UpdatedAt := now\<rparr>],
                         d_serial := next_serial d\<rparr>))"

definition ListRematchVotes :: "string \<Rightarrow> DB \<Rightarrow> error + RematchVote list" where
  "ListRematchVotes sessionID d =
     Inr (map rematchVoteRecordToDomain
       (filter (\<lambda>v. rvr_SessionID v = sessionID) (d_rematch_votes d)))"

definition CreateRoundLog :: "RoundLog \<Rightarrow> DB \<Rightarrow> error + DB" where
  "CreateRoundLog l d =
     (case roundLogRecordFromDomain l of
        Inl e \<Rightarrow> Inl e
      | Inr row \<Rightarrow>
          let row' = (if rlr_ID row = 0 then row\<lparr>rlr_ID := next_serial d\<rparr> else row) in
          mapR (\<lambda>t. d\<lparr>d_round_logs := t, d_serial := next_serial d\<rparr>)
            (insert_row round_log_clash (\<lambda>r. session_exists d (rlr_SessionID r)) row'
              (d_round_logs d)))"

definition GetRoundLog :: "string \<Rightarrow> int \<Rightarrow> DB \<Rightarrow> error + RoundLog" where
  "GetRoundLog sessionID roundNo d =
     mapR roundLogRecordToDomain
       (gorm_First (\<lambda>l. rlr_SessionID l = sessionID \<and> rlr_RoundNo l = roundNo) (d_round_logs d))"

text \<open>The join with \<open>game_sessions\<close> keeps the logs whose session belongs to the room.\<close>

definition ListRoundLogsByRoomID :: "string \<Rightarrow> DB \<Rightarrow> error + RoundLog list" where
  "ListRoundLogsByRoomID roomID d =
     Inr (map roundLogRecordToDomain
       (sort_key (\<lambda>l. - rlr_CreatedAt l)
         (filter (\<lambda>l. list_ex (\<lambda>g. gs_ID g = rlr_SessionID l \<and> gs_RoomID g = roomID)
             (d_game_sessions d)) (d_round_logs d))))"

subsection \<open>Users and authentication sessions (user\_repository.go, user\_session\_repository.go)\<close>

definition CreateUser :: "User \<Rightarrow> DB \<Rightarrow> error + DB" where
  "CreateUser user d =
     (case insert_row user_clash (\<lambda>_. True) (userRecordFromDomain user) (d_users d) of
        Inl e \<Rightarrow> Inl (mapErr e)
      | Inr t \<Rightarrow> Inr (d\<lparr>d_users := t\<rparr>))"

definition GetUserByUsername :: "string \<Rightarrow> DB \<Rightarrow> error + User" where
  "GetUserByUsername username d =
     (case gorm_First (\<lambda>u. ur_Username u = username) (d_users d) of
        Inl e \<Rightarrow> Inl e | Inr rec \<Rightarrow> userRecordToDomain rec)"

definition GetUserByID :: "string \<Rightarrow> DB \<Rightarrow> error + User" where
  "GetUserByID userID d =
     (case gorm_First (\<lambda>u. ur_ID u = userID) (d_users d) of
        Inl e \<Rightarrow> Inl e | Inr rec \<Rightarrow> userRecordToDomain rec)"

definition UpsertSession :: "AuthSession \<Rightarrow> DB \<Rightarrow> error + DB" where
  "UpsertSession session d =
     mapR (\<lambda>t. d\<lparr>d_sessions := t\<rparr>)
       (save_row sr_ID (\<lambda>a b. sr_ID a = sr_ID b) (\<lambda>r. user_exists d (sr_UserID r))
         (authSessionRecordFromDomain session) (d_sessions d))"

definition GetAuthSession :: "string \<Rightarrow> DB \<Rightarrow> error + AuthSession" where
  "GetAuthSession sessionID d =
     (case gorm_First (\<lambda>s. sr_ID s = sessionID) (d_sessions d) of
        Inl e \<Rightarrow> Inl e | Inr rec \<Rightarrow> authSessionRecordToDomain rec)"

definition DeleteSession :: "string \<Rightarrow> DB \<Rightarrow> error + DB" where
  "DeleteSession sessionID d =
     Inr (d\<lparr>d_sessions := tbl_delete (\<lambda>s. sr_ID s = sessionID) (d_sessions d)\<rparr>)"

definition DeleteSessionsByUserID :: "string \<Rightarrow> DB \<Rightarrow> error + DB" where
  "DeleteSessionsByUserID userID d =
     Inr (d\<lparr>d_sessions := tbl_delete (\<lambda>s. sr_UserID s = userID) (d_sessions d)\<rparr>)"

definition DeleteExpiredSessions :: "time \<Rightarrow> DB \<Rightarrow> error + DB" where
  "DeleteExpiredSessions now d =
     Inr (d\<lparr>d_sessions := tbl_delete (\<lambda>s. sr_ExpiresAt s \<le> now) (d_sessions d)\<rparr>)"

end
