(* ===== verification/Store_Laws.thy ===== *)
theory Store_Laws
  imports Pg_Store
begin

text \<open>
  What the repository promises. The contract \<open>repository\<close> (what is written is read back, other
  keys are untouched) holds for every table the game is played on, for inserts and for saves; the
  conditional update of a session is the compare-and-set of \<open>versioned_store\<close>. The unique keys
  and the foreign keys of the schema hold after every operation (\<open>db_ok\<close>).
\<close>

subsection \<open>Statements\<close>

lemma insert_row_Inr:
  "insert_row clash fk r t = Inr t' \<longleftrightarrow> (\<forall>x \<in> set t. \<not> clash r x) \<and> fk r \<and> t' = t @ [r]"
  by (auto simp: insert_row_def list_ex_iff)

lemma save_row_Inr:
  "save_row key clash fk r t = Inr t' \<longleftrightarrow>
     (\<forall>x \<in> set t. key x \<noteq> key r \<longrightarrow> \<not> clash r x) \<and> fk r \<and> t' = tbl_save key r t"
  by (auto simp: save_row_def list_ex_iff)

lemmas stmt_simps = insert_row_Inr save_row_Inr

lemma gorm_First_Inr: "gorm_First P t = Inr r \<longleftrightarrow> tbl_first P t = Some r"
  by (simp add: gorm_First_def split: option.splits)

lemma gorm_First_Inl: "gorm_First P t = Inl e \<longleftrightarrow> tbl_first P t = None \<and> e = ErrNotFound"
  by (auto simp: gorm_First_def mapErr_def split: option.splits)

lemma gorm_First_append:
  "(\<forall>x \<in> set t. \<not> P x) \<Longrightarrow> gorm_First P (t @ [r]) = (if P r then Inr r else gorm_First P t)"
  by (auto simp: gorm_First_def tbl_first_append tbl_first_None [THEN iffD2] split: option.splits)

lemma gorm_First_insert:
  assumes "insert_row clash fk r t = Inr t'" "\<And>x. key x = key r \<Longrightarrow> clash r x"
  shows "gorm_First (\<lambda>x. key x = k) t' =
    (if k = key r then Inr r else gorm_First (\<lambda>x. key x = k) t)"
proof -
  from assms have t': "t' = t @ [r]" and new: "\<forall>x \<in> set t. key x \<noteq> key r"
    by (auto simp: insert_row_Inr)
  show ?thesis
  proof (cases "k = key r")
    case True
    with new have "\<forall>x \<in> set t. \<not> key x = k" by simp
    from gorm_First_append [OF this, of r] True t' show ?thesis by simp
  next
    case False
    with t' show ?thesis
      by (auto simp: gorm_First_def tbl_first_append split: option.splits)
  qed
qed

lemma gorm_First_save:
  assumes "save_row key clash fk r t = Inr t'"
  shows "gorm_First (\<lambda>x. key x = k) t' =
    (if k = key r then Inr r else gorm_First (\<lambda>x. key x = k) t)"
  using assms by (auto simp: save_row_Inr gorm_First_def tbl_first_save)

subsection \<open>What is written is read back\<close>

text \<open>
  The two ways the repository keeps its contract: a table \<open>tab\<close> of rows with key \<open>rkey\<close>, written
  by an insert or by a save of the row \<open>enc v\<close> and read with \<open>dec\<close>.
\<close>

lemma repository_insert:
  assumes wr: "\<And>v d d'. wr v d = Inr d' \<Longrightarrow>
      \<exists>t. insert_row clash (fk d) (enc v) (tab d) = Inr t \<and> tab d' = t"
    and rd: "\<And>k d. rd k d =
      (case gorm_First (\<lambda>x. rkey x = k) (tab d) of Inl e \<Rightarrow> Inl e | Inr x \<Rightarrow> dec x)"
    and dec: "\<And>v. good v \<Longrightarrow> dec (enc v) = Inr (stored v)"
    and key: "\<And>v. rkey (enc v) = key v"
    and clash: "\<And>r x. rkey x = rkey r \<Longrightarrow> clash r x"
  shows "repository rd wr key good stored"
proof
  fix v s s' k
  assume v: "good v" "wr v s = Inr s'"
  from wr [OF this(2)] obtain t
    where t: "insert_row clash (fk s) (enc v) (tab s) = Inr t" "tab s' = t" by blast
  from gorm_First_insert [where key = rkey, OF t(1) clash, of k] t(2) v(1)
  show "rd k s' = (if k = key v then Inr (stored v) else rd k s)"
    by (simp add: rd dec key)
qed

lemma repository_save:
  assumes wr: "\<And>v d d'. wr v d = Inr d' \<Longrightarrow>
      \<exists>t. save_row rkey clash (fk d) (enc v) (tab d) = Inr t \<and> tab d' = t"
    and rd: "\<And>k d. rd k d =
      (case gorm_First (\<lambda>x. rkey x = k) (tab d) of Inl e \<Rightarrow> Inl e | Inr x \<Rightarrow> dec x)"
    and dec: "\<And>v. good v \<Longrightarrow> dec (enc v) = Inr (stored v)"
    and key: "\<And>v. rkey (enc v) = key v"
  shows "repository rd wr key good stored"
proof
  fix v s s' k
  assume v: "good v" "wr v s = Inr s'"
  from wr [OF this(2)] obtain t
    where t: "save_row rkey clash (fk s) (enc v) (tab s) = Inr t" "tab s' = t" by blast
  from gorm_First_save [OF t(1), of k] t(2) v(1)
  show "rd k s' = (if k = key v then Inr (stored v) else rd k s)"
    by (simp add: rd dec key)
qed

abbreviation valid_room :: "Room \<Rightarrow> bool" where
  "valid_room r \<equiv> RoomStatus_IsValid (room_Status r)"

abbreviation valid_session :: "GameSession \<Rightarrow> bool" where
  "valid_session s \<equiv> SessionStatus_IsValid (sess_Status s) \<and> sess_ResultSnapshot s \<noteq> Some []"

abbreviation valid_player :: "PlayerState \<Rightarrow> bool" where
  "valid_player p \<equiv> PlayerStatus_IsValid (ps_Status p) \<and> pred_option Outcome_IsValid (ps_Outcome p)"

abbreviation valid_room_player :: "RoomPlayer \<Rightarrow> bool" where
  "valid_room_player p \<equiv> RoomPlayerStatus_IsValid (rp_Status p)"

lemma enc_keys [simp]:
  "rr_ID (roomRecordFromDomain r) = room_ID r"
  "rpr_key (roomPlayerRecordFromDomain p) = (rp_RoomID p, rp_UserID p)"
  "gs_ID (gameSessionRecordFromDomain s) = sess_ID s"
  "psr_key (playerStateRecordFromDomain q) = (ps_SessionID q, ps_UserID q)"
  "dsr_SessionID (dealerStateRecordFromDomain x) = ds_SessionID x"
  "sr_ID (authSessionRecordFromDomain a) = as_ID a"
  "ur_ID (userRecordFromDomain u) = user_ID u"
  by (simp_all add: roomRecordFromDomain_def roomPlayerRecordFromDomain_def rpr_key_def
      gameSessionRecordFromDomain_def playerStateRecordFromDomain_def psr_key_def
      dealerStateRecordFromDomain_def authSessionRecordFromDomain_def userRecordFromDomain_def)

text \<open>GORM's clock in the saved row is the clock in the saved object.\<close>

lemma room_clock: "(roomRecordFromDomain v)\<lparr>rr_UpdatedAt := now\<rparr> =
    roomRecordFromDomain (v\<lparr>room_UpdatedAt := now\<rparr>)"
  by (simp add: roomRecordFromDomain_def)

lemma session_clock: "(gameSessionRecordFromDomain v)\<lparr>gs_UpdatedAt := now\<rparr> =
    gameSessionRecordFromDomain (v\<lparr>sess_UpdatedAt := now\<rparr>)"
  by (simp add: gameSessionRecordFromDomain_def)

lemmas clash_defs =
  room_clash_def room_player_clash_def session_clash_def player_state_clash_def
  dealer_state_clash_def user_clash_def action_log_clash_def round_log_clash_def

interpretation rooms_created: repository GetRoom CreateRoom room_ID valid_room id
  by (rule repository_insert [where clash = room_clash and fk = room_fk
        and enc = roomRecordFromDomain and tab = d_rooms and rkey = rr_ID
        and dec = roomRecordToDomain])
    (auto simp: CreateRoom_def GetRoom_def room_roundtrip clash_defs)

interpretation rooms: repository GetRoom "UpdateRoom now" room_ID valid_room
    "\<lambda>r. r\<lparr>room_UpdatedAt := now\<rparr>" for now
  by (rule repository_save [where clash = room_clash and fk = room_fk
        and enc = "\<lambda>v. roomRecordFromDomain (v\<lparr>room_UpdatedAt := now\<rparr>)" and tab = d_rooms
        and rkey = rr_ID and dec = roomRecordToDomain])
    (auto simp: UpdateRoom_def GetRoom_def room_roundtrip room_clock)

interpretation room_players_created: repository "\<lambda>(r, u). GetRoomPlayer r u" CreateRoomPlayer
    "\<lambda>p. (rp_RoomID p, rp_UserID p)" valid_room_player id
  by (rule repository_insert [where clash = room_player_clash
        and fk = "\<lambda>d r. room_exists d (rpr_RoomID r)"
        and enc = roomPlayerRecordFromDomain and tab = d_room_players and rkey = rpr_key
        and dec = roomPlayerRecordToDomain])
    (auto simp: CreateRoomPlayer_def GetRoomPlayer_def roomPlayer_roundtrip clash_defs)

interpretation room_players: repository "\<lambda>(r, u). GetRoomPlayer r u" UpdateRoomPlayer
    "\<lambda>p. (rp_RoomID p, rp_UserID p)" valid_room_player id
  by (rule repository_save [where clash = room_player_clash
        and fk = "\<lambda>d r. room_exists d (rpr_RoomID r)"
        and enc = roomPlayerRecordFromDomain and tab = d_room_players and rkey = rpr_key
        and dec = roomPlayerRecordToDomain])
    (auto simp: UpdateRoomPlayer_def GetRoomPlayer_def roomPlayer_roundtrip)

interpretation game_sessions_created: repository GetSession CreateSession sess_ID valid_session id
  by (rule repository_insert [where clash = session_clash
        and fk = "\<lambda>d g. room_exists d (gs_RoomID g)"
        and enc = gameSessionRecordFromDomain and tab = d_game_sessions and rkey = gs_ID
        and dec = gameSessionRecordToDomain])
    (auto simp: CreateSession_def GetSession_def session_roundtrip clash_defs)

interpretation game_sessions: repository GetSession "UpdateSession now" sess_ID valid_session
    "\<lambda>s. s\<lparr>sess_UpdatedAt := now\<rparr>" for now
  by (rule repository_save [where clash = session_clash
        and fk = "\<lambda>d g. room_exists d (gs_RoomID g)"
        and enc = "\<lambda>v. gameSessionRecordFromDomain (v\<lparr>sess_UpdatedAt := now\<rparr>)"
        and tab = d_game_sessions and rkey = gs_ID and dec = gameSessionRecordToDomain])
    (auto simp: UpdateSession_def GetSession_def session_roundtrip session_clock)

interpretation player_states_created: repository "\<lambda>(s, u). GetPlayerState s u" CreatePlayerState
    "\<lambda>p. (ps_SessionID p, ps_UserID p)" valid_player id
  by (rule repository_insert [where clash = player_state_clash
        and fk = "\<lambda>d r. session_exists d (psr_SessionID r)"
        and enc = playerStateRecordFromDomain and tab = d_player_states and rkey = psr_key
        and dec = playerStateRecordToDomain])
    (auto simp: CreatePlayerState_def GetPlayerState_def player_roundtrip clash_defs)

interpretation player_states: repository "\<lambda>(s, u). GetPlayerState s u" UpdatePlayerState
    "\<lambda>p. (ps_SessionID p, ps_UserID p)" valid_player id
  by (rule repository_save [where clash = player_state_clash
        and fk = "\<lambda>d r. session_exists d (psr_SessionID r)"
        and enc = playerStateRecordFromDomain and tab = d_player_states and rkey = psr_key
        and dec = playerStateRecordToDomain])
    (auto simp: UpdatePlayerState_def GetPlayerState_def player_roundtrip)

interpretation dealer_states_created: repository GetDealerState CreateDealerState ds_SessionID
    "\<lambda>_. True" id
  by (rule repository_insert [where clash = dealer_state_clash
        and fk = "\<lambda>d r. session_exists d (dsr_SessionID r)"
        and enc = dealerStateRecordFromDomain and tab = d_dealer_states and rkey = dsr_SessionID
        and dec = dealerStateRecordToDomain])
    (auto simp: CreateDealerState_def GetDealerState_def dealer_roundtrip clash_defs)

interpretation dealer_states: repository GetDealerState UpdateDealerState ds_SessionID
    "\<lambda>_. True" id
  by (rule repository_save [where clash = dealer_state_clash
        and fk = "\<lambda>d r. session_exists d (dsr_SessionID r)"
        and enc = dealerStateRecordFromDomain and tab = d_dealer_states and rkey = dsr_SessionID
        and dec = dealerStateRecordToDomain])
    (auto simp: UpdateDealerState_def GetDealerState_def dealer_roundtrip)

interpretation users: repository GetUserByID CreateUser user_ID "\<lambda>_. True" id
  by (rule repository_insert [where clash = user_clash and fk = "\<lambda>_ _. True"
        and enc = userRecordFromDomain and tab = d_users and rkey = ur_ID
        and dec = userRecordToDomain])
    (auto simp: CreateUser_def GetUserByID_def user_roundtrip clash_defs split: sum.splits)

interpretation auth_sessions: repository GetAuthSession UpsertSession as_ID "\<lambda>_. True" id
  by (rule repository_save [where clash = "\<lambda>a b. sr_ID a = sr_ID b"
        and fk = "\<lambda>d r. user_exists d (sr_UserID r)"
        and enc = authSessionRecordFromDomain and tab = d_sessions and rkey = sr_ID
        and dec = authSessionRecordToDomain])
    (auto simp: UpsertSession_def GetAuthSession_def authSession_roundtrip)

subsection \<open>The conditional update is a compare-and-set\<close>

definition session_row :: "DB \<Rightarrow> string \<Rightarrow> GameSessionRecord option" where
  "session_row d i = tbl_first (\<lambda>g. gs_ID g = i) (d_game_sessions d)"

lemma tbl_first_upd:
  assumes "distinct (map key t)" "\<And>x. key (f x) = key x"
  shows "tbl_first (\<lambda>x. key x = i) (map (\<lambda>x. if key x = k \<and> P x then f x else x) t) =
    (case tbl_first (\<lambda>x. key x = i) t of
       None \<Rightarrow> None | Some x \<Rightarrow> Some (if i = k \<and> P x then f x else x))"
  using assms(1) by (induction t) (auto simp: assms(2))

lemma length_filter_key:
  assumes "distinct (map key t)"
  shows "length (filter (\<lambda>x. key x = k \<and> P x) t) =
    (case tbl_first (\<lambda>x. key x = k) t of None \<Rightarrow> 0 | Some x \<Rightarrow> if P x then 1 else 0)"
  using assms
proof (induction t)
  case (Cons x t)
  show ?case
  proof (cases "key x = k")
    case True
    with Cons.prems have "\<forall>y \<in> set t. key y \<noteq> k" by (auto simp: image_iff)
    then have "filter (\<lambda>x. key x = k \<and> P x) t = []" by (auto simp: filter_empty_conv)
    with True show ?thesis by simp
  next
    case False
    with Cons show ?thesis by simp
  qed
qed simp

lemma session_columns_id [simp]: "gs_ID (session_columns row g) = gs_ID g"
  by (simp add: session_columns_def)

interpretation session_cas: versioned_store session_row
    "\<lambda>d. distinct (map gs_ID (d_game_sessions d))" sess_ID gs_Version sess_Version
    "\<lambda>s. session_columns (gameSessionRecordFromDomain s)" UpdateSessionIfVersion
proof
  fix w :: GameSession and v :: GameSessionRecord
  show "gs_Version (session_columns (gameSessionRecordFromDomain w) v) = sess_Version w"
    by (simp add: session_columns_def gameSessionRecordFromDomain_def)
next
  fix s :: DB and w :: GameSession and n
  assume "distinct (map gs_ID (d_game_sessions s))"
  moreover have "map gs_ID (d_game_sessions (fst (UpdateSessionIfVersion w n s)))
      = map gs_ID (d_game_sessions s)"
    by (simp add: UpdateSessionIfVersion_def Let_def)
  ultimately show "distinct (map gs_ID (d_game_sessions (fst (UpdateSessionIfVersion w n s))))"
    by simp
next
  fix s :: DB and w :: GameSession and v n
  assume *: "distinct (map gs_ID (d_game_sessions s))" "session_row s (sess_ID w) = Some v"
    "gs_Version v = n"
  let ?row = "gameSessionRecordFromDomain w"
  have upd: "session_row (fst (UpdateSessionIfVersion w n s)) i =
      (case session_row s i of None \<Rightarrow> None
       | Some x \<Rightarrow> Some (if i = sess_ID w \<and> gs_Version x = n then session_columns ?row x else x))"
    for i
    using tbl_first_upd [OF *(1), of "session_columns ?row" i "sess_ID w" "\<lambda>g. gs_Version g = n"]
    by (simp add: UpdateSessionIfVersion_def session_row_def Let_def)
  have "snd (UpdateSessionIfVersion w n s)"
    using length_filter_key [OF *(1), of "sess_ID w" "\<lambda>g. gs_Version g = n"] *(2,3)
    by (simp add: UpdateSessionIfVersion_def session_row_def Let_def)
  moreover have "session_row (fst (UpdateSessionIfVersion w n s)) =
      (session_row s)(sess_ID w \<mapsto> session_columns ?row v)"
    using *(2,3) by (auto simp: upd fun_eq_iff split: option.splits)
  ultimately show "snd (UpdateSessionIfVersion w n s) \<and>
      session_row (fst (UpdateSessionIfVersion w n s)) =
      (session_row s)(sess_ID w \<mapsto> session_columns ?row v)" ..
next
  fix s :: DB and w :: GameSession and n
  assume d: "distinct (map gs_ID (d_game_sessions s))"
    and miss: "\<And>v. session_row s (sess_ID w) = Some v \<Longrightarrow> gs_Version v \<noteq> n"
  have "length (filter (\<lambda>g. gs_ID g = sess_ID w \<and> gs_Version g = n) (d_game_sessions s)) = 0"
    using length_filter_key [OF d, of "sess_ID w" "\<lambda>g. gs_Version g = n"] miss
    by (auto simp: session_row_def split: option.splits)
  moreover from this have "map (\<lambda>g. if gs_ID g = sess_ID w \<and> gs_Version g = n
      then session_columns (gameSessionRecordFromDomain w) g else g) (d_game_sessions s)
      = d_game_sessions s"
    by (intro map_idI) (auto simp: filter_empty_conv)
  ultimately show "UpdateSessionIfVersion w n s = (s, False)"
    by (simp add: UpdateSessionIfVersion_def Let_def)
qed

subsection \<open>Properties\<close>

theorem session_update_exclusive:
  assumes "distinct (map gs_ID (d_game_sessions d))"
    and "UpdateSessionIfVersion s n d = (d', True)"
    and "sess_Version s \<noteq> n" "sess_ID s' = sess_ID s"
  shows "UpdateSessionIfVersion s' n d' = (d', False)"
  using assms by (rule session_cas.cas_exclusive)

theorem session_update_exclusive_witness:
  "\<exists>d'. UpdateSessionIfVersion (IncrementVersion two_card_session) 1
       (empty_db\<lparr>d_game_sessions := [gameSessionRecordFromDomain two_card_session]\<rparr>) = (d', True)
     \<and> UpdateSessionIfVersion two_card_session 1 d' = (d', False)"
proof -
  let ?d = "empty_db\<lparr>d_game_sessions := [gameSessionRecordFromDomain two_card_session]\<rparr>"
  obtain d' b where upd: "UpdateSessionIfVersion (IncrementVersion two_card_session) 1 ?d = (d', b)"
    by (cases "UpdateSessionIfVersion (IncrementVersion two_card_session) 1 ?d")
  have "snd (UpdateSessionIfVersion (IncrementVersion two_card_session) 1 ?d)" by code_simp
  with upd have upd: "UpdateSessionIfVersion (IncrementVersion two_card_session) 1 ?d = (d', True)" by simp
  have "distinct (map gs_ID (d_game_sessions ?d))" by simp
  from session_update_exclusive [OF this upd, of two_card_session] upd show ?thesis
    by (simp add: IncrementVersion_def two_card_session_def wrap64_def)
qed

end
