(* ===== verification/Store_Schema.thy ===== *)
theory Store_Schema
  imports Store_Laws
begin

text \<open>
  The constraints of the schema as an invariant: \<open>db_ok\<close> says that the primary keys and unique
  indexes are unique and that every foreign key names an existing row. \<open>db_write\<close> is the relation
  of one write of the repository, with a rule per operation; every write keeps the invariant,
  so every database a program reaches from the empty one satisfies it.
\<close>

definition unique_by :: "('r \<Rightarrow> 'k) \<Rightarrow> 'r list \<Rightarrow> bool" where
  "unique_by key t = distinct (map key t)"

definition keys_ok :: "DB \<Rightarrow> bool" where
  "keys_ok d \<longleftrightarrow>
     unique_by rr_ID (d_rooms d) \<and>
     unique_by rpr_key (d_room_players d) \<and>
     unique_by (\<lambda>p. (rpr_RoomID p, rpr_SeatNo p)) (d_room_players d) \<and>
     unique_by gs_ID (d_game_sessions d) \<and>
     unique_by (\<lambda>g. (gs_RoomID g, gs_RoundNo g)) (d_game_sessions d) \<and>
     unique_by psr_key (d_player_states d) \<and>
     unique_by (\<lambda>p. (psr_SessionID p, psr_SeatNo p)) (d_player_states d) \<and>
     unique_by dsr_SessionID (d_dealer_states d) \<and>
     unique_by (\<lambda>a. (alr_SessionID a, alr_ActorUserID a, alr_ActionID a)) (d_action_logs d) \<and>
     unique_by rvr_key (d_rematch_votes d) \<and>
     unique_by (\<lambda>l. (rlr_SessionID l, rlr_RoundNo l)) (d_round_logs d) \<and>
     unique_by ur_ID (d_users d) \<and>
     unique_by ur_Username (d_users d) \<and>
     unique_by sr_ID (d_sessions d)"

definition refs_ok :: "DB \<Rightarrow> bool" where
  "refs_ok d \<longleftrightarrow>
     (\<forall>r \<in> set (d_rooms d). room_fk d r) \<and>
     (\<forall>p \<in> set (d_room_players d). room_exists d (rpr_RoomID p)) \<and>
     (\<forall>g \<in> set (d_game_sessions d). room_exists d (gs_RoomID g)) \<and>
     (\<forall>p \<in> set (d_player_states d). session_exists d (psr_SessionID p)) \<and>
     (\<forall>x \<in> set (d_dealer_states d). session_exists d (dsr_SessionID x)) \<and>
     (\<forall>a \<in> set (d_action_logs d). session_exists d (alr_SessionID a)) \<and>
     (\<forall>v \<in> set (d_rematch_votes d). session_exists d (rvr_SessionID v)) \<and>
     (\<forall>l \<in> set (d_round_logs d). session_exists d (rlr_SessionID l)) \<and>
     (\<forall>s \<in> set (d_sessions d). user_exists d (sr_UserID s))"

definition db_ok :: "DB \<Rightarrow> bool" where
  "db_ok d \<longleftrightarrow> keys_ok d \<and> refs_ok d"

subsection \<open>One write\<close>

inductive db_write :: "DB \<Rightarrow> DB \<Rightarrow> bool" where
  w_CreateRoom: "CreateRoom r d = Inr d' \<Longrightarrow> db_write d d'"
| w_UpdateRoom: "UpdateRoom now r d = Inr d' \<Longrightarrow> db_write d d'"
| w_DeleteRoomPlayers: "DeleteRoomPlayersByRoomID i d = Inr d' \<Longrightarrow> db_write d d'"
| w_CreateRoomPlayer: "CreateRoomPlayer p d = Inr d' \<Longrightarrow> db_write d d'"
| w_UpdateRoomPlayer: "UpdateRoomPlayer p d = Inr d' \<Longrightarrow> db_write d d'"
| w_UpdateSessionIfVersion: "UpdateSessionIfVersion s n d = (d', b) \<Longrightarrow> db_write d d'"
| w_CreateSession: "CreateSession s d = Inr d' \<Longrightarrow> db_write d d'"
| w_UpdateSession: "UpdateSession now s d = Inr d' \<Longrightarrow> db_write d d'"
| w_DeleteGameSessions: "DeleteGameSessionsByRoomID i d = Inr d' \<Longrightarrow> db_write d d'"
| w_CreatePlayerState: "CreatePlayerState q d = Inr d' \<Longrightarrow> db_write d d'"
| w_UpdatePlayerState: "UpdatePlayerState q d = Inr d' \<Longrightarrow> db_write d d'"
| w_CreateDealerState: "CreateDealerState x d = Inr d' \<Longrightarrow> db_write d d'"
| w_UpdateDealerState: "UpdateDealerState x d = Inr d' \<Longrightarrow> db_write d d'"
| w_CreateActionLog: "CreateActionLog a d = Inr d' \<Longrightarrow> db_write d d'"
| w_UpsertRematchVote: "UpsertRematchVote now v d = Inr d' \<Longrightarrow> db_write d d'"
| w_CreateRoundLog: "CreateRoundLog l d = Inr d' \<Longrightarrow> db_write d d'"
| w_CreateUser: "CreateUser u d = Inr d' \<Longrightarrow> db_write d d'"
| w_UpsertSession: "UpsertSession a d = Inr d' \<Longrightarrow> db_write d d'"
| w_DeleteSession: "DeleteSession i d = Inr d' \<Longrightarrow> db_write d d'"
| w_DeleteSessionsByUserID: "DeleteSessionsByUserID i d = Inr d' \<Longrightarrow> db_write d d'"
| w_DeleteExpiredSessions: "DeleteExpiredSessions now d = Inr d' \<Longrightarrow> db_write d d'"

subsection \<open>Unique keys\<close>

lemma unique_insert:
  assumes "insert_row clash fk r t = Inr t'" "unique_by key t" "\<And>x. key x = key r \<Longrightarrow> clash r x"
  shows "unique_by key t'"
  using assms by (auto simp: insert_row_Inr unique_by_def)

lemma unique_tbl_save:
  assumes "unique_by pk t" "unique_by key t"
    and "\<And>x. x \<in> set t \<Longrightarrow> pk x \<noteq> pk r \<Longrightarrow> key x \<noteq> key r"
  shows "unique_by key (tbl_save pk r t)"
proof (cases "list_ex (\<lambda>x. pk x = pk r) t")
  case False
  then have "key r \<notin> key ` set t" using assms(3) by (auto simp: list_ex_iff image_iff) metis
  with assms(2) False show ?thesis by (auto simp: unique_by_def tbl_save_def)
next
  case True
  have "distinct (map key (map (\<lambda>x. if pk x = pk r then r else x) t))"
    using assms unfolding unique_by_def
  proof (induction t)
    case (Cons y t)
    have keep: "map (\<lambda>x. if pk x = pk r then r else x) t = t" if "pk y = pk r"
      using that Cons.prems(1) by (intro map_idI) (auto simp: image_iff)
    show ?case
    proof (cases "pk y = pk r")
      case True
      have "pk x \<noteq> pk r" if "x \<in> set t" for x
        using that True Cons.prems(1) by (metis distinct.simps(2) image_eqI image_set list.simps(9))
      then have "key x \<noteq> key r" if "x \<in> set t" for x using that Cons.prems(3) by simp
      then have "key r \<notin> key ` set t" by (metis imageE)
      with keep [OF True] True Cons.prems(2) show ?thesis by (simp del: map_map)
    next
      case False
      have "key y \<noteq> key r" using Cons.prems(3) False by simp
      moreover have "key y \<notin> key ` set t" using Cons.prems(2) by simp
      ultimately have "key y \<noteq> key (if pk x = pk r then r else x)" if "x \<in> set t" for x
        using that by (metis image_eqI)
      then have "key y \<notin> set (map key (map (\<lambda>x. if pk x = pk r then r else x) t))"
        by (simp add: image_iff)
      with False Cons show ?thesis by (simp del: map_map set_map)
    qed
  qed simp
  with True show ?thesis by (simp add: unique_by_def tbl_save_def)
qed

lemma unique_save:
  assumes "save_row pk clash fk r t = Inr t'" "unique_by pk t" "unique_by key t"
    and "\<And>x. key x = key r \<Longrightarrow> clash r x"
  shows "unique_by key t'"
  using assms by (auto simp: save_row_Inr intro!: unique_tbl_save)

lemma unique_delete: "unique_by key t \<Longrightarrow> unique_by key (tbl_delete P t)"
  by (simp add: unique_by_def distinct_tbl_delete)

lemma unique_map: "(\<And>x. key (f x) = key x) \<Longrightarrow> unique_by key (map f t) = unique_by key t"
  by (simp add: unique_by_def comp_def)


lemma keys_insert_save:
  "CreateRoom r d = Inr d' \<Longrightarrow> keys_ok d \<Longrightarrow> keys_ok d'"
  "UpdateRoom now r d = Inr d' \<Longrightarrow> keys_ok d \<Longrightarrow> keys_ok d'"
  "CreateRoomPlayer p d = Inr d' \<Longrightarrow> keys_ok d \<Longrightarrow> keys_ok d'"
  "UpdateRoomPlayer p d = Inr d' \<Longrightarrow> keys_ok d \<Longrightarrow> keys_ok d'"
  "CreateSession s d = Inr d' \<Longrightarrow> keys_ok d \<Longrightarrow> keys_ok d'"
  "UpdateSession now s d = Inr d' \<Longrightarrow> keys_ok d \<Longrightarrow> keys_ok d'"
  "CreatePlayerState q d = Inr d' \<Longrightarrow> keys_ok d \<Longrightarrow> keys_ok d'"
  "UpdatePlayerState q d = Inr d' \<Longrightarrow> keys_ok d \<Longrightarrow> keys_ok d'"
  "CreateDealerState x d = Inr d' \<Longrightarrow> keys_ok d \<Longrightarrow> keys_ok d'"
  "UpdateDealerState x d = Inr d' \<Longrightarrow> keys_ok d \<Longrightarrow> keys_ok d'"
  "CreateActionLog a d = Inr d' \<Longrightarrow> keys_ok d \<Longrightarrow> keys_ok d'"
  "CreateUser u d = Inr d' \<Longrightarrow> keys_ok d \<Longrightarrow> keys_ok d'"
  "UpsertSession y d = Inr d' \<Longrightarrow> keys_ok d \<Longrightarrow> keys_ok d'"
  unfolding keys_ok_def CreateRoom_def UpdateRoom_def CreateRoomPlayer_def UpdateRoomPlayer_def
    CreateSession_def UpdateSession_def CreatePlayerState_def UpdatePlayerState_def
    CreateDealerState_def UpdateDealerState_def CreateActionLog_def CreateUser_def
    UpsertSession_def
  by (auto elim!: unique_insert unique_save simp: clash_defs rpr_key_def psr_key_def
      split: sum.splits)

lemma keys_other_writes:
  "UpdateSessionIfVersion s n d = (d', b) \<Longrightarrow> keys_ok d \<Longrightarrow> keys_ok d'"
  "DeleteRoomPlayersByRoomID i d = Inr d' \<Longrightarrow> keys_ok d \<Longrightarrow> keys_ok d'"
  "DeleteSession i d = Inr d' \<Longrightarrow> keys_ok d \<Longrightarrow> keys_ok d'"
  "DeleteSessionsByUserID i d = Inr d' \<Longrightarrow> keys_ok d \<Longrightarrow> keys_ok d'"
  "DeleteExpiredSessions now d = Inr d' \<Longrightarrow> keys_ok d \<Longrightarrow> keys_ok d'"
  "DeleteGameSessionsByRoomID i d = Inr d' \<Longrightarrow> keys_ok d \<Longrightarrow> keys_ok d'"
  unfolding keys_ok_def UpdateSessionIfVersion_def DeleteRoomPlayersByRoomID_def
    DeleteSession_def DeleteSessionsByUserID_def DeleteExpiredSessions_def
    DeleteGameSessionsByRoomID_def Let_def
  by (auto intro!: unique_delete simp: unique_map session_columns_def split: option.splits)

lemma keys_CreateRoundLog: "CreateRoundLog l d = Inr d' \<Longrightarrow> keys_ok d \<Longrightarrow> keys_ok d'"
  unfolding keys_ok_def CreateRoundLog_def
  by (auto elim!: unique_insert simp: clash_defs Let_def split: sum.splits)

lemma keys_UpsertRematchVote: "UpsertRematchVote now v d = Inr d' \<Longrightarrow> keys_ok d \<Longrightarrow> keys_ok d'"
proof -
  assume w: "UpsertRematchVote now v d = Inr d'" and k: "keys_ok d"
  let ?row = "rematchVoteRecordFromDomain v"
  let ?mine = "\<lambda>x. rvr_key x = rvr_key ?row"
  have u: "unique_by rvr_key (d_rematch_votes d)" using k by (simp add: keys_ok_def)
  have "unique_by rvr_key (d_rematch_votes d')"
  proof (cases "tbl_first ?mine (d_rematch_votes d)")
    case (Some old)
    with w u show ?thesis
      by (auto simp: UpsertRematchVote_def Let_def intro!: unique_tbl_save)
  next
    case None
    then have "\<forall>x \<in> set (d_rematch_votes d). rvr_key x \<noteq> rvr_key ?row"
      by (simp add: tbl_first_None)
    with None w u show ?thesis
      by (auto simp: UpsertRematchVote_def Let_def unique_by_def rvr_key_def image_iff
          split: if_splits) metis
  qed
  with w k show ?thesis
    by (auto simp: UpsertRematchVote_def keys_ok_def Let_def split: option.splits if_splits)
qed

lemma keys_write: "db_write d d' \<Longrightarrow> keys_ok d \<Longrightarrow> keys_ok d'"
  by (cases rule: db_write.cases)
    (auto dest: keys_insert_save keys_other_writes keys_CreateRoundLog keys_UpsertRematchVote)

subsection \<open>Foreign keys\<close>

lemma exists_simps [simp]:
  "room_exists (d\<lparr>d_room_players := t1\<rparr>) = room_exists d"
  "room_exists (d\<lparr>d_game_sessions := t2\<rparr>) = room_exists d"
  "room_exists (d\<lparr>d_player_states := t3\<rparr>) = room_exists d"
  "room_exists (d\<lparr>d_dealer_states := t4\<rparr>) = room_exists d"
  "room_exists (d\<lparr>d_action_logs := t5\<rparr>) = room_exists d"
  "room_exists (d\<lparr>d_rematch_votes := t6\<rparr>) = room_exists d"
  "room_exists (d\<lparr>d_round_logs := t7\<rparr>) = room_exists d"
  "room_exists (d\<lparr>d_users := t8\<rparr>) = room_exists d"
  "room_exists (d\<lparr>d_sessions := t9\<rparr>) = room_exists d"
  "room_exists (d\<lparr>d_serial := n\<rparr>) = room_exists d"
  "session_exists (d\<lparr>d_rooms := u1\<rparr>) = session_exists d"
  "session_exists (d\<lparr>d_room_players := t1\<rparr>) = session_exists d"
  "session_exists (d\<lparr>d_player_states := t3\<rparr>) = session_exists d"
  "session_exists (d\<lparr>d_dealer_states := t4\<rparr>) = session_exists d"
  "session_exists (d\<lparr>d_action_logs := t5\<rparr>) = session_exists d"
  "session_exists (d\<lparr>d_rematch_votes := t6\<rparr>) = session_exists d"
  "session_exists (d\<lparr>d_round_logs := t7\<rparr>) = session_exists d"
  "session_exists (d\<lparr>d_users := t8\<rparr>) = session_exists d"
  "session_exists (d\<lparr>d_sessions := t9\<rparr>) = session_exists d"
  "session_exists (d\<lparr>d_serial := n\<rparr>) = session_exists d"
  "user_exists (d\<lparr>d_rooms := u1\<rparr>) = user_exists d"
  "user_exists (d\<lparr>d_room_players := t1\<rparr>) = user_exists d"
  "user_exists (d\<lparr>d_game_sessions := t2\<rparr>) = user_exists d"
  "user_exists (d\<lparr>d_player_states := t3\<rparr>) = user_exists d"
  "user_exists (d\<lparr>d_dealer_states := t4\<rparr>) = user_exists d"
  "user_exists (d\<lparr>d_action_logs := t5\<rparr>) = user_exists d"
  "user_exists (d\<lparr>d_rematch_votes := t6\<rparr>) = user_exists d"
  "user_exists (d\<lparr>d_round_logs := t7\<rparr>) = user_exists d"
  "user_exists (d\<lparr>d_sessions := t9\<rparr>) = user_exists d"
  "user_exists (d\<lparr>d_serial := n\<rparr>) = user_exists d"
  by (simp_all add: room_exists_def session_exists_def user_exists_def fun_eq_iff)

lemma list_ex_key_save:
  "list_ex (\<lambda>x. key x = i) (tbl_save key r t) \<longleftrightarrow> key r = i \<or> list_ex (\<lambda>x. key x = i) t"
  by (auto simp: list_ex_iff set_tbl_save)

lemma list_ex_key_map:
  "(\<And>x. key (f x) = key x) \<Longrightarrow>
     list_ex (\<lambda>x. key x = i) (map f t) \<longleftrightarrow> list_ex (\<lambda>x. key x = i) t"
  by (simp add: list_ex_iff)

lemma exists_written:
  "room_exists (d\<lparr>d_rooms := d_rooms d @ [r]\<rparr>) i \<longleftrightarrow> rr_ID r = i \<or> room_exists d i"
  "room_exists (d\<lparr>d_rooms := tbl_save rr_ID r (d_rooms d)\<rparr>) i \<longleftrightarrow> rr_ID r = i \<or> room_exists d i"
  "session_exists (d\<lparr>d_game_sessions := d_game_sessions d @ [g]\<rparr>) i \<longleftrightarrow>
     gs_ID g = i \<or> session_exists d i"
  "session_exists (d\<lparr>d_game_sessions := tbl_save gs_ID g (d_game_sessions d)\<rparr>) i \<longleftrightarrow>
     gs_ID g = i \<or> session_exists d i"
  "user_exists (d\<lparr>d_users := d_users d @ [u]\<rparr>) i \<longleftrightarrow> ur_ID u = i \<or> user_exists d i"
  by (auto simp: room_exists_def session_exists_def user_exists_def list_ex_key_save)

lemmas refs_simps = refs_ok_def stmt_simps set_tbl_save exists_written room_fk_def

lemma refs_rooms_users:
  "CreateRoom r d = Inr d' \<Longrightarrow> refs_ok d \<Longrightarrow> refs_ok d'"
  "UpdateRoom now r d = Inr d' \<Longrightarrow> refs_ok d \<Longrightarrow> refs_ok d'"
  "CreateUser u d = Inr d' \<Longrightarrow> refs_ok d \<Longrightarrow> refs_ok d'"
  "CreateSession s d = Inr d' \<Longrightarrow> refs_ok d \<Longrightarrow> refs_ok d'"
  "UpdateSession now s d = Inr d' \<Longrightarrow> refs_ok d \<Longrightarrow> refs_ok d'"
  unfolding CreateRoom_def UpdateRoom_def CreateUser_def CreateSession_def UpdateSession_def
  by (auto simp: refs_simps split: option.splits sum.splits)

lemma refs_details:
  "CreateRoomPlayer p d = Inr d' \<Longrightarrow> refs_ok d \<Longrightarrow> refs_ok d'"
  "UpdateRoomPlayer p d = Inr d' \<Longrightarrow> refs_ok d \<Longrightarrow> refs_ok d'"
  "CreatePlayerState q d = Inr d' \<Longrightarrow> refs_ok d \<Longrightarrow> refs_ok d'"
  "UpdatePlayerState q d = Inr d' \<Longrightarrow> refs_ok d \<Longrightarrow> refs_ok d'"
  "CreateDealerState x d = Inr d' \<Longrightarrow> refs_ok d \<Longrightarrow> refs_ok d'"
  "UpdateDealerState x d = Inr d' \<Longrightarrow> refs_ok d \<Longrightarrow> refs_ok d'"
  "CreateActionLog a d = Inr d' \<Longrightarrow> refs_ok d \<Longrightarrow> refs_ok d'"
  "CreateRoundLog l d = Inr d' \<Longrightarrow> refs_ok d \<Longrightarrow> refs_ok d'"
  "UpsertSession y d = Inr d' \<Longrightarrow> refs_ok d \<Longrightarrow> refs_ok d'"
  unfolding CreateRoomPlayer_def UpdateRoomPlayer_def CreatePlayerState_def UpdatePlayerState_def
    CreateDealerState_def UpdateDealerState_def CreateActionLog_def CreateRoundLog_def
    UpsertSession_def Let_def
  by (auto simp: refs_simps split: option.splits sum.splits)

lemma refs_deletes:
  "DeleteRoomPlayersByRoomID i d = Inr d' \<Longrightarrow> refs_ok d \<Longrightarrow> refs_ok d'"
  "DeleteSession i d = Inr d' \<Longrightarrow> refs_ok d \<Longrightarrow> refs_ok d'"
  "DeleteSessionsByUserID i d = Inr d' \<Longrightarrow> refs_ok d \<Longrightarrow> refs_ok d'"
  "DeleteExpiredSessions now d = Inr d' \<Longrightarrow> refs_ok d \<Longrightarrow> refs_ok d'"
  unfolding DeleteRoomPlayersByRoomID_def DeleteSession_def DeleteSessionsByUserID_def
    DeleteExpiredSessions_def
  by (auto simp: refs_simps split: option.splits)

lemma refs_UpdateSessionIfVersion:
  "UpdateSessionIfVersion s n d = (d', b) \<Longrightarrow> refs_ok d \<Longrightarrow> refs_ok d'"
proof -
  assume w: "UpdateSessionIfVersion s n d = (d', b)" and r: "refs_ok d"
  from w have same: "session_exists d' = session_exists d"
    by (auto simp: UpdateSessionIfVersion_def session_exists_def Let_def list_ex_key_map fun_eq_iff)
  from w r show ?thesis unfolding refs_ok_def room_fk_def same
    by (auto simp: UpdateSessionIfVersion_def Let_def session_columns_def split: if_splits)
qed

lemma refs_UpsertRematchVote:
  "UpsertRematchVote now v d = Inr d' \<Longrightarrow> refs_ok d \<Longrightarrow> refs_ok d'"
  by (auto simp: UpsertRematchVote_def refs_simps rvr_key_def Let_def
      split: option.splits if_splits dest!: tbl_first_Some) metis

text \<open>The cascades of a session's deletion leave no dangling reference.\<close>

lemma refs_DeleteGameSessions:
  "DeleteGameSessionsByRoomID i d = Inr d' \<Longrightarrow> refs_ok d \<Longrightarrow> refs_ok d'"
proof -
  assume w: "DeleteGameSessionsByRoomID i d = Inr d'" and r: "refs_ok d"
  let ?gone = "\<lambda>j. list_ex (\<lambda>g. gs_ID g = j \<and> gs_RoomID g = i) (d_game_sessions d)"
  have se: "session_exists d' j" if "session_exists d j" "\<not> ?gone j" for j
    using w that by (auto simp: DeleteGameSessionsByRoomID_def session_exists_def list_ex_iff Let_def)
  have re: "room_exists d' = room_exists d"
    using w by (auto simp: DeleteGameSessionsByRoomID_def room_exists_def list_ex_key_map Let_def
        fun_eq_iff split: option.splits)
  have ue: "user_exists d' = user_exists d"
    using w by (auto simp: DeleteGameSessionsByRoomID_def user_exists_def Let_def)
  have "room_fk d' x" if x: "x \<in> set (d_rooms d')" for x
  proof -
    from w x obtain y where y: "y \<in> set (d_rooms d)"
      and "x = (case rr_CurrentSessionID y of None \<Rightarrow> y
               | Some j \<Rightarrow> if ?gone j then y\<lparr>rr_CurrentSessionID := None\<rparr> else y)"
      by (auto simp: DeleteGameSessionsByRoomID_def Let_def)
    moreover have "room_fk d y" using r y by (simp add: refs_ok_def)
    ultimately show ?thesis using se by (auto simp: room_fk_def split: option.splits)
  qed
  with w r se show ?thesis unfolding refs_ok_def re ue
    by (auto simp: DeleteGameSessionsByRoomID_def Let_def)
qed

lemma refs_write: "db_write d d' \<Longrightarrow> refs_ok d \<Longrightarrow> refs_ok d'"
  by (cases rule: db_write.cases)
    (auto dest: refs_rooms_users refs_details refs_deletes refs_UpdateSessionIfVersion
      refs_UpsertRematchVote refs_DeleteGameSessions)

subsection \<open>Every write keeps the schema\<close>

lemma db_ok_write: "db_write d d' \<Longrightarrow> db_ok d \<Longrightarrow> db_ok d'"
  by (simp add: db_ok_def keys_write refs_write)

lemma db_ok_writes: "db_write\<^sup>*\<^sup>* d d' \<Longrightarrow> db_ok d \<Longrightarrow> db_ok d'"
  by (induction rule: rtranclp_induct) (auto dest: db_ok_write)

lemma db_ok_empty: "db_ok empty_db"
  by (simp add: db_ok_def keys_ok_def refs_ok_def empty_db_def unique_by_def)

end
