(* ===== verification/Card_Deck.thy ===== *)
theory Card_Deck
  imports Entities
begin

text \<open>
  \<open>newShuffledDeck\<close> of \<open>backend/usecase/game_usecase.go\<close>: the 52 cards in factory order, and
  the shuffle. The random source is the function \<open>rnd\<close>: \<open>rnd m\<close> is what
  \<open>shuffleIntn(m)\<close> (by default \<open>crypto/rand.Int\<close>, in \<open>backend/usecase/hooks.go\<close>) returns,
  \<open>None\<close> for an error. An index outside the deck would panic, which is the error \<open>ExtError\<close>;
  \<open>rand_ok\<close> states the documented contract of \<open>rand.Int\<close>, a value below its argument.
\<close>

subsection \<open>The factory deck\<close>

definition suits :: "string list" where
  "suits = [''S'', ''H'', ''D'', ''C'']"

definition ranks :: "string list" where
  "ranks = [''A'', ''2'', ''3'', ''4'', ''5'', ''6'', ''7'', ''8'', ''9'', ''10'', ''J'', ''Q'', ''K'']"

definition factory_deck :: "StoredCard list" where
  "factory_deck = concat (map (\<lambda>s. map (\<lambda>r. \<lparr>card_Rank = r, card_Suit = s\<rparr>) ranks) suits)"

lemma length_factory_deck: "length factory_deck = 52"
  by (simp add: factory_deck_def suits_def ranks_def)

lemma distinct_factory_deck: "distinct factory_deck"
  by (simp add: factory_deck_def suits_def ranks_def)

definition valid_card :: "StoredCard \<Rightarrow> bool" where
  "valid_card c \<longleftrightarrow> card_Rank c \<in> set ranks \<and> card_Suit c \<in> set suits"

lemma set_factory_deck: "set factory_deck = {c. valid_card c}"
proof (rule set_eqI)
  fix c :: StoredCard
  show "c \<in> set factory_deck \<longleftrightarrow> c \<in> {c. valid_card c}"
    by (cases c) (auto simp: factory_deck_def valid_card_def)
qed

subsection \<open>The shuffle\<close>

definition swap :: "'a list \<Rightarrow> nat \<Rightarrow> nat \<Rightarrow> 'a list" where
  "swap xs i j = xs[i := xs ! j, j := xs ! i]"

fun shuffle_loop :: "(nat \<Rightarrow> nat option) \<Rightarrow> nat \<Rightarrow> 'a list \<Rightarrow> error + 'a list" where
  "shuffle_loop rnd 0 deck = Inr deck"
| "shuffle_loop rnd (Suc k) deck =
     (case rnd (Suc k + 1) of
        None \<Rightarrow> shuffle_loop rnd k (swap deck (Suc k) 0)
      | Some j \<Rightarrow>
          if j < length deck then shuffle_loop rnd k (swap deck (Suc k) j)
          else Inl (ExtError ''index out of range''))"

definition newShuffledDeck :: "(nat \<Rightarrow> nat option) \<Rightarrow> error + StoredCard list" where
  "newShuffledDeck rnd = shuffle_loop rnd (length factory_deck - 1) factory_deck"

definition rand_ok :: "(nat \<Rightarrow> nat option) \<Rightarrow> bool" where
  "rand_ok rnd \<longleftrightarrow> (\<forall>m n. rnd m = Some n \<longrightarrow> n < m)"

subsection \<open>Facts about the shuffle\<close>

lemma length_swap [simp]: "length (swap xs i j) = length xs"
  by (simp add: swap_def)

lemma mset_swap [simp]: "i < length xs \<Longrightarrow> j < length xs \<Longrightarrow> mset (swap xs i j) = mset xs"
  by (simp add: swap_def mset_swap)

lemma swap_nth_first: "i < length xs \<Longrightarrow> j < length xs \<Longrightarrow> swap xs i j ! i = xs ! j"
  by (auto simp: swap_def nth_list_update)

lemma swap_nth_above:
  "i < k \<Longrightarrow> j < k \<Longrightarrow> swap xs i j ! k = xs ! k"
  by (simp add: swap_def)

text \<open>One turn of the loop swaps the top position with some position of the deck.\<close>

lemma shuffle_loop_SucE:
  assumes "shuffle_loop rnd (Suc k) xs = Inr ys" "Suc k < length xs"
  obtains j where "j < length xs" "rand_ok rnd \<Longrightarrow> j \<le> Suc k"
    "shuffle_loop rnd k (swap xs (Suc k) j) = Inr ys"
proof (cases "rnd (Suc k + 1)")
  case None
  with assms that [of 0] show ?thesis by (cases xs) auto
next
  case (Some j)
  then have "rand_ok rnd \<Longrightarrow> j \<le> Suc k"
    by (metis rand_ok_def Suc_eq_plus1 less_Suc_eq_le)
  with Some assms that [of j] show ?thesis by (auto split: if_splits)
qed

lemma shuffle_loop_mset:
  "k < length xs \<Longrightarrow> shuffle_loop rnd k xs = Inr ys \<Longrightarrow> mset ys = mset xs"
proof (induction k arbitrary: xs)
  case 0
  then show ?case by simp
next
  case (Suc k)
  from Suc.prems(2,1) obtain j
    where "j < length xs" "shuffle_loop rnd k (swap xs (Suc k) j) = Inr ys"
    by (rule shuffle_loop_SucE)
  with Suc.prems(1) Suc.IH [of "swap xs (Suc k) j"] show ?case by simp
qed

lemma shuffle_loop_total:
  "rand_ok rnd \<Longrightarrow> k < length xs \<Longrightarrow> \<exists>ys. shuffle_loop rnd k xs = Inr ys"
proof (induction k arbitrary: xs)
  case 0
  then show ?case by simp
next
  case (Suc k)
  then show ?case by (fastforce simp: rand_ok_def split: option.splits)
qed

text \<open>The positions above the loop counter are final.\<close>

lemma shuffle_loop_fixed:
  assumes "rand_ok rnd" "k < i" "i < length xs" "shuffle_loop rnd k xs = Inr ys"
  shows "ys ! i = xs ! i"
  using assms
proof (induction k arbitrary: xs)
  case 0
  then show ?case by simp
next
  case (Suc k)
  from Suc.prems(4) have "Suc k < length xs \<Longrightarrow> thesis"
    if "\<And>j. j \<le> Suc k \<Longrightarrow> shuffle_loop rnd k (swap xs (Suc k) j) = Inr ys \<Longrightarrow> thesis"
    for thesis using that Suc.prems(1) by (metis shuffle_loop_SucE)
  then obtain j where j: "j \<le> Suc k" "shuffle_loop rnd k (swap xs (Suc k) j) = Inr ys"
    using Suc.prems(2,3) by (metis order.strict_trans)
  then have "ys ! i = swap xs (Suc k) j ! i" using Suc.prems by (intro Suc.IH) auto
  also have "\<dots> = xs ! i" using j Suc.prems(2) by (intro swap_nth_above) auto
  finally show ?case .
qed

text \<open>The loop only asks the source for values below its counter.\<close>

lemma shuffle_loop_cong:
  "(\<And>m. m \<le> k + 1 \<Longrightarrow> rnd m = rnd' m) \<Longrightarrow> shuffle_loop rnd k xs = shuffle_loop rnd' k xs"
  by (induction k arbitrary: xs) (auto split: option.splits)

text \<open>
  The shuffle can produce every order: whatever arrangement of the first \<open>k + 1\<close> cards is
  wanted, some sequence of random values produces it.
\<close>

lemma shuffle_loop_onto:
  assumes "k < length xs" "mset ys = mset xs" "\<And>i. k < i \<Longrightarrow> i < length xs \<Longrightarrow> ys ! i = xs ! i"
  shows "\<exists>rnd. rand_ok rnd \<and> shuffle_loop rnd k xs = Inr ys"
  using assms
proof (induction k arbitrary: xs)
  case 0
  have len: "length ys = length xs" using 0 by (metis mset_eq_length)
  have tl: "drop 1 ys = drop 1 xs"
    using 0 len by (intro nth_equalityI) auto
  have "ys ! 0 # drop 1 ys = ys" "xs ! 0 # drop 1 xs = xs"
    using 0 len by (metis Cons_nth_drop_Suc One_nat_def drop0 length_greater_0_conv)+
  with tl 0 have "add_mset (ys ! 0) (mset (drop 1 xs)) = add_mset (xs ! 0) (mset (drop 1 xs))"
    by (metis mset.simps(2))
  then have "ys ! 0 = xs ! 0" by simp
  with tl \<open>ys ! 0 # drop 1 ys = ys\<close> \<open>xs ! 0 # drop 1 xs = xs\<close> have "ys = xs" by metis
  then show ?case by (intro exI [of _ "\<lambda>_. None"]) (simp add: rand_ok_def)
next
  case (Suc k)
  have len: "length ys = length xs" using Suc by (metis mset_eq_length)
  have split: "mset (take (Suc (Suc k)) ys) = mset (take (Suc (Suc k)) xs)"
  proof -
    have "drop (Suc (Suc k)) ys = drop (Suc (Suc k)) xs"
      using Suc.prems len by (intro nth_equalityI) auto
    moreover have "mset (take (Suc (Suc k)) zs) + mset (drop (Suc (Suc k)) zs) = mset zs" for zs :: "'a list"
      by (metis append_take_drop_id mset_append)
    ultimately show ?thesis using Suc.prems(2) by (metis add_right_cancel)
  qed
  have "ys ! Suc k \<in> set (take (Suc (Suc k)) ys)"
    using Suc.prems(1) len by (auto simp: in_set_conv_nth intro!: exI [of _ "Suc k"])
  then have "ys ! Suc k \<in> set (take (Suc (Suc k)) xs)"
    using split by (metis set_mset_mset)
  then obtain j where j: "j < Suc (Suc k)" "j < length xs" "xs ! j = ys ! Suc k"
    by (auto simp: in_set_conv_nth)
  let ?xs = "swap xs (Suc k) j"
  have "\<exists>rnd. rand_ok rnd \<and> shuffle_loop rnd k ?xs = Inr ys"
  proof (rule Suc.IH)
    show "k < length ?xs" using Suc.prems by simp
    show "mset ys = mset ?xs" using Suc.prems j by simp
    fix i assume i: "k < i" "i < length ?xs"
    show "ys ! i = ?xs ! i"
    proof (cases "i = Suc k")
      case True
      then show ?thesis using j Suc.prems by (simp add: swap_nth_first)
    next
      case False
      then show ?thesis using i j Suc.prems(3) by (simp add: swap_nth_above)
    qed
  qed
  then obtain rnd where rnd: "rand_ok rnd" "shuffle_loop rnd k ?xs = Inr ys" by blast
  let ?rnd = "rnd(Suc k + 1 := Some j)"
  have "rand_ok ?rnd" using rnd j by (simp add: rand_ok_def)
  moreover have "shuffle_loop ?rnd k ?xs = shuffle_loop rnd k ?xs"
    by (rule shuffle_loop_cong) simp
  ultimately have "rand_ok ?rnd \<and> shuffle_loop ?rnd (Suc k) xs = Inr ys"
    using rnd j by (simp del: fun_upd_apply add: fun_upd_same)
  then show ?case by blast
qed

lemma newShuffledDeck_mset: "newShuffledDeck rnd = Inr deck \<Longrightarrow> mset deck = mset factory_deck"
  unfolding newShuffledDeck_def by (erule shuffle_loop_mset [rotated]) (simp add: length_factory_deck)

lemma newShuffledDeck_facts:
  assumes "newShuffledDeck rnd = Inr deck"
  shows "length deck = 52" "distinct deck" "set deck = {c. valid_card c}"
proof -
  note m = newShuffledDeck_mset [OF assms]
  show "length deck = 52" using m by (metis length_factory_deck mset_eq_length)
  show "distinct deck" using m distinct_factory_deck by (metis mset_eq_imp_distinct_iff)
  show "set deck = {c. valid_card c}" using m set_factory_deck by (metis mset_eq_setD)
qed

lemma newShuffledDeck_total: "rand_ok rnd \<Longrightarrow> \<exists>deck. newShuffledDeck rnd = Inr deck"
  unfolding newShuffledDeck_def by (rule shuffle_loop_total) (simp_all add: length_factory_deck)

subsection \<open>Properties\<close>

text \<open>
  C34. With a random source that answers within its bound, or fails, the shuffle gives a
  permutation of the factory deck: 52 distinct cards, exactly the valid ones.
\<close>

theorem shuffle_permutes:
  assumes "rand_ok rnd"
  shows "\<exists>deck. newShuffledDeck rnd = Inr deck \<and> mset deck = mset factory_deck
    \<and> distinct deck \<and> length deck = 52 \<and> set deck = {c. valid_card c}"
  using newShuffledDeck_total [OF assms] newShuffledDeck_mset newShuffledDeck_facts by metis

theorem shuffle_permutes_witness:
  "rand_ok (\<lambda>m. if m = 52 then Some 3 else None)
   \<and> (\<exists>deck. newShuffledDeck (\<lambda>m. if m = 52 then Some 3 else None) = Inr deck \<and> distinct deck)"
proof -
  have ok: "rand_ok (\<lambda>m. if m = 52 then Some 3 else None)" by (simp add: rand_ok_def)
  from shuffle_permutes [OF ok] ok show ?thesis by blast
qed

text \<open>
  C35. Every order of the 52 cards is the result of the shuffle for some answers of the random
  source within its bounds: no order is unreachable.
\<close>

theorem shuffle_reaches_all:
  assumes "mset deck = mset factory_deck"
  shows "\<exists>rnd. rand_ok rnd \<and> newShuffledDeck rnd = Inr deck"
proof -
  have "length deck = 52" using assms by (metis length_factory_deck mset_eq_length)
  then show ?thesis unfolding newShuffledDeck_def
    by (intro shuffle_loop_onto [OF _ assms]) (auto simp: length_factory_deck)
qed

theorem shuffle_reaches_all_witness:
  "mset (rev factory_deck) = mset factory_deck
   \<and> (\<exists>rnd. rand_ok rnd \<and> newShuffledDeck rnd = Inr (rev factory_deck))"
proof -
  have m: "mset (rev factory_deck) = mset factory_deck" by simp
  from shuffle_reaches_all [OF m] m show ?thesis by blast
qed

end
