(* ===== verification/Service_Monad.thy ===== *)
theory Service_Monad
  imports Store_Schema Card_Deck
begin

text \<open>
  How a use case runs. A program takes the environment (clock, fresh identifiers, random
  numbers, failures of the database, environment variables, SHA-256), the database and the
  number of calls made so far, and returns a value or an error with the new database. Every call
  out of the program advances the counter, so that two calls may give different answers: the
  theorems hold for every environment. \<open>transaction\<close> is \<open>pgStore.Transaction\<close>: an error, of the
  body or of the commit, rolls the database back.
\<close>

record env =
  env_now :: "nat \<Rightarrow> time" \<comment> \<open>\<open>time.Now().UTC()\<close>\<close>
  env_uuid :: "nat \<Rightarrow> string" \<comment> \<open>\<open>uuid.NewString()\<close>\<close>
  env_rand :: "nat \<Rightarrow> nat \<Rightarrow> nat option" \<comment> \<open>\<open>shuffleIntn\<close>\<close>
  env_fault :: "nat \<Rightarrow> string option" \<comment> \<open>a failure of a statement or a commit, with its message\<close>
  env_getenv :: "string \<Rightarrow> string" \<comment> \<open>\<open>os.Getenv\<close>\<close>
  env_sha256hex :: "string \<Rightarrow> string" \<comment> \<open>\<open>hex.EncodeToString(sha256.Sum256(s))\<close>\<close>

record world =
  w_db :: DB
  w_calls :: nat

type_synonym 'a prog = "env \<Rightarrow> world \<Rightarrow> (error + 'a) \<times> world"

abbreviation tick :: "world \<Rightarrow> world" where
  "tick w \<equiv> w\<lparr>w_calls := Suc (w_calls w)\<rparr>"

subsection \<open>Sequencing\<close>

definition ret :: "'a \<Rightarrow> 'a prog" where
  "ret x e w = (Inr x, w)"

definition throw :: "error \<Rightarrow> 'a prog" where
  "throw err e w = (Inl err, w)"

definition bind :: "'a prog \<Rightarrow> ('a \<Rightarrow> 'b prog) \<Rightarrow> 'b prog" where
  "bind m f e w = (case m e w of (Inl err, w') \<Rightarrow> (Inl err, w') | (Inr x, w') \<Rightarrow> f x e w')"

text \<open>\<open>if err := ...; err != nil \{ return err \}\<close>, for a result and for a bare error.\<close>

definition lift :: "error + 'a \<Rightarrow> 'a prog" where
  "lift r e w = (r, w)"

definition check :: "error option \<Rightarrow> unit prog" where
  "check err e w = (case err of None \<Rightarrow> (Inr (), w) | Some x \<Rightarrow> (Inl x, w))"

definition guard :: "bool \<Rightarrow> error \<Rightarrow> unit prog" where
  "guard b err e w = (if b then (Inr (), w) else (Inl err, w))"

text \<open>The error of a call as a value, where the code looks at which error it is.\<close>

definition attempt :: "'a prog \<Rightarrow> (error + 'a) prog" where
  "attempt m e w = (case m e w of (r, w') \<Rightarrow> (Inr r, w'))"

subsection \<open>Calls\<close>

definition io_now :: "time prog" where
  "io_now e w = (Inr (env_now e (w_calls w)), tick w)"

definition io_uuid :: "string prog" where
  "io_uuid e w = (Inr (env_uuid e (w_calls w)), tick w)"

definition io_deck :: "StoredCard list prog" where
  "io_deck e w = (newShuffledDeck (env_rand e (w_calls w)), tick w)"

definition io_getenv :: "string \<Rightarrow> string prog" where
  "io_getenv name e w = (Inr (env_getenv e name), w)"

definition sha256hex :: "string \<Rightarrow> string prog" where
  "sha256hex s e w = (Inr (env_sha256hex e s), w)"

text \<open>A statement of the repository; \<open>None\<close> in \<open>env_fault\<close> means that the connection works.\<close>

definition store_op :: "(DB \<Rightarrow> error + 'a \<times> DB) \<Rightarrow> 'a prog" where
  "store_op f e w =
     (case env_fault e (w_calls w) of
        Some msg \<Rightarrow> (Inl (ExtError msg), tick w)
      | None \<Rightarrow>
          (case f (w_db w) of
             Inl err \<Rightarrow> (Inl err, tick w)
           | Inr (x, d) \<Rightarrow> (Inr x, tick (w\<lparr>w_db := d\<rparr>))))"

definition store_read :: "(DB \<Rightarrow> error + 'a) \<Rightarrow> 'a prog" where
  "store_read q = store_op (\<lambda>d. mapR (\<lambda>x. (x, d)) (q d))"

definition store_write :: "(DB \<Rightarrow> error + DB) \<Rightarrow> unit prog" where
  "store_write f = store_op (\<lambda>d. mapR (\<lambda>d'. ((), d')) (f d))"

text \<open>\<open>RowsAffected == 1\<close> is the value of the conditional update.\<close>

definition store_cas :: "GameSession \<Rightarrow> int \<Rightarrow> bool prog" where
  "store_cas session expectedVersion =
     store_op (\<lambda>d. case UpdateSessionIfVersion session expectedVersion d of (d', ok) \<Rightarrow> Inr (ok, d'))"

text \<open>Statements for which GORM reads its clock.\<close>

definition tx_UpdateRoom :: "Room \<Rightarrow> unit prog" where
  "tx_UpdateRoom room = bind io_now (\<lambda>now. store_write (UpdateRoom now room))"

definition tx_UpsertRematchVote :: "RematchVote \<Rightarrow> unit prog" where
  "tx_UpsertRematchVote vote = bind io_now (\<lambda>now. store_write (UpsertRematchVote now vote))"

definition transaction :: "'a prog \<Rightarrow> 'a prog" where
  "transaction body e w =
     (case body e w of
        (Inl err, w') \<Rightarrow> (Inl err, w'\<lparr>w_db := w_db w\<rparr>)
      | (Inr x, w') \<Rightarrow>
          (case env_fault e (w_calls w') of
             Some msg \<Rightarrow> (Inl (ExtError msg), tick (w'\<lparr>w_db := w_db w\<rparr>))
           | None \<Rightarrow> (Inr x, tick w')))"

text \<open>The loop \<open>for _, x := range xs\<close> over a body that may return early with an error.\<close>

fun for_each :: "('a \<Rightarrow> 's \<Rightarrow> 's prog) \<Rightarrow> 'a list \<Rightarrow> 's \<Rightarrow> 's prog" where
  "for_each body [] s = ret s"
| "for_each body (x # xs) s = bind (body x s) (for_each body xs)"

subsection \<open>What a successful run went through\<close>

lemma ret_Inr [prog_elims]: "ret x e w = (Inr y, w') \<longleftrightarrow> y = x \<and> w' = w"
  by (auto simp: ret_def)

lemma throw_Inr [prog_elims]: "throw err e w = (Inr y, w') \<longleftrightarrow> False"
  by (simp add: throw_def)

lemma bind_Inr [prog_elims]:
  "bind m f e w = (Inr y, w') \<longleftrightarrow> (\<exists>x v. m e w = (Inr x, v) \<and> f x e v = (Inr y, w'))"
  by (auto simp: bind_def split: prod.splits sum.splits)

lemma lift_Inr [prog_elims]: "lift r e w = (Inr y, w') \<longleftrightarrow> r = Inr y \<and> w' = w"
  by (auto simp: lift_def)

lemma check_Inr [prog_elims]: "check err e w = (Inr y, w') \<longleftrightarrow> err = None \<and> w' = w"
  by (auto simp: check_def split: option.splits)

lemma guard_Inr [prog_elims]: "guard b err e w = (Inr y, w') \<longleftrightarrow> b \<and> w' = w"
  by (auto simp: guard_def)

lemma attempt_Inr: "attempt m e w = (Inr r, w') \<longleftrightarrow> m e w = (r, w')"
  by (auto simp: attempt_def split: prod.splits)

lemma io_Inr [prog_elims]:
  "io_now e w = (Inr t, w') \<longleftrightarrow> t = env_now e (w_calls w) \<and> w' = tick w"
  "io_uuid e w = (Inr i, w') \<longleftrightarrow> i = env_uuid e (w_calls w) \<and> w' = tick w"
  "io_deck e w = (Inr c, w') \<longleftrightarrow> newShuffledDeck (env_rand e (w_calls w)) = Inr c \<and> w' = tick w"
  "io_getenv n e w = (Inr s, w') \<longleftrightarrow> s = env_getenv e n \<and> w' = w"
  "sha256hex p e w = (Inr h, w') \<longleftrightarrow> h = env_sha256hex e p \<and> w' = w"
  by (auto simp: io_now_def io_uuid_def io_deck_def io_getenv_def sha256hex_def)

lemma store_op_Inr [prog_elims]:
  "store_op f e w = (Inr x, w') \<longleftrightarrow>
     (\<exists>d. env_fault e (w_calls w) = None \<and> f (w_db w) = Inr (x, d) \<and> w' = tick (w\<lparr>w_db := d\<rparr>))"
  by (auto simp: store_op_def split: option.splits sum.splits)

lemma store_read_Inr [prog_elims]:
  "store_read q e w = (Inr x, w') \<longleftrightarrow>
     env_fault e (w_calls w) = None \<and> q (w_db w) = Inr x \<and> w' = tick w"
  by (auto simp: store_read_def store_op_Inr)

text \<open>What a read answers whose error is looked at.\<close>

definition read_answer :: "(DB \<Rightarrow> error + 'a) \<Rightarrow> env \<Rightarrow> world \<Rightarrow> error + 'a" where
  "read_answer q e w =
     (case env_fault e (w_calls w) of Some msg \<Rightarrow> Inl (ExtError msg) | None \<Rightarrow> q (w_db w))"

lemma attempt_read_Inr [prog_elims]:
  "attempt (store_read q) e w = (Inr r, w') \<longleftrightarrow> r = read_answer q e w \<and> w' = tick w"
  by (auto simp: attempt_def store_read_def store_op_def mapR_def read_answer_def
      split: option.splits sum.splits)

lemma read_answer_Inr: "read_answer q e w = Inr x \<longleftrightarrow>
    env_fault e (w_calls w) = None \<and> q (w_db w) = Inr x"
  by (simp add: read_answer_def split: option.split)

text \<open>A branch that turns every error into an error of its own.\<close>

lemma case_throw_Inr [prog_elims]:
  "(case r of Inl err \<Rightarrow> if P err then throw (f err) else throw (g err) | Inr y \<Rightarrow> h y) e w = (Inr z, w')
     \<longleftrightarrow> (\<exists>y. r = Inr y \<and> h y e w = (Inr z, w'))"
  by (auto simp: throw_Inr split: sum.splits if_splits)

lemma case_list_throw_Inr [prog_elims]:
  "(case l of [] \<Rightarrow> throw err | y # ys \<Rightarrow> h y ys) e w = (Inr z, w')
     \<longleftrightarrow> (\<exists>y ys. l = y # ys \<and> h y ys e w = (Inr z, w'))"
  by (cases l) (auto simp: throw_Inr)

lemma case_option_throw_Inr [prog_elims]:
  "(case oc of None \<Rightarrow> throw err | Some y \<Rightarrow> h y) e w = (Inr z, w')
     \<longleftrightarrow> (\<exists>y. oc = Some y \<and> h y e w = (Inr z, w'))"
  by (cases oc) (auto simp: throw_Inr)

lemma read_answer_NotFound: "read_answer q e w = Inl ErrNotFound \<longleftrightarrow>
    env_fault e (w_calls w) = None \<and> q (w_db w) = Inl ErrNotFound"
  by (simp add: read_answer_def split: option.split)

lemma store_write_Inr [prog_elims]:
  "store_write f e w = (Inr x, w') \<longleftrightarrow>
     (\<exists>d. env_fault e (w_calls w) = None \<and> f (w_db w) = Inr d \<and> w' = tick (w\<lparr>w_db := d\<rparr>))"
  by (auto simp: store_write_def store_op_Inr)

lemma store_cas_Inr [prog_elims]:
  "store_cas s n e w = (Inr b, w') \<longleftrightarrow>
     (\<exists>d. env_fault e (w_calls w) = None \<and> UpdateSessionIfVersion s n (w_db w) = (d, b)
       \<and> w' = tick (w\<lparr>w_db := d\<rparr>))"
  by (auto simp: store_cas_def store_op_Inr split: prod.splits)

lemma transaction_Inr [prog_elims]:
  "transaction m e w = (Inr x, w') \<longleftrightarrow>
     (\<exists>v. m e w = (Inr x, v) \<and> env_fault e (w_calls v) = None \<and> w' = tick v)"
  by (auto simp: transaction_def split: prod.splits sum.splits option.splits)

lemma tx_Inr [prog_elims]:
  "tx_UpdateRoom room e w = (Inr x, w') \<longleftrightarrow>
     (\<exists>d. env_fault e (Suc (w_calls w)) = None
        \<and> UpdateRoom (env_now e (w_calls w)) room (w_db w) = Inr d
        \<and> w' = tick (tick (w\<lparr>w_db := d\<rparr>)))"
  "tx_UpsertRematchVote v e w = (Inr x, w') \<longleftrightarrow>
     (\<exists>d. env_fault e (Suc (w_calls w)) = None
        \<and> UpsertRematchVote (env_now e (w_calls w)) v (w_db w) = Inr d
        \<and> w' = tick (tick (w\<lparr>w_db := d\<rparr>)))"
  by (auto simp: tx_UpdateRoom_def tx_UpsertRematchVote_def prog_elims)

end
