(* ===== verification/Prog_Effects.thy ===== *)
theory Prog_Effects
  imports Service_Monad
begin

text \<open>
  What a program can do to the database, judged from its shape. \<open>effect R\<close> relates the database
  before and after; for a reflexive and transitive \<open>R\<close> the rules for sequencing, branching,
  loops and transactions are proved once, in the locale \<open>effect_rel\<close>, and interpreted for
  programs that only read (\<open>readonly\<close>), programs that change the database by operations of the
  repository alone (\<open>writes_only\<close>, so that they keep \<open>db_ok\<close>) and programs that keep an
  invariant. \<open>all_or_nothing\<close> programs leave the database as it is when they return an error. The
  rules are collected for \<open>intro\<close>; each use case is then judged by one application of its
  collection.
\<close>

definition effect :: "(DB \<Rightarrow> DB \<Rightarrow> bool) \<Rightarrow> 'a prog \<Rightarrow> bool" where
  "effect R m \<longleftrightarrow> (\<forall>e w. R (w_db w) (w_db (snd (m e w))))"

definition all_or_nothing :: "'a prog \<Rightarrow> bool" where
  "all_or_nothing m \<longleftrightarrow>
     (\<forall>e w. (\<exists>err. fst (m e w) = Inl err) \<longrightarrow> w_db (snd (m e w)) = w_db w)"

subsection \<open>Rules for any reflexive and transitive effect\<close>

locale effect_rel =
  fixes R :: "DB \<Rightarrow> DB \<Rightarrow> bool"
  assumes R_refl: "R d d"
    and R_trans: "R a b \<Longrightarrow> R b c \<Longrightarrow> R a c"
begin

lemma basic:
  "effect R (ret x)" "effect R (throw err)" "effect R (lift r)" "effect R (check c)"
  "effect R (guard b err)" "effect R io_now" "effect R io_uuid" "effect R io_deck"
  "effect R (io_getenv n)" "effect R (sha256hex s)"
  by (simp_all add: effect_def ret_def throw_def lift_def check_def guard_def io_now_def
      io_uuid_def io_deck_def io_getenv_def sha256hex_def R_refl split: option.splits)

lemma store_op: "(\<And>d d' x. f d = Inr (x, d') \<Longrightarrow> R d d') \<Longrightarrow> effect R (store_op f)"
  by (auto simp: effect_def store_op_def R_refl split: option.splits sum.splits)

lemma store_read: "effect R (store_read q)"
  unfolding store_read_def by (rule store_op) (auto simp: R_refl)

lemma store_write: "(\<And>d d'. f d = Inr d' \<Longrightarrow> R d d') \<Longrightarrow> effect R (store_write f)"
  unfolding store_write_def by (rule store_op) auto

lemma bind: "effect R m \<Longrightarrow> (\<And>x. effect R (f x)) \<Longrightarrow> effect R (bind m f)"
  unfolding effect_def bind_def
  by (auto split: prod.splits sum.splits) (metis snd_conv R_trans)+

lemma attempt: "effect R m \<Longrightarrow> effect R (attempt m)"
  unfolding effect_def attempt_def by (auto split: prod.splits) (metis snd_conv)

lemma transaction: "effect R m \<Longrightarrow> effect R (transaction m)"
  unfolding effect_def transaction_def
  by (auto simp: R_refl split: prod.splits sum.splits option.splits) (metis snd_conv)+

text \<open>A transaction that can only fail or end well, judged by its successful runs.\<close>

lemma transaction_run:
  assumes "\<And>e w x w'. m e w = (Inr x, w') \<Longrightarrow> R (w_db w) (w_db w')"
  shows "effect R (transaction m)"
  unfolding effect_def transaction_def
  using assms by (auto simp: R_refl split: prod.splits sum.splits option.splits)

lemma branches:
  "effect R a \<Longrightarrow> effect R b \<Longrightarrow> effect R (if c then a else b)"
  "(\<And>l. effect R (f l)) \<Longrightarrow> (\<And>x. effect R (g x)) \<Longrightarrow>
     effect R (case r of Inl l \<Rightarrow> f l | Inr x \<Rightarrow> g x)"
  "effect R a \<Longrightarrow> (\<And>x. effect R (h x)) \<Longrightarrow> effect R (case oc of None \<Rightarrow> a | Some x \<Rightarrow> h x)"
  "effect R a \<Longrightarrow> (\<And>x xs. effect R (j x xs)) \<Longrightarrow> effect R (case l of [] \<Rightarrow> a | x # xs \<Rightarrow> j x xs)"
  "(\<And>x y. effect R (k x y)) \<Longrightarrow> effect R (case p of (x, y) \<Rightarrow> k x y)"
  by (auto split: sum.splits option.splits list.splits prod.splits)

lemma for_each: "(\<And>x s. effect R (body x s)) \<Longrightarrow> effect R (for_each body xs s)"
  by (induction xs arbitrary: s) (simp_all add: basic bind)

lemmas rules = basic store_read bind attempt transaction branches for_each

end

subsection \<open>Programs that only read\<close>

definition same_db :: "DB \<Rightarrow> DB \<Rightarrow> bool" where
  "same_db d d' \<longleftrightarrow> d' = d"

abbreviation readonly :: "'a prog \<Rightarrow> bool" where
  "readonly \<equiv> effect same_db"

interpretation reads: effect_rel same_db
  by unfold_locales (simp_all add: same_db_def)

lemmas readonly_rules [readonly_intros] = reads.rules

lemma readonly_def: "readonly m \<longleftrightarrow> (\<forall>e w. w_db (snd (m e w)) = w_db w)"
  by (simp add: effect_def same_db_def)

lemma readonlyD: "readonly m \<Longrightarrow> m e w = (r, w') \<Longrightarrow> w_db w' = w_db w"
  unfolding readonly_def by (metis snd_conv)

subsection \<open>Programs that change everything or nothing\<close>

lemma aon_readonly: "readonly m \<Longrightarrow> all_or_nothing m"
  by (simp add: readonly_def all_or_nothing_def)

lemma aon_basic [aon_intros]:
  "all_or_nothing (ret x)" "all_or_nothing (throw err)" "all_or_nothing (lift r)"
  by (simp_all add: aon_readonly reads.basic)

lemma aon_transaction [aon_intros]: "all_or_nothing (transaction m)"
  by (auto simp: all_or_nothing_def transaction_def split: prod.splits sum.splits option.splits)

lemma aon_store_write [aon_intros]: "all_or_nothing (store_write f)"
  by (auto simp: all_or_nothing_def store_write_def store_op_def split: option.splits sum.splits)

text \<open>Reading first, then a part that is all or nothing.\<close>

lemma aon_bind [aon_intros]:
  "readonly m \<Longrightarrow> (\<And>x. all_or_nothing (f x)) \<Longrightarrow> all_or_nothing (bind m f)"
  unfolding readonly_def all_or_nothing_def bind_def
  by (auto split: prod.splits sum.splits) (metis fst_conv snd_conv)+

text \<open>After the part that may fail, only what cannot fail.\<close>

lemma aon_bind_ret [aon_intros]: "all_or_nothing m \<Longrightarrow> all_or_nothing (bind m (\<lambda>x. ret (f x)))"
  unfolding all_or_nothing_def bind_def ret_def
  by (auto split: prod.splits sum.splits) (metis fst_conv snd_conv)

lemma aon_if [aon_intros]:
  "all_or_nothing a \<Longrightarrow> all_or_nothing b \<Longrightarrow> all_or_nothing (if c then a else b)"
  by simp

lemma aon_case [aon_intros]:
  "(\<And>l. all_or_nothing (f l)) \<Longrightarrow> (\<And>x. all_or_nothing (g x)) \<Longrightarrow>
     all_or_nothing (case r of Inl l \<Rightarrow> f l | Inr x \<Rightarrow> g x)"
  "all_or_nothing a \<Longrightarrow> (\<And>x. all_or_nothing (g x)) \<Longrightarrow>
     all_or_nothing (case oc of None \<Rightarrow> a | Some x \<Rightarrow> g x)"
  "all_or_nothing a \<Longrightarrow> (\<And>x xs. all_or_nothing (h x xs)) \<Longrightarrow>
     all_or_nothing (case l of [] \<Rightarrow> a | x # xs \<Rightarrow> h x xs)"
  "(\<And>x y. all_or_nothing (k x y)) \<Longrightarrow> all_or_nothing (case p of (x, y) \<Rightarrow> k x y)"
  by (auto split: sum.splits option.splits list.splits prod.splits)

lemma aonI: "(\<And>e w err w'. m e w = (Inl err, w') \<Longrightarrow> w_db w' = w_db w) \<Longrightarrow> all_or_nothing m"
  unfolding all_or_nothing_def by (metis prod.collapse)

lemma aonD: "all_or_nothing m \<Longrightarrow> m e w = (Inl err, w') \<Longrightarrow> w_db w' = w_db w"
  unfolding all_or_nothing_def by (metis fst_conv snd_conv)

subsection \<open>Programs that write through the repository\<close>

named_theorems writes_intros \<open>a program changes the database by repository operations only\<close>

definition written_db :: "DB \<Rightarrow> DB \<Rightarrow> bool" where
  "written_db d d' \<longleftrightarrow> db_write\<^sup>*\<^sup>* d d'"

abbreviation writes_only :: "'a prog \<Rightarrow> bool" where
  "writes_only \<equiv> effect written_db"

interpretation writes: effect_rel written_db
  by unfold_locales (auto simp: written_db_def)

lemmas writes_rules [writes_intros] = writes.rules

lemma writes_readonly: "readonly m \<Longrightarrow> writes_only m"
  by (simp add: effect_def same_db_def written_db_def)

lemma writes_store_write:
  "(\<And>d d'. f d = Inr d' \<Longrightarrow> db_write d d') \<Longrightarrow> writes_only (store_write f)"
  by (rule writes.store_write) (auto simp: written_db_def)

lemma writes_store_cas [writes_intros]: "writes_only (store_cas s n)"
  unfolding store_cas_def
  by (rule writes.store_op)
    (auto simp: written_db_def split: prod.splits intro: w_UpdateSessionIfVersion)

lemma writes_store [writes_intros]:
  "writes_only (store_write (CreateRoom r))"
  "writes_only (store_write (CreateRoomPlayer p))"
  "writes_only (store_write (UpdateRoomPlayer p))"
  "writes_only (store_write (DeleteRoomPlayersByRoomID i))"
  "writes_only (store_write (DeleteGameSessionsByRoomID i))"
  "writes_only (store_write (CreateSession s))"
  "writes_only (store_write (CreatePlayerState q))"
  "writes_only (store_write (UpdatePlayerState q))"
  "writes_only (store_write (CreateDealerState x))"
  "writes_only (store_write (UpdateDealerState x))"
  "writes_only (store_write (CreateActionLog a))"
  "writes_only (store_write (CreateRoundLog l))"
  "writes_only (tx_UpdateRoom r)"
  "writes_only (tx_UpsertRematchVote v)"
  by (auto intro!: writes_store_write writes.bind writes.basic intro: db_write.intros
      simp: tx_UpdateRoom_def tx_UpsertRematchVote_def)

lemma writes_CreateUser [writes_intros]: "writes_only (store_write (CreateUser u))"
  by (rule writes_store_write) (rule w_CreateUser)

lemma writes_db_ok: "writes_only m \<Longrightarrow> db_ok (w_db w) \<Longrightarrow> db_ok (w_db (snd (m e w)))"
  unfolding effect_def written_db_def using db_ok_writes by blast

subsection \<open>Programs that keep an invariant\<close>

definition kept :: "(DB \<Rightarrow> bool) \<Rightarrow> DB \<Rightarrow> DB \<Rightarrow> bool" where
  "kept I d d' \<longleftrightarrow> (I d \<longrightarrow> I d')"

interpretation keeps: effect_rel "kept I" for I
  by unfold_locales (simp_all add: kept_def)

lemma kept_readonly: "readonly m \<Longrightarrow> effect (kept I) m"
  by (simp add: effect_def same_db_def kept_def)

lemma keptD: "effect (kept I) m \<Longrightarrow> I (w_db w) \<Longrightarrow> I (w_db (snd (m e w)))"
  by (simp add: effect_def kept_def)

text \<open>An all-or-nothing program is judged by its successful runs.\<close>

lemma kept_aon:
  assumes "all_or_nothing m"
    and "\<And>e w x w'. m e w = (Inr x, w') \<Longrightarrow> I (w_db w) \<Longrightarrow> I (w_db w')"
  shows "effect (kept I) m"
  unfolding effect_def kept_def
proof (intro allI impI)
  fix e and w :: world
  assume I: "I (w_db w)"
  obtain r w' where run: "m e w = (r, w')" by fastforce
  show "I (w_db (snd (m e w)))"
  proof (cases r)
    case (Inl err)
    with aonD [OF assms(1)] run I show ?thesis by simp
  next
    case (Inr x)
    with assms(2) run I show ?thesis by simp
  qed
qed

end
