(* ===== verification/Idempotency.thy ===== *)
theory Idempotency
  imports Prog_Effects
begin

text \<open>
  The snapshots of an action (\<open>marshalGameJSON\<close>, that is \<open>json.Marshal\<close>, of
  \<open>backend/usecase/hooks.go\<close>) and the replay protection of \<open>backend/usecase/idempotency.go\<close>.
\<close>

subsection \<open>JSON text\<close>

text \<open>
  \<open>json.Marshal\<close> of the maps the use cases build: the keys in order, strings with Go's escapes
  (HTML characters included), no blanks. Bytes from 128 on are copied, as for any valid UTF-8
  text other than the two Unicode line separators.
\<close>

definition hex_digit :: "nat \<Rightarrow> char" where
  "hex_digit n = (if n < 10 then char_of (48 + n) else char_of (87 + n))"

definition json_escape :: "char \<Rightarrow> string" where
  "json_escape c =
     (let n = of_char c :: nat in
      if n = 34 \<or> n = 92 then [CHR 0x5C, c]
      else if n = 8 then [CHR 0x5C, CHR ''b'']
      else if n = 12 then [CHR 0x5C, CHR ''f'']
      else if n = 10 then [CHR 0x5C, CHR ''n'']
      else if n = 13 then [CHR 0x5C, CHR ''r'']
      else if n = 9 then [CHR 0x5C, CHR ''t'']
      else if n < 32 \<or> n = 60 \<or> n = 62 \<or> n = 38
      then [CHR 0x5C, CHR ''u'', CHR ''0'', CHR ''0'', hex_digit (n div 16), hex_digit (n mod 16)]
      else [c])"

definition json_string :: "string \<Rightarrow> string" where
  "json_string s = CHR 0x22 # concat (map json_escape s) @ [CHR 0x22]"

fun commas :: "string list \<Rightarrow> string" where
  "commas [] = ''''"
| "commas [s] = s"
| "commas (s # t # ss) = s @ CHR '','' # commas (t # ss)"

fun json_text :: "json \<Rightarrow> string" where
  "json_text JNull = ''null''"
| "json_text (JBool b) = (if b then ''true'' else ''false'')"
| "json_text (JNum n) = FormatInt n"
| "json_text (JStr s) = json_string s"
| "json_text (JArr vs) = CHR ''['' # commas (map json_text vs) @ '']''"
| "json_text (JObj ms) =
     CHR ''{'' # commas (map (\<lambda>m. json_string (fst m) @ CHR '':'' # json_text (snd m)) ms) @ ''}''"

definition marshalGameJSON :: "(string \<times> json) list \<Rightarrow> string" where
  "marshalGameJSON m = json_text (JObj (sort_key fst m))"

definition action_snapshot :: "string \<Rightarrow> string \<Rightarrow> int \<Rightarrow> string" where
  "action_snapshot roomID sessionID version =
     marshalGameJSON [(''room_id'', JStr roomID), (''session_id'', JStr sessionID),
       (''version'', JNum version)]"

subsection \<open>Replay protection\<close>

definition EnsureActionIdempotency :: "ActionLog \<Rightarrow> (string \<times> bool) prog" where
  "EnsureActionIdempotency actionLog =
     bind (check (ActionLog_Validate actionLog)) (\<lambda>_.
     bind (attempt (store_read (GetActionLogByActionID (al_SessionID actionLog)
             (al_ActorUserID actionLog) (al_ActionID actionLog)))) (\<lambda>r.
     case r of
       Inr prev \<Rightarrow>
         if al_RequestPayloadHash prev = al_RequestPayloadHash actionLog
         then ret (al_ResponseSnapshot prev, True)
         else throw ErrDuplicateAction
     | Inl err \<Rightarrow> if err \<noteq> ErrNotFound then throw err else ret ('''', False)))"

definition SaveActionSuccessSnapshot :: "ActionLog \<Rightarrow> string \<Rightarrow> unit prog" where
  "SaveActionSuccessSnapshot actionLog responseSnapshot =
     store_write (CreateActionLog (actionLog\<lparr>al_ResponseSnapshot := responseSnapshot\<rparr>))"

lemma readonly_Ensure [readonly_intros]: "readonly (EnsureActionIdempotency a)"
  unfolding EnsureActionIdempotency_def by (intro readonly_intros)

lemma writes_Ensure [writes_intros]: "writes_only (EnsureActionIdempotency a)"
  by (rule writes_readonly) (rule readonly_Ensure)

lemma writes_Save [writes_intros]: "writes_only (SaveActionSuccessSnapshot a s)"
  unfolding SaveActionSuccessSnapshot_def by (intro writes_intros)

subsection \<open>A saved action is found again\<close>

text \<open>The logs the program writes for a user: a non-blank user id without surrounding blanks.\<close>

definition user_log :: "ActionLog \<Rightarrow> bool" where
  "user_log a \<longleftrightarrow> ActionLog_Validate a = None \<and> al_ActorType a = ActorTypeUser
     \<and> TrimSpace (al_ActorUserID a) = al_ActorUserID a"

definition same_action :: "ActionLog \<Rightarrow> ActionLog \<Rightarrow> bool" where
  "same_action a b \<longleftrightarrow> al_SessionID a = al_SessionID b \<and> al_ActorUserID a = al_ActorUserID b
     \<and> al_ActionID a = al_ActionID b"

lemma action_row_key:
  assumes "user_log a"
  shows "alr_SessionID ((actionLogRecordFromDomain a)\<lparr>alr_ID := i\<rparr>) = al_SessionID a"
    and "alr_ActorUserID ((actionLogRecordFromDomain a)\<lparr>alr_ID := i\<rparr>) = al_ActorUserID a"
    and "alr_ActionID ((actionLogRecordFromDomain a)\<lparr>alr_ID := i\<rparr>) = al_ActionID a"
  using assms by (auto simp: actionLogRecordFromDomain_def user_log_def Let_def)

lemma CreateActionLog_get:
  assumes a: "user_log a" and w: "CreateActionLog a d = Inr d'"
  shows "GetActionLogByActionID (al_SessionID a) (al_ActorUserID a) (al_ActionID a) d' = Inr a"
proof -
  let ?row = "(actionLogRecordFromDomain a)\<lparr>alr_ID := next_serial d\<rparr>"
  let ?P = "\<lambda>x. alr_SessionID x = al_SessionID a \<and> alr_ActorUserID x = al_ActorUserID a
      \<and> alr_ActionID x = al_ActionID a"
  from w have t: "d_action_logs d' = d_action_logs d @ [?row]"
    and new: "\<forall>x \<in> set (d_action_logs d). \<not> ?P x"
    using action_row_key [OF a, of "next_serial d"]
    by (auto simp: CreateActionLog_def insert_row_Inr action_log_clash_def)
  have "?P ?row" using action_row_key [OF a, of "next_serial d"] by blast
  then have "gorm_First ?P (d_action_logs d') = Inr ?row"
    using gorm_First_append [OF new, of ?row] by (simp only: t simp_thms if_True)
  moreover have "actionLogRecordToDomain ?row = Inr a"
  proof -
    have "actionLogRecordToDomain (actionLogRecordFromDomain a) = Inr a"
    proof (rule actionLog_roundtrip)
      show "ActorType_IsValid (al_ActorType a)" using a by (simp add: user_log_def)
      show "TrimSpace (al_ActorUserID a) = al_ActorUserID a" using a by (simp add: user_log_def)
      show "al_ActorUserID a \<noteq> ''''"
      proof
        assume "al_ActorUserID a = ''''"
        with a show False by (auto simp: user_log_def ActionLog_Validate_def split: if_splits)
      qed
    qed
    moreover have "actionLogRecordToDomain ?row =
        actionLogRecordToDomain (actionLogRecordFromDomain a)"
      by (simp add: actionLogRecordToDomain_def Let_def cong: if_cong)
    ultimately show ?thesis by simp
  qed
  ultimately show ?thesis by (simp add: GetActionLogByActionID_def)
qed

lemma saved_action_found:
  assumes a: "user_log a" and w: "SaveActionSuccessSnapshot a s e w = (Inr u, w')"
  shows "GetActionLogByActionID (al_SessionID a) (al_ActorUserID a) (al_ActionID a) (w_db w') =
           Inr (a\<lparr>al_ResponseSnapshot := s\<rparr>)"
proof -
  have "user_log (a\<lparr>al_ResponseSnapshot := s\<rparr>)"
    using a by (auto simp: user_log_def ActionLog_Validate_def split: if_splits)
  moreover from w obtain d where "CreateActionLog (a\<lparr>al_ResponseSnapshot := s\<rparr>) (w_db w) = Inr d"
    and "w_db w' = d" by (auto simp: SaveActionSuccessSnapshot_def prog_elims)
  ultimately show ?thesis using CreateActionLog_get by fastforce
qed

text \<open>What \<open>EnsureActionIdempotency\<close> answers while the log is there.\<close>

lemma Ensure_found:
  assumes "ActionLog_Validate b = None" "env_fault e (w_calls w) = None"
    and "GetActionLogByActionID (al_SessionID b) (al_ActorUserID b) (al_ActionID b) (w_db w) = Inr a"
  shows "EnsureActionIdempotency b e w =
     ((if al_RequestPayloadHash a = al_RequestPayloadHash b
       then Inr (al_ResponseSnapshot a, True) else Inl ErrDuplicateAction), tick w)"
  using assms
  by (simp add: EnsureActionIdempotency_def bind_def check_def attempt_def store_read_def
      store_op_def ret_def throw_def)

lemma Ensure_absent:
  assumes "EnsureActionIdempotency b e w = (Inr (s, False), w')"
  shows "w_db w' = w_db w \<and> w_calls w' = Suc (w_calls w) \<and>
     GetActionLogByActionID (al_SessionID b) (al_ActorUserID b) (al_ActionID b) (w_db w) =
       Inl ErrNotFound"
  using assms
  by (auto simp: EnsureActionIdempotency_def prog_elims read_answer_NotFound
      split: sum.splits if_splits)

end
