(* ===== verification/Round_Rules.thy ===== *)
theory Round_Rules
  imports Entities
begin

text \<open>
  The rules of a round: \<open>backend/model/dealer_policy.go\<close>, \<open>outcome.go\<close>,
  \<open>intermediate_strategy.go\<close> and \<open>round_engine.go\<close>. The Go interfaces \<open>HandEvaluator\<close> and
  \<open>RoundEngine\<close> are records of functions, passed to the rules as the code passes them. The
  locale \<open>hand_evaluator\<close> states what the rules rely on; it is interpreted on the adapter's
  evaluator in \<open>Lib_Adapter\<close>.
\<close>

subsection \<open>Interfaces\<close>

record HandEvaluator =
  ev_Value :: "StoredCard list \<Rightarrow> int"
  ev_IsBlackjack :: "StoredCard list \<Rightarrow> bool"
  ev_IsBust :: "StoredCard list \<Rightarrow> bool"
  ev_IsSoft :: "StoredCard list \<Rightarrow> bool"

record RoundEngine =
  eng_ApplyPlayerHit :: "StoredCard list \<Rightarrow> StoredCard \<Rightarrow> error + StoredCard list"
  eng_ResolveOutcome ::
    "HandEvaluator \<Rightarrow> StoredCard list \<Rightarrow> StoredCard list \<Rightarrow> error + Outcome"

subsection \<open>The dealer's policy\<close>

datatype DealerAction = DealerActionHit | DealerActionStand

definition NextDealerAction :: "HandEvaluator \<Rightarrow> StoredCard list \<Rightarrow> DealerAction \<times> bool" where
  "NextDealerAction ev dealer =
     (if ev_IsBust ev dealer then (DealerActionStand, True)
      else
        let v = ev_Value ev dealer in
        if v = 17 \<and> ev_IsSoft ev dealer then (DealerActionStand, False)
        else if v \<ge> 17 then (DealerActionStand, False)
        else (DealerActionHit, False))"

subsection \<open>The outcome of a round\<close>

definition ResolveRoundOutcome ::
    "HandEvaluator \<Rightarrow> StoredCard list \<Rightarrow> StoredCard list \<Rightarrow> error + Outcome" where
  "ResolveRoundOutcome ev playerHand dealerHand =
     (let pBust = ev_IsBust ev playerHand;
          dBust = ev_IsBust ev dealerHand;
          pBJ = ev_IsBlackjack ev playerHand;
          dBJ = ev_IsBlackjack ev dealerHand;
          pVal = ev_Value ev playerHand;
          dVal = ev_Value ev dealerHand
      in if pBust then Inr OutcomeLose
         else if dBust then Inr OutcomeWin
         else if pBJ \<and> \<not> dBJ then Inr OutcomeWin
         else if dBJ \<and> \<not> pBJ then Inr OutcomeLose
         else if pBJ \<and> dBJ then Inr OutcomePush
         else if pVal > dVal then Inr OutcomeWin
         else if pVal < dVal then Inr OutcomeLose
         else Inr OutcomePush)"

subsection \<open>The recommendation for the player\<close>

definition dealerUpValue :: "StoredCard \<Rightarrow> int" where
  "dealerUpValue c =
     (let r = card_Rank c in
      if r = ''A'' then 11
      else if r \<in> {''K'', ''Q'', ''J'', ''10''} then 10
      else if r = ''9'' then 9
      else if r = ''8'' then 8
      else if r = ''7'' then 7
      else if r = ''6'' then 6
      else if r = ''5'' then 5
      else if r = ''4'' then 4
      else if r = ''3'' then 3
      else if r = ''2'' then 2
      else 10)"

definition softHitOrStand :: "HandEvaluator \<Rightarrow> StoredCard list \<Rightarrow> int \<Rightarrow> bool" where
  "softHitOrStand ev player dealerValue =
     (let v = ev_Value ev player in
      if v \<ge> 19 then False
      else if v = 18 then dealerValue \<ge> 9 \<or> dealerValue = 11
      else True)"

definition hardHitOrStand :: "HandEvaluator \<Rightarrow> StoredCard list \<Rightarrow> int \<Rightarrow> bool" where
  "hardHitOrStand ev player dealerValue =
     (let v = ev_Value ev player in
      if v \<ge> 17 then False
      else if v = 16 \<or> v = 15 \<or> v = 14 \<or> v = 13
      then \<not> (dealerValue \<ge> 2 \<and> dealerValue \<le> 6)
      else if v = 12 then \<not> (dealerValue \<ge> 4 \<and> dealerValue \<le> 6)
      else if v = 11 then True
      else if v = 10 then dealerValue \<ge> 10 \<or> dealerValue = 11
      else True)"

definition RecommendHitOrStand ::
    "HandEvaluator \<Rightarrow> StoredCard list \<Rightarrow> StoredCard \<Rightarrow> bool" where
  "RecommendHitOrStand ev player dealerUp =
     (if player = [] \<or> ev_IsBust ev player then False
      else
        let dv = dealerUpValue dealerUp in
        if ev_IsSoft ev player then softHitOrStand ev player dv
        else hardHitOrStand ev player dv)"

subsection \<open>Facts about the rules\<close>

lemma NextDealerAction_hit_iff:
  "NextDealerAction ev h = (DealerActionHit, t) \<longleftrightarrow>
     \<not> ev_IsBust ev h \<and> ev_Value ev h < 17 \<and> \<not> t"
  by (auto simp: NextDealerAction_def Let_def)

lemma NextDealerAction_stand_iff:
  "NextDealerAction ev h = (DealerActionStand, t) \<longleftrightarrow>
     (if ev_IsBust ev h then t else 17 \<le> ev_Value ev h \<and> \<not> t)"
  by (auto simp: NextDealerAction_def Let_def)

lemma dealerUpValue_bounds: "2 \<le> dealerUpValue c \<and> dealerUpValue c \<le> 11"
  by (simp add: dealerUpValue_def Let_def)

text \<open>
  The value of a hand on a scale where a bust hand is worth nothing and a natural is worth more
  than any other 21.
\<close>

definition hand_strength :: "HandEvaluator \<Rightarrow> StoredCard list \<Rightarrow> int option" where
  "hand_strength ev h =
     (if ev_IsBust ev h then None
      else Some (2 * ev_Value ev h + (if ev_IsBlackjack ev h then 1 else 0)))"

definition compare_strength :: "int option \<Rightarrow> int option \<Rightarrow> Outcome" where
  "compare_strength p d =
     (case (p, d) of
        (None, _) \<Rightarrow> OutcomeLose
      | (Some _, None) \<Rightarrow> OutcomeWin
      | (Some x, Some y) \<Rightarrow>
          if x > y then OutcomeWin else if x < y then OutcomeLose else OutcomePush)"

fun mirror :: "Outcome \<Rightarrow> Outcome" where
  "mirror OutcomeWin = OutcomeLose"
| "mirror OutcomeLose = OutcomeWin"
| "mirror o' = o'"

locale hand_evaluator =
  fixes ev :: HandEvaluator
  assumes bust_iff: "ev_IsBust ev h \<longleftrightarrow> ev_Value ev h > 21"
    and blackjack_iff: "ev_IsBlackjack ev h \<longleftrightarrow> length h = 2 \<and> ev_Value ev h = 21"
begin

lemma blackjack_not_bust: "ev_IsBlackjack ev h \<Longrightarrow> \<not> ev_IsBust ev h"
  by (simp add: bust_iff blackjack_iff)

lemma strength_le: "hand_strength ev h = Some x \<Longrightarrow> x \<le> 43"
  by (auto simp: hand_strength_def bust_iff blackjack_iff split: if_splits)

lemma resolve_by_strength:
  "ResolveRoundOutcome ev p d = Inr (compare_strength (hand_strength ev p) (hand_strength ev d))"
proof -
  consider (pb) "ev_IsBust ev p" | (db) "\<not> ev_IsBust ev p" "ev_IsBust ev d"
    | (both) "\<not> ev_IsBust ev p" "\<not> ev_IsBust ev d" by blast
  then show ?thesis
  proof cases
    case both
    then have "ev_Value ev p \<le> 21" "ev_Value ev d \<le> 21" by (auto simp: bust_iff)
    moreover have "ev_IsBlackjack ev p \<Longrightarrow> ev_Value ev p = 21"
      and "ev_IsBlackjack ev d \<Longrightarrow> ev_Value ev d = 21" by (auto simp: blackjack_iff)
    ultimately show ?thesis using both
      by (simp add: ResolveRoundOutcome_def hand_strength_def compare_strength_def Let_def)
  qed (simp_all add: ResolveRoundOutcome_def hand_strength_def compare_strength_def)
qed

lemma resolve_valid: "ResolveRoundOutcome ev p d = Inr oc \<Longrightarrow> Outcome_IsValid oc"
  by (auto simp: resolve_by_strength compare_strength_def split: option.splits)

lemma compare_mirror: "p \<noteq> None \<or> d \<noteq> None \<Longrightarrow> compare_strength d p = mirror (compare_strength p d)"
  by (auto simp: compare_strength_def split: option.splits)

lemma resolve_mirror:
  assumes "\<not> (ev_IsBust ev p \<and> ev_IsBust ev d)" and "ResolveRoundOutcome ev p d = Inr oc"
  shows "ResolveRoundOutcome ev d p = Inr (mirror oc)"
proof -
  have "hand_strength ev p \<noteq> None \<or> hand_strength ev d \<noteq> None"
    using assms(1) by (auto simp: hand_strength_def)
  with assms(2) show ?thesis by (simp add: resolve_by_strength compare_mirror)
qed

lemma dealer_stand_value:
  "NextDealerAction ev h = (DealerActionStand, t) \<Longrightarrow> 17 \<le> ev_Value ev h"
  by (auto simp: NextDealerAction_stand_iff bust_iff split: if_splits)

lemma dealer_hit_value: "NextDealerAction ev h = (DealerActionHit, t) \<Longrightarrow> ev_Value ev h \<le> 16"
  by (simp add: NextDealerAction_hit_iff)

lemma dealer_terminal_iff: "snd (NextDealerAction ev h) \<longleftrightarrow> ev_Value ev h > 21"
  by (auto simp: NextDealerAction_def Let_def bust_iff)

end

end
