(* ===== verification/Room_Service.thy ===== *)
theory Room_Service
  imports Idempotency Round_Rules
begin

text \<open>
  The use cases on rooms of \<open>backend/usecase/game_usecase.go\<close>: creating, joining, reading,
  listing and leaving a room, the debug reset, the history, and the two marks a WebSocket
  connection sets. A use case is a program; its name has the suffix \<open>_uc\<close> where the repository
  has an operation of the same name.
\<close>

record roomService =
  svc_evaluator :: HandEvaluator
  svc_engine :: RoundEngine

definition in_room :: "RoomPlayer \<Rightarrow> bool" where
  "in_room p \<longleftrightarrow> rp_Status p = RoomPlayerActive \<or> rp_Status p = RoomPlayerDisconnected"

subsection \<open>Creating and joining\<close>

definition CreateRoom_uc :: "string \<Rightarrow> Room prog" where
  "CreateRoom_uc hostUserID =
     (if hostUserID = [] then throw ErrUnauthorizedUser
      else
        bind io_now (\<lambda>now.
        bind io_uuid (\<lambda>roomID.
        bind (lift (NewRoom now roomID hostUserID now)) (\<lambda>room.
        bind (lift (RecalculateStatus room 0 False)) (\<lambda>room.
        let room = Room_Touch now room in
        bind (transaction (store_write (CreateRoom room))) (\<lambda>_.
        ret room))))))"

definition JoinRoom_tx :: "string \<Rightarrow> string \<Rightarrow> RoomPlayer \<Rightarrow> Room \<Rightarrow> time \<Rightarrow> unit prog" where
  "JoinRoom_tx roomID userID joiner room now =
     bind (attempt (store_read (GetRoomPlayer roomID userID))) (\<lambda>r.
     bind
       (case r of
          Inl err \<Rightarrow>
            if err \<noteq> ErrNotFound then throw err
            else
              bind (attempt (store_write (CreateRoomPlayer joiner))) (\<lambda>c.
              case c of
                Inl err \<Rightarrow> if err = ErrAlreadyExists then throw ErrRoomFull else throw err
              | Inr _ \<Rightarrow> ret ())
        | Inr existing \<Rightarrow>
            bind (guard (rp_Status existing = RoomPlayerLeft) ErrRoomFull) (\<lambda>_.
            bind (lift (RoomPlayer_SetStatus existing RoomPlayerActive)) (\<lambda>existing.
            store_write (UpdateRoomPlayer (existing\<lparr>rp_LeftAt := None, rp_JoinedAt := now\<rparr>)))))
       (\<lambda>_. tx_UpdateRoom room))"

definition JoinRoom :: "string \<Rightarrow> string \<Rightarrow> Room prog" where
  "JoinRoom roomID userID =
     (if userID = [] then throw ErrUnauthorizedUser
      else if roomID = [] then throw ErrInvalidInput
      else
        bind (store_read (GetRoom roomID)) (\<lambda>room.
        bind (guard (CanJoinAsHumanPlayer (room_Status room)) ErrInvalidGameState) (\<lambda>_.
        bind (guard (room_HostUserID room = userID) ErrForbiddenAction) (\<lambda>_.
        bind (store_read (ListRoomPlayersByRoomID roomID)) (\<lambda>players.
        let activeHuman = int (length (filter in_room players)) in
        bind (guard (activeHuman < 1) ErrRoomFull) (\<lambda>_.
        bind io_now (\<lambda>now.
        bind (lift (NewRoomPlayer roomID userID 1 now)) (\<lambda>joiner.
        bind (lift (RecalculateStatus room (activeHuman + 1) (room_CurrentSessionID room \<noteq> None)))
          (\<lambda>room.
        let room = Room_Touch now room in
        bind (transaction (JoinRoom_tx roomID userID joiner room now)) (\<lambda>_.
        ret room))))))))))"

subsection \<open>Reading\<close>

text \<open>The host and the players that have not left may read a room.\<close>

definition room_access :: "Room \<Rightarrow> string \<Rightarrow> string \<Rightarrow> unit prog" where
  "room_access room roomID userID =
     (if room_HostUserID room \<noteq> userID then
        bind (attempt (store_read (GetRoomPlayer roomID userID))) (\<lambda>r.
        case r of
          Inl err \<Rightarrow> if err = ErrNotFound then throw ErrForbiddenAction else throw err
        | Inr p \<Rightarrow> guard (rp_Status p \<noteq> RoomPlayerLeft) ErrForbiddenAction)
      else ret ())"

definition GetRoom_uc :: "string \<Rightarrow> string \<Rightarrow> (Room \<times> GameSession option) prog" where
  "GetRoom_uc roomID userID =
     (if userID = [] then throw ErrUnauthorizedUser
      else if roomID = [] then throw ErrInvalidInput
      else
        bind (store_read (GetRoom roomID)) (\<lambda>room.
        bind (room_access room roomID userID) (\<lambda>_.
        case room_CurrentSessionID room of
          None \<Rightarrow> ret (room, None)
        | Some sid \<Rightarrow>
            bind (attempt (store_read (GetSession sid))) (\<lambda>r.
            case r of
              Inl err \<Rightarrow> if err = ErrNotFound then ret (room, None) else throw err
            | Inr sess \<Rightarrow> ret (room, Some sess)))))"

definition ListRooms :: "string \<Rightarrow> Room list prog" where
  "ListRooms userID =
     (if userID = [] then throw ErrUnauthorizedUser else store_read (ListRoomsByUserID userID))"

definition GetRoomHistory :: "string \<Rightarrow> string \<Rightarrow> RoundLog list prog" where
  "GetRoomHistory roomID userID =
     (if userID = [] then throw ErrUnauthorizedUser
      else if roomID = [] then throw ErrInvalidInput
      else
        bind (store_read (GetRoom roomID)) (\<lambda>room.
        bind (room_access room roomID userID) (\<lambda>_.
        store_read (ListRoundLogsByRoomID roomID))))"

subsection \<open>Leaving\<close>

record HostTransfer =
  ht_RoomID :: string
  ht_PreviousHostUserID :: string
  ht_NewHostUserID :: string

definition selectNextHost :: "RoomPlayer list \<Rightarrow> string \<Rightarrow> RoomPlayer option" where
  "selectNextHost players leavingUserID =
     (case sort_key rp_SeatNo (sort_key rp_UserID
             (filter (\<lambda>p. rp_UserID p \<noteq> leavingUserID \<and> in_room p) players)) of
        [] \<Rightarrow> None
      | c # _ \<Rightarrow> Some c)"

definition LeaveRoom :: "string \<Rightarrow> string \<Rightarrow> (Room \<times> HostTransfer option) prog" where
  "LeaveRoom roomID userID =
     (if userID = [] then throw ErrUnauthorizedUser
      else if roomID = [] then throw ErrInvalidInput
      else
        bind (store_read (GetRoom roomID)) (\<lambda>room.
        bind (guard (room_CurrentSessionID room = None) ErrInvalidGameState) (\<lambda>_.
        bind (store_read (GetRoomPlayer roomID userID)) (\<lambda>p.
        if rp_Status p = RoomPlayerLeft then ret (room, None)
        else
          bind (store_read (ListRoomPlayersByRoomID roomID)) (\<lambda>players.
          bind io_now (\<lambda>now.
          let p = MarkLeft now p;
              activeAfterLeave =
                int (length (filter (\<lambda>rp. rp_UserID rp \<noteq> userID \<and> in_room rp) players));
              (room, transfer) =
                (if room_HostUserID room = userID then
                   (case selectNextHost players userID of
                      Some nextHost \<Rightarrow>
                        (room\<lparr>room_HostUserID := rp_UserID nextHost\<rparr>,
                         Some \<lparr>ht_RoomID = roomID, ht_PreviousHostUserID = userID,
                               ht_NewHostUserID = rp_UserID nextHost\<rparr>)
                    | None \<Rightarrow> (room, None))
                 else (room, None))
          in
          bind (lift (RecalculateStatus room activeAfterLeave False)) (\<lambda>room.
          let room = Room_Touch now room in
          bind (transaction (bind (store_write (UpdateRoomPlayer p)) (\<lambda>_. tx_UpdateRoom room)))
            (\<lambda>_.
          ret (room, transfer)))))))))"

subsection \<open>The debug reset\<close>

definition ResetRoomForDebug :: "string \<Rightarrow> string \<Rightarrow> Room prog" where
  "ResetRoomForDebug roomID userID =
     (if userID = [] then throw ErrUnauthorizedUser
      else if roomID = [] then throw ErrInvalidInput
      else
        transaction (
          bind (store_read (GetRoom roomID)) (\<lambda>room.
          bind (guard (room_HostUserID room = userID) ErrForbiddenAction) (\<lambda>_.
          bind io_now (\<lambda>now.
          let room = room\<lparr>room_CurrentSessionID := None\<rparr> in
          bind (tx_UpdateRoom room) (\<lambda>_.
          bind (store_write (DeleteGameSessionsByRoomID roomID)) (\<lambda>_.
          bind (store_write (DeleteRoomPlayersByRoomID roomID)) (\<lambda>_.
          bind (lift (RecalculateStatus room 0 False)) (\<lambda>room.
          let room = Room_Touch now room in
          bind (tx_UpdateRoom room) (\<lambda>_.
          ret room))))))))))"

subsection \<open>Connection marks\<close>

definition MarkConnected :: "string \<Rightarrow> string \<Rightarrow> unit prog" where
  "MarkConnected roomID userID =
     (if roomID = [] \<or> userID = [] then throw ErrInvalidInput
      else
        bind (store_read (GetRoomPlayer roomID userID)) (\<lambda>p.
        if rp_Status p = RoomPlayerLeft \<or> rp_Status p = RoomPlayerActive then ret ()
        else
          bind (lift (RoomPlayer_SetStatus p RoomPlayerActive)) (\<lambda>p.
          store_write (UpdateRoomPlayer p))))"

definition MarkDisconnected :: "string \<Rightarrow> string \<Rightarrow> unit prog" where
  "MarkDisconnected roomID userID =
     (if roomID = [] \<or> userID = [] then throw ErrInvalidInput
      else
        bind (attempt (store_read (GetRoomPlayer roomID userID))) (\<lambda>r.
        case r of
          Inl err \<Rightarrow> if err = ErrNotFound then ret () else throw err
        | Inr p \<Rightarrow>
            if rp_Status p = RoomPlayerLeft \<or> rp_Status p = RoomPlayerDisconnected then ret ()
            else
              bind (lift (RoomPlayer_SetStatus p RoomPlayerDisconnected)) (\<lambda>p.
              store_write (UpdateRoomPlayer p))))"

lemmas room_uc_defs =
  CreateRoom_uc_def JoinRoom_def JoinRoom_tx_def GetRoom_uc_def ListRooms_def GetRoomHistory_def
  LeaveRoom_def ResetRoomForDebug_def MarkConnected_def MarkDisconnected_def

subsection \<open>Effects\<close>

lemma readonly_room_access [readonly_intros]: "readonly (room_access room i u)"
  unfolding room_access_def by (intro readonly_intros)

lemma readonly_room_uc [readonly_intros]:
  "readonly (GetRoom_uc i u)" "readonly (ListRooms u)" "readonly (GetRoomHistory i u)"
  unfolding GetRoom_uc_def ListRooms_def GetRoomHistory_def by (intro readonly_intros)+

lemma writes_room_uc [writes_intros]:
  "writes_only (CreateRoom_uc u)" "writes_only (JoinRoom i u)" "writes_only (LeaveRoom i u)"
  "writes_only (ResetRoomForDebug i u)" "writes_only (MarkConnected i u)"
  "writes_only (MarkDisconnected i u)"
  unfolding room_uc_defs Let_def by (intro writes_intros)+

lemma aon_room_uc [aon_intros]:
  "all_or_nothing (CreateRoom_uc u)" "all_or_nothing (JoinRoom i u)"
  "all_or_nothing (LeaveRoom i u)" "all_or_nothing (ResetRoomForDebug i u)"
  "all_or_nothing (MarkConnected i u)" "all_or_nothing (MarkDisconnected i u)"
  unfolding room_uc_defs Let_def by (intro aon_intros readonly_intros)+

subsection \<open>Properties\<close>

lemma sort_key_twice_hd:
  fixes f :: "'a \<Rightarrow> 'b :: linorder" and g :: "'a \<Rightarrow> 'c :: linorder"
  assumes s: "sort_key f (sort_key g xs) = c # cs"
  shows "c \<in> set xs" "p \<in> set xs \<Longrightarrow> f c < f p \<or> f c = f p \<and> g c \<le> g p"
proof -
  have set: "set (c # cs) = set xs" using s by (metis set_sort)
  then show "c \<in> set xs" by auto
  have sorted: "sorted (map f (c # cs))" using s by (metis sorted_sort_key)
  assume p: "p \<in> set xs"
  with set sorted have le: "f c \<le> f p" by auto
  show "f c < f p \<or> f c = f p \<and> g c \<le> g p"
  proof (cases "f c = f p")
    case True
    let ?F = "filter (\<lambda>x. f x = f c)"
    have "?F (c # cs) = ?F (sort_key g xs)" using s sort_key_stable [of f "f c" "sort_key g xs"] by simp
    then have F: "c # ?F cs = sort_key g (?F xs)" by (simp add: filter_sort)
    have "sorted (map g (c # ?F cs))" unfolding F by simp
    moreover have "p \<in> set (c # ?F cs)" unfolding F using p True by simp
    ultimately have "g c \<le> g p" by auto
    with True show ?thesis by simp
  next
    case False
    with le show ?thesis by simp
  qed
qed

theorem next_host_least_seat:
  assumes "selectNextHost players leaving = Some h"
  shows "h \<in> set players \<and> rp_UserID h \<noteq> leaving \<and> in_room h
    \<and> (\<forall>p \<in> set players. rp_UserID p \<noteq> leaving \<and> in_room p \<longrightarrow>
         rp_SeatNo h < rp_SeatNo p \<or> rp_SeatNo h = rp_SeatNo p \<and> rp_UserID h \<le> rp_UserID p)"
proof -
  from assms obtain cs where "sort_key rp_SeatNo (sort_key rp_UserID
      (filter (\<lambda>p. rp_UserID p \<noteq> leaving \<and> in_room p) players)) = h # cs"
    by (auto simp: selectNextHost_def split: list.splits)
  note least = sort_key_twice_hd [OF this]
  from least(1) least(2) show ?thesis by auto
qed

theorem next_host_least_seat_witness:
  "selectNextHost
     [\<lparr>rp_RoomID = ''r'', rp_UserID = ''eve'', rp_SeatNo = 2, rp_Status = RoomPlayerActive,
       rp_JoinedAt = 1, rp_LeftAt = None\<rparr>,
      \<lparr>rp_RoomID = ''r'', rp_UserID = ''bob'', rp_SeatNo = 1, rp_Status = RoomPlayerDisconnected,
       rp_JoinedAt = 1, rp_LeftAt = None\<rparr>,
      \<lparr>rp_RoomID = ''r'', rp_UserID = ''ann'', rp_SeatNo = 1, rp_Status = RoomPlayerActive,
       rp_JoinedAt = 1, rp_LeftAt = None\<rparr>] ''ann'' =
   Some \<lparr>rp_RoomID = ''r'', rp_UserID = ''bob'', rp_SeatNo = 1, rp_Status = RoomPlayerDisconnected,
       rp_JoinedAt = 1, rp_LeftAt = None\<rparr>" (is "selectNextHost ?ps ''ann'' = Some ?bob")
proof -
  have run: "selectNextHost ?ps ''ann'' = Some ?bob" by code_simp
  from next_host_least_seat [OF run] run show ?thesis by simp
qed

end
