(* ===== verification/Lib_Adapter.thy ===== *)
theory Lib_Adapter
  imports Round_Rules Card_Deck
begin

text \<open>
  \<open>backend/adapter/blackjackadapter\<close>: the evaluator and the round engine, which translate the
  stored cards to the cards of the library \<open>github.com/ethanefung/cards\<close>, call
  \<open>github.com/ethanefung/blackjack\<close> and translate back. The library is not part of the
  repository: its three operations the code calls are the fields of \<open>bj_lib\<close>, an argument of
  every definition here. Its rank and suit constants are those the code names; a value of these
  types other than a named constant is \<open>RankUnlisted\<close> or \<open>SuitUnlisted\<close>.
\<close>

subsection \<open>The library\<close>

datatype cards_Rank =
    Ace | Two | Three | Four | Five | Six | Seven | Eight | Nine | Ten | Jack | Queen | King
  | Rankless | RankUnlisted int

datatype cards_Suit = Spades | Hearts | Diamonds | Clubs | Suitless | SuitUnlisted int

record cards_Card =
  lc_Suit :: cards_Suit
  lc_Rank :: cards_Rank

record bj_lib =
  bj_Draw :: "cards_Card list \<Rightarrow> cards_Card \<Rightarrow> cards_Card list"
  bj_Value :: "cards_Card list \<Rightarrow> int"
  bj_HasAce :: "cards_Card list \<Rightarrow> bool"

subsection \<open>Conversions\<close>

definition rankToString :: "cards_Rank \<Rightarrow> string" where
  "rankToString r =
     (case r of Ace \<Rightarrow> ''A'' | Two \<Rightarrow> ''2'' | Three \<Rightarrow> ''3'' | Four \<Rightarrow> ''4'' | Five \<Rightarrow> ''5''
      | Six \<Rightarrow> ''6'' | Seven \<Rightarrow> ''7'' | Eight \<Rightarrow> ''8'' | Nine \<Rightarrow> ''9'' | Ten \<Rightarrow> ''10''
      | Jack \<Rightarrow> ''J'' | Queen \<Rightarrow> ''Q'' | King \<Rightarrow> ''K'' | _ \<Rightarrow> ''2'')"

definition suitToString :: "cards_Suit \<Rightarrow> string" where
  "suitToString s =
     (case s of Spades \<Rightarrow> ''S'' | Hearts \<Rightarrow> ''H'' | Diamonds \<Rightarrow> ''D'' | Clubs \<Rightarrow> ''C'' | _ \<Rightarrow> ''S'')"

definition toSuit :: "string \<Rightarrow> cards_Suit" where
  "toSuit v =
     (if v = ''S'' then Spades else if v = ''H'' then Hearts
      else if v = ''D'' then Diamonds else if v = ''C'' then Clubs else Suitless)"

definition toRank :: "string \<Rightarrow> cards_Rank" where
  "toRank v =
     (if v = ''A'' then Ace else if v = ''2'' then Two else if v = ''3'' then Three
      else if v = ''4'' then Four else if v = ''5'' then Five else if v = ''6'' then Six
      else if v = ''7'' then Seven else if v = ''8'' then Eight else if v = ''9'' then Nine
      else if v = ''10'' then Ten else if v = ''J'' then Jack else if v = ''Q'' then Queen
      else if v = ''K'' then King else Rankless)"

definition toBlackjackHand :: "StoredCard list \<Rightarrow> cards_Card list" where
  "toBlackjackHand hand =
     map (\<lambda>c. \<lparr>lc_Suit = toSuit (card_Suit c), lc_Rank = toRank (card_Rank c)\<rparr>) hand"

definition cardToStored :: "cards_Card \<Rightarrow> StoredCard" where
  "cardToStored c =
     \<lparr>card_Rank = rankToString (lc_Rank c), card_Suit = suitToString (lc_Suit c)\<rparr>"

definition fromBlackjackHand :: "cards_Card list \<Rightarrow> StoredCard list" where
  "fromBlackjackHand h = map cardToStored h"

subsection \<open>The evaluator and the engine\<close>

fun hardValue :: "StoredCard list \<Rightarrow> int" where
  "hardValue [] = 0"
| "hardValue (c # cs) =
     (let r = card_Rank c in
      if r = ''A'' then 1
      else if r \<in> {''K'', ''Q'', ''J'', ''10''} then 10
      else if r = ''9'' then 9
      else if r = ''8'' then 8
      else if r = ''7'' then 7
      else if r = ''6'' then 6
      else if r = ''5'' then 5
      else if r = ''4'' then 4
      else if r = ''3'' then 3
      else if r = ''2'' then 2
      else 0) + hardValue cs"

definition NewHandEvaluator :: "bj_lib \<Rightarrow> HandEvaluator" where
  "NewHandEvaluator lib =
     \<lparr>ev_Value = (\<lambda>hand. bj_Value lib (toBlackjackHand hand)),
      ev_IsBlackjack = (\<lambda>hand. let bh = toBlackjackHand hand
                          in length bh = 2 \<and> bj_Value lib bh = 21),
      ev_IsBust = (\<lambda>hand. bj_Value lib (toBlackjackHand hand) > 21),
      ev_IsSoft = (\<lambda>hand. let bh = toBlackjackHand hand; hard = hardValue hand
                    in bj_HasAce lib bh \<and> bj_Value lib bh > hard)\<rparr>"

definition NewRoundEngine :: "bj_lib \<Rightarrow> RoundEngine" where
  "NewRoundEngine lib =
     \<lparr>eng_ApplyPlayerHit = (\<lambda>hand draw.
        let h = toBlackjackHand hand;
            c = \<lparr>lc_Suit = toSuit (card_Suit draw), lc_Rank = toRank (card_Rank draw)\<rparr>
        in Inr (fromBlackjackHand (bj_Draw lib h c))),
      eng_ResolveOutcome = ResolveRoundOutcome\<rparr>"

lemmas adapter_simps = NewHandEvaluator_def NewRoundEngine_def Let_def

interpretation adapter: hand_evaluator "NewHandEvaluator lib" for lib
  by unfold_locales (simp_all add: NewHandEvaluator_def toBlackjackHand_def)

subsection \<open>Round trips of the conversions\<close>

lemma rank_roundtrip: "v \<in> set ranks \<Longrightarrow> rankToString (toRank v) = v"
  by (auto simp: ranks_def toRank_def rankToString_def)

lemma suit_roundtrip: "v \<in> set suits \<Longrightarrow> suitToString (toSuit v) = v"
  by (auto simp: suits_def toSuit_def suitToString_def)

lemma rankToString_valid: "rankToString r \<in> set ranks"
  by (cases r) (simp_all add: rankToString_def ranks_def)

lemma suitToString_valid: "suitToString s \<in> set suits"
  by (cases s) (simp_all add: suitToString_def suits_def)

lemma cardToStored_valid [simp]: "valid_card (cardToStored c)"
  by (simp add: valid_card_def cardToStored_def rankToString_valid suitToString_valid)

lemma hand_roundtrip:
  "list_all valid_card hand \<Longrightarrow> fromBlackjackHand (toBlackjackHand hand) = hand"
  by (induction hand)
    (simp_all add: fromBlackjackHand_def toBlackjackHand_def cardToStored_def valid_card_def
      rank_roundtrip suit_roundtrip)

lemma toBlackjackHand_append:
  "toBlackjackHand (hand @ [c]) =
     toBlackjackHand hand @ [\<lparr>lc_Suit = toSuit (card_Suit c), lc_Rank = toRank (card_Rank c)\<rparr>]"
  by (simp add: toBlackjackHand_def)

lemma length_toBlackjackHand [simp]: "length (toBlackjackHand h) = length h"
  by (simp add: toBlackjackHand_def)

text \<open>Whatever the library does, the engine never fails and stores real cards only.\<close>

lemma apply_hit_valid:
  "eng_ApplyPlayerHit (NewRoundEngine lib) hand draw = Inr h' \<Longrightarrow> list_all valid_card h'"
  by (auto simp: adapter_simps fromBlackjackHand_def list_all_iff)

subsection \<open>What the library promises\<close>

text \<open>
  \<open>Draw\<close> appends the card to the hand (the port's comment in \<open>round_engine.go\<close>), and \<open>Value\<close>
  is the blackjack total: an ace counts 11 where that does not bust, 1 otherwise. The tests of
  the adapter and of the model rely on these values.
\<close>

fun rank_points :: "cards_Rank \<Rightarrow> int" where
  "rank_points Ace = 1"
| "rank_points Two = 2"
| "rank_points Three = 3"
| "rank_points Four = 4"
| "rank_points Five = 5"
| "rank_points Six = 6"
| "rank_points Seven = 7"
| "rank_points Eight = 8"
| "rank_points Nine = 9"
| "rank_points Ten = 10"
| "rank_points Jack = 10"
| "rank_points Queen = 10"
| "rank_points King = 10"
| "rank_points _ = 0"

definition has_ace :: "cards_Card list \<Rightarrow> bool" where
  "has_ace h \<longleftrightarrow> list_ex (\<lambda>c. lc_Rank c = Ace) h"

definition hard_total :: "cards_Card list \<Rightarrow> int" where
  "hard_total h = sum_list (map (rank_points \<circ> lc_Rank) h)"

definition best_total :: "cards_Card list \<Rightarrow> int" where
  "best_total h =
     (let t = hard_total h in if has_ace h \<and> t + 10 \<le> 21 then t + 10 else t)"

fun listed :: "cards_Rank \<Rightarrow> bool" where
  "listed Rankless = False"
| "listed (RankUnlisted _) = False"
| "listed _ = True"

definition lib_draw_appends :: "bj_lib \<Rightarrow> bool" where
  "lib_draw_appends lib \<longleftrightarrow> (\<forall>h c. bj_Draw lib h c = h @ [c])"

definition lib_counts :: "bj_lib \<Rightarrow> bool" where
  "lib_counts lib \<longleftrightarrow>
     (\<forall>h. list_all (listed \<circ> lc_Rank) h \<longrightarrow>
        bj_Value lib h = best_total h \<and> bj_HasAce lib h = has_ace h)"

definition lib_documented :: "bj_lib \<Rightarrow> bool" where
  "lib_documented lib \<longleftrightarrow> lib_draw_appends lib \<and> lib_counts lib"

text \<open>A library that keeps these promises, for the instances of the theorems.\<close>

definition reference_lib :: bj_lib where
  "reference_lib = \<lparr>bj_Draw = (\<lambda>h c. h @ [c]), bj_Value = best_total, bj_HasAce = has_ace\<rparr>"

lemma reference_lib_documented: "lib_documented reference_lib"
  by (simp add: lib_documented_def lib_draw_appends_def lib_counts_def reference_lib_def)

subsection \<open>Facts under these promises\<close>

lemma listed_toRank: "v \<in> set ranks \<Longrightarrow> listed (toRank v)"
  by (auto simp: ranks_def toRank_def)

lemma listed_hand: "list_all valid_card h \<Longrightarrow> list_all (listed \<circ> lc_Rank) (toBlackjackHand h)"
  by (induction h) (simp_all add: toBlackjackHand_def valid_card_def listed_toRank)

lemma apply_hit_appends:
  assumes "lib_draw_appends lib" "list_all valid_card hand" "valid_card c"
  shows "eng_ApplyPlayerHit (NewRoundEngine lib) hand c = Inr (hand @ [c])"
proof -
  have "fromBlackjackHand (toBlackjackHand (hand @ [c])) = hand @ [c]"
    using assms by (intro hand_roundtrip) simp
  with assms(1) show ?thesis
    by (simp add: adapter_simps lib_draw_appends_def toBlackjackHand_append)
qed

lemma adapter_value:
  assumes "lib_counts lib" "list_all valid_card h"
  shows "ev_Value (NewHandEvaluator lib) h = best_total (toBlackjackHand h)"
  using assms listed_hand by (simp add: NewHandEvaluator_def lib_counts_def)

lemma rank_points_pos: "listed r \<Longrightarrow> 1 \<le> rank_points r"
  by (cases r) simp_all

lemma rank_points_le: "rank_points r \<le> 10"
  by (cases r) simp_all

lemma hard_total_append [simp]:
  "hard_total (h @ [c]) = hard_total h + rank_points (lc_Rank c)"
  by (simp add: hard_total_def)

lemma hard_total_ge_length: "list_all (listed \<circ> lc_Rank) h \<Longrightarrow> int (length h) \<le> hard_total h"
proof (induction h)
  case (Cons c h)
  then show ?case using rank_points_pos [of "lc_Rank c"] by (simp add: hard_total_def)
qed (simp add: hard_total_def)

lemma best_total_ge_hard: "hard_total h \<le> best_total h"
  by (simp add: best_total_def Let_def)

lemma value_ge_length:
  assumes "lib_counts lib" "list_all valid_card h"
  shows "int (length h) \<le> ev_Value (NewHandEvaluator lib) h"
proof -
  have "int (length h) \<le> hard_total (toBlackjackHand h)"
    using hard_total_ge_length [OF listed_hand [OF assms(2)]] by simp
  also have "\<dots> \<le> best_total (toBlackjackHand h)" by (rule best_total_ge_hard)
  finally show ?thesis using assms by (simp add: adapter_value)
qed

text \<open>A hand worth at most 11 as hard total cannot bust with one more card.\<close>

lemma no_bust_below_12:
  assumes "lib_counts lib" "list_all valid_card h" "valid_card c"
    and "hard_total (toBlackjackHand h) \<le> 11"
  shows "\<not> ev_IsBust (NewHandEvaluator lib) (h @ [c])"
proof -
  have "list_all valid_card (h @ [c])" using assms by simp
  moreover have "best_total (toBlackjackHand (h @ [c])) \<le> 21"
    using assms(4) rank_points_le [of "toRank (card_Rank c)"]
    by (simp add: best_total_def Let_def toBlackjackHand_append)
  ultimately show ?thesis using assms(1) by (simp add: adapter.bust_iff adapter_value)
qed

lemma hardValue_hard_total:
  "list_all valid_card h \<Longrightarrow> hardValue h = hard_total (toBlackjackHand h)"
proof (induction h)
  case (Cons c h)
  from Cons.prems have "card_Rank c \<in> set ranks" by (simp add: valid_card_def)
  then have "hardValue [c] = rank_points (toRank (card_Rank c))"
    by (auto simp: ranks_def toRank_def)
  moreover have "hardValue (c # h) = hardValue [c] + hardValue h" by (simp add: Let_def)
  ultimately show ?case using Cons by (simp add: hard_total_def toBlackjackHand_def)
qed (simp add: hard_total_def toBlackjackHand_def)

lemma adapter_soft:
  assumes "lib_counts lib" "list_all valid_card h"
  shows "ev_IsSoft (NewHandEvaluator lib) h \<longleftrightarrow>
           has_ace (toBlackjackHand h) \<and> hard_total (toBlackjackHand h) \<le> 11"
  using assms listed_hand [OF assms(2)]
  by (auto simp: NewHandEvaluator_def lib_counts_def hardValue_hard_total Let_def best_total_def)

subsection \<open>Properties\<close>

text \<open>
  C33. The outcome of a round is the comparison of the strengths of the two hands: a bust hand
  is below every other, a blackjack above 21, and the player's bust decides before the
  dealer's.
\<close>

theorem outcome_compares_strength:
  "eng_ResolveOutcome (NewRoundEngine lib) (NewHandEvaluator lib) player dealer =
     Inr (compare_strength (hand_strength (NewHandEvaluator lib) player)
       (hand_strength (NewHandEvaluator lib) dealer))"
  by (simp add: NewRoundEngine_def adapter.resolve_by_strength)

theorem outcome_symmetric:
  assumes "\<not> (ev_IsBust (NewHandEvaluator lib) player \<and> ev_IsBust (NewHandEvaluator lib) dealer)"
    and "ResolveRoundOutcome (NewHandEvaluator lib) player dealer = Inr oc"
  shows "ResolveRoundOutcome (NewHandEvaluator lib) dealer player = Inr (mirror oc)"
  using assms by (rule adapter.resolve_mirror)

definition spades :: "string list \<Rightarrow> StoredCard list" where
  "spades rs = map (\<lambda>r. \<lparr>card_Rank = r, card_Suit = ''S''\<rparr>) rs"

theorem outcome_symmetric_witness:
  "ResolveRoundOutcome (NewHandEvaluator reference_lib) (spades [''A'', ''K'']) (spades [''7'', ''7'', ''7''])
     = Inr OutcomeWin
   \<and> ResolveRoundOutcome (NewHandEvaluator reference_lib) (spades [''7'', ''7'', ''7'']) (spades [''A'', ''K''])
     = Inr OutcomeLose"
proof -
  have bust: "\<not> (ev_IsBust (NewHandEvaluator reference_lib) (spades [''A'', ''K''])
      \<and> ev_IsBust (NewHandEvaluator reference_lib) (spades [''7'', ''7'', ''7'']))"
    and win: "ResolveRoundOutcome (NewHandEvaluator reference_lib) (spades [''A'', ''K''])
      (spades [''7'', ''7'', ''7'']) = Inr OutcomeWin" by code_simp+
  from outcome_symmetric [OF bust win] win show ?thesis by simp
qed

theorem dealer_policy:
  "NextDealerAction (NewHandEvaluator lib) h =
     (if bj_Value lib (toBlackjackHand h) \<le> 16 then (DealerActionHit, False)
      else (DealerActionStand, bj_Value lib (toBlackjackHand h) > 21))"
  by (auto simp: NextDealerAction_def NewHandEvaluator_def Let_def)


theorem hint_stands_without_risk:
  assumes lib: "lib_counts lib" and h: "list_all valid_card h" "h \<noteq> []"
    and hard: "hard_total (toBlackjackHand h) = 10" "\<not> has_ace (toBlackjackHand h)"
  shows "(RecommendHitOrStand (NewHandEvaluator lib) h up \<longleftrightarrow> 10 \<le> dealerUpValue up)
    \<and> (\<forall>c. valid_card c \<longrightarrow> \<not> ev_IsBust (NewHandEvaluator lib) (h @ [c]))"
proof -
  have "ev_Value (NewHandEvaluator lib) h = 10"
    using adapter_value [OF lib h(1)] hard by (simp add: best_total_def)
  moreover have "\<not> ev_IsSoft (NewHandEvaluator lib) h" using adapter_soft [OF lib h(1)] hard by simp
  ultimately have "RecommendHitOrStand (NewHandEvaluator lib) h up \<longleftrightarrow> 10 \<le> dealerUpValue up"
    using h(2) by (auto simp: RecommendHitOrStand_def hardHitOrStand_def adapter.bust_iff Let_def)
  moreover have "\<not> ev_IsBust (NewHandEvaluator lib) (h @ [c])" if "valid_card c" for c
    using no_bust_below_12 [OF lib h(1) that] hard by simp
  ultimately show ?thesis by blast
qed

theorem hint_stands_without_risk_witness:
  "\<not> RecommendHitOrStand (NewHandEvaluator reference_lib) (spades [''6'', ''4''])
       \<lparr>card_Rank = ''6'', card_Suit = ''H''\<rparr>
   \<and> \<not> ev_IsBust (NewHandEvaluator reference_lib) (spades [''6'', ''4''] @ [\<lparr>card_Rank = ''K'', card_Suit = ''H''\<rparr>])"
proof -
  have h: "list_all valid_card (spades [''6'', ''4''])" "spades [''6'', ''4''] \<noteq> []"
    "hard_total (toBlackjackHand (spades [''6'', ''4''])) = 10"
    "\<not> has_ace (toBlackjackHand (spades [''6'', ''4'']))"
    "dealerUpValue \<lparr>card_Rank = ''6'', card_Suit = ''H''\<rparr> = 6"
    "valid_card \<lparr>card_Rank = ''K'', card_Suit = ''H''\<rparr>" by code_simp+
  have lib: "lib_counts reference_lib" using reference_lib_documented by (simp add: lib_documented_def)
  from hint_stands_without_risk [OF lib h(1-4)] h(5,6) show ?thesis by simp
qed

end
