(* ===== verification/Round_Service.thy ===== *)
theory Round_Service
  imports Room_Service Lib_Adapter
begin

text \<open>
  A round from the deal to the result (\<open>backend/usecase/game_usecase.go\<close>): \<open>initialDeal\<close>,
  \<open>StartRoom\<close>, the player's turn (\<open>Hit\<close>, \<open>Stand\<close>), \<open>dealerTurn\<close>, and the forfeit when the
  player's time is up (\<open>playerStand\<close>). The pure part of a handler is a function to a sum; what
  it stores is a transaction of its own, so that the interleaving of two requests between the
  reads and the transaction can be stated.
\<close>

definition PlayerTurnTimeout :: int where "PlayerTurnTimeout = 15 * Second"

subsection \<open>The deal\<close>

definition deal_one ::
    "RoundEngine \<Rightarrow> GameSession \<Rightarrow> StoredCard list \<Rightarrow> error + (GameSession \<times> StoredCard list)" where
  "deal_one eng sess hand =
     bindE (DrawCard sess) (\<lambda>(c, sess).
     bindE (eng_ApplyPlayerHit eng hand c) (\<lambda>h. Inr (sess, h)))"

definition initialDeal ::
    "RoundEngine \<Rightarrow> GameSession \<Rightarrow> PlayerState \<Rightarrow> DealerState \<Rightarrow>
       error + (GameSession \<times> PlayerState \<times> DealerState)" where
  "initialDeal eng sess p d =
     bindE (deal_one eng sess (ps_Hand p)) (\<lambda>(sess, ph).
     let p = p\<lparr>ps_Hand := ph\<rparr> in
     bindE (deal_one eng sess (ds_Hand d)) (\<lambda>(sess, dh).
     let d = d\<lparr>ds_Hand := dh\<rparr> in
     bindE (deal_one eng sess (ps_Hand p)) (\<lambda>(sess, ph).
     let p = p\<lparr>ps_Hand := ph\<rparr> in
     bindE (deal_one eng sess (ds_Hand d)) (\<lambda>(sess, dh).
     let d = d\<lparr>ds_Hand := dh\<rparr> in
     Inr (sess, p, d)))))"

text \<open>The player's turn ends: with the given status, the session goes to the dealer.\<close>

definition end_turn ::
    "PlayerStatus \<Rightarrow> GameSession \<Rightarrow> PlayerState \<Rightarrow> error + (GameSession \<times> PlayerState)" where
  "end_turn st sess p =
     bindE (PlayerState_SetStatus p st) (\<lambda>p.
     bindE (TransitionTo sess SessionStatusDealerTurn) (\<lambda>sess.
     Inr (SetTurnDeadline None sess, p)))"

text \<open>From a fresh session with its deck to the player's first turn, or past it on a natural.\<close>

definition open_round ::
    "roomService \<Rightarrow> time \<Rightarrow> GameSession \<Rightarrow> string \<Rightarrow>
       error + (GameSession \<times> PlayerState \<times> DealerState)" where
  "open_round u now sess userID =
     bindE (NewDealerState (sess_ID sess)) (\<lambda>dealer.
     bindE (NewPlayerState (sess_ID sess) userID 1) (\<lambda>pstate.
     bindE (initialDeal (svc_engine u) sess pstate dealer) (\<lambda>(sess, pstate, dealer).
     bindE (TransitionTo sess SessionStatusPlayerTurn) (\<lambda>sess.
     let sess = SetTurnDeadline (Some (now + PlayerTurnTimeout)) sess in
     if ev_IsBlackjack (svc_evaluator u) (ps_Hand pstate) then
       bindE (end_turn PlayerStatusBlackjack sess pstate) (\<lambda>(sess, pstate).
       Inr (sess, pstate, dealer))
     else Inr (sess, pstate, dealer)))))"

definition create_round_tx ::
    "GameSession \<Rightarrow> PlayerState \<Rightarrow> DealerState \<Rightarrow> Room \<Rightarrow> unit prog" where
  "create_round_tx sess pstate dealer room =
     bind (store_write (CreateSession sess)) (\<lambda>_.
     bind (store_write (CreatePlayerState pstate)) (\<lambda>_.
     bind (store_write (CreateDealerState dealer)) (\<lambda>_.
     tx_UpdateRoom room)))"

subsection \<open>Starting a round\<close>

definition next_round_no :: "string \<Rightarrow> int prog" where
  "next_round_no roomID =
     bind (attempt (store_read (GetLatestSessionByRoomID roomID))) (\<lambda>r.
     case r of
       Inl err \<Rightarrow> if err \<noteq> ErrNotFound then throw err else ret 1
     | Inr latest \<Rightarrow> ret (wrap64 (sess_RoundNo latest + 1)))"

definition StartRoom :: "roomService \<Rightarrow> string \<Rightarrow> string \<Rightarrow> (Room \<times> GameSession) prog" where
  "StartRoom u roomID userID =
     (if userID = [] then throw ErrUnauthorizedUser
      else if roomID = [] then throw ErrInvalidInput
      else
        bind (store_read (GetRoom roomID)) (\<lambda>room.
        bind (guard (room_HostUserID room = userID) ErrForbiddenAction) (\<lambda>_.
        bind (guard (room_Status room = RoomStatusReady) ErrInvalidGameState) (\<lambda>_.
        bind (store_read (GetRoomPlayer roomID userID)) (\<lambda>player.
        bind (guard (in_room player) ErrInvalidGameState) (\<lambda>_.
        bind (guard (room_CurrentSessionID room = None) ErrInvalidGameState) (\<lambda>_.
        bind (next_round_no roomID) (\<lambda>roundNo.
        bind io_now (\<lambda>now.
        bind io_uuid (\<lambda>sid.
        bind (lift (NewGameSession now sid roomID roundNo now)) (\<lambda>sess.
        bind io_deck (\<lambda>deck.
        bind (lift (open_round u now (SetDeck deck sess) userID)) (\<lambda>(sess, pstate, dealer).
        let room = room\<lparr>room_CurrentSessionID := Some (sess_ID sess)\<rparr> in
        bind (lift (RecalculateStatus room 1 True)) (\<lambda>room.
        let room = Room_Touch now room; sess = Session_Touch now sess in
        bind (transaction (create_round_tx sess pstate dealer room)) (\<lambda>_.
        ret (room, sess))))))))))))))))"

subsection \<open>The player's turn\<close>

definition turn_request :: "bool \<Rightarrow> string" where
  "turn_request hit = (if hit then ''HIT'' else ''STAND'')"

definition turn_payload :: "bool \<Rightarrow> int \<Rightarrow> string" where
  "turn_payload hit expectedVersion = turn_request hit @ '':'' @ FormatInt expectedVersion"

definition turn_log :: "string \<Rightarrow> string \<Rightarrow> string \<Rightarrow> bool \<Rightarrow> string \<Rightarrow> ActionLog" where
  "turn_log sessionID userID actionID hit hash =
     \<lparr>al_SessionID = sessionID, al_ActorType = ActorTypeUser, al_ActorUserID = userID,
      al_TargetUserID = userID, al_ActionID = actionID, al_RequestType = turn_request hit,
      al_RequestPayloadHash = hash, al_ResponseSnapshot = []\<rparr>"

text \<open>A hit: a card more, which may end the turn with a bust or a natural.\<close>

definition turn_hit ::
    "roomService \<Rightarrow> GameSession \<Rightarrow> PlayerState \<Rightarrow> error + (GameSession \<times> PlayerState)" where
  "turn_hit u sess player =
     bindE (DrawCard sess) (\<lambda>(card, sess).
     bindE (eng_ApplyPlayerHit (svc_engine u) (ps_Hand player) card) (\<lambda>nextHand.
     let player = player\<lparr>ps_Hand := nextHand\<rparr>;
         v = ev_Value (svc_evaluator u) (ps_Hand player)
     in if v > 21 then end_turn PlayerStatusBust sess player
        else if ev_IsBlackjack (svc_evaluator u) (ps_Hand player)
        then end_turn PlayerStatusBlackjack sess player
        else Inr (sess, player)))"

definition turn_apply ::
    "roomService \<Rightarrow> bool \<Rightarrow> time \<Rightarrow> GameSession \<Rightarrow> PlayerState \<Rightarrow>
       error + (GameSession \<times> PlayerState)" where
  "turn_apply u hit now sess player =
     bindE
       (if hit then turn_hit u sess player
        else
          end_turn PlayerStatusStand (SetTurnDeadline (Some (now + PlayerTurnTimeout)) sess) player)
       (\<lambda>(sess, player).
          if sess_Status sess = SessionStatusPlayerTurn
          then Inr (SetTurnDeadline (Some (now + PlayerTurnTimeout)) sess, player)
          else Inr (sess, player))"

text \<open>What a turn is about to store: room, session, player, dealer and its action log.\<close>

record turn_commit =
  tc_room :: Room
  tc_sess :: GameSession
  tc_player :: PlayerState
  tc_dealer :: DealerState
  tc_log :: ActionLog

definition turn_load ::
    "string \<Rightarrow> string \<Rightarrow> int \<Rightarrow> (Room \<times> GameSession \<times> PlayerState \<times> DealerState) prog" where
  "turn_load roomID userID expectedVersion =
     bind (store_read (GetRoom roomID)) (\<lambda>room.
     case room_CurrentSessionID room of
       None \<Rightarrow> throw ErrInvalidGameState
     | Some sid \<Rightarrow>
         bind (store_read (GetSession sid)) (\<lambda>sess.
         bind (check (CheckVersion sess expectedVersion)) (\<lambda>_.
         bind (attempt (store_read (GetPlayerState (sess_ID sess) userID))) (\<lambda>r.
         case r of
           Inl err \<Rightarrow> if err = ErrNotFound then throw ErrForbiddenAction else throw err
         | Inr player \<Rightarrow>
             bind (store_read (GetDealerState (sess_ID sess))) (\<lambda>dealer.
             bind (check (AssertCanHitOrStand player (Some sess) userID)) (\<lambda>_.
             ret (room, sess, player, dealer)))))))"

definition turn_compute ::
    "roomService \<Rightarrow> bool \<Rightarrow> ActionLog \<Rightarrow> Room \<times> GameSession \<times> PlayerState \<times> DealerState \<Rightarrow>
       turn_commit prog" where
  "turn_compute u hit actionLog = (\<lambda>(room, sess, player, dealer).
     bind io_now (\<lambda>now.
     bind (lift (turn_apply u hit now sess player)) (\<lambda>(sess, player).
     bind (lift (RecalculateStatus room 1 True)) (\<lambda>room.
     let room = Room_Touch now (room\<lparr>room_CurrentSessionID := Some (sess_ID sess)\<rparr>);
         sess = Session_Touch now (IncrementVersion sess) in
     ret \<lparr>tc_room = room, tc_sess = sess, tc_player = player, tc_dealer = dealer,
          tc_log = actionLog\<rparr>))))"

text \<open>The reads of a request: a replay, with the room and session it answers, or a commit.\<close>

definition turn_prepare ::
    "roomService \<Rightarrow> string \<Rightarrow> string \<Rightarrow> int \<Rightarrow> string \<Rightarrow> bool \<Rightarrow>
       ((Room \<times> GameSession) + turn_commit) prog" where
  "turn_prepare u roomID userID expectedVersion actionID hit =
     (if userID = [] then throw ErrUnauthorizedUser
      else if roomID = [] \<or> expectedVersion \<le> 0 \<or> actionID = [] then throw ErrInvalidInput
      else
        bind (turn_load roomID userID expectedVersion) (\<lambda>(room, sess, player, dealer).
        bind (sha256hex (turn_payload hit expectedVersion)) (\<lambda>hash.
        let actionLog = turn_log (sess_ID sess) userID actionID hit hash in
        bind (EnsureActionIdempotency actionLog) (\<lambda>(_, replay).
        if replay then ret (Inl (room, sess))
        else
          bind (turn_compute u hit actionLog (room, sess, player, dealer)) (\<lambda>c.
          ret (Inr c))))))"

definition turn_tx :: "int \<Rightarrow> turn_commit \<Rightarrow> unit prog" where
  "turn_tx expectedVersion c =
     bind (store_cas (tc_sess c) expectedVersion) (\<lambda>ok.
     bind (guard ok ErrVersionConflict) (\<lambda>_.
     bind (store_write (UpdatePlayerState (tc_player c))) (\<lambda>_.
     bind (store_write (UpdateDealerState (tc_dealer c))) (\<lambda>_.
     bind (tx_UpdateRoom (tc_room c)) (\<lambda>_.
     SaveActionSuccessSnapshot (tc_log c)
       (action_snapshot (room_ID (tc_room c)) (sess_ID (tc_sess c)) (sess_Version (tc_sess c))))))))"

definition playerTurn ::
    "roomService \<Rightarrow> string \<Rightarrow> string \<Rightarrow> int \<Rightarrow> string \<Rightarrow> bool \<Rightarrow> (Room \<times> GameSession) prog" where
  "playerTurn u roomID userID expectedVersion actionID hit =
     bind (turn_prepare u roomID userID expectedVersion actionID hit) (\<lambda>r.
     case r of
       Inl (room, sess) \<Rightarrow> ret (room, sess)
     | Inr c \<Rightarrow>
         bind (transaction (turn_tx expectedVersion c)) (\<lambda>_. ret (tc_room c, tc_sess c)))"

definition Hit ::
    "roomService \<Rightarrow> string \<Rightarrow> string \<Rightarrow> int \<Rightarrow> string \<Rightarrow> (Room \<times> GameSession) prog" where
  "Hit u roomID userID expectedVersion actionID =
     playerTurn u roomID userID expectedVersion actionID True"

definition Stand ::
    "roomService \<Rightarrow> string \<Rightarrow> string \<Rightarrow> int \<Rightarrow> string \<Rightarrow> (Room \<times> GameSession) prog" where
  "Stand u roomID userID expectedVersion actionID =
     playerTurn u roomID userID expectedVersion actionID False"

subsection \<open>The result of a round\<close>

definition result_log :: "GameSession \<Rightarrow> string \<Rightarrow> time \<Rightarrow> RoundLog" where
  "result_log sess payload now =
     \<lparr>rl_ID = [], rl_SessionID = sess_ID sess, rl_RoundNo = sess_RoundNo sess,
      rl_ResultPayload = payload, rl_CreatedAt = now\<rparr>"

definition dealerresult ::
    "roomService \<Rightarrow> GameSession \<Rightarrow> PlayerState \<Rightarrow> DealerState \<Rightarrow> time \<Rightarrow>
       error + (GameSession \<times> PlayerState \<times> DealerState \<times> RoundLog)" where
  "dealerresult u sess p d now =
     (let d = RevealHole d in
      bindE (TransitionTo sess SessionStatusResult) (\<lambda>sess.
      bindE (TransitionTo sess SessionStatusResetting) (\<lambda>sess.
      let sess = SetRematchDeadline now sess;
          pScore = ev_Value (svc_evaluator u) (ps_Hand p);
          dScore = ev_Value (svc_evaluator u) (ds_Hand d) in
      bindE (eng_ResolveOutcome (svc_engine u) (svc_evaluator u) (ps_Hand p) (ds_Hand d))
        (\<lambda>outcome.
      bindE (SetOutcome p pScore outcome) (\<lambda>p.
      let d = SetFinalScore dScore d;
          payload = marshalGameJSON [(''player_score'', JNum pScore),
            (''dealer_score'', JNum dScore), (''outcome'', JStr (Outcome_str outcome))]
      in Inr (sess, p, d, result_log sess payload now))))))"

definition dealerresultTimeForfeit ::
    "roomService \<Rightarrow> GameSession \<Rightarrow> PlayerState \<Rightarrow> DealerState \<Rightarrow> time \<Rightarrow>
       error + (GameSession \<times> PlayerState \<times> DealerState \<times> RoundLog)" where
  "dealerresultTimeForfeit u sess p d now =
     (let d = RevealHole d in
      bindE (TransitionTo sess SessionStatusResult) (\<lambda>sess.
      bindE (TransitionTo sess SessionStatusResetting) (\<lambda>sess.
      let sess = SetRematchDeadline now sess;
          pScore = ev_Value (svc_evaluator u) (ps_Hand p);
          dScore = ev_Value (svc_evaluator u) (ds_Hand d) in
      bindE (SetOutcome p pScore OutcomeLose) (\<lambda>p.
      let d = SetFinalScore dScore d;
          payload = marshalGameJSON [(''player_score'', JNum pScore),
            (''dealer_score'', JNum dScore), (''outcome'', JStr (Outcome_str OutcomeLose)),
            (''time_forfeit'', JBool True)]
      in Inr (sess, p, d, result_log sess payload now)))))"

subsection \<open>The player's time is up\<close>

definition forfeit_log :: "GameSession \<Rightarrow> string \<Rightarrow> string \<Rightarrow> ActionLog" where
  "forfeit_log sess userID hash =
     \<lparr>al_SessionID = sess_ID sess, al_ActorType = ActorTypeSystem, al_ActorUserID = userID,
      al_TargetUserID = userID,
      al_ActionID = ''time-forfeit:'' @ sess_ID sess @ '':'' @ FormatInt (sess_Version sess),
      al_RequestType = ''TIME_FORFEIT'', al_RequestPayloadHash = hash,
      al_ResponseSnapshot = []\<rparr>"

definition forfeit_apply ::
    "roomService \<Rightarrow> time \<Rightarrow> GameSession \<Rightarrow> PlayerState \<Rightarrow> DealerState \<Rightarrow>
       error + (GameSession \<times> PlayerState \<times> DealerState \<times> RoundLog)" where
  "forfeit_apply u now sess player dealer =
     bindE (end_turn PlayerStatusStand sess player) (\<lambda>(sess, player).
     dealerresultTimeForfeit u sess player dealer now)"

definition forfeit_tx ::
    "int \<Rightarrow> Room \<Rightarrow> GameSession \<Rightarrow> PlayerState \<Rightarrow> DealerState \<Rightarrow> RoundLog \<Rightarrow> ActionLog \<Rightarrow> unit prog"
  where
  "forfeit_tx sessPrev room sess player dealer roundLog actionLog =
     bind (store_cas sess sessPrev) (\<lambda>ok.
     bind (guard ok ErrVersionConflict) (\<lambda>_.
     bind (store_write (UpdatePlayerState player)) (\<lambda>_.
     bind (store_write (UpdateDealerState dealer)) (\<lambda>_.
     bind (store_write (CreateRoundLog roundLog)) (\<lambda>_.
     bind (tx_UpdateRoom room) (\<lambda>_.
     SaveActionSuccessSnapshot actionLog
       (action_snapshot (room_ID room) (sess_ID sess) (sess_Version sess))))))))"

definition forfeit ::
    "roomService \<Rightarrow> Room \<Rightarrow> GameSession \<Rightarrow> PlayerState \<Rightarrow> DealerState \<Rightarrow> unit prog" where
  "forfeit u room sess player dealer =
     bind io_now (\<lambda>now.
     let sessPrev = sess_Version sess in
     bind (lift (forfeit_apply u now sess player dealer)) (\<lambda>(sess, player, dealer, roundLog).
     let room = room\<lparr>room_CurrentSessionID := Some (sess_ID sess)\<rparr> in
     bind (lift (RecalculateStatus room 1 True)) (\<lambda>room.
     let room = Room_Touch now room; sess = Session_Touch now (IncrementVersion sess) in
     bind (sha256hex (''TIME_FORFEIT:'' @ FormatInt (sess_Version sess))) (\<lambda>hash.
     transaction (forfeit_tx sessPrev room sess player dealer roundLog
       (forfeit_log sess (ps_UserID player) hash))))))"

text \<open>What is done for a player whose time is up: a hit, if the policy wants it, or the forfeit.\<close>

definition timeout_move ::
    "roomService \<Rightarrow> string \<Rightarrow> Room \<Rightarrow> GameSession \<Rightarrow> PlayerState \<Rightarrow> DealerState \<Rightarrow> unit prog" where
  "timeout_move u sessionID room sess player dealer =
     bind (io_getenv ''BLACKJACK_PLAYER_TIMEOUT_POLICY'') (\<lambda>policy.
     if TrimSpace policy = ''heuristic'' \<and> ds_Hand dealer \<noteq> []
        \<and> RecommendHitOrStand (svc_evaluator u) (ps_Hand player) (hd (ds_Hand dealer))
     then
       bind (Hit u (room_ID room) (ps_UserID player) (sess_Version sess)
           (''auto-heuristic-hit:'' @ sessionID @ '':'' @ FormatInt (sess_Version sess)))
         (\<lambda>_. ret ())
     else forfeit u room sess player dealer)"

text \<open>The reads the two worker handlers share: the room, the first player, the dealer.\<close>

definition load_round ::
    "GameSession \<Rightarrow> (Room \<times> PlayerState \<times> DealerState) prog" where
  "load_round sess =
     bind (store_read (GetRoom (sess_RoomID sess))) (\<lambda>room.
     bind (store_read (ListPlayerStatesBySessionID (sess_ID sess))) (\<lambda>players.
     case players of
       [] \<Rightarrow> throw ErrNotFound
     | player # _ \<Rightarrow>
         bind (store_read (GetDealerState (sess_ID sess))) (\<lambda>dealer.
         ret (room, player, dealer))))"

definition playerStand :: "roomService \<Rightarrow> string \<Rightarrow> unit prog" where
  "playerStand u sessionID =
     bind (store_read (GetSession sessionID)) (\<lambda>sess.
     bind io_now (\<lambda>t.
     if sess_Status sess \<noteq> SessionStatusPlayerTurn \<or> \<not> due (sess_TurnDeadlineAt sess) t then ret ()
     else
       bind (load_round sess) (\<lambda>(room, player, dealer).
       timeout_move u sessionID room sess player dealer)))"

subsection \<open>The dealer's turn\<close>

text \<open>One step: a card, or the result (with its round log).\<close>

definition dealer_apply ::
    "roomService \<Rightarrow> time \<Rightarrow> GameSession \<Rightarrow> PlayerState \<Rightarrow> DealerState \<Rightarrow>
       error + (GameSession \<times> PlayerState \<times> DealerState \<times> RoundLog option)" where
  "dealer_apply u now sess player dealer =
     (case NextDealerAction (svc_evaluator u) (ds_Hand dealer) of (action, terminal) \<Rightarrow>
        if terminal \<or> action = DealerActionStand then
          bindE (dealerresult u sess player dealer now) (\<lambda>(sess, player, dealer, l).
          Inr (sess, player, dealer, Some l))
        else
          bindE (DrawCard sess) (\<lambda>(card, sess).
          bindE (eng_ApplyPlayerHit (svc_engine u) (ds_Hand dealer) card) (\<lambda>nextHand.
          Inr (sess, player, dealer\<lparr>ds_Hand := nextHand\<rparr>, None))))"

definition dealer_tx ::
    "int \<Rightarrow> Room \<Rightarrow> GameSession \<Rightarrow> PlayerState \<Rightarrow> DealerState \<Rightarrow> RoundLog option \<Rightarrow> unit prog"
  where
  "dealer_tx sessPrev room sess player dealer roundLog =
     bind (store_cas sess sessPrev) (\<lambda>ok.
     bind (guard ok ErrVersionConflict) (\<lambda>_.
     bind (store_write (UpdateDealerState dealer)) (\<lambda>_.
     case roundLog of
       None \<Rightarrow> ret ()
     | Some l \<Rightarrow>
         bind (store_write (UpdatePlayerState player)) (\<lambda>_.
         bind (store_write (CreateRoundLog l)) (\<lambda>_.
         tx_UpdateRoom room)))))"

definition dealer_move ::
    "roomService \<Rightarrow> GameSession \<Rightarrow> Room \<Rightarrow> PlayerState \<Rightarrow> DealerState \<Rightarrow> unit prog" where
  "dealer_move u sess room player dealer =
     bind io_now (\<lambda>now.
     let sessPrev = sess_Version sess in
     bind (lift (dealer_apply u now sess player dealer)) (\<lambda>(sess, player, dealer, roundLog).
     bind
       (case roundLog of
          None \<Rightarrow> ret room
        | Some _ \<Rightarrow>
            bind (lift (RecalculateStatus
                (room\<lparr>room_CurrentSessionID := Some (sess_ID sess)\<rparr>) 1 True)) (\<lambda>room.
            ret (Room_Touch now room)))
       (\<lambda>room.
     let sess = Session_Touch now (IncrementVersion sess) in
     transaction (dealer_tx sessPrev room sess player dealer roundLog))))"

definition dealerTurn :: "roomService \<Rightarrow> string \<Rightarrow> unit prog" where
  "dealerTurn u sessionID =
     bind (store_read (GetSession sessionID)) (\<lambda>sess.
     if sess_Status sess \<noteq> SessionStatusDealerTurn then ret ()
     else
       bind (load_round sess) (\<lambda>(room, player, dealer).
       dealer_move u sess room player dealer))"

lemmas round_tx_defs =
  create_round_tx_def turn_tx_def forfeit_tx_def dealer_tx_def

subsection \<open>Effects\<close>

lemma readonly_round [readonly_intros]:
  "readonly (next_round_no i)" "readonly (turn_load i user v)"
  "readonly (turn_compute u hit a x)" "readonly (turn_prepare u i user v a' hit)"
  "readonly (load_round s)"
  unfolding load_round_def next_round_no_def turn_load_def turn_compute_def turn_prepare_def Let_def
  by (intro readonly_intros | simp only: split_def)+

lemma writes_round_tx [writes_intros]:
  "writes_only (create_round_tx s p x r)" "writes_only (turn_tx v c)"
  "writes_only (forfeit_tx v r s p x l a)" "writes_only (dealer_tx v r s p x ol)"
  unfolding round_tx_defs by (intro writes_intros)+

lemma writes_prepare [writes_intros]: "writes_only (turn_prepare u i user v a hit)"
  by (rule writes_readonly) (rule readonly_round)

lemma writes_playerTurn [writes_intros]:
  "writes_only (playerTurn u i user v a hit)" "writes_only (Hit u i user v a)"
  "writes_only (Stand u i user v a)"
  unfolding Hit_def Stand_def playerTurn_def by (intro writes_intros)+

lemma aon_playerTurn [aon_intros]:
  "all_or_nothing (playerTurn u i user v a hit)" "all_or_nothing (Hit u i user v a)"
  "all_or_nothing (Stand u i user v a)"
  unfolding Hit_def Stand_def playerTurn_def by (intro aon_intros readonly_round)+

lemma writes_next_round_no [writes_intros]: "writes_only (next_round_no i)"
  by (rule writes_readonly) (rule readonly_round)

lemma writes_StartRoom [writes_intros]: "writes_only (StartRoom u i user)"
  unfolding StartRoom_def Let_def by (intro writes_intros)

lemma aon_StartRoom [aon_intros]: "all_or_nothing (StartRoom u i user)"
  unfolding StartRoom_def Let_def by (intro aon_intros readonly_intros)

lemma writes_forfeit [writes_intros]: "writes_only (forfeit u r s p x)"
  unfolding forfeit_def Let_def by (intro writes_intros)

lemma aon_forfeit [aon_intros]: "all_or_nothing (forfeit u r s p x)"
  unfolding forfeit_def Let_def by (intro aon_intros readonly_intros)

lemma writes_load_round [writes_intros]: "writes_only (load_round s)"
  by (rule writes_readonly) (rule readonly_round)

lemma writes_playerStand [writes_intros]: "writes_only (playerStand u i)"
  unfolding playerStand_def timeout_move_def Let_def by (intro writes_intros)

lemma aon_playerStand [aon_intros]: "all_or_nothing (playerStand u i)"
  unfolding playerStand_def timeout_move_def Let_def by (intro aon_intros readonly_intros)

lemma writes_dealer_move [writes_intros]: "writes_only (dealer_move u s r p x)"
  unfolding dealer_move_def Let_def by (intro writes_intros)

lemma aon_dealer_move [aon_intros]: "all_or_nothing (dealer_move u s r p x)"
  unfolding dealer_move_def Let_def by (intro aon_intros readonly_intros)

lemma writes_dealerTurn [writes_intros]: "writes_only (dealerTurn u i)"
  unfolding dealerTurn_def by (intro writes_intros)

lemma aon_dealerTurn [aon_intros]: "all_or_nothing (dealerTurn u i)"
  unfolding dealerTurn_def by (intro aon_intros readonly_intros)

text \<open>What the reads of the worker's handlers have found.\<close>

lemma load_round_run:
  "load_round sess e w = (Inr (room, p, x), w') \<Longrightarrow>
     (\<exists>ps. ListPlayerStatesBySessionID (sess_ID sess) (w_db w) = Inr (p # ps))
     \<and> GetRoom (sess_RoomID sess) (w_db w) = Inr room
     \<and> GetDealerState (sess_ID sess) (w_db w) = Inr x \<and> w_db w' = w_db w"
  by (auto simp: load_round_def prog_elims)

end
