(* ===== verification/Round_Facts.thy ===== *)
theory Round_Facts
  imports Round_Service
begin

text \<open>
  The invariant of a round. \<open>cards_ok\<close>: the deck of the session is the 52 cards, and the cards
  drawn so far are those in the two hands, none twice and none lost. \<open>life_ok\<close>: the status of the
  session says what the player's and the dealer's states look like. The deal establishes both,
  and every handler keeps them; they also show that no handler fails and the deck never runs
  out, for a library that behaves as documented (\<open>lib_documented\<close>).
\<close>

definition svc :: "bj_lib \<Rightarrow> roomService" where
  "svc lib = \<lparr>svc_evaluator = NewHandEvaluator lib, svc_engine = NewRoundEngine lib\<rparr>"

lemma svc_simps [simp]:
  "svc_evaluator (svc lib) = NewHandEvaluator lib" "svc_engine (svc lib) = NewRoundEngine lib"
  by (simp_all add: svc_def)

definition cards_ok :: "GameSession \<Rightarrow> PlayerState \<Rightarrow> DealerState \<Rightarrow> bool" where
  "cards_ok s p x \<longleftrightarrow>
     mset (sess_Deck s) = mset factory_deck \<and> 0 \<le> sess_DrawIndex s \<and> sess_DrawIndex s \<le> 52
     \<and> mset (take (nat (sess_DrawIndex s)) (sess_Deck s)) = mset (ps_Hand p) + mset (ds_Hand x)"

definition life_ok :: "HandEvaluator \<Rightarrow> GameSession \<Rightarrow> PlayerState \<Rightarrow> DealerState \<Rightarrow> bool" where
  "life_ok ev s p x \<longleftrightarrow>
     ps_SessionID p = sess_ID s \<and> ds_SessionID x = sess_ID s \<and> ps_SeatNo p = 1 \<and> sess_TurnSeat s = 1
     \<and> 2 \<le> length (ps_Hand p) \<and> 2 \<le> length (ds_Hand x)
     \<and> (case sess_Status s of
          SessionStatusPlayerTurn \<Rightarrow>
            ps_Status p = PlayerStatusActive \<and> ps_Outcome p = None \<and> ds_HoleHidden x
            \<and> ev_Value ev (ps_Hand p) \<le> 21 \<and> length (ds_Hand x) = 2
            \<and> sess_TurnDeadlineAt s \<noteq> None
        | SessionStatusDealerTurn \<Rightarrow>
            ps_Status p \<in> {PlayerStatusStand, PlayerStatusBust, PlayerStatusBlackjack}
            \<and> ps_Outcome p = None \<and> ds_HoleHidden x \<and> sess_TurnDeadlineAt s = None
            \<and> length (ps_Hand p) \<le> 22 \<and> length (ds_Hand x) \<le> 17
        | SessionStatusResetting \<Rightarrow>
            ps_Status p \<in> {PlayerStatusStand, PlayerStatusBust, PlayerStatusBlackjack}
            \<and> (\<exists>oc. ps_Outcome p = Some oc
               \<and> (oc = OutcomeLose \<or> ResolveRoundOutcome ev (ps_Hand p) (ds_Hand x) = Inr oc))
            \<and> ps_FinalScore p = Some (ev_Value ev (ps_Hand p))
            \<and> ds_FinalScore x = Some (ev_Value ev (ds_Hand x))
            \<and> \<not> ds_HoleHidden x \<and> sess_TurnDeadlineAt s = None
        | _ \<Rightarrow> False)"

definition round_ok :: "bj_lib \<Rightarrow> GameSession \<Rightarrow> PlayerState \<Rightarrow> DealerState \<Rightarrow> bool" where
  "round_ok lib s p x \<longleftrightarrow> cards_ok s p x \<and> life_ok (NewHandEvaluator lib) s p x"

subsection \<open>Cards\<close>

lemma cards_ok_facts:
  assumes "cards_ok s p x"
  shows "list_all valid_card (ps_Hand p)" "list_all valid_card (ds_Hand x)"
    and "length (ps_Hand p) + length (ds_Hand x) = nat (sess_DrawIndex s)"
    and "length (sess_Deck s) = 52" "list_all valid_card (sess_Deck s)"
    and "distinct (ps_Hand p @ ds_Hand x)"
proof -
  have deck: "mset (sess_Deck s) = mset factory_deck"
    and hands: "mset (take (nat (sess_DrawIndex s)) (sess_Deck s)) = mset (ps_Hand p @ ds_Hand x)"
    using assms by (simp_all add: cards_ok_def)
  from deck show len: "length (sess_Deck s) = 52"
    by (metis size_mset length_factory_deck)
  from deck show valid: "list_all valid_card (sess_Deck s)"
    by (metis set_mset_mset list_all_iff set_factory_deck mem_Collect_eq)
  from hands have set: "set (ps_Hand p @ ds_Hand x) \<subseteq> set (sess_Deck s)"
    by (metis set_mset_mset set_take_subset)
  with valid show "list_all valid_card (ps_Hand p)" "list_all valid_card (ds_Hand x)"
    by (auto simp: list_all_iff)
  from hands have "length (take (nat (sess_DrawIndex s)) (sess_Deck s)) = length (ps_Hand p @ ds_Hand x)"
    by (metis size_mset)
  with len assms show "length (ps_Hand p) + length (ds_Hand x) = nat (sess_DrawIndex s)"
    by (simp add: cards_ok_def nat_le_iff)
  have "distinct (sess_Deck s)" using deck distinct_factory_deck by (metis mset_eq_imp_distinct_iff)
  then have "distinct (take (nat (sess_DrawIndex s)) (sess_Deck s))" by simp
  with hands show "distinct (ps_Hand p @ ds_Hand x)" by (metis mset_eq_imp_distinct_iff)
qed

text \<open>One card more in a hand is the next card of the deck.\<close>

lemma deal_one_iff:
  assumes "lib_draw_appends lib" "list_all valid_card hand" "list_all valid_card (sess_Deck s)"
  shows "deal_one (NewRoundEngine lib) s hand = Inr (s', h) \<longleftrightarrow>
     0 \<le> sess_DrawIndex s \<and> sess_DrawIndex s < int (length (sess_Deck s))
     \<and> h = hand @ [sess_Deck s ! nat (sess_DrawIndex s)]
     \<and> s' = s\<lparr>sess_DrawIndex := sess_DrawIndex s + 1\<rparr>"
proof (cases "0 \<le> sess_DrawIndex s \<and> sess_DrawIndex s < int (length (sess_Deck s))")
  case True
  then have "valid_card (sess_Deck s ! nat (sess_DrawIndex s))"
    using assms(3) by (simp add: list_all_length nat_less_iff)
  with apply_hit_appends [OF assms(1,2) this] True show ?thesis
    by (auto simp: deal_one_def DrawCard_def)
next
  case False
  then show ?thesis by (auto simp: deal_one_def prog_elims DrawCard_iff)
qed

lemma take_next:
  "0 \<le> i \<Longrightarrow> i < int (length xs) \<Longrightarrow> take (nat (i + 1)) xs = take (nat i) xs @ [xs ! nat i]"
  by (simp add: nat_add_distrib take_Suc_conv_app_nth nat_less_iff)

lemma deal_player:
  assumes lib: "lib_draw_appends lib" and ok: "cards_ok s p x"
    and deal: "deal_one (NewRoundEngine lib) s (ps_Hand p) = Inr (s', h)"
  shows "cards_ok s' (p\<lparr>ps_Hand := h\<rparr>) x" "s' = s\<lparr>sess_DrawIndex := sess_DrawIndex s + 1\<rparr>"
    "length h = Suc (length (ps_Hand p))"
  using ok deal cards_ok_facts(4) [OF ok]
  by (auto simp: deal_one_iff [OF lib cards_ok_facts(1) [OF ok] cards_ok_facts(5) [OF ok]]
      cards_ok_def take_next)

lemma deal_dealer:
  assumes lib: "lib_draw_appends lib" and ok: "cards_ok s p x"
    and deal: "deal_one (NewRoundEngine lib) s (ds_Hand x) = Inr (s', h)"
  shows "cards_ok s' p (x\<lparr>ds_Hand := h\<rparr>)" "s' = s\<lparr>sess_DrawIndex := sess_DrawIndex s + 1\<rparr>"
    "length h = Suc (length (ds_Hand x))"
  using ok deal cards_ok_facts(4) [OF ok]
  by (auto simp: deal_one_iff [OF lib cards_ok_facts(2) [OF ok] cards_ok_facts(5) [OF ok]]
      cards_ok_def take_next)

text \<open>Below 52 cards in the hands there is a card to deal.\<close>

lemma deal_total:
  assumes "lib_draw_appends lib" "cards_ok s p x" "length (ps_Hand p) + length (ds_Hand x) < 52"
  shows "\<exists>s' h. deal_one (NewRoundEngine lib) s (ps_Hand p) = Inr (s', h)"
    "\<exists>s' h. deal_one (NewRoundEngine lib) s (ds_Hand x) = Inr (s', h)"
  using assms cards_ok_facts [OF assms(2)]
  by (auto simp: deal_one_iff cards_ok_def)

text \<open>The handlers draw a card the way the deal does.\<close>

lemma draw_then_hit:
  "bindE (DrawCard s) (\<lambda>(c, s). bindE (eng_ApplyPlayerHit eng hand c) (\<lambda>h. k s h)) =
   bindE (deal_one eng s hand) (\<lambda>(s, h). k s h)"
  by (auto simp: deal_one_def bindE_def split: sum.splits)

lemma cards_ok_cong:
  "sess_Deck s' = sess_Deck s \<Longrightarrow> sess_DrawIndex s' = sess_DrawIndex s \<Longrightarrow> ps_Hand p' = ps_Hand p \<Longrightarrow>
     ds_Hand x' = ds_Hand x \<Longrightarrow> cards_ok s' p' x' = cards_ok s p x"
  by (simp add: cards_ok_def)

subsection \<open>The deal\<close>

definition fresh_session :: "GameSession \<Rightarrow> bool" where
  "fresh_session s \<longleftrightarrow> sess_Status s = SessionStatusDealing \<and> sess_DrawIndex s = 0
     \<and> sess_TurnSeat s = 1 \<and> mset (sess_Deck s) = mset factory_deck"

lemma initialDeal_ok:
  assumes lib: "lib_draw_appends lib" and ok: "cards_ok s p x"
    and deal: "initialDeal (NewRoundEngine lib) s p x = Inr (s', p', x')"
  shows "cards_ok s' p' x'" "s' = s\<lparr>sess_DrawIndex := sess_DrawIndex s + 4\<rparr>"
    "\<exists>h. p' = p\<lparr>ps_Hand := h\<rparr> \<and> length h = length (ps_Hand p) + 2"
    "\<exists>h. x' = x\<lparr>ds_Hand := h\<rparr> \<and> length h = length (ds_Hand x) + 2"
proof -
  let ?eng = "NewRoundEngine lib"
  from deal obtain s1 h1 s2 h2 s3 h3 h4 where
    d1: "deal_one ?eng s (ps_Hand p) = Inr (s1, h1)" and
    d2: "deal_one ?eng s1 (ds_Hand x) = Inr (s2, h2)" and
    d3: "deal_one ?eng s2 h1 = Inr (s3, h3)" and
    d4: "deal_one ?eng s3 h2 = Inr (s', h4)" and
    out: "p' = p\<lparr>ps_Hand := h3\<rparr>" "x' = x\<lparr>ds_Hand := h4\<rparr>"
    by (auto simp: initialDeal_def prog_elims Let_def)
  note r1 = deal_player [OF lib ok d1]
  have "deal_one ?eng s1 (ds_Hand x) = Inr (s2, h2)" by (rule d2)
  note r2 = deal_dealer [OF lib r1(1) this]
  have "deal_one ?eng s2 (ps_Hand (p\<lparr>ps_Hand := h1\<rparr>)) = Inr (s3, h3)" using d3 by simp
  note r3 = deal_player [OF lib r2(1) this]
  have "deal_one ?eng s3 (ds_Hand (x\<lparr>ds_Hand := h2\<rparr>)) = Inr (s', h4)" using d4 by simp
  note r4 = deal_dealer [OF lib r3(1) this]
  show "cards_ok s' p' x'" using r4(1) out by simp
  show "s' = s\<lparr>sess_DrawIndex := sess_DrawIndex s + 4\<rparr>" using r1 r2 r3 r4 by simp
  show "\<exists>h. p' = p\<lparr>ps_Hand := h\<rparr> \<and> length h = length (ps_Hand p) + 2" using out r1 r3 by (intro exI [of _ h3]) simp
  show "\<exists>h. x' = x\<lparr>ds_Hand := h\<rparr> \<and> length h = length (ds_Hand x) + 2" using out r2 r4 by (intro exI [of _ h4]) simp
qed

text \<open>Two cards are worth at most 21.\<close>

lemma two_cards_le_21:
  assumes "lib_counts lib" "list_all valid_card h" "length h = 2"
  shows "ev_Value (NewHandEvaluator lib) h \<le> 21"
proof -
  from assms(3) obtain a b where h: "h = [a, b]" by (auto simp: length_Suc_conv numeral_2_eq_2)
  have "hard_total (toBlackjackHand h) \<le> 20"
    using rank_points_le [of "toRank (card_Rank a)"] rank_points_le [of "toRank (card_Rank b)"]
    by (simp add: h hard_total_def toBlackjackHand_def)
  then have "best_total (toBlackjackHand h) \<le> 21" by (simp add: best_total_def Let_def)
  with assms show ?thesis by (simp add: adapter_value)
qed

lemma end_turn_Inr:
  "end_turn st s p = Inr (s', p') \<longleftrightarrow>
     PlayerStatus_IsValid st \<and> sess_Status s = SessionStatusPlayerTurn
     \<and> s' = s\<lparr>sess_Status := SessionStatusDealerTurn, sess_TurnDeadlineAt := None\<rparr>
     \<and> p' = p\<lparr>ps_Status := st\<rparr>"
  by (cases "sess_Status s") (auto simp: end_turn_def prog_elims TransitionTo_iff SetTurnDeadline_def)


lemma open_round_ok:
  assumes lib: "lib_documented lib" and s: "fresh_session s"
    and run: "open_round (svc lib) now s userID = Inr (s', p, x)"
  shows "round_ok lib s' p x" "ps_UserID p = userID"
    "sess_ID s' = sess_ID s" "sess_RoomID s' = sess_RoomID s" "sess_RoundNo s' = sess_RoundNo s"
    "sess_Version s' = sess_Version s" "sess_ResultSnapshot s' = sess_ResultSnapshot s"
    "sess_Status s' = (if ev_IsBlackjack (NewHandEvaluator lib) (ps_Hand p)
       then SessionStatusDealerTurn else SessionStatusPlayerTurn)"
proof -
  have app: "lib_draw_appends lib" and cnt: "lib_counts lib"
    using lib by (simp_all add: lib_documented_def)
  from run obtain p0 x0 s1 p1 where
    x0: "NewDealerState (sess_ID s) = Inr x0" and
    p0: "NewPlayerState (sess_ID s) userID 1 = Inr p0" and
    deal: "initialDeal (NewRoundEngine lib) s p0 x0 = Inr (s1, p1, x)" and
    fin: "(if ev_IsBlackjack (NewHandEvaluator lib) (ps_Hand p1)
      then end_turn PlayerStatusBlackjack (s1\<lparr>sess_Status := SessionStatusPlayerTurn,
        sess_TurnDeadlineAt := Some (now + PlayerTurnTimeout)\<rparr>) p1
      else Inr (s1\<lparr>sess_Status := SessionStatusPlayerTurn,
        sess_TurnDeadlineAt := Some (now + PlayerTurnTimeout)\<rparr>, p1)) = Inr (s', p)"
    by (auto simp: open_round_def prog_elims Let_def TransitionTo_iff SetTurnDeadline_def
        split: if_splits)
  have hands: "ps_Hand p0 = []" "ds_Hand x0 = []" "ps_SessionID p0 = sess_ID s" "ps_UserID p0 = userID"
    "ps_SeatNo p0 = 1" "ps_Status p0 = PlayerStatusActive" "ps_Outcome p0 = None"
    "ds_SessionID x0 = sess_ID s" "ds_HoleHidden x0"
    using x0 p0 by (auto simp: NewDealerState_def NewPlayerState_def split: if_splits)
  have "cards_ok s p0 x0" using s hands by (simp add: cards_ok_def fresh_session_def)
  note d = initialDeal_ok [OF app this deal]
  from d(3,4) obtain h g where p1: "p1 = p0\<lparr>ps_Hand := h\<rparr>" "length h = 2"
    and x: "x = x0\<lparr>ds_Hand := g\<rparr>" "length g = 2" using hands by auto
  have v: "ev_Value (NewHandEvaluator lib) h \<le> 21"
    using two_cards_le_21 [OF cnt] cards_ok_facts(1) [OF d(1)] p1 by simp
  have s1: "s1 = s\<lparr>sess_DrawIndex := sess_DrawIndex s + 4\<rparr>" by (rule d(2))
  have cards: "cards_ok s' p x"
    using fin d(1) by (auto simp: end_turn_Inr cards_ok_def split: if_splits)
  have "life_ok (NewHandEvaluator lib) s' p x"
    using fin s s1 p1 x hands v
    by (auto simp: end_turn_Inr life_ok_def fresh_session_def split: if_splits)
  with cards show "round_ok lib s' p x" by (simp add: round_ok_def)
  show "ps_UserID p = userID" "sess_ID s' = sess_ID s" "sess_RoomID s' = sess_RoomID s"
    "sess_RoundNo s' = sess_RoundNo s" "sess_Version s' = sess_Version s"
    "sess_ResultSnapshot s' = sess_ResultSnapshot s"
    "sess_Status s' = (if ev_IsBlackjack (NewHandEvaluator lib) (ps_Hand p)
       then SessionStatusDealerTurn else SessionStatusPlayerTurn)"
    using fin s1 p1 hands by (auto simp: end_turn_Inr split: if_splits)
qed

text \<open>The deal of a fresh session always succeeds.\<close>

lemma open_round_total:
  assumes lib: "lib_documented lib" and s: "fresh_session s" "sess_ID s \<noteq> []" "userID \<noteq> []"
  shows "\<exists>s' p x. open_round (svc lib) now s userID = Inr (s', p, x)"
proof -
  have app: "lib_draw_appends lib" using lib by (simp add: lib_documented_def)
  from s obtain x0 p0 where x0: "NewDealerState (sess_ID s) = Inr x0" "ds_Hand x0 = []"
    and p0: "NewPlayerState (sess_ID s) userID 1 = Inr p0" "ps_Hand p0 = []"
    by (auto simp: NewDealerState_def NewPlayerState_def)
  let ?eng = "NewRoundEngine lib"
  have c0: "cards_ok s p0 x0" using s x0 p0 by (simp add: cards_ok_def fresh_session_def)
  obtain s1 h1 where d1: "deal_one ?eng s (ps_Hand p0) = Inr (s1, h1)"
    using deal_total(1) [OF app c0] x0 p0 by auto
  note c1 = deal_player [OF app c0 d1]
  obtain s2 h2 where d2: "deal_one ?eng s1 (ds_Hand x0) = Inr (s2, h2)"
    using deal_total(2) [OF app c1(1)] c1(3) x0 p0 by auto
  note c2 = deal_dealer [OF app c1(1) d2]
  obtain s3 h3 where d3: "deal_one ?eng s2 h1 = Inr (s3, h3)"
    using deal_total(1) [OF app c2(1)] c2(3) c1(3) x0 p0 by auto
  have "deal_one ?eng s2 (ps_Hand (p0\<lparr>ps_Hand := h1\<rparr>)) = Inr (s3, h3)" using d3 by simp
  note c3 = deal_player [OF app c2(1) this]
  obtain s4 h4 where d4: "deal_one ?eng s3 h2 = Inr (s4, h4)"
    using deal_total(2) [OF app c3(1)] c3(3) c2(3) c1(3) x0 p0 by auto
  have "s4 = s\<lparr>sess_DrawIndex := sess_DrawIndex s + 4\<rparr>"
    using c1(2) c2(2) c3(2) d4 by (auto simp: deal_one_def prog_elims DrawCard_iff)
  with s(1) have "sess_Status s4 = SessionStatusDealing" by (simp add: fresh_session_def)
  with x0 p0 d1 d2 d3 d4 show ?thesis
    by (simp add: open_round_def initialDeal_def Let_def end_turn_def SetTurnDeadline_def
        PlayerState_SetStatus_def)
qed


subsection \<open>The player's turn\<close>

lemma life_ok_playing:
  assumes "life_ok ev s p x" "sess_Status s = SessionStatusPlayerTurn"
  shows "ps_Status p = PlayerStatusActive" "ps_Outcome p = None" "ds_HoleHidden x"
    "ev_Value ev (ps_Hand p) \<le> 21" "length (ds_Hand x) = 2" "sess_TurnDeadlineAt s \<noteq> None"
  using assms by (simp_all add: life_ok_def)

lemma life_ok_ids:
  "life_ok ev s p x \<Longrightarrow> ps_SessionID p = sess_ID s \<and> ds_SessionID x = sess_ID s
     \<and> ps_SeatNo p = 1 \<and> sess_TurnSeat s = 1
     \<and> 2 \<le> length (ps_Hand p) \<and> 2 \<le> length (ds_Hand x)"
  by (simp add: life_ok_def)

lemma round_ok_player_length:
  assumes "lib_counts lib" "round_ok lib s p x" "sess_Status s = SessionStatusPlayerTurn"
  shows "length (ps_Hand p) \<le> 21" "length (ps_Hand p) + length (ds_Hand x) \<le> 23"
  using value_ge_length [OF assms(1), of "ps_Hand p"] cards_ok_facts(1) [of s p x]
    life_ok_playing [of _ s p x] assms(2,3)
  by (fastforce simp: round_ok_def)+

text \<open>What a successful turn does to the session and the player.\<close>

definition past_turn :: "PlayerStatus \<Rightarrow> GameSession \<Rightarrow> PlayerState \<Rightarrow> GameSession \<times> PlayerState" where
  "past_turn st s p =
     (s\<lparr>sess_Status := SessionStatusDealerTurn, sess_TurnDeadlineAt := None\<rparr>, p\<lparr>ps_Status := st\<rparr>)"

lemma end_turn_playing:
  "sess_Status s = SessionStatusPlayerTurn \<Longrightarrow> PlayerStatus_IsValid st \<Longrightarrow>
     end_turn st s p = Inr (past_turn st s p)"
  by (simp add: end_turn_def PlayerState_SetStatus_def SetTurnDeadline_def past_turn_def)

lemma turn_hit_dealt:
  assumes "sess_Status s = SessionStatusPlayerTurn" "deal_one (svc_engine u) s (ps_Hand p) = Inr (s2, h)"
  shows "turn_apply u True now s p = Inr
    (if ev_Value (svc_evaluator u) h > 21 then past_turn PlayerStatusBust s2 (p\<lparr>ps_Hand := h\<rparr>)
     else if ev_IsBlackjack (svc_evaluator u) h
     then past_turn PlayerStatusBlackjack s2 (p\<lparr>ps_Hand := h\<rparr>)
     else (s2\<lparr>sess_TurnDeadlineAt := Some (now + PlayerTurnTimeout)\<rparr>, p\<lparr>ps_Hand := h\<rparr>))"
proof -
  have s2: "sess_Status s2 = SessionStatusPlayerTurn"
    using assms by (auto simp: deal_one_def prog_elims DrawCard_iff)
  have "turn_hit u s p = Inr
    (if ev_Value (svc_evaluator u) h > 21 then past_turn PlayerStatusBust s2 (p\<lparr>ps_Hand := h\<rparr>)
     else if ev_IsBlackjack (svc_evaluator u) h
     then past_turn PlayerStatusBlackjack s2 (p\<lparr>ps_Hand := h\<rparr>)
     else (s2, p\<lparr>ps_Hand := h\<rparr>))"
    using assms(2) s2 by (simp add: turn_hit_def draw_then_hit end_turn_playing Let_def)
  then show ?thesis using s2
    by (simp add: turn_apply_def past_turn_def SetTurnDeadline_def)
qed

lemma turn_hit_stuck:
  "deal_one (svc_engine u) s (ps_Hand p) = Inl err \<Longrightarrow> turn_apply u True now s p = Inl err"
  by (simp add: turn_apply_def turn_hit_def draw_then_hit)

lemma turn_stand:
  "sess_Status s = SessionStatusPlayerTurn \<Longrightarrow>
     turn_apply u False now s p = Inr (past_turn PlayerStatusStand s p)"
  by (simp add: turn_apply_def end_turn_playing SetTurnDeadline_def past_turn_def)

lemma turn_apply_cases:
  assumes "turn_apply u hit now s p = Inr r" "sess_Status s = SessionStatusPlayerTurn"
  obtains (stand) "\<not> hit" "r = past_turn PlayerStatusStand s p"
  | (bust) s2 h where "hit" "deal_one (svc_engine u) s (ps_Hand p) = Inr (s2, h)"
      "ev_Value (svc_evaluator u) h > 21" "r = past_turn PlayerStatusBust s2 (p\<lparr>ps_Hand := h\<rparr>)"
  | (blackjack) s2 h where "hit" "deal_one (svc_engine u) s (ps_Hand p) = Inr (s2, h)"
      "ev_Value (svc_evaluator u) h \<le> 21" "ev_IsBlackjack (svc_evaluator u) h"
      "r = past_turn PlayerStatusBlackjack s2 (p\<lparr>ps_Hand := h\<rparr>)"
  | (continue) s2 h where "hit" "deal_one (svc_engine u) s (ps_Hand p) = Inr (s2, h)"
      "ev_Value (svc_evaluator u) h \<le> 21" "\<not> ev_IsBlackjack (svc_evaluator u) h"
      "r = (s2\<lparr>sess_TurnDeadlineAt := Some (now + PlayerTurnTimeout)\<rparr>, p\<lparr>ps_Hand := h\<rparr>)"
proof (cases hit)
  case False
  with assms turn_stand [OF assms(2), of u now p] stand show thesis by simp
next
  case True
  show thesis
  proof (cases "deal_one (svc_engine u) s (ps_Hand p)")
    case (Inl err)
    with True assms turn_hit_stuck [OF Inl] show thesis by simp
  next
    case (Inr sh)
    obtain s2 h where sh: "sh = (s2, h)" by (cases sh)
    note d = Inr [unfolded sh]
    have r: "r = (if ev_Value (svc_evaluator u) h > 21
       then past_turn PlayerStatusBust s2 (p\<lparr>ps_Hand := h\<rparr>)
       else if ev_IsBlackjack (svc_evaluator u) h
       then past_turn PlayerStatusBlackjack s2 (p\<lparr>ps_Hand := h\<rparr>)
       else (s2\<lparr>sess_TurnDeadlineAt := Some (now + PlayerTurnTimeout)\<rparr>, p\<lparr>ps_Hand := h\<rparr>))"
      using assms True turn_hit_dealt [OF assms(2) d, of now] by simp
    show thesis
    proof (cases "ev_Value (svc_evaluator u) h > 21")
      case True
      with r bust [OF \<open>hit\<close> d] show thesis by simp
    next
      case False
      with r blackjack [OF \<open>hit\<close> d] continue [OF \<open>hit\<close> d] show thesis
        by (cases "ev_IsBlackjack (svc_evaluator u) h") simp_all
    qed
  qed
qed

lemma turn_apply_ok:
  assumes lib: "lib_documented lib" and ok: "round_ok lib s p x"
    and st: "sess_Status s = SessionStatusPlayerTurn"
    and run: "turn_apply (svc lib) hit now s p = Inr (s', p')"
  shows "round_ok lib s' p' x"
proof -
  let ?ev = "NewHandEvaluator lib"
  have app: "lib_draw_appends lib" and cnt: "lib_counts lib"
    using lib by (simp_all add: lib_documented_def)
  have cards: "cards_ok s p x" and life: "life_ok ?ev s p x" using ok by (simp_all add: round_ok_def)
  note play = life_ok_playing [OF life st] and ids = life_ok_ids [OF life]
  note len = round_ok_player_length [OF cnt ok st]
  have dealt: "cards_ok s2 (p\<lparr>ps_Hand := h\<rparr>) x \<and> s2 = s\<lparr>sess_DrawIndex := sess_DrawIndex s + 1\<rparr>
      \<and> length h \<le> 22
      \<and> length h = Suc (length (ps_Hand p))" if "deal_one (svc_engine (svc lib)) s (ps_Hand p) = Inr (s2, h)" for s2 h
    using deal_player [OF app cards, of s2 h] that len by simp
  from run st show ?thesis
  proof (cases rule: turn_apply_cases)
    case stand
    with cards play ids len show ?thesis
      by (simp add: past_turn_def round_ok_def life_ok_def cards_ok_def)
  next
    case (bust s2 h)
    with dealt [OF bust(2)] play ids show ?thesis
      by (auto simp: past_turn_def round_ok_def life_ok_def cards_ok_def)
  next
    case (blackjack s2 h)
    with dealt [OF blackjack(2)] play ids show ?thesis
      by (auto simp: past_turn_def round_ok_def life_ok_def cards_ok_def)
  next
    case (continue s2 h)
    with dealt [OF continue(2)] play ids st show ?thesis
      by (auto simp: round_ok_def life_ok_def cards_ok_def)
  qed
qed

lemma turn_apply_same:
  assumes "turn_apply u hit now s p = Inr (s', p')" "sess_Status s = SessionStatusPlayerTurn"
  shows "sess_ID s' = sess_ID s \<and> sess_RoomID s' = sess_RoomID s \<and> sess_RoundNo s' = sess_RoundNo s
     \<and> sess_Version s' = sess_Version s \<and> sess_ResultSnapshot s' = sess_ResultSnapshot s
     \<and> ps_SessionID p' = ps_SessionID p \<and> ps_UserID p' = ps_UserID p \<and> ps_SeatNo p' = ps_SeatNo p"
  using assms
  by (cases rule: turn_apply_cases)
    (auto simp: past_turn_def deal_one_def prog_elims DrawCard_iff)

lemma turn_apply_total:
  assumes lib: "lib_documented lib" and ok: "round_ok lib s p x"
    and st: "sess_Status s = SessionStatusPlayerTurn"
  shows "\<exists>r. turn_apply (svc lib) hit now s p = Inr r"
proof (cases hit)
  case True
  have app: "lib_draw_appends lib" and cnt: "lib_counts lib"
    using lib by (simp_all add: lib_documented_def)
  have "length (ps_Hand p) + length (ds_Hand x) < 52"
    using round_ok_player_length [OF cnt ok st] by simp
  with ok deal_total(1) [OF app] obtain s2 h
    where "deal_one (svc_engine (svc lib)) s (ps_Hand p) = Inr (s2, h)"
    unfolding round_ok_def svc_simps by blast
  from turn_hit_dealt [OF st this, of now] True show ?thesis by simp
next
  case False
  with turn_stand [OF st, of "svc lib" now p] show ?thesis by simp
qed

subsection \<open>The result\<close>

lemma SetRematchDeadline_fields [simp]:
  "sess_Deck (SetRematchDeadline t s) = sess_Deck s"
  "sess_DrawIndex (SetRematchDeadline t s) = sess_DrawIndex s"
  "sess_Status (SetRematchDeadline t s) = sess_Status s" "sess_ID (SetRematchDeadline t s) = sess_ID s"
  "sess_TurnSeat (SetRematchDeadline t s) = sess_TurnSeat s"
  "sess_TurnDeadlineAt (SetRematchDeadline t s) = sess_TurnDeadlineAt s"
  "sess_RoomID (SetRematchDeadline t s) = sess_RoomID s"
  "sess_RoundNo (SetRematchDeadline t s) = sess_RoundNo s"
  "sess_Version (SetRematchDeadline t s) = sess_Version s"
  "sess_ResultSnapshot (SetRematchDeadline t s) = sess_ResultSnapshot s"
  by (simp_all add: SetRematchDeadline_def)

lemma dealerresult_Inr:
  "dealerresult u s p x now = Inr (s', p', x', l) \<longleftrightarrow>
     sess_Status s = SessionStatusDealerTurn \<and>
     (\<exists>oc. eng_ResolveOutcome (svc_engine u) (svc_evaluator u) (ps_Hand p) (ds_Hand x) = Inr oc
       \<and> Outcome_IsValid oc
       \<and> s' = SetRematchDeadline now (s\<lparr>sess_Status := SessionStatusResetting\<rparr>)
       \<and> p' = p\<lparr>ps_Outcome := Some oc, ps_FinalScore := Some (ev_Value (svc_evaluator u) (ps_Hand p))\<rparr>
       \<and> x' = x\<lparr>ds_HoleHidden := False,
             ds_FinalScore := Some (ev_Value (svc_evaluator u) (ds_Hand x))\<rparr>
       \<and> l = result_log s' (marshalGameJSON
             [(''player_score'', JNum (ev_Value (svc_evaluator u) (ps_Hand p))),
              (''dealer_score'', JNum (ev_Value (svc_evaluator u) (ds_Hand x))),
              (''outcome'', JStr (Outcome_str oc))]) now)"
  by (cases "sess_Status s")
    (auto simp: dealerresult_def prog_elims TransitionTo_iff Let_def RevealHole_def SetFinalScore_def)

lemma dealerresultTimeForfeit_Inr:
  "dealerresultTimeForfeit u s p x now = Inr (s', p', x', l) \<longleftrightarrow>
     sess_Status s = SessionStatusDealerTurn
       \<and> s' = SetRematchDeadline now (s\<lparr>sess_Status := SessionStatusResetting\<rparr>)
       \<and> p' = p\<lparr>ps_Outcome := Some OutcomeLose,
             ps_FinalScore := Some (ev_Value (svc_evaluator u) (ps_Hand p))\<rparr>
       \<and> x' = x\<lparr>ds_HoleHidden := False,
             ds_FinalScore := Some (ev_Value (svc_evaluator u) (ds_Hand x))\<rparr>
       \<and> l = result_log s' (marshalGameJSON
             [(''player_score'', JNum (ev_Value (svc_evaluator u) (ps_Hand p))),
              (''dealer_score'', JNum (ev_Value (svc_evaluator u) (ds_Hand x))),
              (''outcome'', JStr (Outcome_str OutcomeLose)), (''time_forfeit'', JBool True)]) now"
  by (cases "sess_Status s")
    (auto simp: dealerresultTimeForfeit_def prog_elims TransitionTo_iff Let_def RevealHole_def
      SetFinalScore_def)

lemma forfeit_apply_ok:
  assumes ok: "round_ok lib s p x"
    and run: "forfeit_apply (svc lib) now s p x = Inr (s', p', x', l)"
  shows "round_ok lib s' p' x'" "ps_Outcome p' = Some OutcomeLose"
    "sess_Status s' = SessionStatusResetting" "ps_UserID p' = ps_UserID p"
  using assms
  by (auto simp: forfeit_apply_def prog_elims end_turn_Inr dealerresultTimeForfeit_Inr round_ok_def
      cards_ok_def life_ok_def)

lemma forfeit_apply_same:
  "forfeit_apply u now s p x = Inr (s', p', x', l) \<Longrightarrow>
     sess_ID s' = sess_ID s \<and> sess_RoomID s' = sess_RoomID s \<and> sess_RoundNo s' = sess_RoundNo s
     \<and> sess_Version s' = sess_Version s \<and> sess_ResultSnapshot s' = sess_ResultSnapshot s
     \<and> ps_SessionID p' = ps_SessionID p \<and> ps_UserID p' = ps_UserID p \<and> ps_SeatNo p' = ps_SeatNo p
     \<and> ds_SessionID x' = ds_SessionID x
     \<and> rl_SessionID l = sess_ID s \<and> rl_RoundNo l = sess_RoundNo s \<and> rl_ID l = []"
  by (auto simp: forfeit_apply_def prog_elims end_turn_Inr dealerresultTimeForfeit_Inr result_log_def)

lemma forfeit_apply_total:
  "sess_Status s = SessionStatusPlayerTurn \<Longrightarrow> \<exists>r. forfeit_apply u now s p x = Inr r"
  by (auto simp: forfeit_apply_def end_turn_def PlayerState_SetStatus_def SetTurnDeadline_def
      dealerresultTimeForfeit_def SetOutcome_def Let_def)

subsection \<open>The dealer's turn\<close>

lemma dealer_apply_iff:
  "dealer_apply u now s p x = Inr (s', p', x', ol) \<longleftrightarrow>
     (case NextDealerAction (svc_evaluator u) (ds_Hand x) of
        (DealerActionStand, _) \<Rightarrow>
          (\<exists>l. dealerresult u s p x now = Inr (s', p', x', l) \<and> ol = Some l)
      | (DealerActionHit, t) \<Rightarrow>
          if t then (\<exists>l. dealerresult u s p x now = Inr (s', p', x', l) \<and> ol = Some l)
          else (\<exists>h. deal_one (svc_engine u) s (ds_Hand x) = Inr (s', h) \<and> p' = p
                  \<and> x' = x\<lparr>ds_Hand := h\<rparr> \<and> ol = None))"
  by (auto simp: dealer_apply_def prog_elims draw_then_hit split: prod.splits DealerAction.splits)


lemma dealer_apply_ok:
  assumes lib: "lib_documented lib" and ok: "round_ok lib s p x"
    and st: "sess_Status s = SessionStatusDealerTurn"
    and run: "dealer_apply (svc lib) now s p x = Inr (s', p', x', ol)"
  shows "round_ok lib s' p' x'"
    "if ol = None then sess_Status s' = SessionStatusDealerTurn \<and> p' = p
       \<and> length (ds_Hand x') = Suc (length (ds_Hand x))
     else sess_Status s' = SessionStatusResetting \<and> 17 \<le> ev_Value (NewHandEvaluator lib) (ds_Hand x')"
proof -
  let ?ev = "NewHandEvaluator lib"
  have app: "lib_draw_appends lib" and cnt: "lib_counts lib"
    using lib by (simp_all add: lib_documented_def)
  have cards: "cards_ok s p x" and life: "life_ok ?ev s p x" using ok by (simp_all add: round_ok_def)
  obtain action t where na: "NextDealerAction ?ev (ds_Hand x) = (action, t)" by fastforce
  have "round_ok lib s' p' x' \<and>
    (if ol = None then sess_Status s' = SessionStatusDealerTurn \<and> p' = p
       \<and> length (ds_Hand x') = Suc (length (ds_Hand x))
     else sess_Status s' = SessionStatusResetting \<and> 17 \<le> ev_Value ?ev (ds_Hand x'))"
  proof (cases action)
    case DealerActionHit
    with na have t: "\<not> t" and low: "ev_Value ?ev (ds_Hand x) \<le> 16"
      by (auto simp: NextDealerAction_hit_iff)
    have short: "length (ds_Hand x) \<le> 16"
      using value_ge_length [OF cnt cards_ok_facts(2) [OF cards]] low by simp
    from run na t DealerActionHit obtain h
      where d: "deal_one (NewRoundEngine lib) s (ds_Hand x) = Inr (s', h)"
        and out: "p' = p" "x' = x\<lparr>ds_Hand := h\<rparr>" "ol = None"
      by (auto simp: dealer_apply_iff)
    note c = deal_dealer [OF app cards d]
    have "life_ok ?ev s' p' x'" using life st c(2,3) out short by (simp add: life_ok_def)
    with c(1,2,3) st out show ?thesis by (simp add: round_ok_def)
  next
    case DealerActionStand
    with na adapter.dealer_stand_value have v: "17 \<le> ev_Value ?ev (ds_Hand x)" by blast
    from run na DealerActionStand obtain l where
      "dealerresult (svc lib) s p x now = Inr (s', p', x', l)" "ol = Some l"
      by (auto simp: dealer_apply_iff)
    with cards life v st show ?thesis
      by (auto simp: dealerresult_Inr round_ok_def cards_ok_def life_ok_def NewRoundEngine_def)
  qed
  then show "round_ok lib s' p' x'"
    "if ol = None then sess_Status s' = SessionStatusDealerTurn \<and> p' = p
       \<and> length (ds_Hand x') = Suc (length (ds_Hand x))
     else sess_Status s' = SessionStatusResetting \<and> 17 \<le> ev_Value ?ev (ds_Hand x')"
    by blast+
qed

lemma dealer_apply_total:
  assumes lib: "lib_documented lib" and ok: "round_ok lib s p x"
    and st: "sess_Status s = SessionStatusDealerTurn"
  shows "\<exists>r. dealer_apply (svc lib) now s p x = Inr r"
proof -
  let ?ev = "NewHandEvaluator lib"
  have app: "lib_draw_appends lib" and cnt: "lib_counts lib"
    using lib by (simp_all add: lib_documented_def)
  have cards: "cards_ok s p x" and life: "life_ok ?ev s p x" using ok by (simp_all add: round_ok_def)
  show ?thesis
  proof (cases "NextDealerAction ?ev (ds_Hand x)")
    case (Pair action t)
    show ?thesis
    proof (cases "t \<or> action = DealerActionStand")
      case True
      obtain oc where "eng_ResolveOutcome (NewRoundEngine lib) ?ev (ps_Hand p) (ds_Hand x) = Inr oc"
        and "Outcome_IsValid oc"
        using adapter.resolve_by_strength adapter.resolve_valid by (simp add: NewRoundEngine_def)
      with True Pair st show ?thesis
        by (simp add: dealer_apply_def dealerresult_def SetOutcome_def RevealHole_def Let_def)
    next
      case False
      have "length (ps_Hand p) + length (ds_Hand x) < 52" using life st by (simp add: life_ok_def)
      with deal_total(2) [OF app cards] obtain s' h
        where "deal_one (NewRoundEngine lib) s (ds_Hand x) = Inr (s', h)" by blast
      with False Pair show ?thesis by (simp add: dealer_apply_def draw_then_hit)
    qed
  qed
qed

lemma dealer_apply_same:
  "dealer_apply u now s p x = Inr (s', p', x', ol) \<Longrightarrow>
     sess_ID s' = sess_ID s \<and> sess_RoomID s' = sess_RoomID s \<and> sess_RoundNo s' = sess_RoundNo s
     \<and> sess_Version s' = sess_Version s \<and> sess_ResultSnapshot s' = sess_ResultSnapshot s
     \<and> ps_SessionID p' = ps_SessionID p \<and> ps_UserID p' = ps_UserID p \<and> ps_SeatNo p' = ps_SeatNo p
     \<and> ps_Status p' = ps_Status p \<and> ds_SessionID x' = ds_SessionID x
     \<and> (\<forall>l. ol = Some l \<longrightarrow> rl_SessionID l = sess_ID s \<and> rl_RoundNo l = sess_RoundNo s \<and> rl_ID l = [])"
  by (auto simp: dealer_apply_iff dealerresult_Inr deal_one_def prog_elims DrawCard_iff result_log_def
      split: prod.splits DealerAction.splits if_splits)

subsection \<open>The dealer finishes\<close>

text \<open>The worker calls \<open>dealerTurn\<close> again and again; \<open>n\<close> such steps on the state of one round.\<close>

fun dealer_steps ::
    "roomService \<Rightarrow> (nat \<Rightarrow> time) \<Rightarrow> nat \<Rightarrow> GameSession \<times> PlayerState \<times> DealerState \<Rightarrow>
       error + (GameSession \<times> PlayerState \<times> DealerState)" where
  "dealer_steps u now 0 r = Inr r"
| "dealer_steps u now (Suc n) (s, p, x) =
     (if sess_Status s \<noteq> SessionStatusDealerTurn then Inr (s, p, x)
      else bindE (dealer_apply u (now n) s p x) (\<lambda>(s, p, x, _). dealer_steps u now n (s, p, x)))"

lemma dealer_steps_finish:
  assumes "lib_documented lib" "round_ok lib s p x" "sess_Status s = SessionStatusDealerTurn"
    and "18 - length (ds_Hand x) \<le> n"
  shows "\<exists>s' p' x'. dealer_steps (svc lib) now n (s, p, x) = Inr (s', p', x')
    \<and> sess_Status s' = SessionStatusResetting \<and> round_ok lib s' p' x'
    \<and> 17 \<le> ev_Value (NewHandEvaluator lib) (ds_Hand x')"
  using assms(2-4)
proof (induction n arbitrary: s p x)
  case 0
  then show ?case by (simp add: round_ok_def life_ok_def)
next
  case (Suc n)
  obtain s1 p1 x1 ol where run: "dealer_apply (svc lib) (now n) s p x = Inr (s1, p1, x1, ol)"
    using dealer_apply_total [OF assms(1) Suc.prems(1,2)] by fast
  note ok = dealer_apply_ok [OF assms(1) Suc.prems(1,2) run]
  show ?case
  proof (cases ol)
    case None
    with ok have "sess_Status s1 = SessionStatusDealerTurn" "18 - length (ds_Hand x1) \<le> n"
      using Suc.prems(3) by simp_all
    with Suc.IH [OF ok(1)] run Suc.prems(2) show ?thesis by simp
  next
    case (Some l)
    with ok have "sess_Status s1 = SessionStatusResetting" by simp
    moreover from this have "dealer_steps (svc lib) now n (s1, p1, x1) = Inr (s1, p1, x1)"
      by (cases n) simp_all
    ultimately show ?thesis using run Suc.prems(2) ok Some by simp
  qed
qed

end
