(* ===== verification/Rematch_Service.thy ===== *)
theory Rematch_Service
  imports Round_Service
begin

text \<open>
  The vote on a rematch, its deadline, and the worker's pass over all sessions
  (\<open>backend/usecase/game_usecase.go\<close>: \<open>VoteRematch\<close>, \<open>processRematchDeadline\<close>,
  \<open>AutoStandDueSessions\<close> and their helpers).
\<close>

subsection \<open>Who may vote, and what the votes say\<close>

definition rematchEligibleUserIDs :: "RoomPlayer list \<Rightarrow> string list" where
  "rematchEligibleUserIDs players = map rp_UserID (filter in_room players)"

definition votes_map :: "RematchVote list \<Rightarrow> string \<rightharpoonup> bool" where
  "votes_map votes = fold (\<lambda>v m. m(rv_UserID v \<mapsto> rv_Agree v)) votes Map.empty"

definition rematchAgreeMapAtDeadline :: "string list \<Rightarrow> RematchVote list \<Rightarrow> string \<rightharpoonup> bool" where
  "rematchAgreeMapAtDeadline eligible votes =
     (let byUser = votes_map votes in
      fold (\<lambda>uid m. m(uid \<mapsto> (case byUser uid of Some v \<Rightarrow> v | None \<Rightarrow> False))) eligible Map.empty)"

definition hasExplicitRematchDenial :: "string list \<Rightarrow> (string \<rightharpoonup> bool) \<Rightarrow> bool" where
  "hasExplicitRematchDenial eligible agreeMap =
     list_ex (\<lambda>uid. agreeMap uid = Some False) eligible"

subsection \<open>The end of a vote\<close>

definition finalizeRematchFailureTx :: "Room \<Rightarrow> Room prog" where
  "finalizeRematchFailureTx room =
     (let room = room\<lparr>room_CurrentSessionID := None\<rparr> in
      bind (store_read (ListRoomPlayersByRoomID (room_ID room))) (\<lambda>players.
      bind io_now (\<lambda>now.
      bind (lift (RecalculateStatus room (int (length (filter in_room players))) False)) (\<lambda>room.
      let room = Room_Touch now room in
      bind (tx_UpdateRoom room) (\<lambda>_. ret room)))))"

definition rematchUnanimousSuccessTx ::
    "roomService \<Rightarrow> Room \<Rightarrow> GameSession \<Rightarrow> string \<Rightarrow> time \<Rightarrow> int \<Rightarrow> (Room \<times> GameSession) prog" where
  "rematchUnanimousSuccessTx u room prev playerUserID now expectedVersion =
     (let prev = Session_Touch now (IncrementVersion prev) in
      bind (store_cas prev expectedVersion) (\<lambda>ok.
      bind (guard ok ErrVersionConflict) (\<lambda>_.
      bind io_uuid (\<lambda>sid.
      bind (lift (NewGameSession now sid (room_ID room) (wrap64 (sess_RoundNo prev + 1)) now))
        (\<lambda>nxt.
      bind io_deck (\<lambda>deck.
      bind (lift (open_round u now (SetDeck deck nxt) playerUserID)) (\<lambda>(nxt, pstate, dealer).
      let room = room\<lparr>room_CurrentSessionID := Some (sess_ID nxt)\<rparr> in
      bind (lift (RecalculateStatus room 1 True)) (\<lambda>room.
      let room = Room_Touch now room in
      bind (create_round_tx nxt pstate dealer room) (\<lambda>_.
      ret (room, nxt))))))))))"

subsection \<open>Voting\<close>

definition vote_payload :: "bool \<Rightarrow> int \<Rightarrow> string" where
  "vote_payload agree expectedVersion =
     ''REMATCH_VOTE:'' @ (if agree then ''true'' else ''false'') @ '':'' @ FormatInt expectedVersion"

definition vote_log :: "string \<Rightarrow> string \<Rightarrow> string \<Rightarrow> string \<Rightarrow> ActionLog" where
  "vote_log sessionID userID actionID hash =
     \<lparr>al_SessionID = sessionID, al_ActorType = ActorTypeUser, al_ActorUserID = userID,
      al_TargetUserID = userID, al_ActionID = actionID, al_RequestType = ''REMATCH_VOTE'',
      al_RequestPayloadHash = hash, al_ResponseSnapshot = []\<rparr>"

text \<open>The three branches of the switch: unanimous, denied, still open.\<close>

definition vote_outcome ::
    "roomService \<Rightarrow> Room \<Rightarrow> GameSession \<Rightarrow> string list \<Rightarrow> (string \<rightharpoonup> bool) \<Rightarrow> time \<Rightarrow> int \<Rightarrow>
       (Room \<times> GameSession) prog" where
  "vote_outcome u room sess eligible agreeMap now expectedVersion =
     (if RematchUnanimous eligible agreeMap then
        rematchUnanimousSuccessTx u room sess (hd eligible) now expectedVersion
      else if hasExplicitRematchDenial eligible agreeMap then
        bind (finalizeRematchFailureTx room) (\<lambda>room. ret (room, sess))
      else
        let sess = Session_Touch now (IncrementVersion sess) in
        bind (store_cas sess expectedVersion) (\<lambda>ok.
        bind (guard ok ErrVersionConflict) (\<lambda>_.
        ret (room, sess))))"

text \<open>A vote that is not a replay, on the locked session.\<close>

definition cast_vote ::
    "roomService \<Rightarrow> Room \<Rightarrow> string \<Rightarrow> GameSession \<Rightarrow> string \<Rightarrow> bool \<Rightarrow> int \<Rightarrow> ActionLog \<Rightarrow>
       (Room \<times> GameSession) prog" where
  "cast_vote u room roomID sess userID agree expectedVersion actionLog =
     bind (store_read (ListRoomPlayersByRoomID roomID)) (\<lambda>roomPlayers.
     let eligible = rematchEligibleUserIDs roomPlayers in
     bind (guard (userID \<in> set eligible) ErrForbiddenAction) (\<lambda>_.
     bind io_now (\<lambda>now.
     let sess = (if sess_RematchDeadlineAt sess = None then SetRematchDeadline now sess else sess)
     in
     bind (store_read (ListRematchVotes (sess_ID sess))) (\<lambda>votes.
     let agreeMap = (votes_map votes)(userID \<mapsto> agree) in
     bind (tx_UpsertRematchVote
         \<lparr>rv_SessionID = sess_ID sess, rv_UserID = userID, rv_Agree = agree\<rparr>) (\<lambda>_.
     bind (vote_outcome u room sess eligible agreeMap now expectedVersion) (\<lambda>(room, sess).
     bind (SaveActionSuccessSnapshot actionLog
         (action_snapshot (room_ID room) (sess_ID sess) (sess_Version sess))) (\<lambda>_.
     ret (room, sess))))))))"

definition VoteRematch_tx ::
    "roomService \<Rightarrow> Room \<Rightarrow> string \<Rightarrow> string \<Rightarrow> string \<Rightarrow> bool \<Rightarrow> int \<Rightarrow> string \<Rightarrow>
       (Room \<times> GameSession) prog" where
  "VoteRematch_tx u room roomID lockedSessionID userID agree expectedVersion actionID =
     bind (store_read (GetSessionForUpdate lockedSessionID)) (\<lambda>sess.
     bind (guard (sess_Status sess = SessionStatusResetting) ErrInvalidGameState) (\<lambda>_.
     bind (check (CheckVersion sess expectedVersion)) (\<lambda>_.
     bind (sha256hex (vote_payload agree expectedVersion)) (\<lambda>hash.
     let actionLog = vote_log (sess_ID sess) userID actionID hash in
     bind (EnsureActionIdempotency actionLog) (\<lambda>(_, replay).
     if replay then ret (room, sess)
     else cast_vote u room roomID sess userID agree expectedVersion actionLog)))))"

definition VoteRematch ::
    "roomService \<Rightarrow> string \<Rightarrow> string \<Rightarrow> bool \<Rightarrow> int \<Rightarrow> string \<Rightarrow> (Room \<times> GameSession) prog" where
  "VoteRematch u roomID userID agree expectedVersion actionID =
     (if userID = [] then throw ErrUnauthorizedUser
      else if roomID = [] \<or> expectedVersion \<le> 0 \<or> actionID = [] then throw ErrInvalidInput
      else
        bind (store_read (GetRoom roomID)) (\<lambda>room.
        bind (attempt (store_read (GetRoomPlayer roomID userID))) (\<lambda>r.
        case r of
          Inl err \<Rightarrow> if err = ErrNotFound then throw ErrForbiddenAction else throw err
        | Inr _ \<Rightarrow>
            bind (store_read (GetLatestSessionByRoomID roomID)) (\<lambda>latest.
            transaction (VoteRematch_tx u room roomID (sess_ID latest) userID agree
              expectedVersion actionID)))))"

subsection \<open>The deadline\<close>

definition processRematchDeadline :: "roomService \<Rightarrow> string \<Rightarrow> unit prog" where
  "processRematchDeadline u sessionID =
     transaction (
       bind (store_read (GetSessionForUpdate sessionID)) (\<lambda>sess.
       if sess_Status sess \<noteq> SessionStatusResetting then ret ()
       else
         bind io_now (\<lambda>now.
         if \<not> due (sess_RematchDeadlineAt sess) now then ret ()
         else
           bind (store_read (GetRoom (sess_RoomID sess))) (\<lambda>room.
           if room_CurrentSessionID room \<noteq> Some (sess_ID sess) then ret ()
           else
             bind (store_read (ListRoomPlayersByRoomID (room_ID room))) (\<lambda>rps.
             let eligible = rematchEligibleUserIDs rps in
             bind (store_read (ListRematchVotes (sess_ID sess))) (\<lambda>votes.
             let agreeMap = rematchAgreeMapAtDeadline eligible votes in
             if eligible = [] then
               bind (finalizeRematchFailureTx room) (\<lambda>_. ret ())
             else if RematchUnanimous eligible agreeMap then
               bind (rematchUnanimousSuccessTx u room sess (hd eligible) now (sess_Version sess))
                 (\<lambda>_. ret ())
             else bind (finalizeRematchFailureTx room) (\<lambda>_. ret ())))))))"

subsection \<open>The worker's pass\<close>

text \<open>\<open>seen\<close> is the set of the rooms already in the answer.\<close>

definition note_room :: "string \<Rightarrow> string list \<Rightarrow> string list" where
  "note_room roomID updatedRooms =
     (if roomID \<in> set updatedRooms then updatedRooms else updatedRooms @ [roomID])"

text \<open>A session that has disappeared or changed meanwhile is passed over.\<close>

definition passed_over :: "error \<Rightarrow> bool" where
  "passed_over err \<longleftrightarrow> err = ErrNotFound \<or> err = ErrVersionConflict"

definition worker_step ::
    "(string \<Rightarrow> unit prog) \<Rightarrow> GameSession \<Rightarrow> string list \<Rightarrow> string list prog" where
  "worker_step handle sess updatedRooms =
     bind (attempt (handle (sess_ID sess))) (\<lambda>r.
     case r of
       Inl err \<Rightarrow> if passed_over err then ret (note_room (sess_RoomID sess) updatedRooms) else throw err
     | Inr _ \<Rightarrow> ret (note_room (sess_RoomID sess) updatedRooms))"

definition AutoStandDueSessions :: "roomService \<Rightarrow> string list prog" where
  "AutoStandDueSessions u =
     bind io_now (\<lambda>now.
     bind (store_read (ListSessionsByStatusAndDeadlineBefore SessionStatusPlayerTurn now))
       (\<lambda>sessions.
     bind (for_each (worker_step (playerStand u)) sessions []) (\<lambda>updatedRooms.
     bind (store_read (ListSessionsByStatus SessionStatusDealerTurn)) (\<lambda>dealerSessions.
     bind (for_each (worker_step (dealerTurn u)) dealerSessions updatedRooms) (\<lambda>updatedRooms.
     bind (store_read (ListResettingSessionsDueBy now)) (\<lambda>remDue.
     for_each (worker_step (processRematchDeadline u)) remDue updatedRooms))))))"

subsection \<open>Effects\<close>

lemma writes_rematch [writes_intros]:
  "writes_only (finalizeRematchFailureTx r)"
  "writes_only (rematchUnanimousSuccessTx u r s p now v)"
  unfolding finalizeRematchFailureTx_def rematchUnanimousSuccessTx_def Let_def
  by (intro writes_intros)+

lemma writes_VoteRematch [writes_intros]:
  "writes_only (VoteRematch u i user agree v a)"
  unfolding VoteRematch_def VoteRematch_tx_def cast_vote_def vote_outcome_def Let_def
  by (intro writes_intros)

lemma aon_VoteRematch [aon_intros]: "all_or_nothing (VoteRematch u i user agree v a)"
  unfolding VoteRematch_def by (intro aon_intros readonly_intros)

lemma writes_processRematchDeadline [writes_intros]: "writes_only (processRematchDeadline u i)"
  unfolding processRematchDeadline_def Let_def by (intro writes_intros)

lemma aon_processRematchDeadline [aon_intros]: "all_or_nothing (processRematchDeadline u i)"
  unfolding processRematchDeadline_def by (rule aon_transaction)

lemma writes_worker_step [writes_intros]:
  "(\<And>i. writes_only (handle i)) \<Longrightarrow> writes_only (worker_step handle s rooms)"
  unfolding worker_step_def by (intro writes_intros)

lemma writes_AutoStandDueSessions [writes_intros]: "writes_only (AutoStandDueSessions u)"
  unfolding AutoStandDueSessions_def by (intro writes_intros)

subsection \<open>Properties\<close>

lemma fold_upd_at: "fold (\<lambda>uid m. m(uid \<mapsto> f uid)) xs m k = (if k \<in> set xs then Some (f k) else m k)"
  by (induction xs arbitrary: m) auto

theorem deadline_counts_last_votes:
  "RematchUnanimous eligible (rematchAgreeMapAtDeadline eligible votes) \<longleftrightarrow>
     eligible \<noteq> [] \<and> (\<forall>uid \<in> set eligible. votes_map votes uid = Some True)"
  by (auto simp: RematchUnanimous_def rematchAgreeMapAtDeadline_def agreed_def list_all_iff fold_upd_at Let_def split: option.splits)

theorem deadline_counts_last_votes_witness:
  "\<not> RematchUnanimous [''ann'', ''bob''] (rematchAgreeMapAtDeadline [''ann'', ''bob'']
       [\<lparr>rv_SessionID = ''s'', rv_UserID = ''ann'', rv_Agree = True\<rparr>])"
  using deadline_counts_last_votes [of "[''ann'', ''bob'']"
      "[\<lparr>rv_SessionID = ''s'', rv_UserID = ''ann'', rv_Agree = True\<rparr>]"]
  by (simp add: votes_map_def)

theorem single_voter_decides:
  "vote_outcome u room sess [userID] ((votes_map votes)(userID \<mapsto> agree)) now n =
     (if agree then rematchUnanimousSuccessTx u room sess userID now n
      else bind (finalizeRematchFailureTx room) (\<lambda>room. ret (room, sess)))"
  by (simp add: vote_outcome_def RematchUnanimous_def agreed_def hasExplicitRematchDenial_def)

end
