(* ===== verification/Room_View.thy ===== *)
theory Room_View
  imports Rematch_Service
begin

text \<open>
  What a user gets to see: \<open>GetRoomState\<close> and \<open>SuggestPlayerAction\<close> of
  \<open>backend/usecase/game_usecase.go\<close>, the payload \<open>buildRoomDTO\<close> assembles for a viewer
  (\<open>backend/controller/room_ws_controller.go\<close>) and the mappers of \<open>backend/dto\<close>.
\<close>

subsection \<open>The state of a room\<close>

record RoomState =
  st_Room :: Room
  st_Session :: "GameSession option"
  st_Dealer :: "DealerState option"
  st_Players :: "PlayerState list"
  st_CanHit :: bool
  st_CanStand :: bool
  st_CanRematch :: bool

definition can_hit :: "GameSession \<Rightarrow> string \<Rightarrow> PlayerState list \<Rightarrow> bool" where
  "can_hit sess userID players =
     (case tbl_first (\<lambda>p. ps_UserID p = userID) players of
        None \<Rightarrow> False
      | Some p \<Rightarrow> ps_Status p = PlayerStatusActive \<and> sess_Status sess = SessionStatusPlayerTurn
          \<and> sess_TurnSeat sess = ps_SeatNo p)"

text \<open>A read that finds nothing gives no dealer, or no players.\<close>

definition or_absent :: "'a \<Rightarrow> error + 'a \<Rightarrow> 'a prog" where
  "or_absent x r =
     (case r of Inl err \<Rightarrow> if err \<noteq> ErrNotFound then throw err else ret x | Inr y \<Rightarrow> ret y)"

definition GetRoomState :: "string \<Rightarrow> string \<Rightarrow> RoomState prog" where
  "GetRoomState roomID userID =
     bind (GetRoom_uc roomID userID) (\<lambda>(room, osess).
     case osess of
       None \<Rightarrow>
         ret \<lparr>st_Room = room, st_Session = None, st_Dealer = None, st_Players = [],
              st_CanHit = False, st_CanStand = False, st_CanRematch = False\<rparr>
     | Some sess \<Rightarrow>
         bind (attempt (store_read (GetDealerState (sess_ID sess)))) (\<lambda>r.
         bind (or_absent None (mapR Some r)) (\<lambda>dealer.
         bind (attempt (store_read (ListPlayerStatesBySessionID (sess_ID sess)))) (\<lambda>r.
         bind (or_absent [] r) (\<lambda>players.
         let canHit = can_hit sess userID players in
         ret \<lparr>st_Room = room, st_Session = Some sess, st_Dealer = dealer, st_Players = players,
              st_CanHit = canHit, st_CanStand = canHit,
              st_CanRematch = (sess_Status sess = SessionStatusResetting)\<rparr>)))))"

subsection \<open>The hint\<close>

text \<open>The rationale strings of the hint, in UTF-8: a shared prefix and the recommendation.\<close>

definition rationale_prefix :: string where
  "rationale_prefix = [
     CHR 0xE4, CHR 0xB8, CHR 0xAD, CHR 0xE7, CHR 0xB4, CHR 0x9A, CHR 0xE5, CHR 0x90, CHR 0x91,
     CHR 0xE3, CHR 0x81, CHR 0x91, CHR 0xE7, CHR 0xB0, CHR 0xA1, CHR 0xE7, CHR 0x95, CHR 0xA5,
     CHR 0xE3, CHR 0x83, CHR 0x99, CHR 0xE3, CHR 0x83, CHR 0xBC, CHR 0xE3, CHR 0x82, CHR 0xB7,
     CHR 0xE3, CHR 0x83, CHR 0x83, CHR 0xE3, CHR 0x82, CHR 0xAF, CHR 0xE6, CHR 0x88, CHR 0xA6,
     CHR 0xE7, CHR 0x95, CHR 0xA5, CHR 0xEF, CHR 0xBC, CHR 0x88, CHR ''S'', CHR ''1'', CHR ''7'',
     CHR 0xE3, CHR 0x83, CHR 0xBB, CHR 0xE3, CHR 0x83, CHR 0x80, CHR 0xE3, CHR 0x83, CHR 0x96,
     CHR 0xE3, CHR 0x83, CHR 0xAB, CHR 0x2F, CHR 0xE3, CHR 0x82, CHR 0xB9, CHR 0xE3, CHR 0x83,
     CHR 0x97, CHR 0xE3, CHR 0x83, CHR 0xAA, CHR 0xE3, CHR 0x83, CHR 0x83, CHR 0xE3, CHR 0x83,
     CHR 0x88, CHR 0xE3, CHR 0x81, CHR 0xAA, CHR 0xE3, CHR 0x81, CHR 0x97, CHR 0xEF, CHR 0xBC,
     CHR 0x89, CHR 0xE3, CHR 0x81, CHR 0xAB, CHR 0xE5, CHR 0x9F, CHR 0xBA, CHR 0xE3, CHR 0x81,
     CHR 0xA5, CHR 0xE3, CHR 0x81, CHR 0x8D]"

definition rationale_text :: "bool \<Rightarrow> string" where
  "rationale_text wantHit = rationale_prefix @ (if wantHit then [
     CHR 0xE3, CHR 0x83, CHR 0x92, CHR 0xE3, CHR 0x83, CHR 0x83, CHR 0xE3, CHR 0x83, CHR 0x88,
     CHR 0xE3, CHR 0x80, CHR 0x82] else [
     CHR 0xE3, CHR 0x82, CHR 0xB9, CHR 0xE3, CHR 0x82, CHR 0xBF, CHR 0xE3, CHR 0x83, CHR 0xB3,
     CHR 0xE3, CHR 0x83, CHR 0x89, CHR 0xE3, CHR 0x80, CHR 0x82])"

record PlayHint =
  hint_Recommendation :: string
  hint_SessionVersion :: int
  hint_Rationale :: string

definition hint_of :: "roomService \<Rightarrow> string \<Rightarrow> RoomState \<Rightarrow> error + PlayHint" where
  "hint_of u userID state =
     (case st_Session state of
        None \<Rightarrow> Inl ErrInvalidGameState
      | Some sess \<Rightarrow>
          if \<not> st_CanHit state then Inl ErrInvalidGameState
          else
            case st_Dealer state of
              None \<Rightarrow> Inl ErrInvalidGameState
            | Some dealer \<Rightarrow>
                if ds_Hand dealer = [] then Inl ErrInvalidGameState
                else
                  let hand = (case tbl_first (\<lambda>p. ps_UserID p = userID) (st_Players state) of
                                None \<Rightarrow> [] | Some p \<Rightarrow> ps_Hand p) in
                  if hand = [] then Inl ErrInvalidGameState
                  else
                    let wantHit = RecommendHitOrStand (svc_evaluator u) hand (hd (ds_Hand dealer))
                    in Inr \<lparr>hint_Recommendation = (if wantHit then ''HIT'' else ''STAND''),
                            hint_SessionVersion = sess_Version sess,
                            hint_Rationale = rationale_text wantHit\<rparr>)"

definition SuggestPlayerAction :: "roomService \<Rightarrow> string \<Rightarrow> string \<Rightarrow> PlayHint prog" where
  "SuggestPlayerAction u roomID userID =
     bind (GetRoomState roomID userID) (\<lambda>state. lift (hint_of u userID state))"

subsection \<open>RFC 3339 times\<close>

text \<open>
  \<open>t.UTC().Format(time.RFC3339)\<close> for times from year 1 to 9999: the civil date of the number of
  days since 1 January of year 1, in the proleptic Gregorian calendar.
\<close>

definition pad :: "nat \<Rightarrow> nat \<Rightarrow> string" where
  "pad n k = (let s = digits_of k in replicate (n - length s) CHR ''0'' @ s)"

definition civil_date :: "nat \<Rightarrow> nat \<times> nat \<times> nat" where
  "civil_date days =
     (let z = days + 306; era = z div 146097; doe = z mod 146097;
          yoe = (doe - doe div 1460 + doe div 36524 - doe div 146096) div 365;
          doy = doe - (365 * yoe + yoe div 4 - yoe div 100);
          mp = (5 * doy + 2) div 153;
          d = doy - (153 * mp + 2) div 5 + 1;
          m = (if mp < 10 then mp + 3 else mp - 9);
          y = yoe + era * 400 + (if m \<le> 2 then 1 else 0)
      in (y, m, d))"

definition format_RFC3339 :: "time \<Rightarrow> string" where
  "format_RFC3339 t =
     (let secs = nat (t div Second); tod = secs mod 86400 in
      case civil_date (secs div 86400) of (y, m, d) \<Rightarrow>
        pad 4 y @ ''-'' @ pad 2 m @ ''-'' @ pad 2 d @ ''T'' @ pad 2 (tod div 3600) @ '':''
          @ pad 2 (tod mod 3600 div 60) @ '':'' @ pad 2 (tod mod 60) @ ''Z'')"

subsection \<open>The payload for a viewer\<close>

record RoomJSON =
  rj_ID :: string
  rj_Status :: string

record RoomStateSyncSessionJSON =
  sj_ID :: "string option"
  sj_Status :: "string option"
  sj_Version :: "int option"
  sj_RoundNo :: "int option"
  sj_TurnSeat :: "int option"
  sj_TurnDeadlineAt :: "string option"
  sj_RematchDeadlineAt :: "string option"

record DealerJSON =
  dj_VisibleCards :: "string list"
  dj_Hidden :: bool
  dj_CardCount :: int

record PlayerJSON =
  pj_UserID :: string
  pj_SeatNo :: int
  pj_Status :: string
  pj_IsMe :: bool
  pj_Hand :: "string list"
  pj_CardCount :: int
  pj_Outcome :: "string option"
  pj_FinalScore :: "int option"

record MyActionsJSON =
  ma_CanHit :: bool
  ma_CanStand :: bool
  ma_CanRematchVote :: bool

record RoomStateSyncPayload =
  pl_Room :: RoomJSON
  pl_Session :: RoomStateSyncSessionJSON
  pl_Dealer :: DealerJSON
  pl_Players :: "PlayerJSON list"
  pl_MyActions :: MyActionsJSON

definition card_text :: "StoredCard \<Rightarrow> string" where
  "card_text c = card_Rank c @ card_Suit c"

definition session_json :: "GameSession option \<Rightarrow> RoomStateSyncSessionJSON" where
  "session_json osess =
     (case osess of
        None \<Rightarrow> \<lparr>sj_ID = None, sj_Status = None, sj_Version = None, sj_RoundNo = None,
                 sj_TurnSeat = None, sj_TurnDeadlineAt = None, sj_RematchDeadlineAt = None\<rparr>
      | Some s \<Rightarrow> \<lparr>sj_ID = Some (sess_ID s), sj_Status = Some (SessionStatus_str (sess_Status s)),
                   sj_Version = Some (sess_Version s), sj_RoundNo = Some (sess_RoundNo s),
                   sj_TurnSeat = Some (sess_TurnSeat s),
                   sj_TurnDeadlineAt = map_option format_RFC3339 (sess_TurnDeadlineAt s),
                   sj_RematchDeadlineAt = map_option format_RFC3339 (sess_RematchDeadlineAt s)\<rparr>)"

text \<open>The card at index 1 is the hole card.\<close>

definition visible_cards :: "bool \<Rightarrow> StoredCard list \<Rightarrow> string list" where
  "visible_cards hidden hand =
     map (card_text \<circ> snd) (filter (\<lambda>(i, c). \<not> (hidden \<and> i = 1)) (enumerate 0 hand))"

definition dealer_json :: "DealerState option \<Rightarrow> DealerJSON" where
  "dealer_json odealer =
     (case odealer of
        None \<Rightarrow> \<lparr>dj_VisibleCards = [], dj_Hidden = False, dj_CardCount = 0\<rparr>
      | Some d \<Rightarrow> \<lparr>dj_VisibleCards = visible_cards (ds_HoleHidden d) (ds_Hand d),
                   dj_Hidden = ds_HoleHidden d, dj_CardCount = int (length (ds_Hand d))\<rparr>)"

definition player_json :: "string \<Rightarrow> PlayerState \<Rightarrow> PlayerJSON" where
  "player_json userID p =
     (let isMe = ps_UserID p = userID in
      \<lparr>pj_UserID = ps_UserID p, pj_SeatNo = ps_SeatNo p,
       pj_Status = PlayerStatus_str (ps_Status p), pj_IsMe = isMe,
       pj_Hand = (if isMe then map card_text (ps_Hand p) else []),
       pj_CardCount = int (length (ps_Hand p)),
       pj_Outcome = map_option Outcome_str (ps_Outcome p), pj_FinalScore = ps_FinalScore p\<rparr>)"

definition buildRoomDTO :: "RoomState \<Rightarrow> string \<Rightarrow> RoomStateSyncPayload" where
  "buildRoomDTO s userID =
     \<lparr>pl_Room = \<lparr>rj_ID = room_ID (st_Room s), rj_Status = RoomStatus_str (room_Status (st_Room s))\<rparr>,
      pl_Session = session_json (st_Session s),
      pl_Dealer = dealer_json (st_Dealer s),
      pl_Players = map (player_json userID) (st_Players s),
      pl_MyActions = \<lparr>ma_CanHit = st_CanHit s, ma_CanStand = st_CanStand s,
                      ma_CanRematchVote = st_CanRematch s\<rparr>\<rparr>"

subsection \<open>Effects\<close>

lemma readonly_or_absent [readonly_intros]: "readonly (or_absent x r)"
  unfolding or_absent_def by (intro readonly_intros)

lemma readonly_views [readonly_intros]:
  "readonly (GetRoomState i user)" "readonly (SuggestPlayerAction u i user)"
  unfolding SuggestPlayerAction_def GetRoomState_def Let_def by (intro readonly_intros)+

text \<open>Who gets a room to see.\<close>

lemma GetRoom_uc_access:
  assumes "GetRoom_uc roomID userID e w = (Inr x, w')"
  shows "\<exists>room. GetRoom roomID (w_db w) = Inr room \<and> (room_HostUserID room = userID \<or>
    (\<exists>m. GetRoomPlayer roomID userID (w_db w) = Inr m \<and> rp_Status m \<noteq> RoomPlayerLeft))"
  using assms
  by (auto simp: GetRoom_uc_def room_access_def prog_elims read_answer_Inr split: if_splits option.splits)

lemma GetRoomState_access:
  assumes "GetRoomState roomID userID e w = (Inr st, w')"
  shows "\<exists>room. GetRoom roomID (w_db w) = Inr room \<and> (room_HostUserID room = userID \<or>
    (\<exists>m. GetRoomPlayer roomID userID (w_db w) = Inr m \<and> rp_Status m \<noteq> RoomPlayerLeft))"
proof -
  from assms obtain x v where "GetRoom_uc roomID userID e w = (Inr x, v)"
    unfolding GetRoomState_def bind_Inr by blast
  from GetRoom_uc_access [OF this] show ?thesis .
qed

subsection \<open>Secrets stay secret\<close>

text \<open>
  Two states look alike to a viewer when they differ only in the dealer's hole card, while it is
  hidden, and in the cards of the other players' hands (not in how many there are).
\<close>

definition same_dealer_view :: "DealerState \<Rightarrow> DealerState \<Rightarrow> bool" where
  "same_dealer_view d d' \<longleftrightarrow>
     ds_HoleHidden d = ds_HoleHidden d' \<and> length (ds_Hand d) = length (ds_Hand d')
     \<and> (\<forall>i < length (ds_Hand d). ds_HoleHidden d \<and> i = 1 \<or> ds_Hand d ! i = ds_Hand d' ! i)"

definition same_player_view :: "string \<Rightarrow> PlayerState \<Rightarrow> PlayerState \<Rightarrow> bool" where
  "same_player_view userID p p' \<longleftrightarrow>
     ps_UserID p = ps_UserID p' \<and> ps_SeatNo p = ps_SeatNo p' \<and> ps_Status p = ps_Status p'
     \<and> ps_Outcome p = ps_Outcome p' \<and> ps_FinalScore p = ps_FinalScore p'
     \<and> length (ps_Hand p) = length (ps_Hand p')
     \<and> (ps_UserID p = userID \<longrightarrow> ps_Hand p = ps_Hand p')"

definition looks_alike :: "string \<Rightarrow> RoomState \<Rightarrow> RoomState \<Rightarrow> bool" where
  "looks_alike userID s s' \<longleftrightarrow>
     st_Room s = st_Room s' \<and> st_Session s = st_Session s'
     \<and> rel_option same_dealer_view (st_Dealer s) (st_Dealer s')
     \<and> list_all2 (same_player_view userID) (st_Players s) (st_Players s')
     \<and> st_CanHit s = st_CanHit s' \<and> st_CanStand s = st_CanStand s'
     \<and> st_CanRematch s = st_CanRematch s'"

lemma filter_enumerate_cong:
  assumes "length xs = length ys" "\<And>i. i < length xs \<Longrightarrow> P (n + i) \<Longrightarrow> xs ! i = ys ! i"
  shows "map snd (filter (\<lambda>(i, c). P i) (enumerate n xs)) =
    map snd (filter (\<lambda>(i, c). P i) (enumerate n ys))"
  using assms
proof (induction xs ys arbitrary: n rule: list_induct2)
  case (Cons x xs y ys)
  have "map snd (filter (\<lambda>(i, c). P i) (enumerate (Suc n) xs)) =
      map snd (filter (\<lambda>(i, c). P i) (enumerate (Suc n) ys))"
  proof (rule Cons.IH)
    fix i
    assume "i < length xs" "P (Suc n + i)"
    with Cons.prems [of "Suc i"] show "xs ! i = ys ! i" by simp
  qed
  moreover have "P n \<Longrightarrow> x = y" using Cons.prems [of 0] by simp
  ultimately show ?case by simp
qed simp

lemma dealer_json_alike:
  assumes "same_dealer_view d d'"
  shows "dealer_json (Some d) = dealer_json (Some d')"
proof -
  let ?P = "\<lambda>i. \<not> (ds_HoleHidden d' \<and> i = 1)"
  have hidden: "ds_HoleHidden d = ds_HoleHidden d'" and len: "length (ds_Hand d) = length (ds_Hand d')"
    using assms by (simp_all add: same_dealer_view_def)
  have "map snd (filter (\<lambda>(i, c). ?P i) (enumerate 0 (ds_Hand d))) =
      map snd (filter (\<lambda>(i, c). ?P i) (enumerate 0 (ds_Hand d')))"
    using assms by (intro filter_enumerate_cong) (auto simp: same_dealer_view_def)
  then have "visible_cards (ds_HoleHidden d') (ds_Hand d) =
      visible_cards (ds_HoleHidden d') (ds_Hand d')"
    by (simp only: visible_cards_def map_map [symmetric])
  with hidden len show ?thesis by (simp add: dealer_json_def)
qed

lemma player_json_alike: "same_player_view userID p p' \<Longrightarrow> player_json userID p = player_json userID p'"
  by (auto simp: player_json_def same_player_view_def Let_def)

lemma players_json_alike:
  "list_all2 (same_player_view userID) ps ps' \<Longrightarrow>
     map (player_json userID) ps = map (player_json userID) ps'"
  by (induction rule: list_all2_induct) (simp_all add: player_json_alike)

lemma payload_alike:
  assumes "looks_alike userID s s'"
  shows "buildRoomDTO s userID = buildRoomDTO s' userID"
proof -
  have "dealer_json (st_Dealer s) = dealer_json (st_Dealer s')"
    using assms by (cases "st_Dealer s"; cases "st_Dealer s'")
      (auto simp: looks_alike_def dealer_json_alike)
  with assms show ?thesis
    by (simp add: buildRoomDTO_def looks_alike_def players_json_alike)
qed

lemma visible_hidden:
  "visible_cards True hand = map card_text (take 1 hand @ drop 2 hand)"
proof (cases hand)
  case (Cons a as)
  show ?thesis
  proof (cases as)
    case Nil
    with Cons show ?thesis by (simp add: visible_cards_def)
  next
    case (Cons b bs)
    have all: "filter (\<lambda>(i, c). i \<noteq> Suc 0) (enumerate 2 bs) = enumerate 2 bs"
      by (intro filter_True) (auto simp: in_set_enumerate_eq)
    have "map (card_text \<circ> snd) (enumerate n xs) = map card_text xs" for n xs
      by (metis comp_apply list.map_comp map_snd_enumerate)
    with Cons \<open>hand = a # as\<close> all show ?thesis by (simp add: visible_cards_def numeral_2_eq_2)
  qed
qed (simp add: visible_cards_def)

end
