(* ===== verification/Game_Invariant.thy ===== *)
theory Game_Invariant
  imports Round_Facts Room_View
begin

text \<open>
  The invariant of a round (\<open>Round_Facts\<close>) on the database: every stored session has one player
  state and a dealer state, and the three satisfy \<open>round_ok\<close>. The invariant depends on three
  tables only (\<open>rounds\<close>); the programs that do not touch them keep it by their shape, the
  transactions of a round keep it by the lemmas on creating, updating and deleting a round.
\<close>

definition session_ok :: "bj_lib \<Rightarrow> DB \<Rightarrow> GameSessionRecord \<Rightarrow> bool" where
  "session_ok lib d g \<longleftrightarrow>
     (\<exists>s p x. gameSessionRecordToDomain g = Inr s \<and> ListPlayerStatesBySessionID (gs_ID g) d = Inr [p]
        \<and> GetDealerState (gs_ID g) d = Inr x \<and> round_ok lib s p x)"

definition game_ok :: "bj_lib \<Rightarrow> DB \<Rightarrow> bool" where
  "game_ok lib d \<longleftrightarrow> db_ok d \<and> (\<forall>g \<in> set (d_game_sessions d). session_ok lib d g)"

definition rounds ::
    "DB \<Rightarrow> GameSessionRecord list \<times> PlayerStateRecord list \<times> DealerStateRecord list" where
  "rounds d = (d_game_sessions d, d_player_states d, d_dealer_states d)"

lemma session_ok_rounds: "rounds d' = rounds d \<Longrightarrow> session_ok lib d' g = session_ok lib d g"
  by (simp add: rounds_def session_ok_def ListPlayerStatesBySessionID_def GetDealerState_def)

lemma game_ok_rounds: "rounds d' = rounds d \<Longrightarrow> db_ok d' \<Longrightarrow> game_ok lib d \<Longrightarrow> game_ok lib d'"
  by (simp add: game_ok_def session_ok_rounds [of d' d]) (simp add: rounds_def)

lemma game_ok_empty: "game_ok lib empty_db"
  by (simp add: game_ok_def db_ok_empty) (simp add: empty_db_def)

lemma game_ok_keys: "game_ok lib d \<Longrightarrow> distinct (map gs_ID (d_game_sessions d))"
  by (simp add: game_ok_def db_ok_def keys_ok_def unique_by_def)

subsection \<open>What a session's id finds\<close>

lemma GetSession_Inr:
  "GetSession i d = Inr s \<longleftrightarrow>
     (\<exists>g. session_row d i = Some g \<and> gameSessionRecordToDomain g = Inr s)"
  by (auto simp: GetSession_def session_row_def gorm_First_def mapErr_def split: option.splits)

lemma GetSessionForUpdate_eq: "GetSessionForUpdate = GetSession"
  by (simp add: fun_eq_iff GetSession_def GetSessionForUpdate_def)

lemma session_row_in: "session_row d i = Some g \<Longrightarrow> g \<in> set (d_game_sessions d) \<and> gs_ID g = i"
  by (auto simp: session_row_def dest: tbl_first_Some)

lemma GetSession_id: "GetSession i d = Inr s \<Longrightarrow> sess_ID s = i \<and> valid_session s"
  using session_read_key session_read_valid by (fastforce simp: GetSession_Inr dest: session_row_in)

lemma game_ok_session:
  assumes "game_ok lib d" "GetSession i d = Inr s"
  obtains p x where "ListPlayerStatesBySessionID i d = Inr [p]" "GetDealerState i d = Inr x"
    "round_ok lib s p x"
proof -
  from assms(2) obtain g where "g \<in> set (d_game_sessions d)" "gs_ID g = i"
    "gameSessionRecordToDomain g = Inr s" by (auto simp: GetSession_Inr dest: session_row_in)
  with assms(1) have "session_ok lib d g" by (simp add: game_ok_def)
  with \<open>gs_ID g = i\<close> \<open>gameSessionRecordToDomain g = Inr s\<close> that show ?thesis
    by (auto simp: session_ok_def)
qed

subsection \<open>A new round\<close>

lemma list_players_append:
  "ListPlayerStatesBySessionID i (d\<lparr>d_player_states := d_player_states d @ [r]\<rparr>) =
     (if psr_SessionID r = i
      then mapE playerStateRecordToDomain
        (sort_key psr_SeatNo (filter (\<lambda>p. psr_SessionID p = i) (d_player_states d) @ [r]))
      else ListPlayerStatesBySessionID i d)"
  by (simp add: ListPlayerStatesBySessionID_def)

lemma game_ok_create:
  assumes ok: "game_ok lib d" and db: "db_ok d'" and r: "round_ok lib s p x"
    and v: "valid_session s" "valid_player p"
    and new: "\<not> session_exists d (sess_ID s)"
    and sess: "d_game_sessions d' = d_game_sessions d @ [gameSessionRecordFromDomain s]"
    and players: "d_player_states d' = d_player_states d @ [playerStateRecordFromDomain p]"
    and dealer: "d_dealer_states d' = d_dealer_states d @ [dealerStateRecordFromDomain x]"
  shows "game_ok lib d'"
proof -
  have ids: "ps_SessionID p = sess_ID s" "ds_SessionID x = sess_ID s"
    using r by (simp_all add: round_ok_def life_ok_def)
  have pid: "psr_SessionID (playerStateRecordFromDomain p) = sess_ID s"
    using ids by (simp add: playerStateRecordFromDomain_def)
  have refs: "refs_ok d" using ok by (simp add: game_ok_def db_ok_def)
  have lists: "ListPlayerStatesBySessionID i d' =
      (if i = sess_ID s then Inr [p] else ListPlayerStatesBySessionID i d)" for i
  proof -
    have "filter (\<lambda>q. psr_SessionID q = sess_ID s) (d_player_states d) = []"
      using refs new by (auto simp: refs_ok_def filter_empty_conv)
    then show ?thesis using pid v(2)
      by (simp add: ListPlayerStatesBySessionID_def players player_roundtrip)
  qed
  have dealers: "GetDealerState i d' = (if i = sess_ID s then Inr x else GetDealerState i d)" for i
  proof -
    have "\<forall>y \<in> set (d_dealer_states d). dsr_SessionID y \<noteq> sess_ID s"
      using refs new by (auto simp: refs_ok_def)
    then show ?thesis
      using gorm_First_append [of "d_dealer_states d" "\<lambda>y. dsr_SessionID y = i"
          "dealerStateRecordFromDomain x"] ids
      by (cases "i = sess_ID s")
        (auto simp: GetDealerState_def dealer dealer_roundtrip gorm_First_def tbl_first_append
          split: option.splits)
  qed
  have "session_ok lib d' g" if g: "g \<in> set (d_game_sessions d')" for g
  proof (cases "g \<in> set (d_game_sessions d)")
    case True
    with new have "gs_ID g \<noteq> sess_ID s" by (auto simp: session_exists_def list_ex_iff)
    moreover have "session_ok lib d g" using ok True by (simp add: game_ok_def)
    ultimately show ?thesis by (simp add: session_ok_def lists dealers)
  next
    case False
    with g sess have "g = gameSessionRecordFromDomain s" by simp
    with r v(1) show ?thesis by (simp add: session_ok_def lists dealers session_roundtrip)
  qed
  with db show ?thesis by (simp add: game_ok_def)
qed

subsection \<open>A step of a round\<close>

text \<open>The columns the conditional update does not write do not matter.\<close>

lemma read_session_columns:
  assumes "valid_session s"
  shows "gameSessionRecordToDomain (session_columns (gameSessionRecordFromDomain s) g) =
    Inr (s\<lparr>sess_ID := gs_ID g, sess_RoomID := gs_RoomID g, sess_RoundNo := gs_RoundNo g,
           sess_CreatedAt := gs_CreatedAt g\<rparr>)"
proof -
  have "gameSessionRecordToDomain (gameSessionRecordFromDomain s) = Inr s"
    using assms by (simp add: session_roundtrip)
  then show ?thesis
    by (cases s) (auto simp: gameSessionRecordToDomain_def session_columns_def
        gameSessionRecordFromDomain_def Let_def split: if_splits sum.splits)
qed

lemma round_ok_columns:
  "round_ok lib (s\<lparr>sess_RoomID := a, sess_RoundNo := b, sess_CreatedAt := c\<rparr>) p x = round_ok lib s p x"
  by (simp add: round_ok_def cards_ok_def life_ok_def split: SessionStatus.split)

lemma game_ok_update:
  assumes ok: "game_ok lib d" and db: "db_ok d'" and r: "round_ok lib s p x" and v: "valid_session s"
    and cas: "UpdateSessionIfVersion s n d = (d1, True)"
    and sess: "d_game_sessions d' = d_game_sessions d1"
    and lists: "\<And>i. ListPlayerStatesBySessionID i d' =
      (if i = sess_ID s then Inr [p] else ListPlayerStatesBySessionID i d)"
    and dealers: "\<And>i. GetDealerState i d' = (if i = sess_ID s then Inr x else GetDealerState i d)"
  shows "game_ok lib d'"
proof -
  have keys: "distinct (map gs_ID (d_game_sessions d))" using ok by (rule game_ok_keys)
  let ?hit = "\<lambda>g. gs_ID g = sess_ID s \<and> gs_Version g = n"
  have d1: "d_game_sessions d1 =
      map (\<lambda>g. if ?hit g then session_columns (gameSessionRecordFromDomain s) g else g)
        (d_game_sessions d)"
    using cas by (auto simp: UpdateSessionIfVersion_def Let_def)
  from session_cas.cas_success [OF keys cas] obtain g0
    where g0: "session_row d (sess_ID s) = Some g0" "gs_Version g0 = n" .
  have only: "g = g0" if "g \<in> set (d_game_sessions d)" "gs_ID g = sess_ID s" for g
    using that session_row_in [OF g0(1)] keys by (metis distinct_map inj_on_def)
  have "session_ok lib d' g'" if g': "g' \<in> set (d_game_sessions d')" for g'
  proof -
    from g' sess d1 obtain g where g: "g \<in> set (d_game_sessions d)"
      and eq: "g' = (if ?hit g then session_columns (gameSessionRecordFromDomain s) g else g)" by auto
    show ?thesis
    proof (cases "gs_ID g = sess_ID s")
      case True
      with only g g0 have "?hit g" by auto
      with eq have g'': "g' = session_columns (gameSessionRecordFromDomain s) g" by simp
      have "s\<lparr>sess_ID := gs_ID g\<rparr> = s" using True by simp
      with r have "round_ok lib (s\<lparr>sess_ID := gs_ID g, sess_RoomID := gs_RoomID g,
          sess_RoundNo := gs_RoundNo g, sess_CreatedAt := gs_CreatedAt g\<rparr>) p x"
        by (simp add: round_ok_columns)
      with g'' True v show ?thesis
        by (simp add: session_ok_def lists dealers read_session_columns)
    next
      case False
      with eq have "g' = g" by auto
      moreover have "session_ok lib d g" using ok g by (simp add: game_ok_def)
      ultimately show ?thesis using False by (simp add: session_ok_def lists dealers)
    qed
  qed
  with db show ?thesis by (simp add: game_ok_def)
qed

lemma list_players_saved:
  assumes old: "ListPlayerStatesBySessionID (ps_SessionID p) d = Inr [p0]"
    and key: "ps_UserID p0 = ps_UserID p" and v: "valid_player p"
    and w: "UpdatePlayerState p d = Inr d'"
  shows "ListPlayerStatesBySessionID i d' =
    (if i = ps_SessionID p then Inr [p] else ListPlayerStatesBySessionID i d)"
proof -
  let ?r = "playerStateRecordFromDomain p"
  have sid: "psr_SessionID ?r = ps_SessionID p" and uid: "psr_UserID ?r = ps_UserID p"
    by (simp_all add: playerStateRecordFromDomain_def)
  let ?f = "\<lambda>y. if psr_key y = psr_key ?r then ?r else y"
  let ?rows = "\<lambda>j. filter (\<lambda>y. psr_SessionID y = j) (d_player_states d)"
  from w have t: "d_player_states d' = tbl_save psr_key ?r (d_player_states d)"
    by (auto simp: UpdatePlayerState_def save_row_Inr)
  have "length (sort_key psr_SeatNo (?rows (ps_SessionID p))) = 1"
    using old unfolding ListPlayerStatesBySessionID_def mapE_Inr by (auto dest: list_all2_lengthD)
  then obtain r0 where r0: "?rows (ps_SessionID p) = [r0]" by (auto simp: length_Suc_conv)
  with old have d0: "playerStateRecordToDomain r0 = Inr p0"
    by (auto simp: ListPlayerStatesBySessionID_def split: sum.splits)
  from r0 have in0: "r0 \<in> set (d_player_states d)" "psr_SessionID r0 = ps_SessionID p"
    by (metis filter_eq_Cons_iff in_set_conv_decomp, metis (mono_tags) filter_eq_Cons_iff)
  have k0: "psr_key r0 = psr_key ?r"
    using player_read_key [OF d0] in0(2) key sid uid by (simp add: psr_key_def)
  with in0 have "list_ex (\<lambda>y. psr_key y = psr_key ?r) (d_player_states d)"
    by (auto simp: list_ex_iff)
  with t have t: "d_player_states d' = map ?f (d_player_states d)" by (simp add: tbl_save_def)
  have same: "psr_SessionID (?f y) = psr_SessionID y" for y by (simp add: psr_key_def)
  have rows: "filter (\<lambda>y. psr_SessionID y = i) (d_player_states d') = map ?f (?rows i)"
    unfolding t filter_map comp_def same ..
  show ?thesis
  proof (cases "i = ps_SessionID p")
    case True
    with rows r0 k0 have "filter (\<lambda>y. psr_SessionID y = i) (d_player_states d') = [?r]" by simp
    with True v show ?thesis by (simp add: ListPlayerStatesBySessionID_def player_roundtrip)
  next
    case False
    have "map ?f (?rows i) = ?rows i"
      using False sid by (intro map_idI) (auto simp: psr_key_def)
    with rows False show ?thesis by (simp add: ListPlayerStatesBySessionID_def)
  qed
qed

end
