(* ===== verification/User_Auth.thy ===== *)
theory User_Auth
  imports Prog_Effects
begin

text \<open>
  Users and access tokens: \<open>backend/usecase/user_usecase.go\<close> and \<open>backend/jwtauth/jwt.go\<close>. The
  packages bcrypt and golang-jwt are parameters (\<open>auth_lib\<close>); what the code relies on is
  \<open>auth_documented\<close>: a hash matches the password it was made of, and a token signed with a
  secret is read back with that secret until it expires. Passwords, names and secrets are byte
  strings, so \<open>len\<close> is the length of the list.
\<close>

subsection \<open>Tokens\<close>

record jwt_claims =
  cl_Subject :: string
  cl_ID :: string
  cl_IssuedAt :: time
  cl_ExpiresAt :: time

text \<open>
  \<open>al_hash\<close> is \<open>bcrypt.GenerateFromPassword\<close> with the salt of its call, \<open>al_matches\<close>
  \<open>bcrypt.CompareHashAndPassword\<close>, \<open>al_sign\<close> \<open>SignedString\<close> with HS256, and \<open>al_parse\<close>
  \<open>jwt.ParseWithClaims\<close> at a time and with a leeway.
\<close>

record auth_lib =
  al_hash :: "nat \<Rightarrow> string \<Rightarrow> error + string"
  al_matches :: "string \<Rightarrow> string \<Rightarrow> bool"
  al_sign :: "string \<Rightarrow> jwt_claims \<Rightarrow> error + string"
  al_parse :: "string \<Rightarrow> time \<Rightarrow> int \<Rightarrow> string \<Rightarrow> jwt_claims option"

definition auth_documented :: "auth_lib \<Rightarrow> bool" where
  "auth_documented lib \<longleftrightarrow>
     (\<forall>n pw h. al_hash lib n pw = Inr h \<longrightarrow> al_matches lib h pw) \<and>
     (\<forall>secret c. \<exists>tok. al_sign lib secret c = Inr tok
        \<and> (\<forall>t leeway. al_parse lib secret t leeway tok =
             (if t < cl_ExpiresAt c + leeway then Some c else None)))"

text \<open>\<open>jwt.NewNumericDate\<close> cuts a time to whole seconds.\<close>

definition numeric_date :: "time \<Rightarrow> time" where
  "numeric_date t = t - t mod Second"

definition ErrInvalidToken :: error where "ErrInvalidToken = Errorf ''invalid jwt''"

definition short_secret :: error where
  "short_secret = Errorf ''jwt secret must be at least 16 bytes''"

definition SignAccessToken ::
    "auth_lib \<Rightarrow> string \<Rightarrow> string \<Rightarrow> int \<Rightarrow> (string \<times> time \<times> string) prog" where
  "SignAccessToken lib secret userID ttl =
     (if length secret < 16 then throw short_secret
      else
        bind io_uuid (\<lambda>jti.
        bind io_now (\<lambda>now.
        let expiresAt = now + ttl;
            claims = \<lparr>cl_Subject = userID, cl_ID = jti, cl_IssuedAt = numeric_date now,
                      cl_ExpiresAt = numeric_date expiresAt\<rparr> in
        bind (lift (al_sign lib secret claims)) (\<lambda>signed.
        ret (signed, expiresAt, jti)))))"

definition ParseAndValidate :: "auth_lib \<Rightarrow> string \<Rightarrow> string \<Rightarrow> (string \<times> string) prog" where
  "ParseAndValidate lib secret tokenString =
     (if length secret < 16 then throw short_secret
      else
        bind io_now (\<lambda>now.
        case al_parse lib secret now (30 * Second) tokenString of
          None \<Rightarrow> throw ErrInvalidToken
        | Some claims \<Rightarrow>
            if cl_Subject claims = [] then throw ErrInvalidToken
            else ret (cl_Subject claims, cl_ID claims)))"

subsection \<open>The use case\<close>

record AuthResponse =
  ar_token :: string
  ar_expiresAt :: time
  ar_user :: User

definition sessionTTL :: int where "sessionTTL = 24 * 3600 * Second"

definition signupHashPassword :: "auth_lib \<Rightarrow> string \<Rightarrow> string prog" where
  "signupHashPassword lib password e w = (al_hash lib (w_calls w) password, tick w)"

text \<open>The token for a user, as both \<open>Signup\<close> and \<open>Login\<close> answer it.\<close>

definition issue :: "auth_lib \<Rightarrow> string \<Rightarrow> User \<Rightarrow> AuthResponse prog" where
  "issue lib jwtSecret user =
     bind (SignAccessToken lib jwtSecret (user_ID user) sessionTTL) (\<lambda>(token, exp, _).
     ret \<lparr>ar_token = token, ar_expiresAt = exp, ar_user = user\<rparr>)"

definition Signup :: "auth_lib \<Rightarrow> string \<Rightarrow> string \<Rightarrow> string \<Rightarrow> AuthResponse prog" where
  "Signup lib jwtSecret username password =
     (let username = TrimSpace username in
      if length username < 3 \<or> length username > 100 \<or> length password < 8
      then throw ErrInvalidInput
      else
        bind (signupHashPassword lib password) (\<lambda>pwHash.
        bind io_now (\<lambda>now.
        bind io_uuid (\<lambda>userID.
        let user = \<lparr>user_ID = userID, user_Username = username, user_PasswordHash = pwHash,
                    user_CreatedAt = now, user_UpdatedAt = now\<rparr> in
        bind (attempt (transaction (store_write (CreateUser user)))) (\<lambda>r.
        case r of
          Inl err \<Rightarrow> if err = ErrAlreadyExists then throw ErrUsernameTaken else throw err
        | Inr _ \<Rightarrow> issue lib jwtSecret user)))))"

definition Login :: "auth_lib \<Rightarrow> string \<Rightarrow> string \<Rightarrow> string \<Rightarrow> AuthResponse prog" where
  "Login lib jwtSecret username password =
     bind (attempt (store_read (GetUserByUsername username))) (\<lambda>r.
     case r of
       Inl _ \<Rightarrow> throw ErrUnauthorized
     | Inr user \<Rightarrow>
         if \<not> al_matches lib (user_PasswordHash user) password then throw ErrUnauthorized
         else issue lib jwtSecret user)"

definition Logout :: "unit prog" where "Logout = ret ()"

definition Me :: "string \<Rightarrow> User prog" where
  "Me userID =
     (if userID = [] then throw ErrUnauthorized
      else
        bind (attempt (store_read (GetUserByID userID))) (\<lambda>r.
        case r of Inl _ \<Rightarrow> throw ErrUnauthorized | Inr user \<Rightarrow> ret user))"

subsection \<open>Effects\<close>

lemma readonly_issue [readonly_intros]: "readonly (issue lib secret user)"
  unfolding issue_def SignAccessToken_def Let_def by (intro readonly_intros | simp only: split_def)+

lemma readonly_hash [readonly_intros]: "readonly (signupHashPassword lib pw)"
  by (simp add: readonly_def effect_def same_db_def signupHashPassword_def)

lemma writes_Signup [writes_intros]: "writes_only (Signup lib secret name pw)"
  unfolding Signup_def Let_def
  by (intro writes_intros writes_readonly [OF readonly_hash] writes_readonly [OF readonly_issue])

lemma readonly_auth [readonly_intros]:
  "readonly (ParseAndValidate lib secret tok)" "readonly (Login lib secret name pw)"
  "readonly (Me i)" "readonly Logout"
  unfolding ParseAndValidate_def Login_def Me_def Logout_def
  by (intro readonly_intros | simp only: split_def)+

subsection \<open>Properties\<close>

lemma auth_facts:
  assumes "auth_documented lib"
  shows "al_hash lib n pw = Inr h \<Longrightarrow> al_matches lib h pw"
    and "\<exists>tok. al_sign lib secret c = Inr tok"
    and "al_sign lib secret c = Inr tok \<Longrightarrow> al_parse lib secret t leeway tok =
      (if t < cl_ExpiresAt c + leeway then Some c else None)"
proof -
  show "al_hash lib n pw = Inr h \<Longrightarrow> al_matches lib h pw" "\<exists>tok. al_sign lib secret c = Inr tok"
    using assms unfolding auth_documented_def by blast+
  assume s: "al_sign lib secret c = Inr tok"
  from assms obtain tok' where "al_sign lib secret c = Inr tok'"
    "\<forall>t leeway. al_parse lib secret t leeway tok' = (if t < cl_ExpiresAt c + leeway then Some c else None)"
    unfolding auth_documented_def by blast
  with s show "al_parse lib secret t leeway tok = (if t < cl_ExpiresAt c + leeway then Some c else None)"
    by simp
qed

lemma issue_Inr:
  "issue lib secret user e w = (Inr r, w') \<longleftrightarrow>
     (\<exists>tok. 16 \<le> length secret
        \<and> al_sign lib secret
            \<lparr>cl_Subject = user_ID user, cl_ID = env_uuid e (w_calls w),
             cl_IssuedAt = numeric_date (env_now e (Suc (w_calls w))),
             cl_ExpiresAt = numeric_date (env_now e (Suc (w_calls w)) + sessionTTL)\<rparr> = Inr tok
        \<and> r = \<lparr>ar_token = tok, ar_expiresAt = env_now e (Suc (w_calls w)) + sessionTTL, ar_user = user\<rparr>
        \<and> w' = tick (tick w))"
  by (auto simp: issue_def SignAccessToken_def prog_elims Let_def)

lemma issue_total:
  assumes "auth_documented lib" "16 \<le> length secret"
  shows "\<exists>r w'. issue lib secret user e w = (Inr r, w') \<and> ar_user r = user \<and> w_db w' = w_db w"
proof -
  let ?c = "\<lparr>cl_Subject = user_ID user, cl_ID = env_uuid e (w_calls w),
      cl_IssuedAt = numeric_date (env_now e (Suc (w_calls w))),
      cl_ExpiresAt = numeric_date (env_now e (Suc (w_calls w)) + sessionTTL)\<rparr>"
  obtain tok where "al_sign lib secret ?c = Inr tok" using auth_facts(2) [OF assms(1)] by blast
  then have "issue lib secret user e w =
      (Inr \<lparr>ar_token = tok, ar_expiresAt = env_now e (Suc (w_calls w)) + sessionTTL, ar_user = user\<rparr>,
       tick (tick w))" using assms(2) by (simp add: issue_Inr)
  then show ?thesis by simp
qed

lemma aon_Signup:
  assumes "auth_documented lib" "16 \<le> length secret"
  shows "all_or_nothing (Signup lib secret name pw)"
proof -
  have stored: "all_or_nothing (bind (attempt (transaction (store_write (CreateUser user)))) (\<lambda>r.
      case r of Inl err \<Rightarrow> if err = ErrAlreadyExists then throw ErrUsernameTaken else throw err
      | Inr _ \<Rightarrow> issue lib secret user))" for user
  proof (rule aonI)
    fix e w err w'
    assume run: "bind (attempt (transaction (store_write (CreateUser user)))) (\<lambda>r.
      case r of Inl err \<Rightarrow> if err = ErrAlreadyExists then throw ErrUsernameTaken else throw err
      | Inr _ \<Rightarrow> issue lib secret user) e w = (Inl err, w')"
    obtain r v where t: "transaction (store_write (CreateUser user)) e w = (r, v)" by fastforce
    show "w_db w' = w_db w"
    proof (cases r)
      case (Inl x)
      with aonD [OF aon_transaction] t run show ?thesis
        by (auto simp: bind_def attempt_def throw_def split: if_splits)
    next
      case (Inr x)
      with t run issue_total [OF assms, of user e v] show ?thesis by (auto simp: bind_def attempt_def)
    qed
  qed
  show ?thesis
    unfolding Signup_def Let_def
    by (rule aon_if, rule aon_basic) (rule aon_bind, rule readonly_hash,
      rule aon_bind, rule reads.basic, rule aon_bind, rule reads.basic, rule stored)
qed

lemma Signup_Inr:
  assumes "Signup lib secret name pw e w = (Inr r, w')"
  shows "\<exists>h n now i d. al_hash lib n pw = Inr h
     \<and> ar_user r = \<lparr>user_ID = i, user_Username = TrimSpace name, user_PasswordHash = h,
                    user_CreatedAt = now, user_UpdatedAt = now\<rparr>
     \<and> CreateUser (ar_user r) (w_db w) = Inr d \<and> w_db w' = d
     \<and> 3 \<le> length (TrimSpace name) \<and> length (TrimSpace name) \<le> 100 \<and> 8 \<le> length pw
     \<and> 16 \<le> length secret"
  using assms
  by (auto simp: Signup_def signupHashPassword_def prog_elims attempt_Inr issue_Inr Let_def not_less
      split: if_splits)

lemma CreateUser_get:
  assumes "CreateUser u d = Inr d'"
  shows "GetUserByUsername (user_Username u) d' = Inr u"
proof -
  let ?row = "userRecordFromDomain u"
  from assms have t: "d_users d' = d_users d @ [?row]"
    and new: "\<forall>x \<in> set (d_users d). ur_Username x \<noteq> user_Username u"
    by (auto simp: CreateUser_def insert_row_Inr user_clash_def userRecordFromDomain_def split: sum.splits)
  have "ur_Username ?row = user_Username u" by (simp add: userRecordFromDomain_def)
  with gorm_First_append [OF new, of ?row] t
  have "gorm_First (\<lambda>x. ur_Username x = user_Username u) (d_users d') = Inr ?row" by simp
  then show ?thesis by (simp add: GetUserByUsername_def userRecordFromDomain_def userRecordToDomain_def)
qed

lemma GetUser_users:
  "d_users d = d_users d' \<Longrightarrow> GetUserByUsername i d = GetUserByUsername i d'"
  by (simp add: GetUserByUsername_def)

text \<open>
  A library as documented, for the instances of the theorems: its hash is the password, its token
  the four fields, each with a dot before every character and a mark at its end.
\<close>

definition quoted :: "string \<Rightarrow> string" where
  "quoted s = concat (map (\<lambda>c. [CHR ''.'', c]) s) @ ''!''"

fun unquoted :: "string \<Rightarrow> string \<times> string" where
  "unquoted (d # c # r) =
     (if d = CHR ''.'' then (case unquoted r of (s, rest) \<Rightarrow> (c # s, rest)) else ([], c # r))"
| "unquoted r = ([], tl r)"

lemma unquoted_quoted [simp]: "unquoted (quoted s @ r) = (s, r)"
  unfolding quoted_def by (induction s) (simp, cases r, simp_all)

definition int_of :: "string \<Rightarrow> int" where
  "int_of s = (if s \<noteq> [] \<and> hd s = CHR ''-'' then - int (digits_val (tl s)) else int (digits_val s))"

lemma int_of_FormatInt [simp]: "int_of (FormatInt v) = v"
proof -
  have "digits_of n \<noteq> []" for n by (subst digits_of.simps) simp
  then show ?thesis
    using digits_of_hd by (auto simp: int_of_def FormatInt_def digits_val_digits_of simp del: digits_val.simps)
qed

definition reference_token :: "jwt_claims \<Rightarrow> string" where
  "reference_token c = quoted (cl_Subject c) @ quoted (cl_ID c) @ quoted (FormatInt (cl_IssuedAt c))
     @ quoted (FormatInt (cl_ExpiresAt c))"

definition reference_claims :: "string \<Rightarrow> jwt_claims" where
  "reference_claims tok =
     (case unquoted tok of (a, r) \<Rightarrow> case unquoted r of (b, r) \<Rightarrow> case unquoted r of (c, r) \<Rightarrow>
      case unquoted r of (d, r) \<Rightarrow>
        \<lparr>cl_Subject = a, cl_ID = b, cl_IssuedAt = int_of c, cl_ExpiresAt = int_of d\<rparr>)"

definition reference_auth :: auth_lib where
  "reference_auth =
     \<lparr>al_hash = (\<lambda>_ pw. Inr pw), al_matches = (=), al_sign = (\<lambda>secret c. Inr (secret @ reference_token c)),
      al_parse = (\<lambda>secret t leeway tok.
        if take (length secret) tok = secret then
          (let c = reference_claims (drop (length secret) tok)
           in if t < cl_ExpiresAt c + leeway then Some c else None)
        else None)\<rparr>"

lemma reference_claims_token [simp]: "reference_claims (reference_token c) = c"
  using unquoted_quoted [of "FormatInt (cl_ExpiresAt c)" "[]", unfolded append_Nil2]
  by (simp add: reference_claims_def reference_token_def)

lemma reference_auth_documented: "auth_documented reference_auth"
  by (simp add: auth_documented_def reference_auth_def Let_def)

definition auth_env :: env where
  "auth_env = \<lparr>env_now = (\<lambda>_. 0), env_uuid = (\<lambda>n. if n = 2 then ''ann-id'' else ''jti''),
     env_rand = (\<lambda>_ m. Some (m - 1)), env_fault = (\<lambda>_. None), env_getenv = (\<lambda>_. []),
     env_sha256hex = (\<lambda>s. s)\<rparr>"

abbreviation sample_secret :: string where "sample_secret \<equiv> ''0123456789abcdef''"

definition before_signup :: world where "before_signup = \<lparr>w_db = empty_db, w_calls = 0\<rparr>"

definition sample_user :: User where
  "sample_user = \<lparr>user_ID = ''ann-id'', user_Username = ''ann'', user_PasswordHash = ''password'',
     user_CreatedAt = 0, user_UpdatedAt = 0\<rparr>"

lemma auth_env_simps [simp]:
  "env_now auth_env n = 0" "env_fault auth_env n = None" "env_uuid auth_env (Suc (Suc 0)) = ''ann-id''"
  by (simp_all add: auth_env_def)

lemma sample_signup:
  obtains r w where
    "Signup reference_auth sample_secret '' ann '' ''password'' auth_env before_signup = (Inr r, w)"
    "ar_user r = sample_user"
proof -
  have trim: "TrimSpace '' ann '' = ''ann''" by code_simp
  have c: "CreateUser sample_user empty_db = Inr (empty_db\<lparr>d_users := [userRecordFromDomain sample_user]\<rparr>)"
    by (simp add: CreateUser_def insert_row_def empty_db_def)
  have len: "16 \<le> length sample_secret" by simp
  let ?v = "\<lparr>w_db = empty_db\<lparr>d_users := [userRecordFromDomain sample_user]\<rparr>, w_calls = Suc (Suc (Suc (Suc (Suc 0))))\<rparr>"
  obtain r w where i: "issue reference_auth sample_secret sample_user auth_env ?v = (Inr r, w)"
    and u: "ar_user r = sample_user" using issue_total [OF reference_auth_documented len] by blast
  have "al_hash reference_auth n pw = Inr pw" for n pw by (simp add: reference_auth_def)
  then have "Signup reference_auth sample_secret '' ann '' ''password'' auth_env before_signup =
      issue reference_auth sample_secret sample_user auth_env ?v"
    by (simp add: Signup_def signupHashPassword_def bind_def io_now_def io_uuid_def attempt_def
        transaction_def store_write_def store_op_def mapR_def trim before_signup_def Let_def
        c [unfolded sample_user_def] sample_user_def)
  with i u that show thesis by simp
qed

text \<open>
  C19. Who has signed up can log in with the trimmed name and the same password, and gets the
  user that was created, as long as the users are as signing up left them.
\<close>

theorem signup_then_login:
  assumes "auth_documented lib" "Signup lib secret name pw e w = (Inr r, w')"
    and "d_users (w_db v) = d_users (w_db w')" "env_fault e' (w_calls v) = None"
  shows "\<exists>r' v'. Login lib secret (TrimSpace name) pw e' v = (Inr r', v')
     \<and> ar_user r' = ar_user r \<and> w_db v' = w_db v"
proof -
  from Signup_Inr [OF assms(2)] obtain h n d where
    h: "al_hash lib n pw = Inr h" "user_PasswordHash (ar_user r) = h"
    and u: "user_Username (ar_user r) = TrimSpace name" "CreateUser (ar_user r) (w_db w) = Inr d"
      "w_db w' = d" "16 \<le> length secret" by auto
  have "GetUserByUsername (TrimSpace name) (w_db v) = Inr (ar_user r)"
    using CreateUser_get [OF u(2)] u(1,3) GetUser_users [OF assms(3)] by simp
  moreover have "al_matches lib h pw" using auth_facts(1) [OF assms(1) h(1)] .
  moreover obtain r' v' where "issue lib secret (ar_user r) e' (tick v) = (Inr r', v')"
    "ar_user r' = ar_user r" "w_db v' = w_db v"
    using issue_total [OF assms(1) u(4), of "ar_user r" e' "tick v"] by auto
  ultimately show ?thesis using assms(4) h(2)
    by (simp add: Login_def bind_def attempt_def store_read_def store_op_def)
qed

theorem signup_then_login_witness:
  "\<exists>r w r' w'. Signup reference_auth sample_secret '' ann '' ''password'' auth_env before_signup = (Inr r, w)
     \<and> Login reference_auth sample_secret ''ann'' ''password'' auth_env w = (Inr r', w')
     \<and> ar_user r' = sample_user"
proof -
  obtain r w where s: "Signup reference_auth sample_secret '' ann '' ''password'' auth_env before_signup = (Inr r, w)"
    "ar_user r = sample_user" by (rule sample_signup)
  have "TrimSpace '' ann '' = ''ann''" by code_simp
  with signup_then_login [OF reference_auth_documented s(1) refl, of auth_env] s show ?thesis by auto
qed



theorem login_reveals_nothing:
  assumes "Login lib secret name pw e w = (Inl err, w')" "auth_documented lib" "16 \<le> length secret"
  shows "err = ErrUnauthorized \<and> w_db w' = w_db w"
proof -
  have "w_db w' = w_db w" by (rule readonlyD [OF readonly_auth(2) assms(1)])
  moreover have "err = ErrUnauthorized"
  proof (rule ccontr)
    assume "err \<noteq> ErrUnauthorized"
    with assms(1) obtain user v where "issue lib secret user e v = (Inl err, w')"
      by (auto simp: Login_def bind_def attempt_def throw_def split: prod.splits sum.splits if_splits)
    with issue_total [OF assms(2,3), of user e v] show False by auto
  qed
  ultimately show ?thesis by simp
qed

theorem login_reveals_nothing_witness:
  "\<exists>w. Login reference_auth sample_secret ''ann'' ''password'' auth_env before_signup = (Inl ErrUnauthorized, w)
     \<and> w_db w = w_db before_signup"
proof -
  obtain err w where l: "Login reference_auth sample_secret ''ann'' ''password'' auth_env before_signup = (Inl err, w)"
    by (simp add: Login_def bind_def attempt_def store_read_def store_op_def throw_def before_signup_def
        GetUserByUsername_def gorm_First_def tbl_first_def empty_db_def)
  have "16 \<le> length sample_secret" by simp
  from login_reveals_nothing [OF l reference_auth_documented this] l show ?thesis by blast
qed

end
