(* ===== verification/System_Invariant.thy ===== *)
theory System_Invariant
  imports Game_Invariant User_Auth
begin

text \<open>
  The invariant \<open>game_ok\<close> through the use cases, and the states the server reaches: any sequence of
  requests and worker passes, in any environment (clock, identifiers, random numbers, failures of
  the database), from the empty database.
\<close>

subsection \<open>Programs that leave the rounds alone\<close>

definition same_rounds :: "DB \<Rightarrow> DB \<Rightarrow> bool" where
  "same_rounds d d' \<longleftrightarrow> rounds d' = rounds d"

interpretation aside: effect_rel same_rounds
  by unfold_locales (simp_all add: same_rounds_def)

named_theorems aside_intros \<open>a program does not touch the rounds\<close>

lemmas aside_rules [aside_intros] = aside.rules

lemma aside_readonly: "readonly m \<Longrightarrow> effect same_rounds m"
  by (simp add: effect_def same_db_def same_rounds_def)

lemma aside_store [aside_intros]:
  "effect same_rounds (store_write (CreateRoom r))"
  "effect same_rounds (store_write (CreateRoomPlayer p))"
  "effect same_rounds (store_write (UpdateRoomPlayer p))"
  "effect same_rounds (store_write (DeleteRoomPlayersByRoomID i))"
  "effect same_rounds (store_write (CreateActionLog a))"
  "effect same_rounds (store_write (CreateRoundLog l))"
  "effect same_rounds (tx_UpdateRoom r)"
  "effect same_rounds (tx_UpsertRematchVote v)"
  unfolding tx_UpdateRoom_def tx_UpsertRematchVote_def
  by (intro aside.bind aside.basic aside.store_write;
      auto simp: same_rounds_def rounds_def CreateRoom_def CreateRoomPlayer_def UpdateRoomPlayer_def
        DeleteRoomPlayersByRoomID_def CreateActionLog_def CreateRoundLog_def UpdateRoom_def
        UpsertRematchVote_def Let_def split: sum.splits option.splits if_splits)+

lemma aside_Save [aside_intros]: "effect same_rounds (SaveActionSuccessSnapshot a s)"
  unfolding SaveActionSuccessSnapshot_def by (intro aside_intros)

lemma aside_room_access [aside_intros]: "effect same_rounds (room_access r i u)"
  by (rule aside_readonly) (rule readonly_room_access)

lemma aside_room_uc [aside_intros]:
  "effect same_rounds (CreateRoom_uc u)" "effect same_rounds (JoinRoom i u)"
  "effect same_rounds (LeaveRoom i u)" "effect same_rounds (MarkConnected i u)"
  "effect same_rounds (MarkDisconnected i u)"
  unfolding room_uc_defs Let_def by (intro aside_intros)+

lemma aside_CreateUser [aside_intros]: "effect same_rounds (store_write (CreateUser u))"
  by (intro aside.store_write) (auto simp: same_rounds_def rounds_def CreateUser_def split: sum.splits)

lemma aside_Signup [aside_intros]: "effect same_rounds (Signup lib secret name pw)"
  unfolding Signup_def Let_def
  by (intro aside_intros aside_readonly [OF readonly_hash] aside_readonly [OF readonly_issue])

lemma aside_finalize [aside_intros]: "effect same_rounds (finalizeRematchFailureTx r)"
  unfolding finalizeRematchFailureTx_def Let_def by (intro aside_intros)

lemma asideD: "effect same_rounds m \<Longrightarrow> m e w = (r, w') \<Longrightarrow> rounds (w_db w') = rounds (w_db w)"
  unfolding effect_def same_rounds_def by (metis snd_conv)

lemma writesD: "writes_only m \<Longrightarrow> m e w = (r, w') \<Longrightarrow> db_ok (w_db w) \<Longrightarrow> db_ok (w_db w')"
  using writes_db_ok [of m w e] by simp

lemma aside_kept:
  "effect same_rounds m \<Longrightarrow> writes_only m \<Longrightarrow> effect (kept (game_ok lib)) m"
  unfolding effect_def kept_def same_rounds_def
  using writes_db_ok [of m] by (metis game_ok_def game_ok_rounds effect_def)

lemma aside_run:
  "effect same_rounds m \<Longrightarrow> writes_only m \<Longrightarrow> m e w = (r, w') \<Longrightarrow> game_ok lib (w_db w) \<Longrightarrow>
     game_ok lib (w_db w')"
  using keptD [OF aside_kept, of m lib w e] by simp

subsection \<open>The transactions of a round\<close>

lemma round_ok_touch [simp]:
  "round_ok lib (Session_Touch now s) p x = round_ok lib s p x"
  "round_ok lib (IncrementVersion s) p x = round_ok lib s p x"
  "round_ok lib (SetRematchDeadline now s) p x = round_ok lib s p x"
  by (cases "sess_Status s"; simp add: round_ok_def cards_ok_def life_ok_def Session_Touch_def
      IncrementVersion_def)+

lemma touch_fields [simp]:
  "sess_ID (Session_Touch now s) = sess_ID s" "sess_ID (IncrementVersion s) = sess_ID s"
  "sess_Status (Session_Touch now s) = sess_Status s"
  "sess_Status (IncrementVersion s) = sess_Status s"
  "sess_RoomID (Session_Touch now s) = sess_RoomID s"
  "sess_RoomID (IncrementVersion s) = sess_RoomID s"
  "sess_RoundNo (Session_Touch now s) = sess_RoundNo s"
  "sess_RoundNo (IncrementVersion s) = sess_RoundNo s"
  "sess_ResultSnapshot (Session_Touch now s) = sess_ResultSnapshot s"
  "sess_ResultSnapshot (IncrementVersion s) = sess_ResultSnapshot s"
  "sess_Version (Session_Touch now s) = sess_Version s"
  "sess_DrawIndex (Session_Touch now s) = sess_DrawIndex s"
  "sess_Version (IncrementVersion s) = wrap64 (sess_Version s + 1)"
  by (simp_all add: Session_Touch_def IncrementVersion_def)

lemma round_ok_valid:
  assumes "round_ok lib s p x"
  shows "SessionStatus_IsValid (sess_Status s)" "valid_player p"
proof -
  have "Outcome_IsValid oc"
    if "ResolveRoundOutcome (NewHandEvaluator lib) (ps_Hand p) (ds_Hand x) = Inr oc" for oc
    using that adapter.resolve_valid by blast
  with assms show "SessionStatus_IsValid (sess_Status s)" "valid_player p"
    by (auto simp: round_ok_def life_ok_def split: SessionStatus.splits)
qed

lemma create_round_ok:
  assumes ok: "game_ok lib (w_db w)" and r: "round_ok lib s p x" and v: "sess_ResultSnapshot s \<noteq> Some []"
    and run: "create_round_tx s p x room e w = (Inr u, w')"
  shows "game_ok lib (w_db w')"
proof -
  from run obtain d1 d2 d3 now where
    d1: "CreateSession s (w_db w) = Inr d1" and d2: "CreatePlayerState p d1 = Inr d2" and
    d3: "CreateDealerState x d2 = Inr d3" and d4: "UpdateRoom now room d3 = Inr (w_db w')"
    by (auto simp: create_round_tx_def prog_elims)
  have "db_ok (w_db w)" using ok by (simp add: game_ok_def)
  then have "db_ok (w_db w')" using writesD [OF writes_round_tx(1) run] by simp
  with ok show ?thesis
  proof (rule game_ok_create [OF _ _ r])
    show "\<not> session_exists (w_db w) (sess_ID s)"
      using d1 by (auto simp: CreateSession_def insert_row_Inr session_clash_def session_exists_def
          list_ex_iff)
    show "d_game_sessions (w_db w') = d_game_sessions (w_db w) @ [gameSessionRecordFromDomain s]"
      "d_player_states (w_db w') = d_player_states (w_db w) @ [playerStateRecordFromDomain p]"
      "d_dealer_states (w_db w') = d_dealer_states (w_db w) @ [dealerStateRecordFromDomain x]"
      using d1 d2 d3 d4
      by (auto simp: CreateSession_def CreatePlayerState_def CreateDealerState_def UpdateRoom_def
          insert_row_Inr)
  qed (use r v round_ok_valid [OF r] in simp_all)
qed

lemma fresh_round:
  assumes "NewGameSession now i roomID n at = Inr s" "newShuffledDeck rnd = Inr deck"
  shows "fresh_session (SetDeck deck s)" "sess_ResultSnapshot (SetDeck deck s) = None"
    "sess_ID (SetDeck deck s) = i" "sess_RoomID (SetDeck deck s) = roomID"
    "sess_Version (SetDeck deck s) = 1" "sess_RoundNo (SetDeck deck s) = n" "0 < n"
  using assms newShuffledDeck_mset [OF assms(2)]
  by (auto simp: NewGameSession_def fresh_session_def SetDeck_def Let_def split: if_splits)

text \<open>The player a read by user finds is the one of the session.\<close>

lemma GetPlayerState_only:
  assumes "ListPlayerStatesBySessionID i d = Inr [p]" "GetPlayerState i user d = Inr q"
  shows "q = p"
proof -
  from assms(2) obtain r where r: "tbl_first (\<lambda>y. psr_key y = (i, user)) (d_player_states d) = Some r"
    and q: "playerStateRecordToDomain r = Inr q"
    by (auto simp: GetPlayerState_def gorm_First_def split: option.splits)
  have "r \<in> set (sort_key psr_SeatNo (filter (\<lambda>y. psr_SessionID y = i) (d_player_states d)))"
    using tbl_first_Some [OF r] by (simp add: psr_key_def)
  moreover from assms(1) obtain z
    where "sort_key psr_SeatNo (filter (\<lambda>y. psr_SessionID y = i) (d_player_states d)) = [z]"
      and "playerStateRecordToDomain z = Inr p"
    unfolding ListPlayerStatesBySessionID_def mapE_Inr by (auto simp: list_all2_Cons2)
  ultimately show ?thesis using q by simp
qed

text \<open>
  A commit: the conditional update of the session, then the player and the dealer of this
  session.
\<close>

lemma commit_ok:
  assumes ok: "game_ok lib d" and old: "ListPlayerStatesBySessionID (sess_ID s) d = Inr [p0]"
    and p: "ps_UserID p0 = ps_UserID p" and r: "round_ok lib s p x"
    and v: "sess_ResultSnapshot s \<noteq> Some []"
    and d1: "UpdateSessionIfVersion s n d = (d1, True)"
    and d2: "UpdatePlayerState p d1 = Inr d2 \<or> p = p0 \<and> d2 = d1"
    and d3: "UpdateDealerState x d2 = Inr d3"
    and d4: "rounds d4 = rounds d3" and db: "db_ok d4"
  shows "game_ok lib d4"
proof -
  have ids: "ps_SessionID p = sess_ID s" "ds_SessionID x = sess_ID s"
    using r by (simp_all add: round_ok_def life_ok_def)
  have l1: "ListPlayerStatesBySessionID i d1 = ListPlayerStatesBySessionID i d"
    and x1: "GetDealerState i d1 = GetDealerState i d" for i
    using d1 by (auto simp: UpdateSessionIfVersion_def ListPlayerStatesBySessionID_def
        GetDealerState_def Let_def)
  have l2: "ListPlayerStatesBySessionID i d2 =
      (if i = sess_ID s then Inr [p] else ListPlayerStatesBySessionID i d)" for i
    using d2
  proof
    assume w: "UpdatePlayerState p d1 = Inr d2"
    have "ListPlayerStatesBySessionID (ps_SessionID p) d1 = Inr [p0]" using old ids l1 by simp
    from list_players_saved [OF this p round_ok_valid(2) [OF r] w, of i] ids l1
    show ?thesis by simp
  next
    assume "p = p0 \<and> d2 = d1"
    with old l1 show ?thesis by simp
  qed
  have x2: "GetDealerState i d2 = GetDealerState i d" for i
    using d2 x1 by (auto simp: UpdatePlayerState_def GetDealerState_def)
  have l3: "ListPlayerStatesBySessionID i d3 = ListPlayerStatesBySessionID i d2" for i
    using d3 by (auto simp: UpdateDealerState_def ListPlayerStatesBySessionID_def)
  have x3: "GetDealerState i d3 = (if i = sess_ID s then Inr x else GetDealerState i d)" for i
    using dealer_states.read_write [OF TrueI d3, of i] ids x2 by simp
  have s3: "d_game_sessions d4 = d_game_sessions d1"
    using d2 d3 d4 by (auto simp: UpdatePlayerState_def UpdateDealerState_def rounds_def)
  have l4: "ListPlayerStatesBySessionID i d4 = ListPlayerStatesBySessionID i d3"
    and x4: "GetDealerState i d4 = GetDealerState i d3" for i
    using d4 by (simp_all add: rounds_def ListPlayerStatesBySessionID_def GetDealerState_def)
  show ?thesis
    by (rule game_ok_update [OF ok db r _ d1 s3])
      (use v round_ok_valid(1) [OF r] in \<open>simp_all add: l2 l3 l4 x3 x4\<close>)
qed


subsection \<open>Starting a round\<close>

text \<open>What a successful start went through.\<close>

lemma StartRoom_run:
  assumes "StartRoom u roomID userID e w = (Inr r, w')"
  obtains room player n v sid sess deck rnd now s p x room' v' where
    "GetRoom roomID (w_db w) = Inr room" "room_HostUserID room = userID"
    "room_Status room = RoomStatusReady" "room_CurrentSessionID room = None"
    "GetRoomPlayer roomID userID (w_db w) = Inr player" "in_room player"
    "w_db v = w_db w" "NewGameSession now sid roomID n now = Inr sess"
    "newShuffledDeck rnd = Inr deck"
    "open_round u now (SetDeck deck sess) userID = Inr (s, p, x)"
    "RecalculateStatus (room\<lparr>room_CurrentSessionID := Some (sess_ID s)\<rparr>) 1 True = Inr room'"
    "create_round_tx (Session_Touch now s) p x (Room_Touch now room') e v = (Inr (), v')"
    "w_db w' = w_db v'" "r = (Room_Touch now room', Session_Touch now s)"
proof -
  from assms obtain room player n v1 where
    pre: "GetRoom roomID (w_db w) = Inr room" "room_HostUserID room = userID"
      "room_Status room = RoomStatusReady" "room_CurrentSessionID room = None"
      "GetRoomPlayer roomID userID (w_db w) = Inr player" "in_room player" and
    n: "next_round_no roomID e (tick (tick w)) = (Inr n, v1)" and
    rest: "bind io_now (\<lambda>now.
        bind io_uuid (\<lambda>sid.
        bind (lift (NewGameSession now sid roomID n now)) (\<lambda>sess.
        bind io_deck (\<lambda>deck.
        bind (lift (open_round u now (SetDeck deck sess) userID)) (\<lambda>(sess, pstate, dealer).
        let room = room\<lparr>room_CurrentSessionID := Some (sess_ID sess)\<rparr> in
        bind (lift (RecalculateStatus room 1 True)) (\<lambda>room.
        let room = Room_Touch now room; sess = Session_Touch now sess in
        bind (transaction (create_round_tx sess pstate dealer room)) (\<lambda>_.
        ret (room, sess)))))))) e v1 = (Inr r, w')"
    by (simp add: StartRoom_def prog_elims split: if_split_asm) blast
  from rest obtain sess deck s p x room' v' where
    post: "NewGameSession (env_now e (w_calls v1)) (env_uuid e (Suc (w_calls v1))) roomID n
        (env_now e (w_calls v1)) = Inr sess"
      "newShuffledDeck (env_rand e (Suc (Suc (w_calls v1)))) = Inr deck"
      "open_round u (env_now e (w_calls v1)) (SetDeck deck sess) userID = Inr (s, p, x)"
      "RecalculateStatus (room\<lparr>room_CurrentSessionID := Some (sess_ID s)\<rparr>) 1 True = Inr room'"
      "create_round_tx (Session_Touch (env_now e (w_calls v1)) s) p x
        (Room_Touch (env_now e (w_calls v1)) room') e (tick (tick (tick v1))) = (Inr (), v')"
      "w_db w' = w_db v'"
      "r = (Room_Touch (env_now e (w_calls v1)) room', Session_Touch (env_now e (w_calls v1)) s)"
    by (auto simp: prog_elims Let_def)
  have "w_db (tick (tick (tick v1))) = w_db w" using readonlyD [OF readonly_round(1) n] by simp
  from that [OF pre this post] show thesis .
qed

lemma kept_StartRoom:
  assumes lib: "lib_documented lib"
  shows "effect (kept (game_ok lib)) (StartRoom (svc lib) roomID userID)"
proof (rule kept_aon [OF aon_StartRoom])
  fix e w r w'
  assume run: "StartRoom (svc lib) roomID userID e w = (Inr r, w')" and ok: "game_ok lib (w_db w)"
  from run show "game_ok lib (w_db w')"
  proof (rule StartRoom_run)
    fix room n v sid sess deck rnd now s p x room' v'
    assume db: "w_db v = w_db w" "w_db w' = w_db v'"
      and new: "NewGameSession now sid roomID n now = Inr sess" "newShuffledDeck rnd = Inr deck"
      and deal: "open_round (svc lib) now (SetDeck deck sess) userID = Inr (s, p, x)"
      and tx: "create_round_tx (Session_Touch now s) p x (Room_Touch now room') e v = (Inr (), v')"
    note fresh = fresh_round [OF new]
    note opened = open_round_ok [OF lib fresh(1) deal]
    from ok db show "game_ok lib (w_db w')"
      by (auto intro!: create_round_ok [OF _ _ _ tx] simp: opened fresh)
  qed
qed


subsection \<open>The player's turn\<close>

text \<open>What the reads of a turn have found when it goes on to a commit.\<close>

lemma turn_prepare_run:
  assumes "turn_prepare u roomID userID n actionID hit e w = (Inr (Inr c), w')"
  obtains room sess p x now s' p' room' where
    "w_db w' = w_db w" "userID \<noteq> []" "roomID \<noteq> []" "0 < n" "actionID \<noteq> []"
    "GetRoom roomID (w_db w) = Inr room" "room_CurrentSessionID room = Some (sess_ID sess)"
    "GetSession (sess_ID sess) (w_db w) = Inr sess" "sess_Version sess = n"
    "GetPlayerState (sess_ID sess) userID (w_db w) = Inr p"
    "GetDealerState (sess_ID sess) (w_db w) = Inr x"
    "AssertCanHitOrStand p (Some sess) userID = None"
    "turn_apply u hit now sess p = Inr (s', p')" "RecalculateStatus room 1 True = Inr room'"
    "c = \<lparr>tc_room = Room_Touch now (room'\<lparr>room_CurrentSessionID := Some (sess_ID s')\<rparr>),
          tc_sess = Session_Touch now (IncrementVersion s'), tc_player = p', tc_dealer = x,
          tc_log = turn_log (sess_ID sess) userID actionID hit
            (env_sha256hex e (turn_payload hit n))\<rparr>"
proof -
  from assms obtain room sess p x v v1 t where
    args: "userID \<noteq> []" "roomID \<noteq> []" "0 < n" "actionID \<noteq> []" and
    load: "turn_load roomID userID n e w = (Inr (room, sess, p, x), v)" and
    ens: "EnsureActionIdempotency (turn_log (sess_ID sess) userID actionID hit
      (env_sha256hex e (turn_payload hit n))) e v = (Inr (t, False), v1)" and
    comp: "turn_compute u hit (turn_log (sess_ID sess) userID actionID hit
      (env_sha256hex e (turn_payload hit n))) (room, sess, p, x) e v1 = (Inr c, w')"
    by (auto simp: turn_prepare_def prog_elims Let_def split: if_splits)
  from load obtain sid where
    l: "GetRoom roomID (w_db w) = Inr room" "room_CurrentSessionID room = Some sid"
      "GetSession sid (w_db w) = Inr sess" "CheckVersion sess n = None"
      "GetPlayerState (sess_ID sess) userID (w_db w) = Inr p"
      "GetDealerState (sess_ID sess) (w_db w) = Inr x"
      "AssertCanHitOrStand p (Some sess) userID = None" and v: "w_db v = w_db w"
    by (auto simp: turn_load_def prog_elims read_answer_Inr split: option.splits if_splits)
  have sid: "sid = sess_ID sess" using GetSession_id [OF l(3)] by simp
  have ver: "sess_Version sess = n" using l(4) by (auto simp: CheckVersion_def split: if_splits)
  have v1: "w_db v1 = w_db w" using ens v Ensure_absent by metis
  from comp obtain s' p' room' where
    c: "turn_apply u hit (env_now e (w_calls v1)) sess p = Inr (s', p')"
      "RecalculateStatus room 1 True = Inr room'"
      "c = \<lparr>tc_room = Room_Touch (env_now e (w_calls v1))
              (room'\<lparr>room_CurrentSessionID := Some (sess_ID s')\<rparr>),
          tc_sess = Session_Touch (env_now e (w_calls v1)) (IncrementVersion s'), tc_player = p',
          tc_dealer = x, tc_log = turn_log (sess_ID sess) userID actionID hit
            (env_sha256hex e (turn_payload hit n))\<rparr>" and w': "w_db w' = w_db v1"
    by (auto simp: turn_compute_def prog_elims Let_def)
  have "w_db w' = w_db w" using w' v1 by simp
  from that [OF this args l(1) l(2) [unfolded sid] l(3) [unfolded sid] ver l(5-7) c] show thesis .
qed

lemma turn_tx_run:
  assumes "turn_tx n c e w = (Inr u, w')"
  obtains d1 d2 d3 where "UpdateSessionIfVersion (tc_sess c) n (w_db w) = (d1, True)"
    "UpdatePlayerState (tc_player c) d1 = Inr d2" "UpdateDealerState (tc_dealer c) d2 = Inr d3"
    "rounds (w_db w') = rounds d3"
proof -
  from assms obtain d1 d2 d3 k v' where
    d: "UpdateSessionIfVersion (tc_sess c) n (w_db w) = (d1, True)"
      "UpdatePlayerState (tc_player c) d1 = Inr d2" "UpdateDealerState (tc_dealer c) d2 = Inr d3"
    and r: "tx_UpdateRoom (tc_room c) e (w\<lparr>w_db := d3, w_calls := k\<rparr>) = (Inr (), v')"
    and s: "SaveActionSuccessSnapshot (tc_log c) (action_snapshot (room_ID (tc_room c))
        (sess_ID (tc_sess c)) (sess_Version (tc_sess c))) e v' = (Inr u, w')"
    by (auto simp: turn_tx_def bind_Inr guard_Inr store_cas_Inr store_write_Inr)
  have "rounds (w_db w') = rounds d3"
    using asideD [OF aside_Save s] asideD [OF aside_store(7) r] by simp
  with d that show thesis by blast
qed

text \<open>The commit of a turn, in a state where the round is still the one it was computed from.\<close>

lemma turn_compute_run:
  assumes "turn_compute u hit l (room, sess, p, x) e w = (Inr c, w')"
  obtains now s' p' where "turn_apply u hit now sess p = Inr (s', p')"
    "tc_sess c = Session_Touch now (IncrementVersion s')" "tc_player c = p'" "tc_dealer c = x"
  using assms by (auto simp: turn_compute_def prog_elims Let_def)

lemma turn_commit_ok:
  assumes lib: "lib_documented lib" and ok: "game_ok lib (w_db v)"
    and sess: "GetSession (sess_ID sess) (w_db v) = Inr sess"
    and p: "GetPlayerState (sess_ID sess) userID (w_db v) = Inr p"
    and x: "GetDealerState (sess_ID sess) (w_db v) = Inr x"
    and may: "AssertCanHitOrStand p (Some sess) userID = None"
    and act: "turn_apply (svc lib) hit now sess p = Inr (s', p')"
    and c: "tc_sess c = Session_Touch now (IncrementVersion s')" "tc_player c = p'" "tc_dealer c = x"
    and tx: "turn_tx n c e v = (Inr u, v')"
  shows "game_ok lib (w_db v')"
proof -
  have st: "sess_Status sess = SessionStatusPlayerTurn"
    using may by (auto simp: AssertCanHitOrStand_def split: if_splits)
  from ok sess obtain p0 x0 where old: "ListPlayerStatesBySessionID (sess_ID sess) (w_db v) = Inr [p0]"
    and "GetDealerState (sess_ID sess) (w_db v) = Inr x0" and "round_ok lib sess p0 x0"
    by (rule game_ok_session)
  with GetPlayerState_only [OF old p] x have r: "round_ok lib sess p x" and p0: "p0 = p" by auto
  note same = turn_apply_same [OF act st]
  have "round_ok lib s' p' x" by (rule turn_apply_ok [OF lib r st act])
  with c have r': "round_ok lib (tc_sess c) (tc_player c) (tc_dealer c)" by simp
  have db: "db_ok (w_db v')"
    using ok writesD [OF writes_round_tx(2) tx] by (simp add: game_ok_def)
  from tx show ?thesis
  proof (rule turn_tx_run)
    fix d1 d2 d3
    assume d: "UpdateSessionIfVersion (tc_sess c) n (w_db v) = (d1, True)"
      "UpdatePlayerState (tc_player c) d1 = Inr d2" "UpdateDealerState (tc_dealer c) d2 = Inr d3"
      "rounds (w_db v') = rounds d3"
    show ?thesis
    proof (rule commit_ok [OF ok _ _ r' _ d(1) disjI1 [OF d(2)] d(3,4) db])
      show "ListPlayerStatesBySessionID (sess_ID (tc_sess c)) (w_db v) = Inr [p]"
        using old p0 same c by simp
      show "ps_UserID p = ps_UserID (tc_player c)" using same c by simp
      show "sess_ResultSnapshot (tc_sess c) \<noteq> Some []"
        using GetSession_id [OF sess] same c by simp
    qed
  qed
qed

lemma kept_playerTurn:
  assumes lib: "lib_documented lib"
  shows "effect (kept (game_ok lib)) (playerTurn (svc lib) roomID userID n actionID hit)"
proof (rule kept_aon [OF aon_playerTurn(1)])
  fix e w r w'
  assume run: "playerTurn (svc lib) roomID userID n actionID hit e w = (Inr r, w')"
    and ok: "game_ok lib (w_db w)"
  from run obtain q v where prep: "turn_prepare (svc lib) roomID userID n actionID hit e w = (Inr q, v)"
    and rest: "(case q of Inl (room, sess) \<Rightarrow> ret (room, sess)
       | Inr c \<Rightarrow> bind (transaction (turn_tx n c)) (\<lambda>_. ret (tc_room c, tc_sess c))) e v = (Inr r, w')"
    by (auto simp: playerTurn_def bind_Inr)
  have v: "w_db v = w_db w" using readonlyD [OF readonly_round(4) prep] .
  show "game_ok lib (w_db w')"
  proof (cases q)
    case (Inl rs)
    with rest v ok show ?thesis by (cases rs) (simp add: ret_Inr)
  next
    case (Inr c)
    from rest Inr obtain v' where tx: "turn_tx n c e v = (Inr (), v')" and w': "w_db w' = w_db v'"
      by (auto simp: prog_elims)
    from prep [unfolded Inr] have "game_ok lib (w_db v')"
    proof (rule turn_prepare_run)
      fix room sess p x now s' p' room'
      assume "GetSession (sess_ID sess) (w_db w) = Inr sess"
        "GetPlayerState (sess_ID sess) userID (w_db w) = Inr p"
        "GetDealerState (sess_ID sess) (w_db w) = Inr x"
        "AssertCanHitOrStand p (Some sess) userID = None"
        "turn_apply (svc lib) hit now sess p = Inr (s', p')"
        "c = \<lparr>tc_room = Room_Touch now (room'\<lparr>room_CurrentSessionID := Some (sess_ID s')\<rparr>),
          tc_sess = Session_Touch now (IncrementVersion s'), tc_player = p', tc_dealer = x,
          tc_log = turn_log (sess_ID sess) userID actionID hit
            (env_sha256hex e (turn_payload hit n))\<rparr>"
      with turn_commit_ok [OF lib _ _ _ _ _ _ _ _ _ tx, unfolded v] ok show ?thesis by auto
    qed
    with w' show ?thesis by simp
  qed
qed


subsection \<open>The forfeit\<close>

lemma forfeit_run:
  assumes "forfeit u room sess p x e w = (Inr r, w')"
  obtains now s' p' x' l room' k v' d1 d2 d3 where
    "forfeit_apply u now sess p x = Inr (s', p', x', l)"
    "forfeit_tx (sess_Version sess) room' (Session_Touch now (IncrementVersion s')) p' x' l
       (forfeit_log (Session_Touch now (IncrementVersion s')) (ps_UserID p')
          (env_sha256hex e (''TIME_FORFEIT:'' @ FormatInt (wrap64 (sess_Version s' + 1)))))
       e (w\<lparr>w_calls := k\<rparr>) = (Inr (), v')" "w_db w' = w_db v'"
    "UpdateSessionIfVersion (Session_Touch now (IncrementVersion s')) (sess_Version sess) (w_db w)
       = (d1, True)"
    "UpdatePlayerState p' d1 = Inr d2" "UpdateDealerState x' d2 = Inr d3"
    "rounds (w_db w') = rounds d3"
proof -
  from assms obtain now s' p' x' l room' k v' where
    a: "forfeit_apply u now sess p x = Inr (s', p', x', l)" and
    tx: "forfeit_tx (sess_Version sess) room' (Session_Touch now (IncrementVersion s')) p' x' l
       (forfeit_log (Session_Touch now (IncrementVersion s')) (ps_UserID p')
          (env_sha256hex e (''TIME_FORFEIT:'' @ FormatInt (wrap64 (sess_Version s' + 1)))))
       e (w\<lparr>w_calls := k\<rparr>) = (Inr (), v')" and w': "w_db w' = w_db v'"
    by (auto simp: forfeit_def prog_elims Let_def)
  let ?s = "Session_Touch now (IncrementVersion s')"
  let ?log = "forfeit_log ?s (ps_UserID p')
      (env_sha256hex e (''TIME_FORFEIT:'' @ FormatInt (wrap64 (sess_Version s' + 1))))"
  let ?after = "bind (store_write (CreateRoundLog l)) (\<lambda>_. bind (tx_UpdateRoom room') (\<lambda>_.
      SaveActionSuccessSnapshot ?log
        (action_snapshot (room_ID room') (sess_ID ?s) (sess_Version ?s))))"
  from tx obtain d1 d2 d3 j where
    d: "UpdateSessionIfVersion ?s (sess_Version sess) (w_db w) = (d1, True)"
      "UpdatePlayerState p' d1 = Inr d2" "UpdateDealerState x' d2 = Inr d3"
    and rest: "?after e (w\<lparr>w_db := d3, w_calls := j\<rparr>) = (Inr (), v')"
    by (auto simp: forfeit_tx_def bind_Inr [of "store_cas s n" for s n] guard_Inr
        bind_Inr [of "guard b err" for b err] store_cas_Inr
        bind_Inr [of "store_write (UpdatePlayerState q)" for q] store_write_Inr
        bind_Inr [of "store_write (UpdateDealerState y)" for y])
  have "effect same_rounds ?after" by (intro aside_intros)
  from asideD [OF this rest] w' have "rounds (w_db w') = rounds d3" by simp
  from that [OF a tx w' d this] show thesis .
qed

lemma kept_forfeit:
  assumes ok: "game_ok lib (w_db w)" and sess: "GetSession (sess_ID sess) (w_db w) = Inr sess"
    and p: "ListPlayerStatesBySessionID (sess_ID sess) (w_db w) = Inr (p # ps)"
    and x: "GetDealerState (sess_ID sess) (w_db w) = Inr x"
    and run: "forfeit (svc lib) room sess p x e w = (Inr r, w')"
  shows "game_ok lib (w_db w')"
proof -
  have i: "sess_ResultSnapshot sess \<noteq> Some []" using GetSession_id [OF sess] by auto
  from ok sess have r: "round_ok lib sess p x"
    and l: "ListPlayerStatesBySessionID (sess_ID sess) (w_db w) = Inr [p]"
    using p x by (auto elim: game_ok_session)
  have db: "db_ok (w_db w')"
    using ok writesD [OF writes_forfeit run] by (simp add: game_ok_def)
  from run show ?thesis
  proof (rule forfeit_run)
    fix now s' p' x' l d1 d2 d3
    assume a: "forfeit_apply (svc lib) now sess p x = Inr (s', p', x', l)"
      and d: "UpdateSessionIfVersion (Session_Touch now (IncrementVersion s')) (sess_Version sess)
        (w_db w) = (d1, True)" "UpdatePlayerState p' d1 = Inr d2" "UpdateDealerState x' d2 = Inr d3"
        "rounds (w_db w') = rounds d3"
    note same = forfeit_apply_same [OF a]
    have "round_ok lib (Session_Touch now (IncrementVersion s')) p' x'"
      using forfeit_apply_ok(1) [OF r a] by simp
    from commit_ok [OF ok _ _ this _ d(1) disjI1 [OF d(2)] d(3,4) db, of p] l same i
    show ?thesis by simp
  qed
qed

lemma kept_timeout_move:
  assumes lib: "lib_documented lib" and ok: "game_ok lib (w_db w)"
    and sess: "GetSession (sess_ID sess) (w_db w) = Inr sess"
    and p: "ListPlayerStatesBySessionID (sess_ID sess) (w_db w) = Inr (p # ps)"
    and x: "GetDealerState (sess_ID sess) (w_db w) = Inr x"
    and run: "timeout_move (svc lib) i room sess p x e w = (Inr r, w')"
  shows "game_ok lib (w_db w')"
proof -
  from run consider (hit) q a where "Hit (svc lib) (room_ID room) (ps_UserID p) (sess_Version sess) a
      e w = (Inr q, w')"
    | (forfeit) "forfeit (svc lib) room sess p x e w = (Inr r, w')"
    by (auto simp: timeout_move_def prog_elims split: if_splits)
  then show ?thesis
  proof cases
    case hit
    with keptD [OF kept_playerTurn [OF lib], of w "room_ID room" "ps_UserID p"
        "sess_Version sess" a True e] ok
    show ?thesis by (simp add: Hit_def)
  next
    case forfeit
    show ?thesis by (rule kept_forfeit [OF ok sess p x forfeit])
  qed
qed

lemma kept_playerStand:
  assumes lib: "lib_documented lib"
  shows "effect (kept (game_ok lib)) (playerStand (svc lib) i)"
proof (rule kept_aon [OF aon_playerStand])
  fix e w r w'
  assume run: "playerStand (svc lib) i e w = (Inr r, w')" and ok: "game_ok lib (w_db w)"
  from run consider (skip) "w_db w' = w_db w"
    | (move) sess room p x v k where "GetSession i (w_db w) = Inr sess"
      "load_round sess e (w\<lparr>w_calls := k\<rparr>) = (Inr (room, p, x), v)"
      "timeout_move (svc lib) i room sess p x e v = (Inr r, w')"
    by (auto simp: playerStand_def prog_elims split: if_splits)
  then show "game_ok lib (w_db w')"
  proof cases
    case skip
    with ok show ?thesis by simp
  next
    case move
    from load_round_run [OF move(2)] obtain ps
      where p: "ListPlayerStatesBySessionID (sess_ID sess) (w_db v) = Inr (p # ps)"
        and x: "GetDealerState (sess_ID sess) (w_db v) = Inr x" and v: "w_db v = w_db w" by auto
    have "GetSession (sess_ID sess) (w_db v) = Inr sess" using GetSession_id [OF move(1)] move(1) v by simp
    then show ?thesis using ok v by (auto intro: kept_timeout_move [OF lib _ _ p x move(3)])
  qed
qed

subsection \<open>The dealer's turn\<close>

lemma dealer_move_run:
  assumes "dealer_move u sess room p x e w = (Inr r, w')"
  obtains now s' p' x' ol d1 d2 d3 where
    "dealer_apply u now sess p x = Inr (s', p', x', ol)"
    "UpdateSessionIfVersion (Session_Touch now (IncrementVersion s')) (sess_Version sess) (w_db w)
       = (d1, True)"
    "UpdateDealerState x' d1 = Inr d2"
    "if ol = None then d3 = d2 else UpdatePlayerState p' d2 = Inr d3"
    "rounds (w_db w') = rounds d3"
proof -
  from assms obtain now s' p' x' ol room' k v' where
    a: "dealer_apply u now sess p x = Inr (s', p', x', ol)" and
    tx: "dealer_tx (sess_Version sess) room' (Session_Touch now (IncrementVersion s')) p' x' ol
       e (w\<lparr>w_calls := k\<rparr>) = (Inr (), v')" and w': "w_db w' = w_db v'"
    by (auto simp: dealer_move_def prog_elims Let_def split: option.splits)
  from tx obtain d1 d2 j where
    d: "UpdateSessionIfVersion (Session_Touch now (IncrementVersion s')) (sess_Version sess) (w_db w)
       = (d1, True)" "UpdateDealerState x' d1 = Inr d2"
    and rest: "(case ol of None \<Rightarrow> ret () | Some l \<Rightarrow>
         bind (store_write (UpdatePlayerState p')) (\<lambda>_.
         bind (store_write (CreateRoundLog l)) (\<lambda>_.
         tx_UpdateRoom room'))) e (w\<lparr>w_db := d2, w_calls := j\<rparr>) = (Inr (), v')"
    by (auto simp: dealer_tx_def bind_Inr [of "store_cas s n" for s n] guard_Inr
        bind_Inr [of "guard b err" for b err] store_cas_Inr
        bind_Inr [of "store_write (UpdateDealerState y)" for y] store_write_Inr)
  show thesis
  proof (cases ol)
    case None
    with rest w' have "rounds (w_db w') = rounds d2" by (simp add: ret_Inr)
    with that [OF a d, of d2] None show thesis by simp
  next
    case (Some l)
    let ?after = "bind (store_write (CreateRoundLog l)) (\<lambda>_. tx_UpdateRoom room')"
    from rest Some obtain d3 j where d3: "UpdatePlayerState p' d2 = Inr d3"
      and r: "?after e (w\<lparr>w_db := d3, w_calls := j\<rparr>) = (Inr (), v')"
      by (auto simp: bind_Inr [of "store_write (UpdatePlayerState q)" for q] store_write_Inr)
    have "effect same_rounds ?after" by (intro aside_intros)
    from asideD [OF this r] w' have "rounds (w_db w') = rounds d3" by simp
    with that [OF a d, of d3] d3 Some show thesis by simp
  qed
qed

text \<open>The dealer's and the player's update touch different tables.\<close>

lemma swap_updates:
  assumes "UpdateDealerState x d = Inr d1" "UpdatePlayerState p d1 = Inr d2"
  obtains e1 where "UpdatePlayerState p d = Inr e1" "UpdateDealerState x e1 = Inr d2"
  using assms that by (auto simp: UpdateDealerState_def UpdatePlayerState_def save_row_Inr)

lemma dealer_move_ok:
  assumes lib: "lib_documented lib" and ok: "game_ok lib (w_db w)"
    and sess: "GetSession (sess_ID sess) (w_db w) = Inr sess"
    and st: "sess_Status sess = SessionStatusDealerTurn"
    and p: "ListPlayerStatesBySessionID (sess_ID sess) (w_db w) = Inr (p # ps)"
    and x: "GetDealerState (sess_ID sess) (w_db w) = Inr x"
    and run: "dealer_move (svc lib) sess room p x e w = (Inr r, w')"
  shows "game_ok lib (w_db w')"
proof -
  have db: "db_ok (w_db w')" using ok writesD [OF writes_dealer_move run] by (simp add: game_ok_def)
  have rs: "sess_ResultSnapshot sess \<noteq> Some []" using GetSession_id [OF sess] by auto
  from ok sess have r: "round_ok lib sess p x"
    and l: "ListPlayerStatesBySessionID (sess_ID sess) (w_db w) = Inr [p]"
    using p x by (auto elim: game_ok_session)
  from run show ?thesis
  proof (rule dealer_move_run)
    fix now s' p' x' ol d1 d2 d3
    assume a: "dealer_apply (svc lib) now sess p x = Inr (s', p', x', ol)"
      and d: "UpdateSessionIfVersion (Session_Touch now (IncrementVersion s'))
        (sess_Version sess) (w_db w) = (d1, True)" "UpdateDealerState x' d1 = Inr d2"
        "if ol = None then d3 = d2 else UpdatePlayerState p' d2 = Inr d3"
        "rounds (w_db w') = rounds d3"
    note same = dealer_apply_same [OF a]
    note post = dealer_apply_ok [OF lib r st a]
    have r': "round_ok lib (Session_Touch now (IncrementVersion s')) p' x'" using post(1) by simp
    obtain e1 where e1: "UpdatePlayerState p' d1 = Inr e1 \<or> p' = p \<and> e1 = d1"
      "UpdateDealerState x' e1 = Inr d3"
      using d(2,3) post(2) by (cases "ol = None") (auto elim: swap_updates)
    from commit_ok [OF ok _ _ r' _ d(1) e1 d(4) db] l same rs
    show ?thesis by simp
  qed
qed

lemma kept_dealerTurn:
  assumes lib: "lib_documented lib"
  shows "effect (kept (game_ok lib)) (dealerTurn (svc lib) i)"
proof (rule kept_aon [OF aon_dealerTurn])
  fix e w r w'
  assume run: "dealerTurn (svc lib) i e w = (Inr r, w')" and ok: "game_ok lib (w_db w)"
  from run consider (skip) "w_db w' = w_db w"
    | (move) sess room p x v where "GetSession i (w_db w) = Inr sess"
      "sess_Status sess = SessionStatusDealerTurn"
      "load_round sess e (tick w) = (Inr (room, p, x), v)"
      "dealer_move (svc lib) sess room p x e v = (Inr r, w')"
    by (auto simp: dealerTurn_def prog_elims split: if_splits)
  then show "game_ok lib (w_db w')"
  proof cases
    case skip
    with ok show ?thesis by simp
  next
    case move
    from load_round_run [OF move(3)] obtain ps
      where p: "ListPlayerStatesBySessionID (sess_ID sess) (w_db v) = Inr (p # ps)"
        and x: "GetDealerState (sess_ID sess) (w_db v) = Inr x" and v: "w_db v = w_db w" by auto
    have "GetSession (sess_ID sess) (w_db v) = Inr sess" using GetSession_id [OF move(1)] move(1) v by simp
    with ok v show ?thesis by (auto intro: dealer_move_ok [OF lib _ _ move(2) p x move(4)])
  qed
qed


subsection \<open>Votes\<close>

text \<open>An update of the columns that are not about the cards.\<close>

lemma touch_ok:
  assumes ok: "game_ok lib d" and sess: "GetSession (sess_ID s0) d = Inr s0"
    and same: "sess_ID s = sess_ID s0" "sess_ResultSnapshot s = sess_ResultSnapshot s0"
      "\<And>p x. round_ok lib s p x = round_ok lib s0 p x"
    and cas: "UpdateSessionIfVersion s n d = (d1, True)"
  shows "game_ok lib d1"
proof -
  from ok sess obtain p x where l: "ListPlayerStatesBySessionID (sess_ID s0) d = Inr [p]"
    and x: "GetDealerState (sess_ID s0) d = Inr x" and r: "round_ok lib s0 p x"
    by (rule game_ok_session)
  have db: "db_ok d1" using db_ok_write [OF w_UpdateSessionIfVersion [OF cas]] ok
    by (simp add: game_ok_def)
  have keep: "ListPlayerStatesBySessionID i d1 = ListPlayerStatesBySessionID i d"
    "GetDealerState i d1 = GetDealerState i d" for i
    using cas by (auto simp: UpdateSessionIfVersion_def ListPlayerStatesBySessionID_def
        GetDealerState_def Let_def)
  have r': "round_ok lib s p x" using r same(3) by simp
  show ?thesis
    by (rule game_ok_update [OF ok db r' _ cas refl])
      (use same(1,2) l x GetSession_id [OF sess] round_ok_valid(1) [OF r'] in \<open>simp_all add: keep\<close>)
qed

lemma success_run:
  assumes "rematchUnanimousSuccessTx u room prev user now n e w = (Inr r, w')"
  obtains d1 sid sess rnd deck s p x room' k where
    "UpdateSessionIfVersion (Session_Touch now (IncrementVersion prev)) n (w_db w) = (d1, True)"
    "NewGameSession now sid (room_ID room) (wrap64 (sess_RoundNo prev + 1)) now = Inr sess"
    "newShuffledDeck rnd = Inr deck" "open_round u now (SetDeck deck sess) user = Inr (s, p, x)"
    "RecalculateStatus (room\<lparr>room_CurrentSessionID := Some (sess_ID s)\<rparr>) 1 True = Inr room'"
    "create_round_tx s p x (Room_Touch now room') e (w\<lparr>w_db := d1, w_calls := k\<rparr>) = (Inr (), w')"
    "r = (Room_Touch now room', s)"
  using assms by (auto simp: rematchUnanimousSuccessTx_def prog_elims Let_def)

lemma success_ok:
  assumes lib: "lib_documented lib" and ok: "game_ok lib (w_db w)"
    and prev: "GetSession (sess_ID s0) (w_db w) = Inr s0"
    and same: "sess_ID prev = sess_ID s0" "sess_ResultSnapshot prev = sess_ResultSnapshot s0"
      "\<And>p x. round_ok lib prev p x = round_ok lib s0 p x"
    and run: "rematchUnanimousSuccessTx (svc lib) room prev user now n e w = (Inr r, w')"
  shows "game_ok lib (w_db w')"
  using run
proof (rule success_run)
  fix d1 sid sess rnd deck s p x room' k
  assume cas: "UpdateSessionIfVersion (Session_Touch now (IncrementVersion prev)) n (w_db w)
      = (d1, True)"
    and new: "NewGameSession now sid (room_ID room) (wrap64 (sess_RoundNo prev + 1)) now = Inr sess"
      "newShuffledDeck rnd = Inr deck"
    and deal: "open_round (svc lib) now (SetDeck deck sess) user = Inr (s, p, x)"
    and tx: "create_round_tx s p x (Room_Touch now room') e (w\<lparr>w_db := d1, w_calls := k\<rparr>) = (Inr (), w')"
  note fresh = fresh_round [OF new]
  note opened = open_round_ok [OF lib fresh(1) deal]
  have "game_ok lib d1" using touch_ok [OF ok prev _ _ _ cas] same by simp
  then show ?thesis
    by (intro create_round_ok [OF _ opened(1) _ tx]) (simp_all add: opened fresh)
qed

lemma vote_outcome_ok:
  assumes lib: "lib_documented lib" and ok: "game_ok lib (w_db w)"
    and prev: "GetSession (sess_ID s0) (w_db w) = Inr s0"
    and same: "sess_ID s = sess_ID s0" "sess_ResultSnapshot s = sess_ResultSnapshot s0"
      "\<And>p x. round_ok lib s p x = round_ok lib s0 p x"
    and run: "vote_outcome (svc lib) room s eligible agreeMap now n e w = (Inr r, w')"
  shows "game_ok lib (w_db w')"
proof -
  from run consider
    (yes) "rematchUnanimousSuccessTx (svc lib) room s (hd eligible) now n e w = (Inr r, w')"
  | (no) room' where "finalizeRematchFailureTx room e w = (Inr room', w')"
  | (pending) d1 where "UpdateSessionIfVersion (Session_Touch now (IncrementVersion s)) n (w_db w)
      = (d1, True)" "w_db w' = d1"
    by (auto simp: vote_outcome_def prog_elims Let_def split: if_splits)
  then show ?thesis
  proof cases
    case yes
    show ?thesis by (rule success_ok [OF lib ok prev same yes])
  next
    case no
    show ?thesis by (rule aside_run [OF aside_finalize writes_rematch(1) no ok])
  next
    case pending
    from touch_ok [OF ok prev _ _ _ pending(1)] same pending(2) show ?thesis by simp
  qed
qed

lemma VoteRematch_run:
  assumes "VoteRematch u roomID userID agree n actionID e w = (Inr r, w')"
  obtains room player latest k v' where
    "userID \<noteq> []" "roomID \<noteq> []" "0 < n" "actionID \<noteq> []"
    "GetRoom roomID (w_db w) = Inr room" "GetRoomPlayer roomID userID (w_db w) = Inr player"
    "GetLatestSessionByRoomID roomID (w_db w) = Inr latest"
    "VoteRematch_tx u room roomID (sess_ID latest) userID agree n actionID e (w\<lparr>w_calls := k\<rparr>)
      = (Inr r, v')"
    "w_db w' = w_db v'"
  using assms
  by (auto simp: VoteRematch_def prog_elims read_answer_Inr split: if_splits)

text \<open>Inside the transaction: a replay, or a vote with its outcome and its log.\<close>

lemma cast_vote_run:
  assumes "cast_vote u room roomID sess userID agree n actionLog e w = (Inr r, w')"
  obtains players votes now v1 v2 k where
    "ListRoomPlayersByRoomID roomID (w_db w) = Inr players"
    "userID \<in> set (rematchEligibleUserIDs players)"
    "ListRematchVotes (sess_ID sess) (w_db w) = Inr votes"
    "tx_UpsertRematchVote \<lparr>rv_SessionID = sess_ID sess, rv_UserID = userID, rv_Agree = agree\<rparr>
       e (w\<lparr>w_calls := k\<rparr>) = (Inr (), v1)"
    "vote_outcome u room
       (if sess_RematchDeadlineAt sess = None then SetRematchDeadline now sess else sess)
       (rematchEligibleUserIDs players) ((votes_map votes)(userID \<mapsto> agree)) now n e v1 = (Inr r, v2)"
    "SaveActionSuccessSnapshot actionLog
       (action_snapshot (room_ID (fst r)) (sess_ID (snd r)) (sess_Version (snd r))) e v2 = (Inr (), w')"
proof -
  have id: "sess_ID (if sess_RematchDeadlineAt sess = None then SetRematchDeadline now sess else sess)
      = sess_ID sess" for now by simp
  from assms show thesis
    by (auto simp: cast_vote_def bind_Inr store_read_Inr guard_Inr io_Inr ret_Inr id Let_def
        simp del: if_split cong: if_cong intro: that)
qed

lemma VoteRematch_tx_run:
  assumes "VoteRematch_tx u room roomID sid userID agree n actionID e w = (Inr r, w')"
  obtains (replay) sess where "GetSession sid (w_db w) = Inr sess" "w_db w' = w_db w" "r = (room, sess)"
  | (vote) sess v where
    "GetSession sid (w_db w) = Inr sess" "sess_Status sess = SessionStatusResetting"
    "sess_Version sess = n" "w_db v = w_db w"
    "cast_vote u room roomID sess userID agree n (vote_log (sess_ID sess) userID actionID
       (env_sha256hex e (vote_payload agree n))) e v = (Inr r, w')"
proof -
  from assms obtain sess t b v where
    s: "GetSession sid (w_db w) = Inr sess" "sess_Status sess = SessionStatusResetting"
      "CheckVersion sess n = None" and
    ens: "EnsureActionIdempotency (vote_log (sess_ID sess) userID actionID
      (env_sha256hex e (vote_payload agree n))) e (tick w) = (Inr (t, b), v)" and
    rest: "if b then r = (room, sess) \<and> w' = v
     else cast_vote u room roomID sess userID agree n (vote_log (sess_ID sess) userID actionID
       (env_sha256hex e (vote_payload agree n))) e v = (Inr r, w')"
    by (auto simp: VoteRematch_tx_def GetSessionForUpdate_eq prog_elims Let_def split: if_splits)
  have v: "w_db v = w_db w" using readonlyD [OF readonly_Ensure ens] by simp
  have ver: "sess_Version sess = n" using s(3) by (auto simp: CheckVersion_def split: if_splits)
  show thesis
  proof (cases b)
    case True
    with replay [OF s(1)] rest v show thesis by simp
  next
    case False
    with vote [OF s(1,2) ver v] rest show thesis by simp
  qed
qed

lemma kept_VoteRematch:
  assumes lib: "lib_documented lib"
  shows "effect (kept (game_ok lib)) (VoteRematch (svc lib) roomID userID agree n actionID)"
proof (rule kept_aon [OF aon_VoteRematch])
  fix e w r w'
  assume run: "VoteRematch (svc lib) roomID userID agree n actionID e w = (Inr r, w')"
    and ok: "game_ok lib (w_db w)"
  from run obtain room sid k v' where
    tx: "VoteRematch_tx (svc lib) room roomID sid userID agree n actionID e (w\<lparr>w_calls := k\<rparr>)
      = (Inr r, v')" and w': "w_db w' = w_db v'" by (rule VoteRematch_run)
  define v where "v = w\<lparr>w_calls := k\<rparr>"
  have v: "w_db v = w_db w" by (simp add: v_def)
  note tx = tx [folded v_def]
  from tx have "game_ok lib (w_db v')"
  proof (cases rule: VoteRematch_tx_run)
    case replay
    with ok v show ?thesis by simp
  next
    case (vote sess u)
    from vote(5) show ?thesis
    proof (rule cast_vote_run)
      fix players votes now v1 v2 k
      let ?sess = "if sess_RematchDeadlineAt sess = None then SetRematchDeadline now sess else sess"
      assume up: "tx_UpsertRematchVote \<lparr>rv_SessionID = sess_ID sess, rv_UserID = userID, rv_Agree = agree\<rparr>
          e (u\<lparr>w_calls := k\<rparr>) = (Inr (), v1)"
        and out: "vote_outcome (svc lib) room ?sess (rematchEligibleUserIDs players)
          ((votes_map votes)(userID \<mapsto> agree)) now n e v1 = (Inr r, v2)"
        and save: "SaveActionSuccessSnapshot (vote_log (sess_ID sess) userID actionID
          (env_sha256hex e (vote_payload agree n)))
          (action_snapshot (room_ID (fst r)) (sess_ID (snd r)) (sess_Version (snd r))) e v2
          = (Inr (), v')"
      have ok1: "game_ok lib (w_db v1)"
        using aside_run [OF aside_store(8) writes_store(14) up] ok v vote(4) by simp
      have "rounds (w_db v1) = rounds (w_db v)" using asideD [OF aside_store(8) up] vote(4) by simp
      then have "GetSession (sess_ID sess) (w_db v1) = Inr sess"
        using vote(1) GetSession_id [OF vote(1)] by (simp add: GetSession_def rounds_def)
      from vote_outcome_ok [OF lib ok1 this _ _ _ out]
      have "game_ok lib (w_db v2)" by simp
      then show ?thesis by (rule aside_run [OF aside_Save writes_Save save])
    qed
  qed
  with w' show "game_ok lib (w_db w')" by simp
qed

subsection \<open>The worker\<close>

lemma processRematchDeadline_run:
  assumes "processRematchDeadline u i e w = (Inr r, w')"
  obtains (skip) "w_db w' = w_db w"
  | (no) room r k v' where "finalizeRematchFailureTx room e (w\<lparr>w_calls := k\<rparr>) = (Inr r, v')"
      "w_db w' = w_db v'"
  | (yes) sess room user now r k v' where "GetSession i (w_db w) = Inr sess"
      "rematchUnanimousSuccessTx u room sess user now (sess_Version sess) e
         (w\<lparr>w_calls := k\<rparr>) = (Inr r, v')" "w_db w' = w_db v'"
  using assms
  by (auto simp: processRematchDeadline_def GetSessionForUpdate_eq prog_elims Let_def split: if_splits)

lemma kept_processRematchDeadline:
  assumes lib: "lib_documented lib"
  shows "effect (kept (game_ok lib)) (processRematchDeadline (svc lib) i)"
proof (rule kept_aon [OF aon_processRematchDeadline])
  fix e w r w'
  assume run: "processRematchDeadline (svc lib) i e w = (Inr r, w')" and ok: "game_ok lib (w_db w)"
  from run show "game_ok lib (w_db w')"
  proof (cases rule: processRematchDeadline_run)
    case skip
    with ok show ?thesis by simp
  next
    case no
    from aside_run [OF aside_finalize writes_rematch(1) no(1)] ok no(2) show ?thesis by simp
  next
    case (yes sess)
    have "GetSession (sess_ID sess) (w_db w) = Inr sess" using yes(1) GetSession_id [OF yes(1)] by simp
    with ok yes(3) show ?thesis by (auto intro: success_ok [OF lib _ _ _ _ _ yes(2)])
  qed
qed


lemma kept_worker_step:
  "(\<And>i. effect (kept I) (handle i)) \<Longrightarrow> effect (kept I) (worker_step handle s rooms)"
  unfolding worker_step_def by (intro keeps.rules)

lemma kept_AutoStandDueSessions:
  assumes lib: "lib_documented lib"
  shows "effect (kept (game_ok lib)) (AutoStandDueSessions (svc lib))"
  unfolding AutoStandDueSessions_def
  by (intro keeps.rules kept_worker_step kept_playerStand kept_dealerTurn
      kept_processRematchDeadline lib)

subsection \<open>The debug reset\<close>

lemma filter_delete:
  "\<not> Q k \<Longrightarrow> filter (\<lambda>x. f x = k) (tbl_delete (\<lambda>x. Q (f x)) t) = filter (\<lambda>x. f x = k) t"
  "\<not> Q k \<Longrightarrow> gorm_First (\<lambda>x. f x = k) (tbl_delete (\<lambda>x. Q (f x)) t) = gorm_First (\<lambda>x. f x = k) t"
  by (induction t) (auto simp: tbl_delete_def gorm_First_def)

lemma game_ok_delete:
  assumes ok: "game_ok lib d" and del: "DeleteGameSessionsByRoomID roomID d = Inr d'"
  shows "game_ok lib d'"
proof -
  have db: "db_ok d'" using db_ok_write [OF w_DeleteGameSessions [OF del]] ok by (simp add: game_ok_def)
  have keys: "distinct (map gs_ID (d_game_sessions d))" using ok by (rule game_ok_keys)
  let ?gone = "\<lambda>j. list_ex (\<lambda>g. gs_ID g = j \<and> gs_RoomID g = roomID) (d_game_sessions d)"
  have "session_ok lib d' g" if "g \<in> set (d_game_sessions d')" for g
  proof -
    from that del have g: "g \<in> set (d_game_sessions d)" "gs_RoomID g \<noteq> roomID"
      by (auto simp: DeleteGameSessionsByRoomID_def Let_def)
    have "\<not> ?gone (gs_ID g)"
    proof
      assume "?gone (gs_ID g)"
      then obtain h where "h \<in> set (d_game_sessions d)" "gs_ID h = gs_ID g" "gs_RoomID h = roomID"
        by (auto simp: list_ex_iff)
      with g keys show False by (metis distinct_map inj_on_def)
    qed
    note gone = filter_delete [of ?gone, OF this]
    have "ListPlayerStatesBySessionID (gs_ID g) d' = ListPlayerStatesBySessionID (gs_ID g) d"
      and "GetDealerState (gs_ID g) d' = GetDealerState (gs_ID g) d"
      using del by (auto simp: DeleteGameSessionsByRoomID_def ListPlayerStatesBySessionID_def
          GetDealerState_def Let_def gone)
    moreover have "session_ok lib d g" using ok g(1) by (simp add: game_ok_def)
    ultimately show ?thesis by (simp add: session_ok_def)
  qed
  with db show ?thesis by (simp add: game_ok_def)
qed

lemma kept_delete: "effect (kept (game_ok lib)) (store_write (DeleteGameSessionsByRoomID i))"
  by (rule keeps.store_write) (auto simp: kept_def intro: game_ok_delete)

lemma kept_Reset: "effect (kept (game_ok lib)) (ResetRoomForDebug roomID userID)"
  unfolding ResetRoomForDebug_def Let_def
  by (intro keeps.rules kept_delete aside_kept [OF aside_store(7) writes_store(13)]
      aside_kept [OF aside_store(4) writes_store(4)])

subsection \<open>The states of the server\<close>

text \<open>
  The requests of the API, of users too (each with its own package and secret), the marks of the WebSocket connections and the worker's pass. A
  request runs without another one in between: this is the sequential semantics; requests that
  overlap are the subject of \<open>Overlap\<close>.
\<close>

datatype request =
    ReqCreateRoom string
  | ReqJoinRoom string string
  | ReqLeaveRoom string string
  | ReqResetRoom string string
  | ReqStartRoom string string
  | ReqHit string string int string
  | ReqStand string string int string
  | ReqVoteRematch string string bool int string
  | ReqMarkConnected string string
  | ReqMarkDisconnected string string
  | ReqGetRoomState string string
  | ReqSuggest string string
  | ReqHistory string string
  | ReqListRooms string
  | ReqSignup auth_lib string string string
  | ReqLogin auth_lib string string string
  | ReqMe string
  | WorkerPass

definition void :: "'a prog \<Rightarrow> unit prog" where
  "void m = bind m (\<lambda>_. ret ())"

fun serve :: "roomService \<Rightarrow> request \<Rightarrow> unit prog" where
  "serve u (ReqCreateRoom host) = void (CreateRoom_uc host)"
| "serve u (ReqJoinRoom i user) = void (JoinRoom i user)"
| "serve u (ReqLeaveRoom i user) = void (LeaveRoom i user)"
| "serve u (ReqResetRoom i user) = void (ResetRoomForDebug i user)"
| "serve u (ReqStartRoom i user) = void (StartRoom u i user)"
| "serve u (ReqHit i user v a) = void (Hit u i user v a)"
| "serve u (ReqStand i user v a) = void (Stand u i user v a)"
| "serve u (ReqVoteRematch i user agree v a) = void (VoteRematch u i user agree v a)"
| "serve u (ReqMarkConnected i user) = void (MarkConnected i user)"
| "serve u (ReqMarkDisconnected i user) = void (MarkDisconnected i user)"
| "serve u (ReqGetRoomState i user) = void (GetRoomState i user)"
| "serve u (ReqSuggest i user) = void (SuggestPlayerAction u i user)"
| "serve u (ReqHistory i user) = void (GetRoomHistory i user)"
| "serve u (ReqListRooms user) = void (ListRooms user)"
| "serve u (ReqSignup lib secret name pw) = void (Signup lib secret name pw)"
| "serve u (ReqLogin lib secret name pw) = void (Login lib secret name pw)"
| "serve u (ReqMe i) = void (Me i)"
| "serve u WorkerPass = void (AutoStandDueSessions u)"

inductive reachable :: "roomService \<Rightarrow> DB \<Rightarrow> bool" for u where
  reach_empty: "reachable u empty_db"
| reach_serve: "reachable u (w_db w) \<Longrightarrow> serve u req e w = (r, w') \<Longrightarrow> reachable u (w_db w')"

inductive_cases reach_serveE: "reachable u d"

lemma writes_serve: "writes_only (serve u req)"
  by (cases req) (auto simp: void_def intro!: writes_intros
      intro: writes_readonly [OF readonly_views(1)] writes_readonly [OF readonly_views(2)]
        writes_readonly [OF readonly_room_uc(2)] writes_readonly [OF readonly_room_uc(3)]
        writes_readonly [OF readonly_auth(2)] writes_readonly [OF readonly_auth(3)])

lemma kept_void: "effect (kept I) m \<Longrightarrow> effect (kept I) (void m)"
  unfolding void_def by (intro keeps.bind keeps.basic)

lemma kept_aside_uc:
  "effect (kept (game_ok lib)) (CreateRoom_uc u)" "effect (kept (game_ok lib)) (JoinRoom i u)"
  "effect (kept (game_ok lib)) (LeaveRoom i u)" "effect (kept (game_ok lib)) (MarkConnected i u)"
  "effect (kept (game_ok lib)) (MarkDisconnected i u)"
  "effect (kept (game_ok lib)) (Signup al secret name pw)"
  by (rule aside_kept; intro aside_room_uc aside_Signup writes_room_uc writes_Signup)+

lemma kept_view_uc:
  "effect (kept I) (GetRoomState i u)" "effect (kept I) (SuggestPlayerAction sv i u)"
  "effect (kept I) (GetRoomHistory i u)" "effect (kept I) (ListRooms u)"
  "effect (kept I) (Login al secret name pw)" "effect (kept I) (Me i)"
  by (rule kept_readonly; intro readonly_views readonly_room_uc readonly_auth)+

lemma kept_Hit_Stand:
  assumes "lib_documented lib"
  shows "effect (kept (game_ok lib)) (Hit (svc lib) i u v a)"
    "effect (kept (game_ok lib)) (Stand (svc lib) i u v a)"
  using kept_playerTurn [OF assms] by (simp_all add: Hit_def Stand_def)

lemma kept_serve: "lib_documented lib \<Longrightarrow> effect (kept (game_ok lib)) (serve (svc lib) req)"
  by (cases req)
    (simp_all add: kept_void kept_aside_uc kept_view_uc kept_Hit_Stand kept_StartRoom
      kept_VoteRematch kept_AutoStandDueSessions kept_Reset)

lemma reachable_db_ok: "reachable u d \<Longrightarrow> db_ok d"
proof (induction rule: reachable.induct)
  case reach_empty
  show ?case by (rule db_ok_empty)
next
  case (reach_serve w req e r w')
  with writesD [OF writes_serve] show ?case by blast
qed

lemma reachable_game_ok:
  assumes lib: "lib_documented lib" and r: "reachable (svc lib) d"
  shows "game_ok lib d"
  using r
proof (induction rule: reachable.induct)
  case reach_empty
  show ?case by (rule game_ok_empty)
next
  case (reach_serve w req e r w')
  with keptD [OF kept_serve [OF lib], of w req e] show ?case by simp
qed

end
