(* ===== verification/Service_Facts.thy ===== *)
theory Service_Facts
  imports System_Invariant
begin

text \<open>
  What the database holds after a use case succeeded, and what a second request finds there: the
  facts behind the properties on versions, replays, starts, forfeits and votes.
\<close>

subsection \<open>After a conditional update\<close>

lemma session_row_GetSession:
  "session_row d i = Some g \<Longrightarrow> GetSession i d = gameSessionRecordToDomain g"
  by (simp add: GetSession_def session_row_def gorm_First_def)

lemma GetSession_rounds: "rounds d' = rounds d \<Longrightarrow> GetSession i d' = GetSession i d"
  by (simp add: rounds_def GetSession_def)

lemma cas_GetSession:
  assumes keys: "distinct (map gs_ID (d_game_sessions d))"
    and cas: "UpdateSessionIfVersion s n d = (d1, True)" and v: "valid_session s"
  obtains g where "session_row d (sess_ID s) = Some g" "gs_Version g = n"
    "GetSession (sess_ID s) d1 = Inr (s\<lparr>sess_RoomID := gs_RoomID g, sess_RoundNo := gs_RoundNo g,
       sess_CreatedAt := gs_CreatedAt g\<rparr>)"
    "\<And>j. j \<noteq> sess_ID s \<Longrightarrow> GetSession j d1 = GetSession j d"
proof -
  from session_cas.cas_success [OF keys cas] obtain g
    where g: "session_row d (sess_ID s) = Some g" "gs_Version g = n"
      and row: "session_row d1 = (session_row d)(sess_ID s \<mapsto>
        session_columns (gameSessionRecordFromDomain s) g)" .
  have id: "gs_ID g = sess_ID s" using session_row_in [OF g(1)] by simp
  have "session_row d1 (sess_ID s) = Some (session_columns (gameSessionRecordFromDomain s) g)"
    using row by simp
  from session_row_GetSession [OF this] read_session_columns [OF v, of g] id
  have "GetSession (sess_ID s) d1 = Inr (s\<lparr>sess_RoomID := gs_RoomID g, sess_RoundNo := gs_RoundNo g,
       sess_CreatedAt := gs_CreatedAt g\<rparr>)" by (cases s) simp
  moreover have "GetSession j d1 = GetSession j d" if "j \<noteq> sess_ID s" for j
    using that row session_row_in
    by (simp add: GetSession_def gorm_First_def session_row_def [symmetric])
  ultimately show thesis using that g by blast
qed

lemma GetRoom_after_update:
  assumes "UpdateRoom now room d = Inr d'" "valid_room room"
  shows "GetRoom (room_ID room) d' = Inr (room\<lparr>room_UpdatedAt := now\<rparr>)"
    "rounds d' = rounds d" "d_rematch_votes d' = d_rematch_votes d"
  using assms rooms.read_write [OF assms(2) assms(1), of "room_ID room"]
  by (auto simp: UpdateRoom_def rounds_def)

lemma GetRoom_id: "GetRoom i d = Inr r \<Longrightarrow> room_ID r = i"
  by (auto simp: GetRoom_def gorm_First_def split: option.splits sum.splits
      dest!: tbl_first_Some room_read_key)

lemma GetRoom_logs:
  "CreateActionLog a d = Inr d' \<Longrightarrow> GetRoom i d' = GetRoom i d"
  "CreateRoundLog l d = Inr d' \<Longrightarrow> GetRoom i d' = GetRoom i d"
  by (auto simp: CreateActionLog_def CreateRoundLog_def GetRoom_def Let_def split: sum.splits)

subsection \<open>After a turn\<close>

lemma room_recalculated:
  "RecalculateStatus r n b = Inr r' \<Longrightarrow> valid_room r' \<and> room_ID r' = room_ID r
     \<and> room_HostUserID r' = room_HostUserID r \<and> room_CurrentSessionID r' = room_CurrentSessionID r"
  by (auto simp: RecalculateStatus_Inr)

lemma Room_Touch_fields [simp]:
  "room_ID (Room_Touch t r) = room_ID r" "room_Status (Room_Touch t r) = room_Status r"
  "room_HostUserID (Room_Touch t r) = room_HostUserID r"
  "room_CurrentSessionID (Room_Touch t r) = room_CurrentSessionID r"
  by (simp_all add: Room_Touch_def)

lemma turn_apply_status:
  assumes "turn_apply u hit now s p = Inr (s', p')" "sess_Status s = SessionStatusPlayerTurn"
  shows "sess_Status s' \<in> {SessionStatusPlayerTurn, SessionStatusDealerTurn}"
  using assms
  by (cases rule: turn_apply_cases)
    (auto simp: past_turn_def deal_one_def prog_elims DrawCard_iff assms(2))

text \<open>The database after the transaction of a turn.\<close>

lemma turn_committed:
  assumes ok: "db_ok (w_db w)"
    and prep: "turn_prepare u roomID userID n actionID hit e w = (Inr (Inr c), v)"
    and tx: "turn_tx n c e' w1 = (Inr x, w2)" and w1: "w_db w1 = w_db w"
  obtains s' where "GetSession (sess_ID (tc_sess c)) (w_db w2) = Inr s'"
    "sess_Version s' = wrap64 (n + 1)" "sess_Status s' = sess_Status (tc_sess c)"
    "GetRoom roomID (w_db w2) = Inr ((tc_room c)\<lparr>room_UpdatedAt := env_now e' (w_calls w1 + 3)\<rparr>)"
    "room_CurrentSessionID (tc_room c) = Some (sess_ID (tc_sess c))"
    "sess_Version (tc_sess c) = wrap64 (n + 1)"
proof -
  from prep obtain room sess p xd now s1 p1 room' where
    r: "GetRoom roomID (w_db w) = Inr room" "room_CurrentSessionID room = Some (sess_ID sess)"
      "GetSession (sess_ID sess) (w_db w) = Inr sess" "sess_Version sess = n"
      "AssertCanHitOrStand p (Some sess) userID = None"
      "turn_apply u hit now sess p = Inr (s1, p1)" "RecalculateStatus room 1 True = Inr room'"
    and c: "c = \<lparr>tc_room = Room_Touch now (room'\<lparr>room_CurrentSessionID := Some (sess_ID s1)\<rparr>),
          tc_sess = Session_Touch now (IncrementVersion s1), tc_player = p1, tc_dealer = xd,
          tc_log = turn_log (sess_ID sess) userID actionID hit
            (env_sha256hex e (turn_payload hit n))\<rparr>"
    by (rule turn_prepare_run)
  have st: "sess_Status sess = SessionStatusPlayerTurn"
    using r(5) by (auto simp: AssertCanHitOrStand_def split: if_splits)
  note same = turn_apply_same [OF r(6) st]
  have valid: "valid_session (tc_sess c)"
    using turn_apply_status [OF r(6) st] GetSession_id [OF r(3)] same c by auto
  have room: "room_ID (tc_room c) = roomID" "valid_room (tc_room c)"
    "room_CurrentSessionID (tc_room c) = Some (sess_ID (tc_sess c))"
    using room_recalculated [OF r(7)] GetRoom_id [OF r(1)] c by auto
  from tx obtain d1 d2 d3 d4 d5 where
    d: "UpdateSessionIfVersion (tc_sess c) n (w_db w) = (d1, True)"
      "UpdatePlayerState (tc_player c) d1 = Inr d2" "UpdateDealerState (tc_dealer c) d2 = Inr d3"
      "UpdateRoom (env_now e' (w_calls w1 + 3)) (tc_room c) d3 = Inr d4" and
    log: "CreateActionLog ((tc_log c)\<lparr>al_ResponseSnapshot :=
        action_snapshot (room_ID (tc_room c)) (sess_ID (tc_sess c)) (sess_Version (tc_sess c))\<rparr>) d4
      = Inr d5" and w2: "w_db w2 = d5"
    using w1 by (auto simp: turn_tx_def SaveActionSuccessSnapshot_def prog_elims eval_nat_numeral)
  have keys: "distinct (map gs_ID (d_game_sessions (w_db w)))"
    using ok by (simp add: db_ok_def keys_ok_def unique_by_def)
  have sessions: "GetSession i d5 = GetSession i d1" for i
    using d(2-4) log by (auto simp: UpdatePlayerState_def UpdateDealerState_def UpdateRoom_def
        CreateActionLog_def GetSession_def)
  from cas_GetSession [OF keys d(1) valid] obtain s' where
    s': "GetSession (sess_ID (tc_sess c)) d1 = Inr s'" "sess_Version s' = sess_Version (tc_sess c)"
      "sess_Status s' = sess_Status (tc_sess c)" by (metis (no_types, lifting) GameSession.select_convs(4,5)
          GameSession.surjective GameSession.update_convs(2,3,12))
  have "sess_Version (tc_sess c) = wrap64 (n + 1)" using c same r(4) by simp
  moreover have "GetRoom roomID (w_db w2) = Inr ((tc_room c)\<lparr>room_UpdatedAt := env_now e' (w_calls w1 + 3)\<rparr>)"
    using GetRoom_after_update(1) [OF d(4) room(2)] room(1) log w2 by (auto simp: GetRoom_logs(1))
  ultimately show thesis using that s' sessions w2 room(3) by simp
qed

text \<open>A request that names another version is refused before anything else is looked at.\<close>

lemma stale_version_refused:
  assumes "GetRoom roomID (w_db w) = Inr room" "room_CurrentSessionID room = Some sid"
    and "GetSession sid (w_db w) = Inr s" "sess_Version s \<noteq> n" "0 < n"
    and "userID \<noteq> []" "roomID \<noteq> []" "actionID \<noteq> []"
    and "env_fault e (w_calls w) = None" "env_fault e (Suc (w_calls w)) = None"
  shows "playerTurn u roomID userID n actionID hit e w = (Inl ErrVersionConflict, tick (tick w))"
proof -
  have "turn_load roomID userID n e w = (Inl ErrVersionConflict, tick (tick w))"
    using assms(1-5,9,10)
    by (simp add: turn_load_def bind_def store_read_def store_op_def check_def CheckVersion_def)
  then have "turn_prepare u roomID userID n actionID hit e w = (Inl ErrVersionConflict, tick (tick w))"
    using assms(5-8) by (simp add: turn_prepare_def bind_def)
  then show ?thesis by (simp add: playerTurn_def bind_def)
qed

lemma turn_args:
  "turn_prepare u roomID userID n actionID hit e w = (Inr q, v) \<Longrightarrow>
     userID \<noteq> [] \<and> roomID \<noteq> [] \<and> 0 < n \<and> actionID \<noteq> []"
  by (auto simp: turn_prepare_def throw_Inr split: if_splits)

lemma committed_turn_not_repeated:
  assumes ok: "db_ok (w_db w)"
    and prep: "turn_prepare u roomID userID n actionID hit e w = (Inr (Inr c), v)"
    and run: "playerTurn u roomID userID n actionID hit e w = (Inr r, w')"
    and works: "env_fault e' (w_calls w') = None" "env_fault e' (Suc (w_calls w')) = None"
  shows "fst (playerTurn u roomID userID n actionID hit e' w') = Inl ErrVersionConflict"
proof -
  from run prep obtain v' where tx: "turn_tx n c e v = (Inr (), v')" and w': "w_db w' = w_db v'"
    by (auto simp: playerTurn_def prog_elims)
  have "w_db v = w_db w" using readonlyD [OF readonly_round(4) prep] .
  from turn_committed [OF ok prep tx this] obtain s' where
    s': "GetSession (sess_ID (tc_sess c)) (w_db w') = Inr s'" "sess_Version s' = wrap64 (n + 1)"
      "GetRoom roomID (w_db w') = Inr ((tc_room c)\<lparr>room_UpdatedAt := env_now e (w_calls v + 3)\<rparr>)"
      "room_CurrentSessionID (tc_room c) = Some (sess_ID (tc_sess c))"
    using w' by metis
  have "sess_Version s' \<noteq> n" using s'(2) wrap64_Suc_neq by simp
  with stale_version_refused [OF s'(3) _ s'(1)] s'(4) turn_args [OF prep] works
  show ?thesis by simp
qed

lemma turn_prepare_ids:
  assumes "turn_prepare u roomID userID n actionID hit e w = (Inr (Inr c), v)"
  shows "\<exists>room s. GetRoom roomID (w_db w) = Inr room
    \<and> room_CurrentSessionID room = Some (sess_ID (s :: GameSession))
    \<and> sess_ID (tc_sess c) = sess_ID s \<and> sess_Version (tc_sess c) = wrap64 (n + 1)"
  using assms
proof (rule turn_prepare_run)
  fix room sess p x now s' p' room'
  assume r: "GetRoom roomID (w_db w) = Inr room" "room_CurrentSessionID room = Some (sess_ID sess)"
    "sess_Version sess = n" "AssertCanHitOrStand p (Some sess) userID = None"
    and a: "turn_apply u hit now sess p = Inr (s', p')"
    and c: "c = \<lparr>tc_room = Room_Touch now (room'\<lparr>room_CurrentSessionID := Some (sess_ID s')\<rparr>),
          tc_sess = Session_Touch now (IncrementVersion s'), tc_player = p', tc_dealer = x,
          tc_log = turn_log (sess_ID sess) userID actionID hit
            (env_sha256hex e (turn_payload hit n))\<rparr>"
  have "sess_Status sess = SessionStatusPlayerTurn"
    using r(4) by (auto simp: AssertCanHitOrStand_def split: if_splits)
  note same = turn_apply_same [OF a this]
  show ?thesis by (rule exI [of _ room], rule exI [of _ sess]) (use same r c in simp)
qed

text \<open>Two requests that read the same version: when one has committed, the other cannot.\<close>

lemma second_commit_fails:
  assumes ok: "db_ok (w_db w)"
    and p1: "turn_prepare u roomID user1 n a1 hit1 e1 w = (Inr (Inr c1), v1)"
    and p2: "turn_prepare u roomID user2 n a2 hit2 e2 w = (Inr (Inr c2), v2)"
    and t1: "transaction (turn_tx n c1) e1 w1 = (Inr (), w1')" and w1: "w_db w1 = w_db w"
    and w2: "w_db w2 = w_db w1'"
  shows "\<exists>err w2'. transaction (turn_tx n c2) e2 w2 = (Inl err, w2') \<and> w_db w2' = w_db w1'
    \<and> (env_fault e2 (w_calls w2) = None \<longrightarrow> err = ErrVersionConflict)"
proof -
  from turn_prepare_ids [OF p1] obtain room1 and s1 :: GameSession where g1: "GetRoom roomID (w_db w) = Inr room1"
    "room_CurrentSessionID room1 = Some (sess_ID s1)"
    and i1: "sess_ID (tc_sess c1) = sess_ID s1" "sess_Version (tc_sess c1) = wrap64 (n + 1)" by auto
  from turn_prepare_ids [OF p2] obtain room2 and s2 :: GameSession where g2: "GetRoom roomID (w_db w) = Inr room2"
    "room_CurrentSessionID room2 = Some (sess_ID s2)"
    and i2: "sess_ID (tc_sess c2) = sess_ID s2" by auto
  have same: "sess_ID (tc_sess c2) = sess_ID (tc_sess c1)" using g1 g2 i1 i2 by simp
  from t1 obtain v where tx: "turn_tx n c1 e1 w1 = (Inr (), v)" and v: "w_db w1' = w_db v"
    by (auto simp: transaction_Inr)
  from tx obtain d1 d2 d3 where
    d: "UpdateSessionIfVersion (tc_sess c1) n (w_db w1) = (d1, True)"
      "UpdatePlayerState (tc_player c1) d1 = Inr d2" "UpdateDealerState (tc_dealer c1) d2 = Inr d3"
      "rounds (w_db v) = rounds d3" by (rule turn_tx_run)
  have keys: "distinct (map gs_ID (d_game_sessions (w_db w1)))"
    using ok w1 by (simp add: db_ok_def keys_ok_def unique_by_def)
  have "d_game_sessions (w_db w2) = d_game_sessions d1"
    using d v w2 by (auto simp: rounds_def UpdatePlayerState_def UpdateDealerState_def)
  then have row: "session_row (w_db w2) = session_row d1"
    and keys2: "distinct (map gs_ID (d_game_sessions (w_db w2))) =
      distinct (map gs_ID (d_game_sessions d1))" by (simp_all add: session_row_def fun_eq_iff)
  have neq: "sess_Version (tc_sess c1) \<noteq> n" using i1(2) wrap64_Suc_neq by simp
  have "UpdateSessionIfVersion (tc_sess c2) n (w_db w2) = (w_db w2, False)"
  proof (rule session_cas.cas_miss)
    show "distinct (map gs_ID (d_game_sessions (w_db w2)))"
      using session_cas.inv_cas [OF keys, of "tc_sess c1" n] d(1) keys2 by simp
    fix g
    assume "session_row (w_db w2) (sess_ID (tc_sess c2)) = Some g"
    moreover from session_cas.cas_success [OF keys d(1)] obtain g0 where
      "session_row d1 = (session_row (w_db w1))(sess_ID (tc_sess c1) \<mapsto>
        session_columns (gameSessionRecordFromDomain (tc_sess c1)) g0)" .
    ultimately have "g = session_columns (gameSessionRecordFromDomain (tc_sess c1)) g0"
      using row same by simp
    with neq show "gs_Version g \<noteq> n" by (simp only: session_cas.ver_merge not_False_eq_True)
  qed
  then have "turn_tx n c2 e2 w2 =
      (case env_fault e2 (w_calls w2) of None \<Rightarrow> (Inl ErrVersionConflict, tick w2)
       | Some msg \<Rightarrow> (Inl (ExtError msg), tick w2))"
    by (simp add: turn_tx_def bind_def store_cas_def store_op_def guard_def split: option.split)
  then show ?thesis
    using w2 by (cases "env_fault e2 (w_calls w2)") (simp_all add: transaction_def)
qed

subsection \<open>After a start\<close>

lemma create_round_tx_run:
  assumes "create_round_tx s p x room e w = (Inr r, w')"
  obtains d1 d2 d3 now where "CreateSession s (w_db w) = Inr d1" "CreatePlayerState p d1 = Inr d2"
    "CreateDealerState x d2 = Inr d3" "UpdateRoom now room d3 = Inr (w_db w')"
  using assms by (auto simp: create_round_tx_def prog_elims)

lemma round_created:
  assumes run: "create_round_tx s p x room e w = (Inr r, w')"
    and v: "valid_session s" "valid_player p" "valid_room room"
  shows "GetSession (sess_ID s) (w_db w') = Inr s"
    "GetPlayerState (ps_SessionID p) (ps_UserID p) (w_db w') = Inr p"
    "GetDealerState (ds_SessionID x) (w_db w') = Inr x"
    "\<exists>now. GetRoom (room_ID room) (w_db w') = Inr (room\<lparr>room_UpdatedAt := now\<rparr>)"
proof -
  from run obtain d1 d2 d3 now where
    d: "CreateSession s (w_db w) = Inr d1" "CreatePlayerState p d1 = Inr d2"
      "CreateDealerState x d2 = Inr d3" "UpdateRoom now room d3 = Inr (w_db w')"
    by (rule create_round_tx_run)
  have r: "rounds (w_db w') = rounds d3" using GetRoom_after_update(2) [OF d(4) v(3)] .
  have "GetSession (sess_ID s) d1 = Inr s"
    using game_sessions_created.read_same [OF v(1) d(1)] by simp
  then show "GetSession (sess_ID s) (w_db w') = Inr s"
    using d(2,3) r by (auto simp: CreatePlayerState_def CreateDealerState_def GetSession_def rounds_def)
  have "GetPlayerState (ps_SessionID p) (ps_UserID p) d2 = Inr p"
    using player_states_created.read_same [OF v(2) d(2)] by simp
  then show "GetPlayerState (ps_SessionID p) (ps_UserID p) (w_db w') = Inr p"
    using d(3) r by (auto simp: CreateDealerState_def GetPlayerState_def rounds_def)
  have "GetDealerState (ds_SessionID x) d3 = Inr x"
    using dealer_states_created.read_same [OF TrueI d(3)] by simp
  then show "GetDealerState (ds_SessionID x) (w_db w') = Inr x"
    using r by (auto simp: GetDealerState_def rounds_def)
  show "\<exists>now. GetRoom (room_ID room) (w_db w') = Inr (room\<lparr>room_UpdatedAt := now\<rparr>)"
    using GetRoom_after_update(1) [OF d(4) v(3)] by blast
qed

text \<open>A new round that was opened and stored, by a start or by a unanimous vote.\<close>

definition round_stored ::
    "bj_lib \<Rightarrow> string \<Rightarrow> string \<Rightarrow> Room \<Rightarrow> GameSession \<Rightarrow> DB \<Rightarrow> bool" where
  "round_stored lib roomID userID room s d \<longleftrightarrow>
     room_ID room = roomID \<and> room_Status room = RoomStatusPlaying
     \<and> room_CurrentSessionID room = Some (sess_ID s)
     \<and> (\<exists>t. GetRoom roomID d = Inr (room\<lparr>room_UpdatedAt := t\<rparr>))
     \<and> GetSession (sess_ID s) d = Inr s \<and> sess_Version s = 1 \<and> sess_RoomID s = roomID
     \<and> sess_DrawIndex s = 4
     \<and> (\<exists>p x. GetPlayerState (sess_ID s) userID d = Inr p \<and> GetDealerState (sess_ID s) d = Inr x
          \<and> round_ok lib s p x \<and> length (ps_Hand p) = 2 \<and> length (ds_Hand x) = 2
          \<and> sess_Status s = (if ev_IsBlackjack (NewHandEvaluator lib) (ps_Hand p)
              then SessionStatusDealerTurn else SessionStatusPlayerTurn))"

lemma open_round_hands:
  assumes "lib_draw_appends lib" "fresh_session s" "open_round (svc lib) now s user = Inr (s', p, x)"
  shows "length (ps_Hand p) = 2" "length (ds_Hand x) = 2" "sess_DrawIndex s' = 4"
proof -
  from assms(3) obtain p0 x0 s1 p1 where
    x0: "NewDealerState (sess_ID s) = Inr x0" and p0: "NewPlayerState (sess_ID s) user 1 = Inr p0" and
    deal: "initialDeal (NewRoundEngine lib) s p0 x0 = Inr (s1, p1, x)" and
    fin: "ps_Hand p = ps_Hand p1" "sess_DrawIndex s' = sess_DrawIndex s1"
    by (auto simp: open_round_def prog_elims Let_def TransitionTo_iff SetTurnDeadline_def end_turn_Inr
        split: if_splits)
  have "ps_Hand p0 = []" "ds_Hand x0 = []"
    using x0 p0 by (auto simp: NewDealerState_def NewPlayerState_def split: if_splits)
  moreover from this have "cards_ok s p0 x0" using assms(2) by (simp add: cards_ok_def fresh_session_def)
  note d = initialDeal_ok [OF assms(1) this deal]
  ultimately show "length (ps_Hand p) = 2" "length (ds_Hand x) = 2" "sess_DrawIndex s' = 4"
    using d(2-4) fin assms(2) by (auto simp: fresh_session_def)
qed

lemma round_stored_create:
  assumes lib: "lib_documented lib"
    and new: "NewGameSession now sid roomID n now = Inr sess" "newShuffledDeck rnd = Inr deck"
    and deal: "open_round (svc lib) now (SetDeck deck sess) userID = Inr (s, p, x)"
    and rec: "RecalculateStatus (room\<lparr>room_CurrentSessionID := Some (sess_ID s)\<rparr>) 1 True = Inr room'"
    and tx: "create_round_tx t p x (Room_Touch now room') e v = (Inr r, v')"
    and f: "t = Session_Touch now s \<or> t = s" and id: "room_ID room = roomID"
  shows "round_stored lib roomID userID (Room_Touch now room') t (w_db v')"
proof -
  have app: "lib_draw_appends lib" using lib by (simp add: lib_documented_def)
  note fresh = fresh_round [OF new]
  note opened = open_round_ok [OF lib fresh(1) deal] open_round_hands [OF app fresh(1) deal]
  have room': "room' = room\<lparr>room_CurrentSessionID := Some (sess_ID s), room_Status := RoomStatusPlaying\<rparr>"
    using rec by (simp add: RecalculateStatus_Inr)
  have fs: "sess_ID t = sess_ID s" "sess_Status t = sess_Status s"
    "sess_ResultSnapshot t = sess_ResultSnapshot s" "sess_Version t = sess_Version s"
    "sess_RoomID t = sess_RoomID s" "sess_DrawIndex t = sess_DrawIndex s"
    "\<And>p x. round_ok lib t p x = round_ok lib s p x"
    using f by (auto simp: round_ok_touch)
  have ids: "ps_SessionID p = sess_ID s" "ds_SessionID x = sess_ID s"
    using opened(1) by (simp_all add: round_ok_def life_ok_def)
  have v: "valid_session t" "valid_player p" "valid_room (Room_Touch now room')"
    using round_ok_valid [OF opened(1)] opened fresh fs room' by simp_all
  note made = round_created [OF tx v]
  show ?thesis
    using made opened fresh fs ids room' id by (simp add: round_stored_def)
qed

lemma StartRoom_stored:
  assumes lib: "lib_documented lib" and run: "StartRoom (svc lib) roomID userID e w = (Inr (room, s), w')"
  shows "round_stored lib roomID userID room s (w_db w')"
  using run
proof (rule StartRoom_run)
  fix room0 n v sid sess deck rnd now s0 p x room' v'
  assume r: "GetRoom roomID (w_db w) = Inr room0"
    and new: "NewGameSession now sid roomID n now = Inr sess" "newShuffledDeck rnd = Inr deck"
    and deal: "open_round (svc lib) now (SetDeck deck sess) userID = Inr (s0, p, x)"
    and rec: "RecalculateStatus (room0\<lparr>room_CurrentSessionID := Some (sess_ID s0)\<rparr>) 1 True = Inr room'"
    and tx: "create_round_tx (Session_Touch now s0) p x (Room_Touch now room') e v = (Inr (), v')"
    and out: "w_db w' = w_db v'" "(room, s) = (Room_Touch now room', Session_Touch now s0)"
  from round_stored_create [OF lib new deal rec tx _ GetRoom_id [OF r]] out show ?thesis by simp
qed

subsection \<open>A timeout\<close>

lemma forfeit_stored:
  assumes lib: "lib_documented lib" and ok: "game_ok lib (w_db w)"
    and sess: "GetSession (sess_ID sess) (w_db w) = Inr sess"
    and p: "ListPlayerStatesBySessionID (sess_ID sess) (w_db w) = Inr (p # ps)"
    and x: "GetDealerState (sess_ID sess) (w_db w) = Inr x"
    and run: "forfeit (svc lib) room sess p x e w = (Inr r, w')"
  shows "\<exists>s' p'. GetSession (sess_ID sess) (w_db w') = Inr s' \<and> sess_Status s' = SessionStatusResetting
     \<and> sess_Version s' = wrap64 (sess_Version sess + 1)
     \<and> ListPlayerStatesBySessionID (sess_ID sess) (w_db w') = Inr [p'] \<and> ps_UserID p' = ps_UserID p
     \<and> ps_Outcome p' = Some OutcomeLose"
proof -
  from ok sess have r: "round_ok lib sess p x"
    and l: "ListPlayerStatesBySessionID (sess_ID sess) (w_db w) = Inr [p]"
    using p x by (auto elim: game_ok_session)
  from run show ?thesis
  proof (rule forfeit_run)
    fix now s' p' x' l0 d1 d2 d3
    assume a: "forfeit_apply (svc lib) now sess p x = Inr (s', p', x', l0)"
      and d: "UpdateSessionIfVersion (Session_Touch now (IncrementVersion s')) (sess_Version sess)
        (w_db w) = (d1, True)" "UpdatePlayerState p' d1 = Inr d2" "UpdateDealerState x' d2 = Inr d3"
        "rounds (w_db w') = rounds d3"
    let ?s = "Session_Touch now (IncrementVersion s')"
    note same = forfeit_apply_same [OF a] and fa = forfeit_apply_ok [OF r a]
    have keys: "distinct (map gs_ID (d_game_sessions (w_db w)))" using ok by (rule game_ok_keys)
    have v: "valid_session ?s" "valid_player p'"
      using round_ok_valid [OF fa(1)] same GetSession_id [OF sess] by simp_all
    from cas_GetSession [OF keys d(1) v(1)] same fa(3) obtain s2 where
      s2: "GetSession (sess_ID sess) d1 = Inr s2" "sess_Version s2 = wrap64 (sess_Version sess + 1)"
        "sess_Status s2 = SessionStatusResetting"
      by (metis (no_types, lifting) GameSession.select_convs(4,5) GameSession.surjective
          GameSession.update_convs(2,3,12) touch_fields)
    have sess': "GetSession (sess_ID sess) (w_db w') = GetSession (sess_ID sess) d1"
      using d(2-4) by (auto simp: UpdatePlayerState_def UpdateDealerState_def GetSession_def rounds_def)
    have "ListPlayerStatesBySessionID (ps_SessionID p') d1 = Inr [p]"
      using l d(1) same r by (auto simp: UpdateSessionIfVersion_def ListPlayerStatesBySessionID_def Let_def
          round_ok_def life_ok_def)
    from list_players_saved [OF this _ v(2) d(2)] same
    have "ListPlayerStatesBySessionID (sess_ID sess) d2 = Inr [p']"
      using r by (simp add: round_ok_def life_ok_def)
    then have "ListPlayerStatesBySessionID (sess_ID sess) (w_db w') = Inr [p']"
      using d(3,4) by (auto simp: UpdateDealerState_def ListPlayerStatesBySessionID_def rounds_def)
    with s2 sess' fa same show ?thesis by auto
  qed
qed

subsection \<open>What a view has read\<close>

lemma GetRoom_uc_run:
  assumes run: "GetRoom_uc roomID userID e w = (Inr (room, osess), w')"
  shows "w_db w' = w_db w" "osess = Some s \<Longrightarrow> GetSession (sess_ID s) (w_db w) = Inr s"
proof -
  show "w_db w' = w_db w" using readonlyD [OF readonly_room_uc(1) run] .
  assume os: "osess = Some s"
  from run obtain room0 v1 v2 where
    r: "store_read (GetRoom roomID) e w = (Inr room0, v1)"
      "room_access room0 roomID userID e v1 = (Inr (), v2)" and
    rest: "(case room_CurrentSessionID room0 of
          None \<Rightarrow> ret (room0, None)
        | Some sid \<Rightarrow>
            bind (attempt (store_read (GetSession sid))) (\<lambda>r.
            case r of
              Inl err \<Rightarrow> if err = ErrNotFound then ret (room0, None) else throw err
            | Inr sess \<Rightarrow> ret (room0, Some sess))) e v2 = (Inr (room, osess), w')"
    by (simp add: GetRoom_uc_def throw_Inr bind_Inr split: if_splits) blast
  have db: "w_db v2 = w_db w"
    using readonlyD [OF readonly_room_access r(2)] r(1) by (auto simp: store_read_Inr)
  from rest os obtain i where "read_answer (GetSession i) e v2 = Inr s"
    by (auto simp: bind_Inr attempt_read_Inr ret_Inr throw_Inr split: option.splits sum.splits if_splits)
  with db have "GetSession i (w_db w) = Inr s" by (simp add: read_answer_Inr)
  with GetSession_id show "GetSession (sess_ID s) (w_db w) = Inr s" by blast
qed

lemma or_absent_Inr [prog_elims]:
  "or_absent x r e w = (Inr y, w') \<longleftrightarrow> w' = w \<and> (r = Inr y \<or> r = Inl ErrNotFound \<and> y = x)"
  by (auto simp: or_absent_def prog_elims split: sum.split if_splits)

lemma GetRoomState_run:
  assumes run: "GetRoomState roomID userID e w = (Inr st, w')" and sess: "st_Session st = Some s"
  shows "GetSession (sess_ID s) (w_db w) = Inr s"
    "st_CanHit st = can_hit s userID (st_Players st)" "st_CanStand st = st_CanHit st"
    "GetDealerState (sess_ID s) (w_db w) = Inr x \<Longrightarrow> st_Dealer st = Some x"
    "ListPlayerStatesBySessionID (sess_ID s) (w_db w) = Inr ps \<Longrightarrow> st_Players st = ps"
proof -
  from run sess obtain room v r1 r2 dealer players where
    uc: "GetRoom_uc roomID userID e w = (Inr (room, Some s), v)"
    and d: "r1 = read_answer (GetDealerState (sess_ID s)) e v"
      "mapR Some r1 = Inr dealer \<or> mapR Some r1 = Inl ErrNotFound \<and> dealer = None"
    and p: "r2 = read_answer (ListPlayerStatesBySessionID (sess_ID s)) e (tick v)"
      "r2 = Inr players \<or> r2 = Inl ErrNotFound \<and> players = []"
    and st: "st_Dealer st = dealer" "st_Players st = players"
      "st_CanHit st = can_hit s userID players" "st_CanStand st = can_hit s userID players"
    by (auto simp: GetRoomState_def prog_elims Let_def split: option.splits prod.splits)
  show "GetSession (sess_ID s) (w_db w) = Inr s" using GetRoom_uc_run(2) [OF uc] by simp
  show "st_CanHit st = can_hit s userID (st_Players st)" "st_CanStand st = st_CanHit st" using st by simp_all
  have v: "w_db v = w_db w" using GetRoom_uc_run(1) [OF uc] .
  show "st_Dealer st = Some x" if "GetDealerState (sess_ID s) (w_db w) = Inr x"
    using that d st(1) v by (auto simp: read_answer_def split: option.splits)
  show "st_Players st = ps" if "ListPlayerStatesBySessionID (sess_ID s) (w_db w) = Inr ps"
    using that p st(2) v by (auto simp: read_answer_def split: option.splits)
qed

subsection \<open>Members of a room\<close>

lemma UpdateRoom_members: "UpdateRoom now r d = Inr d' \<Longrightarrow> d_room_players d' = d_room_players d"
  by (auto simp: UpdateRoom_def)

lemma GetRoomPlayer_id:
  "GetRoomPlayer i u d = Inr p \<Longrightarrow> rp_RoomID p = i \<and> rp_UserID p = u"
  by (auto simp: GetRoomPlayer_def gorm_First_def rpr_key_def split: option.splits sum.splits
      dest!: tbl_first_Some roomPlayer_read_key)

end
