(* ===== verification/Sample_Run.thy ===== *)
theory Sample_Run
  imports Service_Facts
begin

text \<open>
  A concrete run for the instances of the theorems: user \<open>ann\<close> creates a room, joins it and
  starts a round with a shuffle that leaves the deck in factory order, so that she holds A 3 and
  the dealer 2 4. The environment never fails, and answers each call by its number.
\<close>

definition sample_env :: env where
  "sample_env = \<lparr>env_now = (\<lambda>n. int n + 1),
     env_uuid = (\<lambda>n. if n = 1 then ''room'' else if n < 30 then ''r1'' else ''r2''),
     env_rand = (\<lambda>_ m. Some (m - 1)), env_fault = (\<lambda>_. None), env_getenv = (\<lambda>_. []),
     env_sha256hex = (\<lambda>s. s)\<rparr>"

definition sample_start :: world where
  "sample_start = \<lparr>w_db = empty_db, w_calls = 0\<rparr>"

definition sample_room :: Room where
  "sample_room = \<lparr>room_ID = ''room'', room_HostUserID = ''ann'', room_Status = RoomStatusReady,
     room_CurrentSessionID = None, room_CreatedAt = 1, room_UpdatedAt = 10\<rparr>"

definition sample_member :: RoomPlayer where
  "sample_member = \<lparr>rp_RoomID = ''room'', rp_UserID = ''ann'', rp_SeatNo = 1,
     rp_Status = RoomPlayerActive, rp_JoinedAt = 7, rp_LeftAt = None\<rparr>"

definition sample_lobby :: world where
  "sample_lobby = \<lparr>w_db = empty_db\<lparr>d_rooms := [roomRecordFromDomain sample_room],
     d_room_players := [roomPlayerRecordFromDomain sample_member]\<rparr>, w_calls = 12\<rparr>"

definition sample_created :: world where
  "sample_created = \<lparr>w_db = empty_db\<lparr>d_rooms := [\<lparr>rr_ID = ''room'', rr_HostUserID = ''ann'',
     rr_Status = ''WAITING'', rr_CurrentSessionID = None, rr_CreatedAt = 1, rr_UpdatedAt = 1\<rparr>]\<rparr>, w_calls = 4\<rparr>"

lemma serve_create:
  "serve (svc reference_lib) (ReqCreateRoom ''ann'') sample_env sample_start = (Inr (), sample_created)"
  by code_simp

lemma serve_join:
  "serve (svc reference_lib) (ReqJoinRoom ''room'' ''ann'') sample_env sample_created = (Inr (), sample_lobby)"
  by code_simp

lemma factory_take: "take 4 factory_deck =
   [\<lparr>card_Rank = ''A'', card_Suit = ''S''\<rparr>, \<lparr>card_Rank = ''2'', card_Suit = ''S''\<rparr>,
    \<lparr>card_Rank = ''3'', card_Suit = ''S''\<rparr>, \<lparr>card_Rank = ''4'', card_Suit = ''S''\<rparr>]"
  by (simp add: factory_deck_def suits_def ranks_def)

lemma shuffle_loop_identity:
  "k < length xs \<Longrightarrow> shuffle_loop (\<lambda>m. Some (m - 1)) k xs = Inr xs"
  by (induction k) (simp_all add: swap_def)

lemma sample_shuffle: "newShuffledDeck (\<lambda>m. Some (m - Suc 0)) = Inr factory_deck"
  unfolding newShuffledDeck_def
  by (rule shuffle_loop_identity [simplified]) (simp add: length_factory_deck)

definition sample_session :: GameSession where
  "sample_session = \<lparr>sess_ID = ''r1'', sess_RoomID = ''room'', sess_RoundNo = 1,
     sess_Status = SessionStatusPlayerTurn, sess_Version = 1, sess_TurnSeat = 1,
     sess_Deck = factory_deck, sess_DrawIndex = 4, sess_TurnDeadlineAt = Some (16 + PlayerTurnTimeout),
     sess_ResultSnapshot = None, sess_RematchDeadlineAt = None,
     sess_CreatedAt = 16, sess_UpdatedAt = 16\<rparr>"

definition sample_player :: PlayerState where
  "sample_player = \<lparr>ps_SessionID = ''r1'', ps_UserID = ''ann'', ps_SeatNo = 1,
     ps_Hand = [\<lparr>card_Rank = ''A'', card_Suit = ''S''\<rparr>, \<lparr>card_Rank = ''3'', card_Suit = ''S''\<rparr>],
     ps_Status = PlayerStatusActive, ps_Outcome = None, ps_FinalScore = None\<rparr>"

definition sample_dealer :: DealerState where
  "sample_dealer = \<lparr>ds_SessionID = ''r1'',
     ds_Hand = [\<lparr>card_Rank = ''2'', card_Suit = ''S''\<rparr>, \<lparr>card_Rank = ''4'', card_Suit = ''S''\<rparr>],
     ds_HoleHidden = True, ds_FinalScore = None\<rparr>"

definition sample_playing :: Room where
  "sample_playing = sample_room\<lparr>room_Status := RoomStatusPlaying, room_CurrentSessionID := Some ''r1'',
     room_UpdatedAt := 22\<rparr>"

definition sample_round :: world where
  "sample_round = \<lparr>w_db = empty_db\<lparr>d_rooms := [roomRecordFromDomain sample_playing],
     d_room_players := [roomPlayerRecordFromDomain sample_member],
     d_game_sessions := [gameSessionRecordFromDomain sample_session],
     d_player_states := [playerStateRecordFromDomain sample_player],
     d_dealer_states := [dealerStateRecordFromDomain sample_dealer]\<rparr>, w_calls = 24\<rparr>"

lemma factory_nth: "factory_deck ! 0 = \<lparr>card_Rank = ''A'', card_Suit = ''S''\<rparr>"
  "factory_deck ! 1 = \<lparr>card_Rank = ''2'', card_Suit = ''S''\<rparr>"
  "factory_deck ! 2 = \<lparr>card_Rank = ''3'', card_Suit = ''S''\<rparr>"
  "factory_deck ! 3 = \<lparr>card_Rank = ''4'', card_Suit = ''S''\<rparr>"
  "factory_deck ! 4 = \<lparr>card_Rank = ''5'', card_Suit = ''S''\<rparr>"
  by (simp_all add: factory_deck_def suits_def ranks_def)




text \<open>The calls of the start, one by one.\<close>

abbreviation lobby_at :: "nat \<Rightarrow> world" where
  "lobby_at n \<equiv> sample_lobby\<lparr>w_calls := n\<rparr>"

definition sample_fresh :: GameSession where
  "sample_fresh = \<lparr>sess_ID = ''r1'', sess_RoomID = ''room'', sess_RoundNo = 1, sess_Status = SessionStatusDealing,
       sess_Version = 1, sess_TurnSeat = 1, sess_Deck = [], sess_DrawIndex = 0,
       sess_TurnDeadlineAt = None, sess_ResultSnapshot = None, sess_RematchDeadlineAt = None,
       sess_CreatedAt = 16, sess_UpdatedAt = 16\<rparr>"

lemma start_reads:
  "store_read (GetRoom ''room'') sample_env sample_lobby = (Inr sample_room, lobby_at 13)"
  "store_read (GetRoomPlayer ''room'' ''ann'') sample_env (lobby_at 13) = (Inr sample_member, lobby_at 14)"
  "next_round_no ''room'' sample_env (lobby_at 14) = (Inr 1, lobby_at 15)"
  by code_simp+

lemma start_calls:
  "io_now sample_env (lobby_at 15) = (Inr 16, lobby_at 16)"
  "io_uuid sample_env (lobby_at 16) = (Inr ''r1'', lobby_at 17)"
  "io_deck sample_env (lobby_at 17) = (Inr factory_deck, lobby_at 18)"
  by (simp_all add: io_now_def io_uuid_def io_deck_def sample_env_def sample_shuffle)

lemma start_values:
  "NewGameSession 16 ''r1'' ''room'' 1 16 = Inr sample_fresh"
  "open_round (svc reference_lib) 16 (SetDeck factory_deck sample_fresh) ''ann'' =
     Inr (sample_session, sample_player, sample_dealer)"
  "RecalculateStatus (sample_room\<lparr>room_CurrentSessionID := Some (sess_ID sample_session)\<rparr>) 1 True =
     Inr (sample_playing\<lparr>room_UpdatedAt := 10\<rparr>)"
  "Room_Touch 16 (sample_playing\<lparr>room_UpdatedAt := 10\<rparr>) = sample_playing\<lparr>room_UpdatedAt := 16\<rparr>"
  "Session_Touch 16 sample_session = sample_session"
  by code_simp+

lemma start_commit:
  "transaction (create_round_tx sample_session sample_player sample_dealer
      (sample_playing\<lparr>room_UpdatedAt := 16\<rparr>)) sample_env (lobby_at 18) = (Inr (), sample_round)"
  by code_simp

lemma sample_guards:
  "room_HostUserID sample_room = ''ann''" "room_Status sample_room = RoomStatusReady"
  "in_room sample_member" "room_CurrentSessionID sample_room = None"
  by code_simp+

lemma serve_start:
  "serve (svc reference_lib) (ReqStartRoom ''room'' ''ann'') sample_env sample_lobby = (Inr (), sample_round)"
  by (simp add: void_def bind_def StartRoom_def start_reads start_calls start_values start_commit
    sample_guards guard_def ret_def lift_def Let_def del: One_nat_def)

subsection \<open>What is read, and a turn\<close>

lemma reachable_sample:
  "reachable (svc reference_lib) (w_db sample_start)"
  "reachable (svc reference_lib) (w_db sample_created)"
  "reachable (svc reference_lib) (w_db sample_lobby)"
  "reachable (svc reference_lib) (w_db sample_round)"
proof -
  show 0: "reachable (svc reference_lib) (w_db sample_start)"
    by (simp add: sample_start_def reach_empty)
  show 1: "reachable (svc reference_lib) (w_db sample_created)"
    by (rule reach_serve [OF 0 serve_create])
  show 2: "reachable (svc reference_lib) (w_db sample_lobby)"
    by (rule reach_serve [OF 1 serve_join])
  show "reachable (svc reference_lib) (w_db sample_round)"
    by (rule reach_serve [OF 2 serve_start])
qed

lemma sample_keys [simp]:
  "room_ID sample_playing = ''room''" "room_CurrentSessionID sample_playing = Some ''r1''"
  "room_HostUserID sample_playing = ''ann''"
  "room_Status sample_playing = RoomStatusPlaying"
  "sess_ID sample_session = ''r1''" "sess_RoomID sample_session = ''room''"
  "sess_Version sample_session = 1" "sess_Status sample_session = SessionStatusPlayerTurn"
  "sess_ResultSnapshot sample_session = None"
  "ps_SessionID sample_player = ''r1''" "ps_UserID sample_player = ''ann''"
  "ps_Status sample_player = PlayerStatusActive" "ps_Outcome sample_player = None"
  "ds_SessionID sample_dealer = ''r1''"
  by (simp_all add: sample_playing_def sample_room_def sample_session_def sample_player_def sample_dealer_def)

lemma sample_reads:
  "GetRoom ''room'' (w_db sample_round) = Inr sample_playing"
  "GetSession ''r1'' (w_db sample_round) = Inr sample_session"
  "GetPlayerState ''r1'' ''ann'' (w_db sample_round) = Inr sample_player"
  "ListPlayerStatesBySessionID ''r1'' (w_db sample_round) = Inr [sample_player]"
  "GetDealerState ''r1'' (w_db sample_round) = Inr sample_dealer"
proof -
  have "psr_SessionID (playerStateRecordFromDomain sample_player) = ''r1''"
    by (simp add: playerStateRecordFromDomain_def)
  then show "ListPlayerStatesBySessionID ''r1'' (w_db sample_round) = Inr [sample_player]"
    by (simp add: sample_round_def ListPlayerStatesBySessionID_def player_roundtrip)
qed (simp_all add: sample_round_def GetRoom_def GetSession_def GetPlayerState_def
      GetDealerState_def gorm_First_def row_roundtrips)

lemma sample_load:
  "turn_load ''room'' ''ann'' 1 sample_env sample_round =
     (Inr (sample_playing, sample_session, sample_player, sample_dealer), sample_round\<lparr>w_calls := 28\<rparr>)"
proof -
  have f: "env_fault sample_env n = None" for n by (simp add: sample_env_def)
  have c: "w_calls sample_round = 24" by (simp add: sample_round_def)
  have a: "AssertCanHitOrStand sample_player (Some sample_session) ''ann'' = None" by code_simp
  show ?thesis
    by (simp add: turn_load_def bind_def store_read_def store_op_def attempt_def sample_reads f check_def ret_def
      CheckVersion_def a c)
qed

definition sample_log :: "bool \<Rightarrow> ActionLog" where
  "sample_log hit = turn_log ''r1'' ''ann'' ''a1'' hit (turn_payload hit 1)"

lemma sample_ensure:
  "EnsureActionIdempotency (sample_log True) sample_env (sample_round\<lparr>w_calls := 28\<rparr>) = (Inr ([], False), sample_round\<lparr>w_calls := 29\<rparr>)"
  "EnsureActionIdempotency (sample_log False) sample_env (sample_round\<lparr>w_calls := 28\<rparr>) = (Inr ([], False), sample_round\<lparr>w_calls := 29\<rparr>)"
  by code_simp+

definition sample_commit :: "bool \<Rightarrow> turn_commit" where
  "sample_commit hit = (case turn_compute (svc reference_lib) hit (sample_log hit)
      (sample_playing, sample_session, sample_player, sample_dealer) sample_env (sample_round\<lparr>w_calls := 29\<rparr>) of
    (Inr c, _) \<Rightarrow> c)"

lemma sample_compute:
  "turn_compute (svc reference_lib) True (sample_log True)
      (sample_playing, sample_session, sample_player, sample_dealer) sample_env (sample_round\<lparr>w_calls := 29\<rparr>)
   = (Inr (sample_commit True), sample_round\<lparr>w_calls := 30\<rparr>)"
  "turn_compute (svc reference_lib) False (sample_log False)
      (sample_playing, sample_session, sample_player, sample_dealer) sample_env (sample_round\<lparr>w_calls := 29\<rparr>)
   = (Inr (sample_commit False), sample_round\<lparr>w_calls := 30\<rparr>)"
  by code_simp+

lemma sample_prepare:
  "turn_prepare (svc reference_lib) ''room'' ''ann'' 1 ''a1'' hit sample_env sample_round =
     (Inr (Inr (sample_commit hit)), sample_round\<lparr>w_calls := 30\<rparr>)"
proof -
  have sha: "sha256hex p sample_env w = (Inr p, w)" for p w by (simp add: sha256hex_def sample_env_def)
  show ?thesis
    by (cases hit) (simp_all add: turn_prepare_def bind_def sample_load sha sample_ensure [unfolded sample_log_def]
        sample_compute [unfolded sample_log_def] ret_def Let_def)
qed

lemma sample_tx: "fst (transaction (turn_tx 1 (sample_commit True)) sample_env (sample_round\<lparr>w_calls := 30\<rparr>)) = Inr ()"
  by code_simp

lemma sample_round_ok: "round_ok reference_lib sample_session sample_player sample_dealer"
  using game_ok_session [OF reachable_game_ok [OF reference_lib_documented reachable_sample(4)] sample_reads(2)]
    sample_reads(4,5) by auto

definition sample_stand :: "GameSession \<times> PlayerState" where
  "sample_stand = past_turn PlayerStatusStand sample_session sample_player"

lemma sample_stand_ok:
  "round_ok reference_lib (fst sample_stand) (snd sample_stand) sample_dealer"
  "sess_Status (fst sample_stand) = SessionStatusDealerTurn"
proof -
  have "turn_apply (svc reference_lib) False 0 sample_session sample_player = Inr (fst sample_stand, snd sample_stand)"
    using turn_stand [OF sample_keys(8)] by (simp add: sample_stand_def)
  from turn_apply_ok [OF reference_lib_documented sample_round_ok sample_keys(8) this]
  show "round_ok reference_lib (fst sample_stand) (snd sample_stand) sample_dealer" .
qed (simp add: sample_stand_def past_turn_def)

definition late_env :: env where
  "late_env = sample_env\<lparr>env_now := (\<lambda>n. 20 * Second + int n)\<rparr>"

lemma sample_forfeit:
  "fst (forfeit (svc reference_lib) sample_playing sample_session sample_player sample_dealer late_env
      (sample_round\<lparr>w_calls := 29\<rparr>)) = Inr ()"
  by code_simp

lemma sample_denial:
  "case fst (cast_vote (svc reference_lib) sample_playing ''room'' sample_session ''ann'' False 1
     (vote_log ''r1'' ''ann'' ''v1'' ''h'') sample_env sample_round) of Inl _ \<Rightarrow> False | Inr _ \<Rightarrow> True"
  by code_simp

abbreviation round_at :: "nat \<Rightarrow> world" where
  "round_at n \<equiv> sample_round\<lparr>w_calls := n\<rparr>"

definition sample_next :: "GameSession \<times> PlayerState \<times> DealerState" where
  "sample_next = (case open_round (svc reference_lib) 50 (SetDeck factory_deck
      (sample_fresh\<lparr>sess_ID := ''r2'', sess_RoundNo := 2, sess_CreatedAt := 50, sess_UpdatedAt := 50\<rparr>)) ''ann''
    of Inr t \<Rightarrow> t)"

definition sample_again :: Room where
  "sample_again = sample_playing\<lparr>room_CurrentSessionID := Some ''r2'', room_UpdatedAt := 50\<rparr>"

lemma bump_values:
  "NewGameSession 50 ''r2'' ''room'' (wrap64 (sess_RoundNo (Session_Touch 50 (IncrementVersion sample_session)) + 1)) 50 =
     Inr (sample_fresh\<lparr>sess_ID := ''r2'', sess_RoundNo := 2, sess_CreatedAt := 50, sess_UpdatedAt := 50\<rparr>)"
  "open_round (svc reference_lib) 50 (SetDeck factory_deck
      (sample_fresh\<lparr>sess_ID := ''r2'', sess_RoundNo := 2, sess_CreatedAt := 50, sess_UpdatedAt := 50\<rparr>)) ''ann'' = Inr sample_next"
  "map_sum id (Room_Touch 50) (RecalculateStatus (sample_playing\<lparr>room_CurrentSessionID := Some (sess_ID (fst sample_next))\<rparr>) 1 True) = Inr sample_again"
  by code_simp+

lemma bump_deck: "io_deck sample_env w = (Inr factory_deck, tick w)"
  by (simp add: io_deck_def sample_env_def sample_shuffle)

lemma sample_state:
  "\<exists>st. GetRoomState ''room'' ''ann'' sample_env sample_round = (Inr st, sample_round\<lparr>w_calls := 28\<rparr>)
     \<and> st_Session st = Some sample_session \<and> st_Dealer st = Some sample_dealer \<and> st_Players st = [sample_player]
     \<and> st_CanHit st"
proof -
  have f: "env_fault sample_env n = None" "w_calls sample_round = 24" for n
    by (simp_all add: sample_env_def sample_round_def)
  have "can_hit sample_session ''ann'' [sample_player]" by code_simp
  then show ?thesis
    by (simp add: GetRoomState_def GetRoom_uc_def room_access_def bind_def store_read_def store_op_def
      attempt_def ret_def or_absent_def f sample_reads Let_def)
qed

definition hidden_state :: "StoredCard \<Rightarrow> RoomState" where
  "hidden_state c = \<lparr>st_Room = sample_playing, st_Session = Some sample_session,
     st_Dealer = Some (sample_dealer\<lparr>ds_Hand := [\<lparr>card_Rank = ''2'', card_Suit = ''S''\<rparr>, c]\<rparr>),
     st_Players = [sample_player, sample_player\<lparr>ps_UserID := ''bob'', ps_Hand := [c]\<rparr>],
     st_CanHit = True, st_CanStand = True, st_CanRematch = False\<rparr>"

definition sample_stale :: world where
  "sample_stale = \<lparr>w_db = empty_db\<lparr>d_rooms := [roomRecordFromDomain sample_room],
     d_game_sessions := [gameSessionRecordFromDomain (sample_session\<lparr>sess_Status := SessionStatusResetting,
       sess_RematchDeadlineAt := Some 20\<rparr>)]\<rparr>, w_calls = 50\<rparr>"

end
