(* ===== verification/Round_Properties.thy ===== *)
theory Round_Properties
  imports Sample_Run
begin

text \<open>
  The properties of a round: what a start stores, who may move and what a move does, that the
  dealer finishes, and what happens when two requests meet or the time is up.
\<close>

text \<open>
  C10. A successful start was asked for by the host of a ready room without a session, seated
  in it, and stores a consistent round: version 1, two cards each, four drawn, the room
  playing it; with a natural blackjack it is the dealer's turn at once.
\<close>

theorem start_opens_round:
  assumes "lib_documented lib" "StartRoom (svc lib) roomID userID e w = (Inr (room, s), w')"
  shows "round_stored lib roomID userID room s (w_db w')
    \<and> (\<exists>r0 m. GetRoom roomID (w_db w) = Inr r0 \<and> room_HostUserID r0 = userID
         \<and> room_Status r0 = RoomStatusReady \<and> room_CurrentSessionID r0 = None
         \<and> GetRoomPlayer roomID userID (w_db w) = Inr m \<and> in_room m)"
proof -
  have "\<exists>r0 m. GetRoom roomID (w_db w) = Inr r0 \<and> room_HostUserID r0 = userID
         \<and> room_Status r0 = RoomStatusReady \<and> room_CurrentSessionID r0 = None
         \<and> GetRoomPlayer roomID userID (w_db w) = Inr m \<and> in_room m"
    using assms(2) by (auto simp: StartRoom_def prog_elims Let_def split: if_splits)
  with StartRoom_stored [OF assms] show ?thesis by blast
qed

theorem start_opens_round_witness:
  "\<exists>room s. round_stored reference_lib ''room'' ''ann'' room s (w_db sample_round)"
proof -
  from serve_start obtain r where "StartRoom (svc reference_lib) ''room'' ''ann'' sample_env sample_lobby = (Inr r, sample_round)"
    by (auto simp: void_def prog_elims)
  with start_opens_round [OF reference_lib_documented, of "''room''" "''ann''" sample_env sample_lobby "fst r" "snd r" sample_round]
  show ?thesis by auto
qed

text \<open>
  C8. In every reachable store a session on the player's turn can be moved on: neither a hit
  nor a stand ever fails for the single player (the deck never runs out), and the moved round
  is a consistent round again.
\<close>

theorem turn_always_possible:
  assumes "lib_documented lib" "reachable (svc lib) d" "GetSession i d = Inr s"
    and "sess_Status s = SessionStatusPlayerTurn"
  shows "\<exists>p x. ListPlayerStatesBySessionID i d = Inr [p] \<and> GetDealerState i d = Inr x
    \<and> (\<forall>hit now. \<exists>s' p'. turn_apply (svc lib) hit now s p = Inr (s', p') \<and> round_ok lib s' p' x)"
proof -
  from game_ok_session [OF reachable_game_ok [OF assms(1,2)] assms(3)] obtain p x where
    r: "ListPlayerStatesBySessionID i d = Inr [p]" "GetDealerState i d = Inr x" "round_ok lib s p x" .
  have "\<exists>s' p'. turn_apply (svc lib) hit now s p = Inr (s', p') \<and> round_ok lib s' p' x" for hit now
    using turn_apply_total [OF assms(1) r(3) assms(4), of hit now] turn_apply_ok [OF assms(1) r(3) assms(4)]
    by fast
  with r show ?thesis by blast
qed

theorem turn_always_possible_witness:
  "\<exists>p x. ListPlayerStatesBySessionID ''r1'' (w_db sample_round) = Inr [p]
    \<and> (\<forall>hit now. \<exists>s' p'. turn_apply (svc reference_lib) hit now sample_session p = Inr (s', p')
         \<and> round_ok reference_lib s' p' x)"
  using turn_always_possible [OF reference_lib_documented reachable_sample(4) sample_reads(2) sample_keys(8)]
  by blast

text \<open>
  C11. A hit on the player's turn of a consistent round gives the player the next card of the
  deck and nothing else; over 21 the player is bust and the dealer's turn begins, otherwise a
  new deadline is set. The branch for a blackjack after a hit is never taken.
\<close>

theorem hit_outcome:
  assumes "lib_documented lib" "round_ok lib s p x" "sess_Status s = SessionStatusPlayerTurn"
  shows "turn_apply (svc lib) True now s p =
    (let h = ps_Hand p @ [sess_Deck s ! nat (sess_DrawIndex s)];
         s1 = s\<lparr>sess_DrawIndex := sess_DrawIndex s + 1\<rparr>
     in if ev_Value (NewHandEvaluator lib) h > 21
        then Inr (s1\<lparr>sess_Status := SessionStatusDealerTurn, sess_TurnDeadlineAt := None\<rparr>,
                  p\<lparr>ps_Hand := h, ps_Status := PlayerStatusBust\<rparr>)
        else Inr (s1\<lparr>sess_TurnDeadlineAt := Some (now + PlayerTurnTimeout)\<rparr>, p\<lparr>ps_Hand := h\<rparr>))"
proof -
  have app: "lib_draw_appends lib" and cnt: "lib_counts lib"
    using assms(1) by (simp_all add: lib_documented_def)
  have c: "cards_ok s p x" and two: "2 \<le> length (ps_Hand p)"
    using assms(2) by (auto simp: round_ok_def life_ok_def)
  have "length (ps_Hand p) + length (ds_Hand x) < 52"
    using round_ok_player_length [OF cnt assms(2,3)] by simp
  from deal_total(1) [OF app c this] obtain s1 h
    where d: "deal_one (NewRoundEngine lib) s (ps_Hand p) = Inr (s1, h)" by blast
  from d deal_one_iff [OF app cards_ok_facts(1,5) [OF c]]
  have h: "h = ps_Hand p @ [sess_Deck s ! nat (sess_DrawIndex s)]"
    and s1: "s1 = s\<lparr>sess_DrawIndex := sess_DrawIndex s + 1\<rparr>" by auto
  have nobj: "\<not> ev_IsBlackjack (NewHandEvaluator lib) h"
    using two h by (auto simp: adapter.blackjack_iff)
  from turn_hit_dealt [OF assms(3), of "svc lib" p s1 h now] d nobj h s1 show ?thesis
    by (simp add: past_turn_def Let_def)
qed

theorem hit_outcome_witness:
  "turn_apply (svc reference_lib) True 30 sample_session sample_player =
     Inr (sample_session\<lparr>sess_DrawIndex := 5, sess_TurnDeadlineAt := Some (30 + PlayerTurnTimeout)\<rparr>,
       sample_player\<lparr>ps_Hand := ps_Hand sample_player @ [\<lparr>card_Rank = ''5'', card_Suit = ''S''\<rparr>]\<rparr>)"
proof -
  have v: "ev_Value (NewHandEvaluator reference_lib)
      (ps_Hand sample_player @ [\<lparr>card_Rank = ''5'', card_Suit = ''S''\<rparr>]) = 19" by code_simp
  have "sess_Deck sample_session = factory_deck" "sess_DrawIndex sample_session = 4"
    by (simp_all add: sample_session_def)
  with hit_outcome [OF reference_lib_documented sample_round_ok sample_keys(8), of 30] v factory_nth(5)
  show ?thesis by (simp add: Let_def)
qed

text \<open>
  C3. Of two turns prepared from the same state with the same expected version, once one has
  committed the other fails and leaves the store as it is, with a version conflict unless the
  store itself fails: the optimistic lock lets at most one through.
\<close>

theorem concurrent_turns_exclusive:
  assumes "db_ok (w_db w)"
    and "turn_prepare u roomID user1 n a1 hit1 e1 w = (Inr (Inr c1), v1)"
    and "turn_prepare u roomID user2 n a2 hit2 e2 w = (Inr (Inr c2), v2)"
    and "transaction (turn_tx n c1) e1 w1 = (Inr (), w1')" "w_db w1 = w_db w"
    and "w_db w2 = w_db w1'"
  shows "\<exists>err w2'. transaction (turn_tx n c2) e2 w2 = (Inl err, w2') \<and> w_db w2' = w_db w1'
    \<and> (env_fault e2 (w_calls w2) = None \<longrightarrow> err = ErrVersionConflict)"
  using assms by (rule second_commit_fails)

theorem concurrent_turns_exclusive_witness:
  "\<exists>w1 err w2. transaction (turn_tx 1 (sample_commit True)) sample_env (sample_round\<lparr>w_calls := 30\<rparr>) = (Inr (), w1)
     \<and> transaction (turn_tx 1 (sample_commit False)) sample_env w1 = (Inl err, w2) \<and> w_db w2 = w_db w1
     \<and> err = ErrVersionConflict"
proof -
  obtain w1 where tx: "transaction (turn_tx 1 (sample_commit True)) sample_env (sample_round\<lparr>w_calls := 30\<rparr>) = (Inr (), w1)"
    using sample_tx by (metis prod.collapse)
  have ok: "db_ok (w_db sample_round)" by (rule reachable_db_ok [OF reachable_sample(4)])
  from concurrent_turns_exclusive [OF ok sample_prepare sample_prepare tx _ refl]
  have "\<exists>err w2. transaction (turn_tx 1 (sample_commit False)) sample_env w1 = (Inl err, w2)
    \<and> w_db w2 = w_db w1 \<and> err = ErrVersionConflict" by (fastforce simp: sample_env_def)
  with tx show ?thesis by blast
qed

theorem resent_turn_conflicts:
  assumes "db_ok (w_db w)"
    and "turn_prepare u roomID userID n actionID hit e w = (Inr (Inr c), v)"
    and "playerTurn u roomID userID n actionID hit e w = (Inr r, w')"
    and "env_fault e' (w_calls w') = None" "env_fault e' (Suc (w_calls w')) = None"
  shows "fst (playerTurn u roomID userID n actionID hit e' w') = Inl ErrVersionConflict"
  using assms by (rule committed_turn_not_repeated)

theorem resent_turn_conflicts_witness:
  "\<exists>r w'. Hit (svc reference_lib) ''room'' ''ann'' 1 ''a1'' sample_env sample_round = (Inr r, w')
     \<and> fst (Hit (svc reference_lib) ''room'' ''ann'' 1 ''a1'' sample_env w') = Inl ErrVersionConflict"
proof -
  obtain w1 where "transaction (turn_tx 1 (sample_commit True)) sample_env (sample_round\<lparr>w_calls := 30\<rparr>) = (Inr (), w1)"
    using sample_tx by (metis prod.collapse)
  then have run: "playerTurn (svc reference_lib) ''room'' ''ann'' 1 ''a1'' True sample_env sample_round =
      (Inr (tc_room (sample_commit True), tc_sess (sample_commit True)), w1)"
    by (simp add: playerTurn_def bind_def sample_prepare ret_def)
  have ok: "db_ok (w_db sample_round)" by (rule reachable_db_ok [OF reachable_sample(4)])
  have "env_fault sample_env k = None" for k by (simp add: sample_env_def)
  from resent_turn_conflicts [OF ok sample_prepare run this this] run show ?thesis
    by (simp add: Hit_def)
qed

text \<open>
  C9. From any consistent round on the dealer's turn, at most 16 steps of the dealer end the
  round with a result, and the dealer's hand is then at least 17.
\<close>

theorem dealer_finishes:
  assumes "lib_documented lib" "round_ok lib s p x" "sess_Status s = SessionStatusDealerTurn"
  shows "\<exists>s' p' x'. dealer_steps (svc lib) now 16 (s, p, x) = Inr (s', p', x')
    \<and> sess_Status s' = SessionStatusResetting \<and> round_ok lib s' p' x'
    \<and> 17 \<le> ev_Value (NewHandEvaluator lib) (ds_Hand x')"
proof -
  have "2 \<le> length (ds_Hand x)" using assms(2) by (auto simp: round_ok_def life_ok_def)
  then have "18 - length (ds_Hand x) \<le> 16" by simp
  from dealer_steps_finish [OF assms this] show ?thesis .
qed

theorem dealer_finishes_witness:
  "\<exists>s' p' x'. dealer_steps (svc reference_lib) (\<lambda>_. 100) 16
      (fst sample_stand, snd sample_stand, sample_dealer) = Inr (s', p', x')
    \<and> sess_Status s' = SessionStatusResetting
    \<and> 17 \<le> ev_Value (NewHandEvaluator reference_lib) (ds_Hand x')"
  using dealer_finishes [OF reference_lib_documented sample_stand_ok, of "\<lambda>_. 100"] by blast

theorem timeout_forfeits:
  assumes "lib_documented lib" "reachable (svc lib) (w_db w)"
    and "GetSession sid (w_db w) = Inr s" "sess_Status s = SessionStatusPlayerTurn"
    and "due (sess_TurnDeadlineAt s) (env_now e (Suc (w_calls w)))"
    and "TrimSpace (env_getenv e ''BLACKJACK_PLAYER_TIMEOUT_POLICY'') \<noteq> ''heuristic''"
    and "playerStand (svc lib) sid e w = (Inr (), w')"
  shows "\<exists>s' p'. GetSession sid (w_db w') = Inr s' \<and> sess_Status s' = SessionStatusResetting
     \<and> sess_Version s' = wrap64 (sess_Version s + 1)
     \<and> ListPlayerStatesBySessionID sid (w_db w') = Inr [p'] \<and> ps_Outcome p' = Some OutcomeLose"
proof -
  have id: "sess_ID s = sid" using GetSession_id [OF assms(3)] by simp
  from assms(3-7) obtain room p x v k where
    l: "load_round s e (w\<lparr>w_calls := k\<rparr>) = (Inr (room, p, x), v)" and
    f: "forfeit (svc lib) room s p x e v = (Inr (), w')"
    by (auto simp: playerStand_def timeout_move_def prog_elims split: if_splits)
  from load_round_run [OF l] obtain ps where
    p: "ListPlayerStatesBySessionID (sess_ID s) (w_db v) = Inr (p # ps)"
    and x: "GetDealerState (sess_ID s) (w_db v) = Inr x" and v: "w_db v = w_db w" by auto
  have ok: "game_ok lib (w_db v)" using reachable_game_ok [OF assms(1,2)] v by simp
  have s: "GetSession (sess_ID s) (w_db v) = Inr s" using assms(3) id v by simp
  from forfeit_stored [OF assms(1) ok s p x f] id show ?thesis by auto
qed

theorem timeout_forfeits_witness:
  "\<exists>w'. playerStand (svc reference_lib) ''r1'' late_env sample_round = (Inr (), w')
    \<and> (\<exists>p'. ListPlayerStatesBySessionID ''r1'' (w_db w') = Inr [p'] \<and> ps_Outcome p' = Some OutcomeLose)
    \<and> ResolveRoundOutcome (NewHandEvaluator reference_lib) (ps_Hand sample_player) (ds_Hand sample_dealer)
        = Inr OutcomeWin"
proof -
  let ?w = "sample_round\<lparr>w_calls := 29\<rparr>"
  obtain w' where f: "forfeit (svc reference_lib) sample_playing sample_session sample_player
      sample_dealer late_env ?w = (Inr (), w')" using sample_forfeit by (metis prod.collapse)
  have e: "env_fault late_env n = None" "env_now late_env n = 20 * Second + int n"
    "env_getenv late_env i = []" for n i by (simp_all add: late_env_def sample_env_def)
  have d: "due (sess_TurnDeadlineAt sample_session) (20 * Second + int (Suc (w_calls sample_round)))"
    by (simp add: due_def sample_session_def Second_def PlayerTurnTimeout_def sample_round_def)
  have c: "w_calls sample_round = 24" by (simp add: sample_round_def)
  have run: "playerStand (svc reference_lib) ''r1'' late_env sample_round = (Inr (), w')"
    using d c by (simp add: playerStand_def load_round_def timeout_move_def bind_def store_read_def
        store_op_def io_now_def io_getenv_def ret_def e sample_reads f TrimSpace_def)
  have "ResolveRoundOutcome (NewHandEvaluator reference_lib) (ps_Hand sample_player)
      (ds_Hand sample_dealer) = Inr OutcomeWin" by code_simp
  moreover have "TrimSpace (env_getenv late_env ''BLACKJACK_PLAYER_TIMEOUT_POLICY'') \<noteq> ''heuristic''"
    by (simp add: e TrimSpace_def)
  ultimately show ?thesis
    using timeout_forfeits [OF reference_lib_documented reachable_sample(4) sample_reads(2) sample_keys(8) _ _ run] d e run
    by auto
qed


end
