(* ===== verification/Room_Invariant.thy ===== *)
theory Room_Invariant
  imports Sample_Run
begin

text \<open>
  What a room says of itself, in every store the server reaches: who may sit in it, and that its
  status is the one the specification derives from its session and its seat (section 9.1 of the
  specification: playing while there is a current session, else ready with a player in the seat,
  else waiting). Every use case that touches a room, a seat or a session is shown to keep that.
\<close>

subsection \<open>The rule on rows\<close>

definition seated_in :: "DB \<Rightarrow> string \<Rightarrow> bool" where
  "seated_in d i \<longleftrightarrow>
     (\<exists>p \<in> set (d_room_players d). rpr_RoomID p = i \<and> rpr_Status p \<in> {''ACTIVE'', ''DISCONNECTED''})"

definition session_of :: "DB \<Rightarrow> string \<Rightarrow> string \<Rightarrow> bool" where
  "session_of d sid i \<longleftrightarrow> (sid, i) \<in> set (map (\<lambda>g. (gs_ID g, gs_RoomID g)) (d_game_sessions d))"

text \<open>Who sits in a room is its host, and its current session is a session of it.\<close>

definition host_seat :: "DB \<Rightarrow> RoomRecord \<Rightarrow> bool" where
  "host_seat d r \<longleftrightarrow> (\<forall>p \<in> set (d_room_players d). rpr_RoomID p = rr_ID r \<longrightarrow> rpr_UserID p = rr_HostUserID r)
     \<and> (\<forall>sid. rr_CurrentSessionID r = Some sid \<longrightarrow> session_of d sid (rr_ID r))"

definition ruled :: "DB \<Rightarrow> RoomRecord \<Rightarrow> bool" where
  "ruled d r \<longleftrightarrow> rr_Status r =
     (if rr_CurrentSessionID r \<noteq> None then ''PLAYING'' else if seated_in d (rr_ID r) then ''READY'' else ''WAITING'')"

definition rooms_ok :: "DB \<Rightarrow> bool" where
  "rooms_ok d \<longleftrightarrow> (\<forall>r \<in> set (d_rooms d). host_seat d r \<and> ruled d r)"

text \<open>In the middle of a transaction the status of one room may not be up to date.\<close>

definition rooms_ok_but :: "string \<Rightarrow> DB \<Rightarrow> bool" where
  "rooms_ok_but i d \<longleftrightarrow> (\<forall>r \<in> set (d_rooms d). host_seat d r \<and> (rr_ID r \<noteq> i \<longrightarrow> ruled d r))"

definition host_is :: "string \<Rightarrow> string \<Rightarrow> DB \<Rightarrow> bool" where
  "host_is i h d \<longleftrightarrow> (\<exists>r \<in> set (d_rooms d). rr_ID r = i)
     \<and> (\<forall>r \<in> set (d_rooms d). rr_ID r = i \<longrightarrow> rr_HostUserID r = h)"

lemma rooms_ok_weaken: "rooms_ok d \<Longrightarrow> rooms_ok_but i d"
  by (simp add: rooms_ok_def rooms_ok_but_def)

lemma room_read:
  assumes "db_ok d" "GetRoom i d = Inr room"
  shows "host_is i (room_HostUserID room) d" "room_ID room = i"
    and "rooms_ok d \<Longrightarrow> room_CurrentSessionID room = Some sid \<Longrightarrow> session_of d sid i"
proof -
  from assms(2) obtain r where r: "r \<in> set (d_rooms d)" "rr_ID r = i" and dom: "roomRecordToDomain r = Inr room"
    by (auto simp: GetRoom_def gorm_First_Inr split: sum.splits dest!: tbl_first_Some)
  have f: "rr_HostUserID r = room_HostUserID room" "rr_ID r = room_ID room" "rr_CurrentSessionID r = room_CurrentSessionID room"
    using dom by (auto simp: roomRecordToDomain_def Let_def split: if_splits)
  have inj: "inj_on rr_ID (set (d_rooms d))" using assms(1) by (simp add: db_ok_def keys_ok_def unique_by_def distinct_map)
  have only: "x = r" if "x \<in> set (d_rooms d)" "rr_ID x = i" for x
    by (rule inj_onD [OF inj _ that(1) r(1)]) (simp add: that(2) r(2))
  have "\<forall>x \<in> set (d_rooms d). rr_ID x = i \<longrightarrow> rr_HostUserID x = room_HostUserID room"
  proof (intro ballI impI)
    fix x
    assume "x \<in> set (d_rooms d)" "rr_ID x = i"
    with only have "x = r" .
    with f(1) show "rr_HostUserID x = room_HostUserID room" by simp
  qed
  with r(1,2) show "host_is i (room_HostUserID room) d" unfolding host_is_def by blast
  show "room_ID room = i" using f(2) r(2) by simp
  show "session_of d sid i" if "rooms_ok d" "room_CurrentSessionID room = Some sid"
    using that r f by (auto simp: rooms_ok_def host_seat_def)
qed

subsection \<open>Programs beside the rooms\<close>

definition beside_rooms :: "DB \<Rightarrow> DB \<Rightarrow> bool" where
  "beside_rooms d d' \<longleftrightarrow> d_rooms d' = d_rooms d \<and> d_room_players d' = d_room_players d
     \<and> (\<forall>sid i. session_of d sid i \<longrightarrow> session_of d' sid i)"

interpretation beside: effect_rel beside_rooms
  by unfold_locales (simp_all add: beside_rooms_def)

lemma beside_keeps:
  assumes "beside_rooms d d'"
  shows "rooms_ok d \<Longrightarrow> rooms_ok d'" "rooms_ok_but i d \<Longrightarrow> rooms_ok_but i d'" "host_is i h d \<Longrightarrow> host_is i h d'"
    "session_of d sid i \<Longrightarrow> session_of d' sid i" "seated_in d' i = seated_in d i"
  using assms by (auto simp: beside_rooms_def rooms_ok_def rooms_ok_but_def host_is_def host_seat_def ruled_def seated_in_def)

lemma beside_cas:
  assumes "UpdateSessionIfVersion s n d = (d', b)"
  shows "beside_rooms d d'"
proof -
  have "map (\<lambda>g. (gs_ID g, gs_RoomID g)) (d_game_sessions d') = map (\<lambda>g. (gs_ID g, gs_RoomID g)) (d_game_sessions d)"
    using assms by (auto simp: UpdateSessionIfVersion_def session_columns_def Let_def comp_def)
  moreover have "d_rooms d' = d_rooms d" "d_room_players d' = d_room_players d"
    using assms by (auto simp: UpdateSessionIfVersion_def Let_def)
  ultimately show ?thesis by (simp add: beside_rooms_def session_of_def)
qed

lemma beside_store:
  "CreateSession s d = Inr d' \<Longrightarrow> beside_rooms d d'" "CreatePlayerState q d = Inr d' \<Longrightarrow> beside_rooms d d'"
  "CreateDealerState x d = Inr d' \<Longrightarrow> beside_rooms d d'" "UpdatePlayerState q d = Inr d' \<Longrightarrow> beside_rooms d d'"
  "UpdateDealerState x d = Inr d' \<Longrightarrow> beside_rooms d d'" "CreateActionLog a d = Inr d' \<Longrightarrow> beside_rooms d d'"
  "CreateRoundLog l d = Inr d' \<Longrightarrow> beside_rooms d d'" "UpsertRematchVote t v d = Inr d' \<Longrightarrow> beside_rooms d d'"
  "CreateUser u d = Inr d' \<Longrightarrow> beside_rooms d d'"
  by (auto simp: beside_rooms_def session_of_def CreateSession_def CreatePlayerState_def CreateDealerState_def
      UpdatePlayerState_def UpdateDealerState_def CreateActionLog_def CreateRoundLog_def UpsertRematchVote_def
      CreateUser_def insert_row_Inr save_row_Inr Let_def split: sum.splits option.splits if_splits)

subsection \<open>Writing rooms\<close>

lemma UpdateRoom_rows:
  assumes "UpdateRoom t room d = Inr d'"
  shows "d_room_players d' = d_room_players d" "d_game_sessions d' = d_game_sessions d"
    "set (d_rooms d') = insert ((roomRecordFromDomain room)\<lparr>rr_UpdatedAt := t\<rparr>) {r \<in> set (d_rooms d). rr_ID r \<noteq> room_ID room}"
  using assms by (auto simp: UpdateRoom_def save_row_Inr set_tbl_save)

lemma same_rows:
  assumes "d_room_players d' = d_room_players d" "d_game_sessions d' = d_game_sessions d"
  shows "host_seat d' r = host_seat d r" "ruled d' r = ruled d r" "seated_in d' i = seated_in d i"
    "session_of d' sid i = session_of d sid i"
  using assms by (simp_all add: host_seat_def ruled_def seated_in_def session_of_def)

text \<open>The status a room is written with: it is up to date, or the room is the one that is not.\<close>

definition up_to_date :: "Room \<Rightarrow> DB \<Rightarrow> bool" where
  "up_to_date room d \<longleftrightarrow> RoomStatus_str (room_Status room) =
     (if room_CurrentSessionID room \<noteq> None then ''PLAYING''
      else if seated_in d (room_ID room) then ''READY'' else ''WAITING'')"

lemma UpdateRoom_keeps:
  assumes up: "UpdateRoom t room d = Inr d'" and ok: "rooms_ok_but (room_ID room) d"
    and host: "host_is (room_ID room) (room_HostUserID room) d"
    and cur: "\<And>sid. room_CurrentSessionID room = Some sid \<Longrightarrow> session_of d sid (room_ID room)"
  shows "rooms_ok_but (room_ID room) d'" "host_is (room_ID room) (room_HostUserID room) d'"
    "up_to_date room d \<Longrightarrow> rooms_ok d'"
proof -
  note rows = UpdateRoom_rows [OF up] and same = same_rows [OF UpdateRoom_rows(1,2) [OF up]]
  let ?row = "(roomRecordFromDomain room)\<lparr>rr_UpdatedAt := t\<rparr>"
  have f: "rr_ID ?row = room_ID room" "rr_HostUserID ?row = room_HostUserID room"
    "rr_CurrentSessionID ?row = room_CurrentSessionID room" "rr_Status ?row = RoomStatus_str (room_Status room)"
    by (simp_all add: roomRecordFromDomain_def)
  have "host_seat d ?row" using host ok cur by (auto simp: host_seat_def f host_is_def rooms_ok_but_def)
  with ok show "rooms_ok_but (room_ID room) d'" by (auto simp: rooms_ok_but_def rows(3) same f)
  show "host_is (room_ID room) (room_HostUserID room) d'" by (auto simp: host_is_def rows(3) f)
  show "rooms_ok d'" if "up_to_date room d"
  proof -
    from that have "ruled d ?row" by (simp add: ruled_def up_to_date_def f)
    with \<open>host_seat d ?row\<close> ok show ?thesis by (auto simp: rooms_ok_def rooms_ok_but_def rows(3) same)
  qed
qed

subsection \<open>The transactions of a round\<close>

text \<open>A store with a room, its host and a session of it.\<close>

definition based :: "string \<Rightarrow> string \<Rightarrow> string \<Rightarrow> DB \<Rightarrow> bool" where
  "based i h sid d \<longleftrightarrow> rooms_ok d \<and> host_is i h d \<and> session_of d sid i"

named_theorems based_intros \<open>a program keeps a room, its host and its session\<close>

lemma beside_writes:
  "effect beside_rooms (store_cas s n)" "effect beside_rooms (store_write (CreateSession s))"
  "effect beside_rooms (store_write (CreatePlayerState q))" "effect beside_rooms (store_write (CreateDealerState x))"
  "effect beside_rooms (store_write (UpdatePlayerState q))" "effect beside_rooms (store_write (UpdateDealerState x))"
  "effect beside_rooms (store_write (CreateRoundLog l))" "effect beside_rooms (tx_UpsertRematchVote v)"
  "effect beside_rooms (SaveActionSuccessSnapshot a snap)" "effect beside_rooms (store_write (CreateUser u))"
  unfolding store_cas_def tx_UpsertRematchVote_def SaveActionSuccessSnapshot_def
  by (intro beside.rules beside.store_op beside.store_write; auto intro: beside_store beside_cas split: prod.splits)+

lemma beside_readonly: "readonly m \<Longrightarrow> effect beside_rooms m"
  by (simp add: effect_def same_db_def beside_rooms_def)

lemma effectD: "effect R m \<Longrightarrow> m e w = (r, w') \<Longrightarrow> R (w_db w) (w_db w')"
  unfolding effect_def by (metis snd_conv)

lemma beside_kept:
  assumes "effect beside_rooms m"
  shows "effect (kept (based i h sid)) m" "effect (kept rooms_ok) m"
  using assms unfolding effect_def kept_def based_def
  by (blast intro: beside_keeps(1) beside_keeps(3) beside_keeps(4))+

lemmas based_rules [based_intros] = keeps.rules beside_writes [THEN beside_kept(1)]

lemma based_play [based_intros]:
  assumes "room_ID room = i" "room_HostUserID room = h" "room_CurrentSessionID room = Some sid"
    and "room_Status room = RoomStatusPlaying"
  shows "effect (kept (based i h sid)) (tx_UpdateRoom room)"
  unfolding tx_UpdateRoom_def
proof (intro keeps.bind keeps.basic keeps.store_write)
  fix t d d'
  assume "UpdateRoom t room d = Inr d'"
  note keep = UpdateRoom_keeps [OF this, unfolded assms(1,2)]
  have "up_to_date room d" using assms(3,4) by (simp add: up_to_date_def)
  with keep rooms_ok_weaken UpdateRoom_rows(2) [OF \<open>UpdateRoom t room d = Inr d'\<close>] assms(3)
  show "kept (based i h sid) d d'" by (auto simp: kept_def based_def session_of_def)
qed

lemma based_turn:
  assumes "room_ID (tc_room c) = i" "room_HostUserID (tc_room c) = h" "room_CurrentSessionID (tc_room c) = Some sid"
    and "room_Status (tc_room c) = RoomStatusPlaying"
  shows "effect (kept (based i h sid)) (turn_tx n c)"
  unfolding turn_tx_def by (intro based_intros assms)

lemma kept_lift:
  assumes "\<And>x. r = Inr x \<Longrightarrow> effect (kept I) (f x)"
  shows "effect (kept I) (bind (lift r) f)"
  using assms by (cases r) (auto simp: effect_def bind_def lift_def kept_def)

lemma based_forfeit:
  "effect (kept (based (room_ID room) (room_HostUserID room) (sess_ID sess))) (forfeit u room sess p x)"
  unfolding forfeit_def forfeit_tx_def Let_def split_def
  by ((rule kept_lift | rule based_intros)+;
      auto simp: RecalculateStatus_Inr dest: forfeit_apply_same intro: based_intros)

lemma bind_option:
  "bind (case ol of None \<Rightarrow> ret room | Some l \<Rightarrow> bind (lift r) (\<lambda>x. ret (f x))) g =
     (case ol of None \<Rightarrow> g room | Some l \<Rightarrow> bind (lift r) (\<lambda>x. g (f x)))"
  by (cases r) (simp_all add: fun_eq_iff bind_def ret_def lift_def split: option.split)

lemma based_dealer_move:
  "effect (kept (based (room_ID room) (room_HostUserID room) (sess_ID sess))) (dealer_move u sess room p x)"
  unfolding dealer_move_def Let_def split_def bind_option
proof ((rule kept_lift | rule keeps.bind keeps.basic)+)
  fix now y
  assume a: "dealer_apply u now sess p x = Inr y"
  obtain s' p' x' ol where y: "y = (s', p', x', ol)" by (cases y)
  have s': "sess_ID s' = sess_ID sess" using dealer_apply_same a y by blast
  show "effect (kept (based (room_ID room) (room_HostUserID room) (sess_ID sess)))
     (case snd (snd (snd y)) of
        None \<Rightarrow> transaction (dealer_tx (sess_Version sess) room (Session_Touch now (IncrementVersion (fst y)))
          (fst (snd y)) (fst (snd (snd y))) (snd (snd (snd y))))
      | Some l \<Rightarrow> bind (lift (RecalculateStatus (room\<lparr>room_CurrentSessionID := Some (sess_ID (fst y))\<rparr>) 1 True)) (\<lambda>r.
          transaction (dealer_tx (sess_Version sess) (Room_Touch now r) (Session_Touch now (IncrementVersion (fst y)))
            (fst (snd y)) (fst (snd (snd y))) (snd (snd (snd y))))))"
    unfolding y dealer_tx_def fst_conv snd_conv
    by (cases ol; simp only: option.case; (rule kept_lift | rule based_intros)+;
        auto simp: RecalculateStatus_Inr s' intro: based_intros)
qed

lemma based_read:
  assumes "db_ok d" "rooms_ok d" "GetRoom i d = Inr room" "session_of d sid i"
  shows "based (room_ID room) (room_HostUserID room) sid d"
  using room_read [OF assms(1,3)] assms(2,4) by (auto simp: based_def)

lemma GetSession_of: "GetSession sid d = Inr s \<Longrightarrow> session_of d (sess_ID s) (sess_RoomID s)"
  by (auto simp: GetSession_def gorm_First_Inr gameSessionRecordToDomain_def Let_def session_of_def image_iff
      split: sum.splits if_splits dest!: tbl_first_Some intro!: bexI)

text \<open>A new round and its room.\<close>

lemma create_round_rooms:
  assumes run: "create_round_tx s p x room e w = (Inr r, w')" and ok: "rooms_ok (w_db w)"
    and host: "host_is (room_ID room) (room_HostUserID room) (w_db w)"
    and f: "room_CurrentSessionID room = Some (sess_ID s)" "sess_RoomID s = room_ID room" "room_Status room = RoomStatusPlaying"
  shows "rooms_ok (w_db w')"
proof -
  from run obtain d1 d2 d3 t where
    d: "CreateSession s (w_db w) = Inr d1" "CreatePlayerState p d1 = Inr d2" "CreateDealerState x d2 = Inr d3"
      "UpdateRoom t room d3 = Inr (w_db w')"
    by (auto simp: create_round_tx_def prog_elims)
  have b: "beside_rooms (w_db w) d3"
    using beside_store(1) [OF d(1)] beside_store(2) [OF d(2)] beside_store(3) [OF d(3)] beside.R_trans by blast
  from d(1) have "session_of d1 (sess_ID s) (room_ID room)"
    by (auto simp: CreateSession_def insert_row_Inr session_of_def gameSessionRecordFromDomain_def f(2))
  then have s: "session_of d3 (sess_ID s) (room_ID room)"
    using beside_keeps(4) beside_store(2) [OF d(2)] beside_store(3) [OF d(3)] by blast
  show ?thesis
    by (rule UpdateRoom_keeps(3) [OF d(4)])
      (use b ok host f s in \<open>auto intro: beside_keeps rooms_ok_weaken simp: up_to_date_def\<close>)
qed

subsection \<open>Use cases\<close>

definition store_inv :: "DB \<Rightarrow> bool" where
  "store_inv d \<longleftrightarrow> db_ok d \<and> rooms_ok d"

lemma store_inv_aon:
  assumes "all_or_nothing m" "writes_only m"
    and "\<And>e w x w'. m e w = (Inr x, w') \<Longrightarrow> db_ok (w_db w) \<Longrightarrow> rooms_ok (w_db w) \<Longrightarrow> rooms_ok (w_db w')"
  shows "effect (kept store_inv) m"
proof (rule kept_aon [OF assms(1)])
  fix e w x w'
  assume run: "m e w = (Inr x, w')" and inv: "store_inv (w_db w)"
  with assms(3) writesD [OF assms(2) run] show "store_inv (w_db w')" by (simp add: store_inv_def)
qed

lemma inv_playerTurn: "effect (kept store_inv) (playerTurn (svc lib) i user n a hit)"
proof (rule store_inv_aon [OF aon_playerTurn(1) writes_playerTurn(1)])
  fix e w r w'
  assume run: "playerTurn (svc lib) i user n a hit e w = (Inr r, w')" and ok: "db_ok (w_db w)" "rooms_ok (w_db w)"
  from run obtain q v where prep: "turn_prepare (svc lib) i user n a hit e w = (Inr q, v)"
    and rest: "(case q of Inl (room, sess) \<Rightarrow> ret (room, sess)
       | Inr c \<Rightarrow> bind (transaction (turn_tx n c)) (\<lambda>_. ret (tc_room c, tc_sess c))) e v = (Inr r, w')"
    by (auto simp: playerTurn_def bind_Inr)
  have v: "w_db v = w_db w" using readonlyD [OF readonly_round(4) prep] .
  show "rooms_ok (w_db w')"
  proof (cases q)
    case (Inl rs)
    with rest v ok show ?thesis by (cases rs) (simp add: ret_Inr)
  next
    case (Inr c)
    from rest Inr obtain x v' where tx: "turn_tx n c e v = (Inr x, v')" and w': "w_db w' = w_db v'"
      by (auto simp: prog_elims)
    from prep [unfolded Inr] show ?thesis
    proof (rule turn_prepare_run)
      fix room sess p x now s' p' room'
      assume room: "GetRoom i (w_db w) = Inr room" "room_CurrentSessionID room = Some (sess_ID sess)"
        and may: "AssertCanHitOrStand p (Some sess) user = None"
        and ap: "turn_apply (svc lib) hit now sess p = Inr (s', p')"
        and rec: "RecalculateStatus room 1 True = Inr room'"
        and c: "c = \<lparr>tc_room = Room_Touch now (room'\<lparr>room_CurrentSessionID := Some (sess_ID s')\<rparr>),
          tc_sess = Session_Touch now (IncrementVersion s'), tc_player = p', tc_dealer = x,
          tc_log = turn_log (sess_ID sess) user a hit (env_sha256hex e (turn_payload hit n))\<rparr>"
      have "sess_Status sess = SessionStatusPlayerTurn" using may by (auto simp: AssertCanHitOrStand_def split: if_splits)
      with turn_apply_same [OF ap] have ids: "sess_ID s' = sess_ID sess" by simp
      note i = room_read(2) [OF ok(1) room(1)]
      have "effect (kept (based i (room_HostUserID room) (sess_ID sess))) (turn_tx n c)"
        using c rec ids i by (intro based_turn) (auto simp: RecalculateStatus_Inr)
      moreover have "based i (room_HostUserID room) (sess_ID sess) (w_db v)"
        using based_read [OF ok room(1) room_read(3) [OF ok(1) room(1) ok(2) room(2)]] i v by simp
      ultimately show ?thesis using tx w' by (metis based_def keptD snd_conv)
    qed
  qed
qed

lemma inv_playerStand: "effect (kept store_inv) (playerStand (svc lib) sid)"
proof (rule store_inv_aon [OF aon_playerStand writes_playerStand])
  fix e w r w'
  assume run: "playerStand (svc lib) sid e w = (Inr r, w')" and ok: "db_ok (w_db w)" "rooms_ok (w_db w)"
  from run consider (skip) "w_db w' = w_db w"
    | (move) sess room p x v k where "GetSession sid (w_db w) = Inr sess"
      "load_round sess e (w\<lparr>w_calls := k\<rparr>) = (Inr (room, p, x), v)"
      "timeout_move (svc lib) sid room sess p x e v = (Inr r, w')"
    by (auto simp: playerStand_def prog_elims split: if_splits)
  then show "rooms_ok (w_db w')"
  proof cases
    case skip
    with ok show ?thesis by simp
  next
    case move
    from load_round_run [OF move(2)] have room: "GetRoom (sess_RoomID sess) (w_db w) = Inr room" and v: "w_db v = w_db w"
      by auto
    from move(3) consider (hit) q a where "Hit (svc lib) (room_ID room) (ps_UserID p) (sess_Version sess) a e v = (Inr q, w')"
      | (forfeit) "forfeit (svc lib) room sess p x e v = (Inr r, w')"
      by (auto simp: timeout_move_def prog_elims split: if_splits)
    then show ?thesis
    proof cases
      case hit
      with keptD [OF inv_playerTurn, of v lib "room_ID room" "ps_UserID p" "sess_Version sess" a True e] ok v
      show ?thesis by (simp add: Hit_def store_inv_def)
    next
      case forfeit
      from based_read [OF ok room GetSession_of [OF move(1)]] v keptD [OF based_forfeit, of room sess v "svc lib" p x e] forfeit
      show ?thesis by (simp add: based_def)
    qed
  qed
qed

lemma inv_dealerTurn: "effect (kept store_inv) (dealerTurn (svc lib) sid)"
proof (rule store_inv_aon [OF aon_dealerTurn writes_dealerTurn])
  fix e w r w'
  assume run: "dealerTurn (svc lib) sid e w = (Inr r, w')" and ok: "db_ok (w_db w)" "rooms_ok (w_db w)"
  from run consider (skip) "w_db w' = w_db w"
    | (move) sess room p x v where "GetSession sid (w_db w) = Inr sess" "load_round sess e (tick w) = (Inr (room, p, x), v)"
      "dealer_move (svc lib) sess room p x e v = (Inr r, w')"
    by (auto simp: dealerTurn_def prog_elims split: if_splits)
  then show "rooms_ok (w_db w')"
  proof cases
    case skip
    with ok show ?thesis by simp
  next
    case move
    from load_round_run [OF move(2)] have room: "GetRoom (sess_RoomID sess) (w_db w) = Inr room" and v: "w_db v = w_db w"
      by auto
    from based_read [OF ok room GetSession_of [OF move(1)]] v keptD [OF based_dealer_move, of room sess v "svc lib" p x e] move(3)
    show ?thesis by (simp add: based_def)
  qed
qed

lemma opened_room:
  assumes "lib_documented lib" "NewGameSession now sid i n at = Inr sess" "newShuffledDeck rnd = Inr deck"
    and "open_round (svc lib) now' (SetDeck deck sess) user = Inr (s, p, x)"
  shows "sess_RoomID s = i"
  using open_round_ok(4) [OF assms(1) fresh_round(1) [OF assms(2,3)] assms(4)] fresh_round(4) [OF assms(2,3)] by simp

lemma inv_StartRoom:
  assumes lib: "lib_documented lib"
  shows "effect (kept store_inv) (StartRoom (svc lib) i user)"
proof (rule store_inv_aon [OF aon_StartRoom writes_StartRoom])
  fix e w r w'
  assume run: "StartRoom (svc lib) i user e w = (Inr r, w')" and ok: "db_ok (w_db w)" "rooms_ok (w_db w)"
  from run show "rooms_ok (w_db w')"
  proof (rule StartRoom_run)
    fix room n v sid sess deck rnd now s p x room' v'
    assume room: "GetRoom i (w_db w) = Inr room"
      and new: "NewGameSession now sid i n now = Inr sess" "newShuffledDeck rnd = Inr deck"
      and deal: "open_round (svc lib) now (SetDeck deck sess) user = Inr (s, p, x)"
      and rec: "RecalculateStatus (room\<lparr>room_CurrentSessionID := Some (sess_ID s)\<rparr>) 1 True = Inr room'"
      and tx: "create_round_tx (Session_Touch now s) p x (Room_Touch now room') e v = (Inr (), v')"
      and out: "w_db v = w_db w" "w_db w' = w_db v'"
    have f: "room_ID room' = i" "room_HostUserID room' = room_HostUserID room" "room_CurrentSessionID room' = Some (sess_ID s)"
      "room_Status room' = RoomStatusPlaying"
      using rec room_read(2) [OF ok(1) room] by (simp_all add: RecalculateStatus_Inr)
    have "rooms_ok (w_db v')"
      by (rule create_round_rooms [OF tx])
        (use f ok(2) out(1) room_read(1) [OF ok(1) room] opened_room [OF lib new deal] in simp_all)
    with out(2) show ?thesis by simp
  qed
qed

subsection \<open>The end of a vote\<close>

lemma listed_seats:
  assumes "ListRoomPlayersByRoomID i d = Inr ps"
  shows "seated_in d i \<longleftrightarrow> filter in_room ps \<noteq> []"
proof -
  have row: "rpr_Status r \<in> {''ACTIVE'', ''DISCONNECTED''} \<longleftrightarrow> in_room p" if "roomPlayerRecordToDomain r = Inr p" for r p
    using that by (auto simp: roomPlayerRecordToDomain_def RoomPlayerStatus_of_def in_room_def Let_def split: if_splits)
  have "list_all2 (\<lambda>r p. roomPlayerRecordToDomain r = Inr p) (filter (\<lambda>p. rpr_RoomID p = i) (d_room_players d)) ps"
    using assms by (simp add: ListRoomPlayersByRoomID_def mapE_Inr)
  then have "(\<exists>r \<in> set (filter (\<lambda>p. rpr_RoomID p = i) (d_room_players d)). rpr_Status r \<in> {''ACTIVE'', ''DISCONNECTED''})
      \<longleftrightarrow> (\<exists>p \<in> set ps. in_room p)"
  proof (induction rule: list_all2_induct)
    case (Cons r rs p ps)
    from row [OF Cons(1)] Cons(3) show ?case by simp
  qed simp
  then show ?thesis by (auto simp: seated_in_def filter_empty_conv)
qed

lemma counted_seats:
  assumes "RecalculateStatus room n False = Inr room'" "n = 0 \<longleftrightarrow> \<not> seated_in d (room_ID room)" "room_CurrentSessionID room = None"
  shows "up_to_date (Room_Touch t room') d"
  using assms by (auto simp: RecalculateStatus_Inr up_to_date_def)

lemma finalize_rooms:
  assumes run: "finalizeRematchFailureTx room e w = (Inr r, w')" and ok: "rooms_ok (w_db w)"
    and host: "host_is (room_ID room) (room_HostUserID room) (w_db w)"
  shows "rooms_ok (w_db w')"
proof -
  from run obtain ps now room' t where ps: "ListRoomPlayersByRoomID (room_ID room) (w_db w) = Inr ps"
    and rec: "RecalculateStatus (room\<lparr>room_CurrentSessionID := None\<rparr>) (int (length (filter in_room ps))) False = Inr room'"
    and up: "UpdateRoom t (Room_Touch now room') (w_db w) = Inr (w_db w')"
    by (auto simp: finalizeRematchFailureTx_def prog_elims Let_def)
  have f: "room_ID room' = room_ID room" "room_HostUserID room' = room_HostUserID room" "room_CurrentSessionID room' = None"
    using rec by (auto simp: RecalculateStatus_Inr)
  have "up_to_date (Room_Touch now room') (w_db w)"
    using rec by (rule counted_seats) (simp_all add: listed_seats [OF ps])
  then show ?thesis
    by (rule UpdateRoom_keeps(3) [OF up, rotated -1]) (use ok host f in \<open>simp_all add: rooms_ok_weaken\<close>)
qed

lemma success_rooms:
  assumes lib: "lib_documented lib" and run: "rematchUnanimousSuccessTx (svc lib) room prev user now n e w = (Inr r, w')"
    and ok: "rooms_ok (w_db w)" and host: "host_is (room_ID room) (room_HostUserID room) (w_db w)"
  shows "rooms_ok (w_db w')"
  using run
proof (rule success_run)
  fix d1 sid sess rnd deck s p x room' k
  assume cas: "UpdateSessionIfVersion (Session_Touch now (IncrementVersion prev)) n (w_db w) = (d1, True)"
    and new: "NewGameSession now sid (room_ID room) (wrap64 (sess_RoundNo prev + 1)) now = Inr sess" "newShuffledDeck rnd = Inr deck"
    and deal: "open_round (svc lib) now (SetDeck deck sess) user = Inr (s, p, x)"
    and rec: "RecalculateStatus (room\<lparr>room_CurrentSessionID := Some (sess_ID s)\<rparr>) 1 True = Inr room'"
    and tx: "create_round_tx s p x (Room_Touch now room') e (w\<lparr>w_db := d1, w_calls := k\<rparr>) = (Inr (), w')"
  have f: "room_ID room' = room_ID room" "room_HostUserID room' = room_HostUserID room"
    "room_CurrentSessionID room' = Some (sess_ID s)" "room_Status room' = RoomStatusPlaying"
    using rec by (simp_all add: RecalculateStatus_Inr)
  note b = beside_keeps(1,3) [OF beside_cas [OF cas]]
  show ?thesis
    by (rule create_round_rooms [OF tx]) (use f b(1) [OF ok] b(2) [OF host] opened_room [OF lib new deal] in simp_all)
qed

lemma inv_VoteRematch:
  assumes lib: "lib_documented lib"
  shows "effect (kept store_inv) (VoteRematch (svc lib) i user agree n a)"
proof (rule store_inv_aon [OF aon_VoteRematch writes_VoteRematch])
  fix e w r w'
  assume run: "VoteRematch (svc lib) i user agree n a e w = (Inr r, w')" and ok: "db_ok (w_db w)" "rooms_ok (w_db w)"
  from run obtain room sid k v' where room: "GetRoom i (w_db w) = Inr room" and
    tx: "VoteRematch_tx (svc lib) room i sid user agree n a e (w\<lparr>w_calls := k\<rparr>) = (Inr r, v')" and
    w': "w_db w' = w_db v'" by (rule VoteRematch_run)
  note host = room_read(1) [OF ok(1) room, folded room_read(2) [OF ok(1) room]]
  from tx have "rooms_ok (w_db v')"
  proof (cases rule: VoteRematch_tx_run)
    case replay
    with ok show ?thesis by simp
  next
    case (vote sess u)
    from vote(5) show ?thesis
    proof (rule cast_vote_run)
      fix players votes now v1 v2 k'
      assume up: "tx_UpsertRematchVote \<lparr>rv_SessionID = sess_ID sess, rv_UserID = user, rv_Agree = agree\<rparr>
          e (u\<lparr>w_calls := k'\<rparr>) = (Inr (), v1)"
        and out: "vote_outcome (svc lib) room (if sess_RematchDeadlineAt sess = None then SetRematchDeadline now sess else sess)
          (rematchEligibleUserIDs players) ((votes_map votes)(user \<mapsto> agree)) now n e v1 = (Inr r, v2)"
        and save: "SaveActionSuccessSnapshot (vote_log (sess_ID sess) user a (env_sha256hex e (vote_payload agree n)))
          (action_snapshot (room_ID (fst r)) (sess_ID (snd r)) (sess_Version (snd r))) e v2 = (Inr (), v')"
      have b1: "beside_rooms (w_db u) (w_db v1)" and b2: "beside_rooms (w_db v2) (w_db v')"
        using effectD [OF beside_writes(8) up] effectD [OF beside_writes(9) save] by simp_all
      have 1: "rooms_ok (w_db v1)" "host_is (room_ID room) (room_HostUserID room) (w_db v1)"
        using beside_keeps(1,3) [OF b1] ok host vote(4) by simp_all
      from out consider (yes) q s where "rematchUnanimousSuccessTx (svc lib) room s q now n e v1 = (Inr r, v2)"
        | (no) q where "finalizeRematchFailureTx room e v1 = (Inr q, v2)"
        | (still) s b where "UpdateSessionIfVersion s n (w_db v1) = (w_db v2, b)"
        by (auto simp: vote_outcome_def prog_elims Let_def split: if_splits)
      then have "rooms_ok (w_db v2)"
      proof cases
        case yes
        from success_rooms [OF lib yes 1] show ?thesis .
      next
        case no
        from finalize_rooms [OF no 1] show ?thesis .
      next
        case still
        from beside_keeps(1) [OF beside_cas [OF still] 1(1)] show ?thesis .
      qed
      then show ?thesis by (rule beside_keeps(1) [OF b2])
    qed
  qed
  with w' show "rooms_ok (w_db w')" by simp
qed

lemma deadline_run:
  assumes "processRematchDeadline u sid e w = (Inr r, w')"
  obtains (skip) "w_db w' = w_db w"
  | (no) i room q k v' where "finalizeRematchFailureTx room e (w\<lparr>w_calls := k\<rparr>) = (Inr q, v')"
      "w_db w' = w_db v'" "GetRoom i (w_db w) = Inr room"
  | (yes) i room sess user now n q k v' where
      "rematchUnanimousSuccessTx u room sess user now n e (w\<lparr>w_calls := k\<rparr>) = (Inr q, v')" "w_db w' = w_db v'"
      "GetRoom i (w_db w) = Inr room"
  using assms by (auto simp: processRematchDeadline_def GetSessionForUpdate_eq prog_elims Let_def split: if_splits)

lemma inv_processRematchDeadline:
  assumes lib: "lib_documented lib"
  shows "effect (kept store_inv) (processRematchDeadline (svc lib) sid)"
proof (rule store_inv_aon [OF aon_processRematchDeadline writes_processRematchDeadline])
  fix e w r w'
  assume run: "processRematchDeadline (svc lib) sid e w = (Inr r, w')" and ok: "db_ok (w_db w)" "rooms_ok (w_db w)"
  have host: "host_is (room_ID room) (room_HostUserID room) (w_db w)" if "GetRoom i (w_db w) = Inr room" for i room
    using room_read(1,2) [OF ok(1) that] by simp
  from run show "rooms_ok (w_db w')"
  proof (cases rule: deadline_run)
    case skip
    with ok show ?thesis by simp
  next
    case no
    show ?thesis unfolding no(2) by (rule finalize_rooms [OF no(1)]) (use ok host [OF no(3)] in simp_all)
  next
    case yes
    show ?thesis unfolding yes(2) by (rule success_rooms [OF lib yes(1)]) (use ok host [OF yes(3)] in simp_all)
  qed
qed

lemma inv_worker:
  assumes lib: "lib_documented lib"
  shows "effect (kept store_inv) (AutoStandDueSessions (svc lib))"
  unfolding AutoStandDueSessions_def
  by (intro keeps.rules kept_worker_step inv_playerStand inv_dealerTurn inv_processRematchDeadline [OF lib])

subsection \<open>The seat\<close>

text \<open>A member that is written is the only one of its room, because everyone in it is its host.\<close>

lemma member_write:
  assumes up: "UpdateRoomPlayer p d = Inr d' \<or> CreateRoomPlayer p d = Inr d'"
    and ok: "rooms_ok_but i d" and host: "host_is i h d" and p: "rp_RoomID p = i" "rp_UserID p = h" "valid_room_player p"
  shows "rooms_ok_but i d'" "host_is i h d'" "seated_in d' i \<longleftrightarrow> in_room p" "d_game_sessions d' = d_game_sessions d"
proof -
  let ?row = "roomPlayerRecordFromDomain p"
  have f: "rpr_RoomID ?row = i" "rpr_UserID ?row = h" "rpr_Status ?row = RoomPlayerStatus_str (rp_Status p)"
    using p by (simp_all add: roomPlayerRecordFromDomain_def)
  have same: "d_rooms d' = d_rooms d" "d_game_sessions d' = d_game_sessions d"
    using up by (auto simp: UpdateRoomPlayer_def CreateRoomPlayer_def save_row_Inr insert_row_Inr)
  from host obtain r where r: "r \<in> set (d_rooms d)" "rr_ID r = i" "rr_HostUserID r = h" by (auto simp: host_is_def)
  have old: "rpr_UserID x = h" if "x \<in> set (d_room_players d)" "rpr_RoomID x = i" for x
    using ok r that by (auto simp: rooms_ok_but_def host_seat_def)
  have members: "set (d_room_players d') = insert ?row {x \<in> set (d_room_players d). rpr_RoomID x \<noteq> i}"
    using up
  proof
    assume "UpdateRoomPlayer p d = Inr d'"
    then have "set (d_room_players d') = insert ?row {x \<in> set (d_room_players d). rpr_key x \<noteq> rpr_key ?row}"
      by (auto simp: UpdateRoomPlayer_def save_row_Inr set_tbl_save)
    with old p show ?thesis by (auto simp: rpr_key_def f)
  next
    assume c: "CreateRoomPlayer p d = Inr d'"
    then have "\<forall>x \<in> set (d_room_players d). rpr_key x \<noteq> rpr_key ?row"
      and "set (d_room_players d') = insert ?row (set (d_room_players d))"
      by (auto simp: CreateRoomPlayer_def insert_row_Inr list_ex_iff room_player_clash_def)
    with old show ?thesis by (auto simp: rpr_key_def f)
  qed
  have s: "session_of d' sid j = session_of d sid j" for sid j using same by (simp add: session_of_def)
  have seats: "seated_in d' j = seated_in d j" if "j \<noteq> i" for j using that members f by (auto simp: seated_in_def)
  have "host_seat d' x" if "x \<in> set (d_rooms d)" "host_seat d x" for x
    using that host members f s by (auto simp: host_seat_def host_is_def)
  moreover have "ruled d' x" if "rr_ID x \<noteq> i" "ruled d x" for x using that seats by (simp add: ruled_def)
  ultimately show "rooms_ok_but i d'" using ok same by (simp add: rooms_ok_but_def)
  show "host_is i h d'" using host same by (simp add: host_is_def)
  have "rpr_Status ?row \<in> {''ACTIVE'', ''DISCONNECTED''} \<longleftrightarrow> in_room p"
    using f p(3) by (cases "rp_Status p") (auto simp: in_room_def)
  with members f show "seated_in d' i \<longleftrightarrow> in_room p" by (auto simp: seated_in_def)
  show "d_game_sessions d' = d_game_sessions d" by (rule same)
qed

lemma JoinRoom_run:
  assumes "JoinRoom i user e w = (Inr r, w')"
  obtains room ps now room' m d1 t where
    "GetRoom i (w_db w) = Inr room" "room_HostUserID room = user"
    "ListRoomPlayersByRoomID i (w_db w) = Inr ps" "length (filter in_room ps) < 1"
    "RecalculateStatus room (int (length (filter in_room ps)) + 1) (room_CurrentSessionID room \<noteq> None) = Inr room'"
    "rp_RoomID m = i" "rp_UserID m = user" "rp_Status m = RoomPlayerActive"
    "UpdateRoomPlayer m (w_db w) = Inr d1 \<or> CreateRoomPlayer m (w_db w) = Inr d1"
    "UpdateRoom t (Room_Touch now room') d1 = Inr (w_db w')"
proof -
  from assms obtain room ps joiner now room' v u v' where
    1: "GetRoom i (w_db w) = Inr room" "room_HostUserID room = user"
      "ListRoomPlayersByRoomID i (w_db w) = Inr ps" "length (filter in_room ps) < 1"
      "RecalculateStatus room (int (length (filter in_room ps)) + 1) (room_CurrentSessionID room \<noteq> None) = Inr room'"
    and new: "NewRoomPlayer i user 1 now = Inr joiner"
    and tx: "JoinRoom_tx i user joiner (Room_Touch now room') now e v = (Inr u, v')" and w: "w_db v = w_db w" "w_db w' = w_db v'"
    by (auto simp: JoinRoom_def prog_elims Let_def split: if_splits)
  from tx consider
      (new) d1 t where "CreateRoomPlayer joiner (w_db v) = Inr d1" "UpdateRoom t (Room_Touch now room') d1 = Inr (w_db v')"
    | (again) ex d1 t where "GetRoomPlayer i user (w_db v) = Inr ex"
        "UpdateRoomPlayer (ex\<lparr>rp_Status := RoomPlayerActive, rp_LeftAt := None, rp_JoinedAt := now\<rparr>) (w_db v) = Inr d1"
        "UpdateRoom t (Room_Touch now room') d1 = Inr (w_db v')"
    unfolding JoinRoom_tx_def bind_Inr attempt_read_Inr tx_Inr
    by (auto simp: prog_elims attempt_Inr read_answer_Inr RoomPlayer_SetStatus_def split: sum.splits if_splits)
  then show thesis
  proof cases
    case create: new
    have "rp_RoomID joiner = i" "rp_UserID joiner = user" "rp_Status joiner = RoomPlayerActive"
      using new by (auto simp: NewRoomPlayer_def split: if_splits)
    with 1 create w that show thesis by metis
  next
    case again
    let ?m = "ex\<lparr>rp_Status := RoomPlayerActive, rp_LeftAt := None, rp_JoinedAt := now\<rparr>"
    have "rp_RoomID ?m = i" "rp_UserID ?m = user" "rp_Status ?m = RoomPlayerActive"
      using GetRoomPlayer_id [OF again(1)] by simp_all
    with 1 again w that show thesis by metis
  qed
qed

lemma inv_CreateRoom: "effect (kept store_inv) (CreateRoom_uc user)"
proof (rule store_inv_aon [OF aon_room_uc(1) writes_room_uc(1)])
  fix e w r w'
  assume run: "CreateRoom_uc user e w = (Inr r, w')" and ok: "db_ok (w_db w)" "rooms_ok (w_db w)"
  from run obtain i now room0 room where new: "NewRoom now i user now = Inr room0" "RecalculateStatus room0 0 False = Inr room"
    and made: "CreateRoom (Room_Touch now room) (w_db w) = Inr (w_db w')"
    by (auto simp: CreateRoom_uc_def prog_elims Let_def split: if_splits)
  let ?row = "roomRecordFromDomain (Room_Touch now room)"
  have f: "room_ID room = i" "room_Status room = RoomStatusWaiting" "room_CurrentSessionID room = None"
    using new by (auto simp: NewRoom_def RecalculateStatus_Inr Let_def split: if_splits)
  have d: "d_rooms (w_db w') = d_rooms (w_db w) @ [?row]" "d_room_players (w_db w') = d_room_players (w_db w)"
    "d_game_sessions (w_db w') = d_game_sessions (w_db w)" "\<not> room_exists (w_db w) i"
    using made f by (auto simp: CreateRoom_def insert_row_Inr room_clash_def room_exists_def list_ex_iff list_all_iff)
  have none: "rpr_RoomID p \<noteq> i" if "p \<in> set (d_room_players (w_db w))" for p
    using ok(1) that d(4) by (auto simp: db_ok_def refs_ok_def)
  have row: "rr_ID ?row = i" "rr_Status ?row = ''WAITING''" "rr_CurrentSessionID ?row = None"
    using f by (simp_all add: roomRecordFromDomain_def)
  have "host_seat (w_db w) ?row" "ruled (w_db w) ?row"
    using none row by (auto simp: host_seat_def ruled_def seated_in_def simp del: enc_keys)
  with ok(2) show "rooms_ok (w_db w')" by (simp add: rooms_ok_def d(1) same_rows [OF d(2,3)])
qed

lemma inv_JoinRoom: "effect (kept store_inv) (JoinRoom i user)"
proof (rule store_inv_aon [OF aon_room_uc(2) writes_room_uc(2)])
  fix e w r w'
  assume run: "JoinRoom i user e w = (Inr r, w')" and ok: "db_ok (w_db w)" "rooms_ok (w_db w)"
  from run obtain room ps now room' m d1 t where
    room: "GetRoom i (w_db w) = Inr room" "room_HostUserID room = user"
    and ps: "ListRoomPlayersByRoomID i (w_db w) = Inr ps" "length (filter in_room ps) < 1"
    and rec: "RecalculateStatus room (int (length (filter in_room ps)) + 1) (room_CurrentSessionID room \<noteq> None) = Inr room'"
    and m: "rp_RoomID m = i" "rp_UserID m = user" "rp_Status m = RoomPlayerActive"
    and d: "UpdateRoomPlayer m (w_db w) = Inr d1 \<or> CreateRoomPlayer m (w_db w) = Inr d1"
      "UpdateRoom t (Room_Touch now room') d1 = Inr (w_db w')"
    by (rule JoinRoom_run)
  have f: "room_ID room' = i" "room_HostUserID room' = user" "room_CurrentSessionID room' = room_CurrentSessionID room"
    "room_Status room' = (if room_CurrentSessionID room \<noteq> None then RoomStatusPlaying else RoomStatusReady)"
    using rec ps(2) room(2) room_read(2) [OF ok(1) room(1)] by (auto simp: RecalculateStatus_Inr)
  have host: "host_is i user (w_db w)" using room_read(1) [OF ok(1) room(1)] room(2) by simp
  have v: "valid_room_player m" by (simp add: m)
  note seat = member_write [OF d(1) rooms_ok_weaken [OF ok(2)] host m(1,2) v]
  have "seated_in d1 i" using seat(3) m(3) by (simp add: in_room_def)
  moreover have "session_of d1 sid i" if "room_CurrentSessionID room = Some sid" for sid
    using room_read(3) [OF ok(1) room(1) ok(2) that] seat(4) by (simp add: session_of_def)
  ultimately show "rooms_ok (w_db w')"
    by - (rule UpdateRoom_keeps(3) [OF d(2)], use seat(1,2) f in \<open>simp_all add: up_to_date_def\<close>)
qed

text \<open>Everyone in a room is its host, so nobody is there to take it over.\<close>

lemma no_next_host:
  assumes "ListRoomPlayersByRoomID i d = Inr ps" "rooms_ok d" "host_is i h d"
  shows "p \<in> set ps \<Longrightarrow> rp_UserID p = h" "selectNextHost ps h = None"
proof -
  have "rp_UserID p = h" if "p \<in> set ps" for p
  proof -
    from assms(1) have rows: "list_all2 (\<lambda>r p. roomPlayerRecordToDomain r = Inr p) (filter (\<lambda>p. rpr_RoomID p = i) (d_room_players d)) ps"
      by (simp add: ListRoomPlayersByRoomID_def mapE_Inr)
    have "\<exists>row \<in> set (filter (\<lambda>p. rpr_RoomID p = i) (d_room_players d)). roomPlayerRecordToDomain row = Inr p"
      using rows that by (induction rule: list_all2_induct) auto
    then obtain row where row: "row \<in> set (d_room_players d)" "rpr_RoomID row = i" "roomPlayerRecordToDomain row = Inr p"
      by auto
    from assms(3) obtain r where "r \<in> set (d_rooms d)" "rr_ID r = i" "rr_HostUserID r = h" by (auto simp: host_is_def)
    with assms(2) row(1,2) have "rpr_UserID row = h" by (auto simp: rooms_ok_def host_seat_def)
    with row(3) show ?thesis by (auto simp: roomPlayerRecordToDomain_def Let_def split: if_splits)
  qed
  then show "p \<in> set ps \<Longrightarrow> rp_UserID p = h" "selectNextHost ps h = None"
    by (auto simp: selectNextHost_def filter_empty_conv split: list.splits)
qed

lemma LeaveRoom_run:
  assumes "LeaveRoom i user e w = (Inr r, w')"
  obtains (gone) "w_db w' = w_db w"
  | (left) room p ps now n moved room' d1 t where
    "GetRoom i (w_db w) = Inr room" "room_CurrentSessionID room = None" "GetRoomPlayer i user (w_db w) = Inr p"
    "ListRoomPlayersByRoomID i (w_db w) = Inr ps"
    "n = int (length (filter (\<lambda>rp. rp_UserID rp \<noteq> user \<and> in_room rp) ps))"
    "moved = (if room_HostUserID room = user then
       (case selectNextHost ps user of Some h \<Rightarrow> room\<lparr>room_HostUserID := rp_UserID h\<rparr> | None \<Rightarrow> room) else room)"
    "RecalculateStatus moved n False = Inr room'"
    "UpdateRoomPlayer (MarkLeft now p) (w_db w) = Inr d1" "UpdateRoom t (Room_Touch now room') d1 = Inr (w_db w')"
proof -
  let ?moved = "\<lambda>r0 players. if room_HostUserID r0 = user then
       (case selectNextHost players user of
          Some nextHost \<Rightarrow>
            (r0\<lparr>room_HostUserID := rp_UserID nextHost\<rparr>,
             Some \<lparr>ht_RoomID = i, ht_PreviousHostUserID = user, ht_NewHostUserID = rp_UserID nextHost\<rparr>)
        | None \<Rightarrow> (r0, None))
     else (r0, None)"
  have fst_moved: "fst (?moved r0 players) = (if room_HostUserID r0 = user then
       (case selectNextHost players user of Some h \<Rightarrow> r0\<lparr>room_HostUserID := rp_UserID h\<rparr> | None \<Rightarrow> r0) else r0)"
    for r0 :: Room and players by (simp split: option.split)
  from assms have args: "user \<noteq> []" "i \<noteq> []"
    by (auto simp: LeaveRoom_def prog_elims split: if_splits)
  with assms obtain room p v where 1: "GetRoom i (w_db w) = Inr room" "room_CurrentSessionID room = None"
      "GetRoomPlayer i user (w_db w) = Inr p"
    by (auto simp: LeaveRoom_def prog_elims)
  show thesis
  proof (cases "rp_Status p = RoomPlayerLeft")
    case True
    with assms args 1 have "w_db w' = w_db w" by (auto simp: LeaveRoom_def prog_elims)
    then show thesis by (rule gone)
  next
    case False
    have "\<exists>players now room' t d1. ListRoomPlayersByRoomID i (w_db w) = Inr players
       \<and> RecalculateStatus (fst (?moved room players))
           (int (length (filter (\<lambda>rp. rp_UserID rp \<noteq> user \<and> in_room rp) players))) False = Inr room'
       \<and> UpdateRoomPlayer (MarkLeft now p) (w_db w) = Inr d1 \<and> UpdateRoom t (Room_Touch now room') d1 = Inr (w_db w')"
      using assms args 1 False
      by (simp add: LeaveRoom_def prog_elims Let_def split_def split del: if_split)
        (elim exE conjE, hypsubst, intro exI conjI, (assumption | rule refl | simp)+)
    with 1 left [OF 1 _ refl refl, folded fst_moved] show thesis by blast
  qed
qed

lemma inv_LeaveRoom: "effect (kept store_inv) (LeaveRoom i user)"
proof (rule store_inv_aon [OF aon_room_uc(3) writes_room_uc(3)])
  fix e w r w'
  assume run: "LeaveRoom i user e w = (Inr r, w')" and ok: "db_ok (w_db w)" "rooms_ok (w_db w)"
  from run show "rooms_ok (w_db w')"
  proof (cases rule: LeaveRoom_run)
    case gone
    with ok show ?thesis by simp
  next
    case (left room p ps now n moved room' d1 t)
    let ?h = "room_HostUserID room"
    have host: "host_is i ?h (w_db w)" by (rule room_read(1) [OF ok(1) left(1)])
    note p = GetRoomPlayer_id [OF left(3)]
    from host obtain row where "row \<in> set (d_rooms (w_db w))" "rr_ID row = i" "rr_HostUserID row = ?h" by (auto simp: host_is_def)
    with ok(2) left(3) have user: "user = ?h"
      by (auto simp: rooms_ok_def host_seat_def GetRoomPlayer_def gorm_First_Inr rpr_key_def split: sum.splits dest!: tbl_first_Some)
    note none = no_next_host [OF left(4) ok(2) host]
    have n: "n = 0" using left(5) none(1) user by (auto simp: filter_empty_conv)
    have moved: "moved = room" using left(6) none(2) user by simp
    have f: "room_ID room' = i" "room_HostUserID room' = ?h" "room_CurrentSessionID room' = None" "room_Status room' = RoomStatusWaiting"
      using left(2,7) n moved room_read(2) [OF ok(1) left(1)] by (simp_all add: RecalculateStatus_Inr)
    have m: "rp_RoomID (MarkLeft now p) = i" "rp_UserID (MarkLeft now p) = ?h" "valid_room_player (MarkLeft now p)"
      "\<not> in_room (MarkLeft now p)"
      using p user by (simp_all add: MarkLeft_def in_room_def)
    note seat = member_write [OF disjI1 [OF left(8)] rooms_ok_weaken [OF ok(2)] host m(1-3)]
    show ?thesis
      by (rule UpdateRoom_keeps(3) [OF left(9)]) (use seat f m(4) in \<open>simp_all add: up_to_date_def\<close>)
  qed
qed

lemma delete_sessions:
  assumes keys: "inj_on gs_ID (set (d_game_sessions d))" and "DeleteGameSessionsByRoomID i d = Inr d'" "rooms_ok_but i d"
    and "\<forall>r \<in> set (d_rooms d). rr_ID r = i \<longrightarrow> rr_CurrentSessionID r = None"
  shows "d_rooms d' = d_rooms d" "d_room_players d' = d_room_players d" "rooms_ok_but i d'"
proof -
  let ?gone = "\<lambda>j. list_ex (\<lambda>g. gs_ID g = j \<and> gs_RoomID g = i) (d_game_sessions d)"
  have kept: "\<not> ?gone sid" if "r \<in> set (d_rooms d)" "rr_CurrentSessionID r = Some sid" for r sid
  proof
    assume "?gone sid"
    then obtain g where g: "g \<in> set (d_game_sessions d)" "gs_ID g = sid" "gs_RoomID g = i" by (auto simp: list_ex_iff)
    have "session_of d sid (rr_ID r)" using assms(3) that by (auto simp: rooms_ok_but_def host_seat_def)
    then obtain g' where g': "g' \<in> set (d_game_sessions d)" "gs_ID g' = sid" "gs_RoomID g' = rr_ID r" by (auto simp: session_of_def)
    have "g' = g" by (rule inj_onD [OF keys _ g'(1) g(1)]) (simp add: g g')
    with g g' assms(4) that show False by auto
  qed
  have "map (\<lambda>r. case rr_CurrentSessionID r of None \<Rightarrow> r | Some j \<Rightarrow> if ?gone j then r\<lparr>rr_CurrentSessionID := None\<rparr> else r)
      (d_rooms d) = d_rooms d"
    by (rule map_idI) (auto split: option.split dest: kept)
  with assms(2) show rooms: "d_rooms d' = d_rooms d" and members: "d_room_players d' = d_room_players d"
    by (auto simp: DeleteGameSessionsByRoomID_def Let_def)
  have "session_of d' sid j" if "session_of d sid j" "j \<noteq> i" for sid j
    using that assms(2) by (auto simp: DeleteGameSessionsByRoomID_def Let_def session_of_def tbl_delete_def)
  with assms(3,4) show "rooms_ok_but i d'"
    by (auto simp: rooms_ok_but_def rooms members host_seat_def ruled_def seated_in_def)
qed

lemma inv_Reset: "effect (kept store_inv) (ResetRoomForDebug i user)"
proof (rule store_inv_aon [OF aon_room_uc(4) writes_room_uc(4)])
  fix e w r w'
  assume run: "ResetRoomForDebug i user e w = (Inr r, w')" and ok: "db_ok (w_db w)" "rooms_ok (w_db w)"
  from run obtain room d1 d2 d3 room' now t1 t2 where room: "GetRoom i (w_db w) = Inr room"
    and up1: "UpdateRoom t1 (room\<lparr>room_CurrentSessionID := None\<rparr>) (w_db w) = Inr d1"
    and del: "DeleteGameSessionsByRoomID i d1 = Inr d2" "DeleteRoomPlayersByRoomID i d2 = Inr d3"
    and rec: "RecalculateStatus (room\<lparr>room_CurrentSessionID := None\<rparr>) 0 False = Inr room'"
    and up2: "UpdateRoom t2 (Room_Touch now room') d3 = Inr (w_db w')"
    by (auto simp: ResetRoomForDebug_def prog_elims Let_def split: if_splits)
  let ?h = "room_HostUserID room"
  note id = room_read(2) [OF ok(1) room]
  have host: "host_is i ?h (w_db w)" by (rule room_read(1) [OF ok(1) room])
  have f: "room_ID room' = i" "room_HostUserID room' = ?h" "room_CurrentSessionID room' = None" "room_Status room' = RoomStatusWaiting"
    using rec id by (simp_all add: RecalculateStatus_Inr)
  have d1: "rooms_ok_but i d1" "host_is i ?h d1"
    using UpdateRoom_keeps(1,2) [OF up1] rooms_ok_weaken [OF ok(2)] host id by simp_all
  have cleared: "\<forall>r \<in> set (d_rooms d1). rr_ID r = i \<longrightarrow> rr_CurrentSessionID r = None"
    using UpdateRoom_rows(3) [OF up1] id by (auto simp: roomRecordFromDomain_def)
  have keys: "inj_on gs_ID (set (d_game_sessions d1))"
    using ok(1) UpdateRoom_rows(2) [OF up1] by (simp add: db_ok_def keys_ok_def unique_by_def distinct_map)
  note d2 = delete_sessions [OF keys del(1) d1(1) cleared]
  have rows: "d_rooms d3 = d_rooms d1" "d_game_sessions d3 = d_game_sessions d2"
    "set (d_room_players d3) = {p \<in> set (d_room_players d2). rpr_RoomID p \<noteq> i}"
    using del(2) d2(1) by (auto simp: DeleteRoomPlayersByRoomID_def tbl_delete_def)
  have d3: "rooms_ok_but i d3" "host_is i ?h d3" "\<not> seated_in d3 i"
    using d2 d1(2) rows by (auto simp: rooms_ok_but_def host_seat_def ruled_def seated_in_def session_of_def host_is_def)
  show "rooms_ok (w_db w')"
    by (rule UpdateRoom_keeps(3) [OF up2]) (use f d3 in \<open>simp_all add: up_to_date_def\<close>)
qed

text \<open>The marks of a connection move a seated member to a seated one.\<close>

lemma mark_rooms:
  assumes ok: "db_ok d" "rooms_ok d" and m: "GetRoomPlayer i user d = Inr p" "in_room p" "st \<in> {RoomPlayerActive, RoomPlayerDisconnected}"
    and up: "UpdateRoomPlayer (p\<lparr>rp_Status := st\<rparr>) d = Inr d'"
  shows "rooms_ok d'"
proof -
  from m(1) obtain row where row: "row \<in> set (d_room_players d)" "rpr_RoomID row = i" "rpr_UserID row = user"
    "roomPlayerRecordToDomain row = Inr p"
    by (auto simp: GetRoomPlayer_def gorm_First_Inr rpr_key_def split: sum.splits dest!: tbl_first_Some)
  have "room_exists d i" using ok(1) row by (auto simp: db_ok_def refs_ok_def)
  then obtain r where r: "r \<in> set (d_rooms d)" "rr_ID r = i" by (auto simp: room_exists_def list_ex_iff)
  have "rr_HostUserID x = user" if "x \<in> set (d_rooms d)" "rr_ID x = i" for x
    using ok(2) row that by (auto simp: rooms_ok_def host_seat_def)
  with r have host: "host_is i user d" by (auto simp: host_is_def)
  have "seated_in d i" using row m(2)
    by (auto simp: seated_in_def roomPlayerRecordToDomain_def RoomPlayerStatus_of_def in_room_def Let_def split: if_splits intro!: bexI [of _ row])
  moreover have q: "in_room (p\<lparr>rp_Status := st\<rparr>)" "valid_room_player (p\<lparr>rp_Status := st\<rparr>)" using m(3) by (auto simp: in_room_def)
  moreover note seat = member_write [OF disjI1 [OF up] rooms_ok_weaken [OF ok(2)] host _ _ q(2)] and GetRoomPlayer_id [OF m(1)]
  ultimately have but: "rooms_ok_but i d'" and s: "seated_in d' i" "seated_in d i" by simp_all
  have rooms: "d_rooms d' = d_rooms d" using up by (auto simp: UpdateRoomPlayer_def)
  have "ruled d' x" if "x \<in> set (d_rooms d)" "rr_ID x = i" for x
    using that ok(2) s by (auto simp: rooms_ok_def ruled_def)
  with but rooms show ?thesis by (auto simp: rooms_ok_def rooms_ok_but_def)
qed

lemma inv_marks: "effect (kept store_inv) (MarkConnected i user)" "effect (kept store_inv) (MarkDisconnected i user)"
proof -
  show "effect (kept store_inv) (MarkConnected i user)"
  proof (rule store_inv_aon [OF aon_room_uc(5) writes_room_uc(5)])
    fix e w r w'
    assume run: "MarkConnected i user e w = (Inr r, w')" and ok: "db_ok (w_db w)" "rooms_ok (w_db w)"
    from run consider "w_db w' = w_db w" | p where "GetRoomPlayer i user (w_db w) = Inr p"
        "rp_Status p \<noteq> RoomPlayerLeft" "UpdateRoomPlayer (p\<lparr>rp_Status := RoomPlayerActive\<rparr>) (w_db w) = Inr (w_db w')"
      by (auto simp: MarkConnected_def prog_elims RoomPlayer_SetStatus_def split: if_splits)
        (drule arg_cong [where f = w_calls], simp)
    then show "rooms_ok (w_db w')"
    proof cases
      case 2
      have "in_room p" using 2(1,2)
        by (cases "rp_Status p") (auto simp: GetRoomPlayer_def roomPlayerRecordToDomain_def in_room_def Let_def split: sum.splits if_splits)
      from mark_rooms [OF ok 2(1) this _ 2(3)] show ?thesis by simp
    qed (use ok in simp)
  qed
  show "effect (kept store_inv) (MarkDisconnected i user)"
  proof (rule store_inv_aon [OF aon_room_uc(6) writes_room_uc(6)])
    fix e w r w'
    assume run: "MarkDisconnected i user e w = (Inr r, w')" and ok: "db_ok (w_db w)" "rooms_ok (w_db w)"
    from run obtain x v where a: "attempt (store_read (GetRoomPlayer i user)) e w = (Inr x, v)"
      and rest: "(case x of Inl err \<Rightarrow> if err = ErrNotFound then ret () else throw err
        | Inr p \<Rightarrow> if rp_Status p = RoomPlayerLeft \<or> rp_Status p = RoomPlayerDisconnected then ret ()
            else bind (lift (RoomPlayer_SetStatus p RoomPlayerDisconnected)) (\<lambda>p. store_write (UpdateRoomPlayer p))) e v = (Inr (), w')"
      by (cases r) (auto simp: MarkDisconnected_def bind_Inr throw_Inr split: if_splits)
    have v: "w_db v = w_db w" by (rule readonlyD [OF reads.attempt [OF reads.store_read] a])
    have "w_db w' = w_db w \<or> (\<exists>p. GetRoomPlayer i user (w_db w) = Inr p \<and> rp_Status p \<noteq> RoomPlayerLeft
        \<and> UpdateRoomPlayer (p\<lparr>rp_Status := RoomPlayerDisconnected\<rparr>) (w_db w) = Inr (w_db w'))"
    proof (cases x)
      case (Inl err)
      with rest v show ?thesis by (simp add: prog_elims split: if_splits)
    next
      case (Inr p)
      with a have "GetRoomPlayer i user (w_db w) = Inr p" by (auto simp: attempt_Inr store_read_Inr)
      with Inr rest v show ?thesis by (auto simp: prog_elims RoomPlayer_SetStatus_def split: if_splits)
    qed
    then consider "w_db w' = w_db w" | p where "GetRoomPlayer i user (w_db w) = Inr p"
        "rp_Status p \<noteq> RoomPlayerLeft" "UpdateRoomPlayer (p\<lparr>rp_Status := RoomPlayerDisconnected\<rparr>) (w_db w) = Inr (w_db w')"
      by blast
    then show "rooms_ok (w_db w')"
    proof cases
      case 2
      have "in_room p" using 2(1,2)
        by (cases "rp_Status p") (auto simp: GetRoomPlayer_def roomPlayerRecordToDomain_def in_room_def Let_def split: sum.splits if_splits)
      from mark_rooms [OF ok 2(1) this _ 2(3)] show ?thesis by simp
    qed (use ok in simp)
  qed
qed

subsection \<open>Every store the server reaches\<close>

lemma inv_Signup: "effect (kept store_inv) (Signup al secret name pw)"
proof -
  have "effect beside_rooms (Signup al secret name pw)"
    unfolding Signup_def Let_def
    by (intro beside.rules beside_writes beside_readonly readonly_hash readonly_issue)
  from beside_kept(2) [OF this] writes_db_ok [OF writes_Signup, of _ al secret name pw] show ?thesis
    by (simp add: effect_def kept_def store_inv_def)
qed

lemma inv_serve:
  assumes lib: "lib_documented lib"
  shows "effect (kept store_inv) (serve (svc lib) req)"
  by (cases req)
    (simp_all add: kept_void kept_view_uc inv_CreateRoom inv_JoinRoom inv_LeaveRoom inv_Reset inv_marks inv_Signup
      inv_StartRoom [OF lib] inv_VoteRematch [OF lib] inv_worker [OF lib] inv_playerTurn Hit_def Stand_def)

lemma reachable_rooms_ok:
  assumes lib: "lib_documented lib" and r: "reachable (svc lib) d"
  shows "rooms_ok d"
proof -
  from r have "store_inv d"
  proof (induction rule: reachable.induct)
    case reach_empty
    show ?case using db_ok_empty by (simp add: store_inv_def rooms_ok_def empty_db_def)
  next
    case (reach_serve w req e r w')
    with keptD [OF inv_serve [OF lib], of w req e] show ?case by simp
  qed
  then show ?thesis by (simp add: store_inv_def)
qed

lemma members_of_host:
  assumes db: "db_ok d" and ok: "rooms_ok d" and room: "GetRoom i d = Inr room" and ps: "ListRoomPlayersByRoomID i d = Inr ps"
  shows "length ps \<le> 1" "p \<in> set ps \<Longrightarrow> rp_UserID p = room_HostUserID room"
proof -
  note host = room_read(1) [OF db room]
  show all: "p \<in> set ps \<Longrightarrow> rp_UserID p = room_HostUserID room" for p
    by (rule no_next_host(1) [OF ps ok host])
  let ?rows = "filter (\<lambda>p. rpr_RoomID p = i) (d_room_players d)"
  have rows: "list_all2 (\<lambda>r p. roomPlayerRecordToDomain r = Inr p) ?rows ps"
    using ps by (simp add: ListRoomPlayersByRoomID_def mapE_Inr)
  have "rpr_key r = (i, room_HostUserID room)" if "r \<in> set ?rows" for r
  proof -
    from host obtain x where "x \<in> set (d_rooms d)" "rr_ID x = i" "rr_HostUserID x = room_HostUserID room"
      by (auto simp: host_is_def)
    with ok that show ?thesis by (auto simp: rooms_ok_def host_seat_def rpr_key_def)
  qed
  then have "set (map rpr_key ?rows) \<subseteq> {(i, room_HostUserID room)}" by auto
  moreover have "distinct (map rpr_key ?rows)"
    using db by (auto simp: db_ok_def keys_ok_def unique_by_def distinct_map_filter)
  ultimately have "length (map rpr_key ?rows) \<le> 1"
    by (metis card_mono distinct_card finite.emptyI finite_insert card_1_singleton_iff One_nat_def)
  then show "length ps \<le> 1" using list_all2_lengthD [OF rows] by simp
qed

text \<open>
  C5. While requests come one after another, whatever fails on the way, the stored status of a
  room is the one section 9.1 of the specification derives: PLAYING while it has a current
  session, else READY with a seated player, else WAITING. Its only member, if any, is its
  host, and its current session is stored and belongs to it.
\<close>

theorem room_status_rule:
  assumes "lib_documented lib" "reachable (svc lib) d" "GetRoom i d = Inr room" "ListRoomPlayersByRoomID i d = Inr ps"
  shows "room_Status room =
      (if room_CurrentSessionID room \<noteq> None then RoomStatusPlaying
       else if \<exists>p \<in> set ps. in_room p then RoomStatusReady else RoomStatusWaiting)
    \<and> length ps \<le> 1 \<and> (\<forall>p \<in> set ps. rp_UserID p = room_HostUserID room)
    \<and> (\<forall>sid. room_CurrentSessionID room = Some sid \<longrightarrow> (\<exists>s. GetSession sid d = Inr s \<and> sess_RoomID s = i))"
proof (intro conjI)
  note db = reachable_db_ok [OF assms(2)] and ok = reachable_rooms_ok [OF assms(1,2)]
  note members = members_of_host [OF db ok assms(3,4)]
  show "length ps \<le> 1" "\<forall>p \<in> set ps. rp_UserID p = room_HostUserID room" using members by blast+
  from assms(3) obtain r where r: "r \<in> set (d_rooms d)" "rr_ID r = i" and dom: "roomRecordToDomain r = Inr room"
    by (auto simp: GetRoom_def gorm_First_Inr split: sum.splits dest!: tbl_first_Some)
  have f: "rr_CurrentSessionID r = room_CurrentSessionID room" "room_Status room = RoomStatus_of (rr_Status r)"
    using dom by (auto simp: roomRecordToDomain_def Let_def split: if_splits)
  have "ruled d r" using ok r(1) by (simp add: rooms_ok_def)
  then show "room_Status room = (if room_CurrentSessionID room \<noteq> None then RoomStatusPlaying
      else if \<exists>p \<in> set ps. in_room p then RoomStatusReady else RoomStatusWaiting)"
    using f r(2) listed_seats [OF assms(4)] by (auto simp: ruled_def RoomStatus_of_def filter_empty_conv)
  show "\<forall>sid. room_CurrentSessionID room = Some sid \<longrightarrow> (\<exists>s. GetSession sid d = Inr s \<and> sess_RoomID s = i)"
  proof (intro allI impI)
    fix sid
    assume "room_CurrentSessionID room = Some sid"
    from room_read(3) [OF db assms(3) ok this] obtain g where g: "g \<in> set (d_game_sessions d)" "gs_ID g = sid" "gs_RoomID g = i"
      by (auto simp: session_of_def)
    have g_ok: "session_ok lib d g" using reachable_game_ok [OF assms(1,2)] g(1) by (simp add: game_ok_def)
    then obtain s where s: "gameSessionRecordToDomain g = Inr s" by (auto simp: session_ok_def)
    have "inj_on gs_ID (set (d_game_sessions d))" using db by (simp add: db_ok_def keys_ok_def unique_by_def distinct_map)
    then have "session_row d sid = Some g" using g
      by (cases "session_row d sid") (auto simp: session_row_def tbl_first_None dest!: tbl_first_Some inj_onD)
    with s g(3) show "\<exists>s. GetSession sid d = Inr s \<and> sess_RoomID s = i"
      by (auto simp: GetSession_Inr gameSessionRecordToDomain_def Let_def split: sum.splits if_splits)
  qed
qed

theorem room_status_rule_witness:
  "room_Status sample_playing = RoomStatusPlaying \<and> rp_UserID sample_member = room_HostUserID sample_playing"
proof -
  have "ListRoomPlayersByRoomID ''room'' (w_db sample_round) = Inr [sample_member]" by code_simp
  from room_status_rule [OF reference_lib_documented reachable_sample(4) sample_reads(1) this]
  show ?thesis by simp
qed

end
