(* ===== verification/Sample_Rematch.thy ===== *)
theory Sample_Rematch
  imports Sample_Run
begin

text \<open>
  The run of \<open>Sample_Run\<close> goes on: the player's time is up, a pass of the worker forfeits the round,
  and the host votes for a rematch. The store after the pass is reachable and the vote is accepted.
\<close>

subsection \<open>The forfeit\<close>

definition over_session :: GameSession where
  "over_session = sample_session\<lparr>sess_Status := SessionStatusResetting,
     sess_Version := 2, sess_TurnDeadlineAt := None, sess_RematchDeadlineAt := Some (50 * Second + 31),
     sess_UpdatedAt := 20 * Second + 31\<rparr>"

definition sample_over :: world where
  "sample_over = \<lparr>w_db = empty_db
    \<lparr>d_rooms := [roomRecordFromDomain (sample_playing\<lparr>room_UpdatedAt := 20 * Second + 36\<rparr>)],
     d_room_players := [roomPlayerRecordFromDomain sample_member],
     d_game_sessions := [gameSessionRecordFromDomain over_session],
     d_player_states := [playerStateRecordFromDomain (sample_player\<lparr>ps_Status := PlayerStatusStand,
       ps_Outcome := Some OutcomeLose, ps_FinalScore := Some 14\<rparr>)],
     d_dealer_states := [dealerStateRecordFromDomain (sample_dealer\<lparr>ds_HoleHidden := False, ds_FinalScore := Some 6\<rparr>)],
     d_action_logs := [\<lparr>alr_ID = 2, alr_SessionID = ''r1'', alr_ActorType = ''SYSTEM'', alr_ActorUserID = ''ann'',
       alr_TargetUserID = ''ann'', alr_ActionID = ''time-forfeit:r1:2'', alr_RequestType = ''TIME_FORFEIT'',
       alr_RequestPayloadHash = ''TIME_FORFEIT:2'', alr_ResponseSnapshot = action_snapshot ''room'' ''r1'' 2\<rparr>],
     d_round_logs := [\<lparr>rlr_ID = 1, rlr_SessionID = ''r1'', rlr_RoundNo = 1,
       rlr_ResultPayload = marshalGameJSON [(''player_score'', JNum 14), (''dealer_score'', JNum 6),
         (''outcome'', JStr ''LOSE''), (''time_forfeit'', JBool True)], rlr_CreatedAt = 20 * Second + 31\<rparr>],
     d_serial := 2\<rparr>, w_calls = 40\<rparr>"

lemma sample_forfeited:
  "forfeit (svc reference_lib) sample_playing sample_session sample_player sample_dealer late_env
     (sample_round\<lparr>w_calls := 31\<rparr>) = (Inr (), sample_over)"
  by code_simp

abbreviation over_at :: "nat \<Rightarrow> world" where
  "over_at n \<equiv> sample_over\<lparr>w_calls := n\<rparr>"

lemma over_keys [simp]:
  "sess_ID over_session = ''r1''" "sess_RoomID over_session = ''room''" "sess_Status over_session = SessionStatusResetting"
  "sess_Version over_session = 2" "sess_RoundNo over_session = 1" "sess_ResultSnapshot over_session = None"
  "sess_RematchDeadlineAt over_session = Some (50 * Second + 31)" "sess_TurnDeadlineAt over_session = None"
  by (simp_all add: over_session_def sample_session_def)

lemma late_calls [simp]:
  "env_fault late_env n = None" "env_now late_env n = 20 * Second + int n" "env_getenv late_env x = []"
  "env_uuid late_env = env_uuid sample_env" "env_rand late_env = env_rand sample_env" "env_sha256hex late_env h = h"
  by (simp_all add: late_env_def sample_env_def)

lemma pass_reads:
  "ListSessionsByStatusAndDeadlineBefore SessionStatusPlayerTurn (20 * Second + 24) (w_db sample_round) = Inr [sample_session]"
  "ListSessionsByStatus SessionStatusDealerTurn (w_db sample_over) = Inr []"
  "ListResettingSessionsDueBy (20 * Second + 24) (w_db sample_over) = Inr []"
proof -
  have f: "gs_Status (gameSessionRecordFromDomain sample_session) = ''PLAYER_TURN''"
    "gs_TurnDeadlineAt (gameSessionRecordFromDomain sample_session) = Some (16 + PlayerTurnTimeout)"
    "gs_Status (gameSessionRecordFromDomain over_session) = ''RESETTING''"
    "gs_RematchDeadlineAt (gameSessionRecordFromDomain over_session) = Some (50 * Second + 31)"
    by (simp_all add: gameSessionRecordFromDomain_def sample_session_def)
  then show "ListSessionsByStatusAndDeadlineBefore SessionStatusPlayerTurn (20 * Second + 24) (w_db sample_round) = Inr [sample_session]"
    "ListSessionsByStatus SessionStatusDealerTurn (w_db sample_over) = Inr []"
    "ListResettingSessionsDueBy (20 * Second + 24) (w_db sample_over) = Inr []"
    by (simp_all add: ListSessionsByStatusAndDeadlineBefore_def ListSessionsByStatus_def ListResettingSessionsDueBy_def
        sample_round_def sample_over_def due_def PlayerTurnTimeout_def Second_def row_roundtrips)
qed

lemma vote_reads:
  "GetRoom ''room'' (w_db sample_over) = Inr (sample_playing\<lparr>room_UpdatedAt := 20 * Second + 36\<rparr>)"
  "GetRoomPlayer ''room'' ''ann'' (w_db sample_over) = Inr sample_member"
  "ListRoomPlayersByRoomID ''room'' (w_db sample_over) = Inr [sample_member]"
  "GetLatestSessionByRoomID ''room'' (w_db sample_over) = Inr over_session"
  "GetSession ''r1'' (w_db sample_over) = Inr over_session"
  "GetActionLogByActionID ''r1'' ''ann'' ''v1'' (w_db sample_over) = Inl ErrNotFound"
  "ListRematchVotes ''r1'' (w_db sample_over) = Inr []"
proof -
  have m: "rpr_RoomID (roomPlayerRecordFromDomain sample_member) = ''room''"
    "rpr_key (roomPlayerRecordFromDomain sample_member) = (''room'', ''ann'')"
    "roomPlayerRecordToDomain (roomPlayerRecordFromDomain sample_member) = Inr sample_member"
    "gs_RoomID (gameSessionRecordFromDomain over_session) = ''room''"
    "rp_RoomID sample_member = ''room''" "rp_UserID sample_member = ''ann''"
    by (simp_all add: roomPlayerRecordFromDomain_def roomPlayerRecordToDomain_def rpr_key_def sample_member_def
        gameSessionRecordFromDomain_def RoomPlayerStatus_of_def Let_def)
  show "GetRoom ''room'' (w_db sample_over) = Inr (sample_playing\<lparr>room_UpdatedAt := 20 * Second + 36\<rparr>)"
    "GetRoomPlayer ''room'' ''ann'' (w_db sample_over) = Inr sample_member"
    "ListRoomPlayersByRoomID ''room'' (w_db sample_over) = Inr [sample_member]"
    "GetLatestSessionByRoomID ''room'' (w_db sample_over) = Inr over_session"
    "GetSession ''r1'' (w_db sample_over) = Inr over_session"
    "GetActionLogByActionID ''r1'' ''ann'' ''v1'' (w_db sample_over) = Inl ErrNotFound"
    "ListRematchVotes ''r1'' (w_db sample_over) = Inr []"
    by (simp_all add: sample_over_def GetRoom_def GetRoomPlayer_def ListRoomPlayersByRoomID_def GetLatestSessionByRoomID_def
      GetSession_def GetActionLogByActionID_def ListRematchVotes_def gorm_First_def row_roundtrips m
      mapErr_def empty_db_def)
qed

subsection \<open>The vote\<close>

abbreviation vote_now :: time where "vote_now \<equiv> 20 * Second + 48"

definition vote_cast :: world where
  "vote_cast = snd (tx_UpsertRematchVote \<lparr>rv_SessionID = ''r1'', rv_UserID = ''ann'', rv_Agree = True\<rparr>
     late_env (over_at 50))"

definition vote_bumped :: world where
  "vote_bumped = snd (store_cas (Session_Touch vote_now (IncrementVersion over_session)) 2 late_env vote_cast)"

definition vote_fresh :: GameSession where
  "vote_fresh = sample_fresh\<lparr>sess_ID := ''r2'', sess_RoundNo := 2, sess_CreatedAt := vote_now, sess_UpdatedAt := vote_now\<rparr>"

definition vote_next :: "GameSession \<times> PlayerState \<times> DealerState" where
  "vote_next = (case open_round (svc reference_lib) vote_now (SetDeck factory_deck vote_fresh) ''ann'' of Inr t \<Rightarrow> t)"

definition vote_room :: Room where
  "vote_room = sample_playing\<lparr>room_CurrentSessionID := Some ''r2'', room_UpdatedAt := vote_now\<rparr>"

lemma vote_steps:
  "tx_UpsertRematchVote \<lparr>rv_SessionID = ''r1'', rv_UserID = ''ann'', rv_Agree = True\<rparr> late_env (over_at 50) = (Inr (), vote_cast)"
  "store_cas (Session_Touch vote_now (IncrementVersion over_session)) 2 late_env vote_cast = (Inr True, vote_bumped)"
  "w_calls vote_bumped = 53"
  by code_simp+

lemma vote_values:
  "NewGameSession vote_now ''r2'' ''room''
     (wrap64 (sess_RoundNo (Session_Touch vote_now (IncrementVersion over_session)) + 1)) vote_now = Inr vote_fresh"
  "open_round (svc reference_lib) vote_now (SetDeck factory_deck vote_fresh) ''ann'' = Inr vote_next"
  "map_sum id (Room_Touch vote_now) (RecalculateStatus (sample_playing\<lparr>room_UpdatedAt := 20 * Second + 36,
     room_CurrentSessionID := Some (sess_ID (fst vote_next))\<rparr>) 1 True) = Inr vote_room"
  "sess_ID (fst vote_next) = ''r2''" "sess_Version (fst vote_next) = 1" "sess_RoundNo (fst vote_next) = 2"
  "env_uuid sample_env 53 = ''r2''"
  by code_simp+

definition vote_created :: world where
  "vote_created = snd (create_round_tx (fst vote_next) (fst (snd vote_next)) (snd (snd vote_next)) vote_room
     late_env (vote_bumped\<lparr>w_calls := 55\<rparr>))"

lemma vote_commit:
  "fst (create_round_tx (fst vote_next) (fst (snd vote_next)) (snd (snd vote_next)) vote_room
     late_env (vote_bumped\<lparr>w_calls := 55\<rparr>)) = Inr ()"
  "fst (SaveActionSuccessSnapshot (vote_log ''r1'' ''ann'' ''v1'' (vote_payload True 2))
     (action_snapshot ''room'' ''r2'' 1) late_env vote_created) = Inr ()"
  by code_simp+

lemma pass_over:
  "serve (svc reference_lib) WorkerPass late_env sample_round = (Inr (), over_at 42)"
proof -
  have c: "w_calls sample_round = 24" "w_calls sample_over = 40" by (simp_all add: sample_round_def sample_over_def)
  have d: "due (sess_TurnDeadlineAt sample_session) (20 * Second + 27)"
    by (simp add: due_def sample_session_def Second_def PlayerTurnTimeout_def)
  have stand: "playerStand (svc reference_lib) ''r1'' late_env (sample_round\<lparr>w_calls := 26\<rparr>) = (Inr (), sample_over)"
    using d by (simp add: playerStand_def load_round_def timeout_move_def bind_def store_read_def
        store_op_def io_now_def io_getenv_def ret_def sample_reads sample_forfeited TrimSpace_def)
  show ?thesis
    by (simp add: void_def AutoStandDueSessions_def worker_step_def bind_def store_read_def store_op_def io_now_def ret_def
        attempt_def stand c pass_reads note_room_def)
qed

lemma reachable_over: "reachable (svc reference_lib) (w_db sample_over)"
  using reach_serve [OF reachable_sample(4) pass_over] by simp

lemma vote_accepted:
  "\<exists>w'. VoteRematch (svc reference_lib) ''room'' ''ann'' True 2 ''v1'' late_env (over_at 42)
     = (Inr (vote_room, fst vote_next), w')"
proof -
  let ?room = "sample_playing\<lparr>room_UpdatedAt := 20 * Second + 36\<rparr>"
  have c: "w_calls sample_over = 40" by (simp add: sample_over_def)
  obtain s p x where nxt: "vote_next = (s, p, x)" by (cases vote_next)
  obtain r where r: "RecalculateStatus (?room\<lparr>room_CurrentSessionID := Some ''r2''\<rparr>) 1 True = Inr r"
    "Room_Touch vote_now r = vote_room"
    using vote_values(3,4) by (cases "RecalculateStatus (?room\<lparr>room_CurrentSessionID := Some ''r2''\<rparr>) 1 True") auto
  have deck: "io_deck late_env w = (Inr factory_deck, tick w)" for w
    by (simp add: io_deck_def sample_env_def sample_shuffle)
  have create: "create_round_tx s p x vote_room late_env (vote_bumped\<lparr>w_calls := 55\<rparr>) = (Inr (), vote_created)"
    using vote_commit(1) nxt by (simp add: vote_created_def prod_eq_iff)
  have id: "sess_ID s = ''r2''" "sess_Version s = 1" using vote_values(4,5) [unfolded nxt fst_conv] .
  have "rematchUnanimousSuccessTx (svc reference_lib) ?room over_session ''ann'' vote_now 2 late_env vote_cast
      = (Inr (vote_room, s), vote_created)"
    unfolding rematchUnanimousSuccessTx_def Let_def
    by (simp add: bind_def vote_steps guard_def io_uuid_def vote_values(7) deck lift_def vote_values(1,2) nxt id r create ret_def
        del: touch_fields)
  then have out: "vote_outcome (svc reference_lib) ?room over_session [''ann''] ((votes_map [])(''ann'' \<mapsto> True)) vote_now 2 late_env vote_cast
      = (Inr (vote_room, s), vote_created)"
    using single_voter_decides [of "svc reference_lib" ?room over_session "''ann''" "[]" True] by simp
  have e: "rematchEligibleUserIDs [sample_member] = [''ann'']"
    by (simp add: rematchEligibleUserIDs_def in_room_def sample_member_def)
  have v: "ActionLog_Validate (vote_log ''r1'' ''ann'' ''v1'' (vote_payload True 2)) = None"
    by (simp add: ActionLog_Validate_def vote_log_def vote_payload_def)
  have r_id: "room_ID vote_room = ''room''" by (simp add: vote_room_def)
  have f: "al_SessionID (vote_log a b c h) = a" "al_ActorUserID (vote_log a b c h) = b" "al_ActionID (vote_log a b c h) = c"
    for a b c h by (simp_all add: vote_log_def)
  obtain v3 where save: "SaveActionSuccessSnapshot (vote_log ''r1'' ''ann'' ''v1'' (vote_payload True 2))
     (action_snapshot ''room'' ''r2'' 1) late_env vote_created = (Inr (), v3)"
    using vote_commit(2) by (metis prod.collapse)
  have "VoteRematch_tx (svc reference_lib) ?room ''room'' ''r1'' ''ann'' True 2 ''v1'' late_env (over_at 45)
      = (Inr (vote_room, s), v3)"
    unfolding VoteRematch_tx_def cast_vote_def Let_def
    by (simp add: bind_def store_read_def store_op_def vote_reads GetSessionForUpdate_eq guard_def check_def CheckVersion_def
      sha256hex_def EnsureActionIdempotency_def attempt_def ret_def v f e io_now_def vote_steps out save id r_id)
  then show ?thesis
    by (simp add: VoteRematch_def bind_def store_read_def store_op_def vote_reads attempt_def ret_def transaction_def c nxt)
qed

end
