(* ===== verification/Rematch_Properties.thy ===== *)
theory Rematch_Properties
  imports Room_Invariant Sample_Rematch
begin

text \<open>
  The properties of the rematch vote and of the worker.
\<close>

theorem denial_keeps_session:
  assumes "cast_vote u room roomID sess userID False n actionLog e w = (Inr (room', sess'), w')"
    and "room_ID room = roomID"
  shows "rounds (w_db w') = rounds (w_db w) \<and> sess_Version sess' = sess_Version sess
    \<and> (\<exists>r. GetRoom roomID (w_db w') = Inr r \<and> room_CurrentSessionID r = None
         \<and> room_Status r \<noteq> RoomStatusPlaying)"
proof -
  from assms(1) obtain players votes now v1 v2 k where
    el: "userID \<in> set (rematchEligibleUserIDs players)" and
    up: "tx_UpsertRematchVote \<lparr>rv_SessionID = sess_ID sess, rv_UserID = userID, rv_Agree = False\<rparr>
       e (w\<lparr>w_calls := k\<rparr>) = (Inr (), v1)" and
    out: "vote_outcome u room (if sess_RematchDeadlineAt sess = None then SetRematchDeadline now sess else sess)
       (rematchEligibleUserIDs players) ((votes_map votes)(userID \<mapsto> False)) now n e v1
         = (Inr (room', sess'), v2)" and
    save: "SaveActionSuccessSnapshot actionLog
       (action_snapshot (room_ID room') (sess_ID sess') (sess_Version sess')) e v2 = (Inr (), w')"
    by (rule cast_vote_run) auto
  let ?votes = "(votes_map votes)(userID \<mapsto> False)"
  have "\<not> RematchUnanimous (rematchEligibleUserIDs players) ?votes"
    using el by (auto simp: RematchUnanimous_def list_all_iff agreed_def)
  moreover have "hasExplicitRematchDenial (rematchEligibleUserIDs players) ?votes"
    using el by (auto simp: hasExplicitRematchDenial_def list_ex_iff)
  ultimately have fin: "finalizeRematchFailureTx room e v1 = (Inr room', v2)"
    and s: "sess' = (if sess_RematchDeadlineAt sess = None then SetRematchDeadline now sess else sess)"
    using out by (auto simp: vote_outcome_def prog_elims)
  have r: "rounds (w_db w') = rounds (w_db w)"
    using asideD [OF aside_store(8) up] asideD [OF aside_finalize fin] asideD [OF aside_Save save] by simp
  from fin obtain n0 t t' at where
    rc: "RecalculateStatus (room\<lparr>room_CurrentSessionID := None\<rparr>) n0 False = Inr t" and
    d: "UpdateRoom t' room' (w_db v1) = Inr (w_db v2)" and rm: "room' = Room_Touch at t"
    by (auto simp: finalizeRematchFailureTx_def prog_elims Let_def)
  have room': "room_ID room' = roomID" "room_CurrentSessionID room' = None" "valid_room room'"
    "room_Status room' \<noteq> RoomStatusPlaying"
    using rc rm assms(2) by (auto simp: RecalculateStatus_Inr)
  have "GetRoom roomID (w_db v2) = Inr (room'\<lparr>room_UpdatedAt := t'\<rparr>)"
    using GetRoom_after_update(1) [OF d room'(3)] room'(1) by simp
  moreover have "GetRoom roomID (w_db w') = GetRoom roomID (w_db v2)"
    using save by (auto simp: SaveActionSuccessSnapshot_def prog_elims GetRoom_logs)
  ultimately show ?thesis using r s room' by simp
qed

theorem denial_keeps_session_witness:
  "\<exists>room' sess' w'. cast_vote (svc reference_lib) sample_playing ''room'' sample_session ''ann'' False 1
       (vote_log ''r1'' ''ann'' ''v1'' ''h'') sample_env sample_round = (Inr (room', sess'), w')
     \<and> rounds (w_db w') = rounds (w_db sample_round) \<and> sess_Version sess' = 1"
proof -
  obtain room' sess' w' where run: "cast_vote (svc reference_lib) sample_playing ''room'' sample_session
      ''ann'' False 1 (vote_log ''r1'' ''ann'' ''v1'' ''h'') sample_env sample_round = (Inr (room', sess'), w')"
    using sample_denial by (auto split: sum.splits) (metis prod.collapse)
  from denial_keeps_session [OF run] run show ?thesis by auto
qed

lemma latest_read:
  assumes db: "db_ok d" and r: "GetLatestSessionByRoomID i d = Inr s"
  shows "GetSession (sess_ID s) d = Inr s" "sess_RoomID s = i"
proof -
  from r obtain g where g: "g \<in> set (d_game_sessions d)" "gs_RoomID g = i" and dom: "gameSessionRecordToDomain g = Inr s"
    by (auto simp: GetLatestSessionByRoomID_def gorm_First_Inr split: sum.splits dest!: tbl_first_Some)
  have f: "sess_ID s = gs_ID g" "sess_RoomID s = gs_RoomID g"
    using dom by (auto simp: gameSessionRecordToDomain_def Let_def split: sum.splits if_splits)
  have "inj_on gs_ID (set (d_game_sessions d))" using db by (simp add: db_ok_def keys_ok_def unique_by_def distinct_map)
  then have "session_row d (gs_ID g) = Some g" using g
    by (cases "session_row d (gs_ID g)") (auto simp: session_row_def tbl_first_None dest!: tbl_first_Some inj_onD)
  with dom f g(2) show "GetSession (sess_ID s) d = Inr s" "sess_RoomID s = i" by (simp_all add: GetSession_Inr)
qed

lemma success_opens_round:
  assumes "lib_documented lib"
    and "rematchUnanimousSuccessTx (svc lib) room prev userID now n e w = (Inr (room', s), w')"
  shows "round_stored lib (room_ID room) userID room' s (w_db w')
    \<and> sess_RoundNo s = wrap64 (sess_RoundNo prev + 1)"
  using assms(2)
proof (rule success_run)
  fix d1 sid sess rnd deck s0 p x r' k
  assume new: "NewGameSession now sid (room_ID room) (wrap64 (sess_RoundNo prev + 1)) now = Inr sess"
      "newShuffledDeck rnd = Inr deck"
    and deal: "open_round (svc lib) now (SetDeck deck sess) userID = Inr (s0, p, x)"
    and rec: "RecalculateStatus (room\<lparr>room_CurrentSessionID := Some (sess_ID s0)\<rparr>) 1 True = Inr r'"
    and tx: "create_round_tx s0 p x (Room_Touch now r') e (w\<lparr>w_db := d1, w_calls := k\<rparr>) = (Inr (), w')"
    and out: "(room', s) = (Room_Touch now r', s0)"
  have "sess_RoundNo s0 = wrap64 (sess_RoundNo prev + 1)"
    using open_round_ok(5) [OF assms(1) fresh_round(1) [OF new] deal] fresh_round(6) [OF new] by simp
  with round_stored_create [OF assms(1) new deal rec tx _ refl] out show ?thesis by simp
qed

text \<open>The only voter of a room is its host.\<close>

lemma only_voter:
  assumes db: "db_ok d" "rooms_ok d" and room: "GetRoom i d = Inr room"
    and ps: "ListRoomPlayersByRoomID i d = Inr ps" and u: "user \<in> set (rematchEligibleUserIDs ps)"
  shows "rematchEligibleUserIDs ps = [user]" "user = room_HostUserID room"
proof -
  note members = members_of_host [OF db room ps]
  from u obtain p where p: "p \<in> set ps" "in_room p" "rp_UserID p = user"
    by (auto simp: rematchEligibleUserIDs_def)
  with members(1) have "ps = [p]" by (cases ps) auto
  with p show "rematchEligibleUserIDs ps = [user]" by (simp add: rematchEligibleUserIDs_def)
  from members(2) [OF p(1)] p(3) show "user = room_HostUserID room" by simp
qed

lemma round_stored_logged:
  assumes "round_stored lib i user room s (w_db v)" "SaveActionSuccessSnapshot a t e v = (Inr (), w')"
  shows "round_stored lib i user room s (w_db w')"
proof -
  have r: "rounds (w_db w') = rounds (w_db v)" using asideD [OF aside_Save assms(2)] .
  have "GetRoom i (w_db w') = GetRoom i (w_db v)"
    using assms(2) by (auto simp: SaveActionSuccessSnapshot_def prog_elims GetRoom_logs)
  with assms(1) r show ?thesis
    by (auto simp: round_stored_def GetSession_rounds [OF r] GetPlayerState_def GetDealerState_def rounds_def)
qed

lemma vote_not_replayed:
  assumes tx: "VoteRematch_tx u room i sid user agree n a e w = (Inr r, w')"
    and prev: "GetSession sid (w_db w) = Inr prev"
    and fresh: "\<forall>l. GetActionLogByActionID (sess_ID prev) user a (w_db w) \<noteq> Inr l"
  obtains v where "sess_Status prev = SessionStatusResetting" "sess_Version prev = n" "w_db v = w_db w"
    "cast_vote u room i prev user agree n (vote_log (sess_ID prev) user a
       (env_sha256hex e (vote_payload agree n))) e v = (Inr r, w')"
proof -
  let ?log = "vote_log (sess_ID prev) user a (env_sha256hex e (vote_payload agree n))"
  from tx prev obtain t b v where
    s: "sess_Status prev = SessionStatusResetting" "CheckVersion prev n = None" and
    ens: "EnsureActionIdempotency ?log e (tick w) = (Inr (t, b), v)" and
    rest: "if b then r = (room, prev) \<and> w' = v else cast_vote u room i prev user agree n ?log e v = (Inr r, w')"
    by (auto simp: VoteRematch_tx_def GetSessionForUpdate_eq prog_elims Let_def split: if_splits)
  have "w_db v = w_db w" using readonlyD [OF readonly_Ensure ens] by simp
  moreover have "\<not> b"
    using ens fresh by (auto simp: EnsureActionIdempotency_def prog_elims read_answer_Inr vote_log_def split: sum.splits if_splits)
  moreover have "sess_Version prev = n" using s(2) by (auto simp: CheckVersion_def split: if_splits)
  ultimately show thesis using that s(1) rest by simp
qed

text \<open>
  C32. A vote for a rematch that is accepted, in a reachable store and with an action id that
  was not answered before, was cast by the host, the only voter, so it is unanimous, at the
  current version of the room's latest round, which has its result; it stores a new consistent
  round for the same room and player with the next round number, and the room plays it.
\<close>

theorem rematch_opens_round:
  assumes lib: "lib_documented lib" and reach: "reachable (svc lib) (w_db w)"
    and latest: "GetLatestSessionByRoomID i (w_db w) = Inr prev"
    and fresh: "\<forall>l. GetActionLogByActionID (sess_ID prev) user a (w_db w) \<noteq> Inr l"
    and vote: "VoteRematch (svc lib) i user True n a e w = (Inr (room, s), w')"
  shows "sess_Status prev = SessionStatusResetting \<and> sess_Version prev = n \<and> sess_RoomID prev = i
    \<and> (\<exists>r. GetRoom i (w_db w) = Inr r \<and> room_HostUserID r = user)
    \<and> round_stored lib i user room s (w_db w')
    \<and> sess_RoundNo s = wrap64 (sess_RoundNo prev + 1)"
proof -
  note db = reachable_db_ok [OF reach] and ok = reachable_rooms_ok [OF lib reach]
  note prev = latest_read [OF db latest]
  from vote obtain room0 k v' where
    r: "GetRoom i (w_db w) = Inr room0" and
    tx: "VoteRematch_tx (svc lib) room0 i (sess_ID prev) user True n a e (w\<lparr>w_calls := k\<rparr>) = (Inr (room, s), v')" and
    w': "w_db w' = w_db v'"
    by (rule VoteRematch_run) (use latest in simp)
  from tx obtain v where st: "sess_Status prev = SessionStatusResetting" "sess_Version prev = n" and
    v: "w_db v = w_db w" and
    cast: "cast_vote (svc lib) room0 i prev user True n (vote_log (sess_ID prev) user a
       (env_sha256hex e (vote_payload True n))) e v = (Inr (room, s), v')"
    by (rule vote_not_replayed) (use prev(1) fresh in simp_all)
  let ?prev = "\<lambda>now. if sess_RematchDeadlineAt prev = None then SetRematchDeadline now prev else prev"
  from cast obtain players votes now v1 v2 where
    ps: "ListRoomPlayersByRoomID i (w_db w) = Inr players" "user \<in> set (rematchEligibleUserIDs players)" and
    out: "vote_outcome (svc lib) room0 (?prev now)
       (rematchEligibleUserIDs players) ((votes_map votes)(user \<mapsto> True)) now n e v1 = (Inr (room, s), v2)" and
    save: "SaveActionSuccessSnapshot (vote_log (sess_ID prev) user a (env_sha256hex e (vote_payload True n)))
       (action_snapshot (room_ID room) (sess_ID s) (sess_Version s)) e v2 = (Inr (), v')"
    by (rule cast_vote_run) (simp add: v)
  note voter = only_voter [OF db ok r ps]
  from out have succ: "rematchUnanimousSuccessTx (svc lib) room0 (?prev now) user now n e v1 = (Inr (room, s), v2)"
    unfolding voter(1) single_voter_decides by simp
  have id: "room_ID room0 = i" by (rule GetRoom_id [OF r])
  have "round_stored lib i user room s (w_db v2)" "sess_RoundNo s = wrap64 (sess_RoundNo prev + 1)"
    using success_opens_round [OF lib succ] id by simp_all
  with round_stored_logged [OF _ save] w' st prev(2) r voter(2) show ?thesis by simp
qed

theorem rematch_opens_round_witness:
  "\<exists>w'. VoteRematch (svc reference_lib) ''room'' ''ann'' True 2 ''v1'' late_env (over_at 42)
       = (Inr (vote_room, fst vote_next), w')
     \<and> round_stored reference_lib ''room'' ''ann'' vote_room (fst vote_next) (w_db w') \<and> sess_RoundNo (fst vote_next) = 2"
proof -
  obtain w' where vote: "VoteRematch (svc reference_lib) ''room'' ''ann'' True 2 ''v1'' late_env (over_at 42)
      = (Inr (vote_room, fst vote_next), w')" using vote_accepted by blast
  have "reachable (svc reference_lib) (w_db (over_at 42))" using reachable_over by simp
  from rematch_opens_round [OF reference_lib_documented this _ _ vote, of over_session] vote vote_reads(4,6)
    vote_values(6) show ?thesis by simp
qed

theorem stale_round_reported_forever:
  assumes "GetSession (sess_ID s) (w_db w) = Inr s" "sess_Status s = SessionStatusResetting"
    and "due (sess_RematchDeadlineAt s) (env_now e (Suc (w_calls w)))"
    and "GetRoom (sess_RoomID s) (w_db w) = Inr room" "room_CurrentSessionID room \<noteq> Some (sess_ID s)"
    and "\<forall>n. env_fault e n = None"
  shows "\<exists>w'. worker_step (processRematchDeadline u) s rooms e w = (Inr (note_room (sess_RoomID s) rooms), w')
    \<and> w_db w' = w_db w"
  using assms
  by (simp add: worker_step_def attempt_def processRematchDeadline_def transaction_def bind_def
      store_read_def store_op_def io_now_def ret_def GetSessionForUpdate_eq)

theorem stale_round_reported_forever_witness:
  "\<exists>w'. worker_step (processRematchDeadline (svc reference_lib)) (sample_session\<lparr>sess_Status := SessionStatusResetting,
       sess_RematchDeadlineAt := Some 20\<rparr>) [] sample_env sample_stale = (Inr [''room''], w')
    \<and> w_db w' = w_db sample_stale"
proof -
  let ?s = "sample_session\<lparr>sess_Status := SessionStatusResetting, sess_RematchDeadlineAt := Some 20\<rparr>"
  have s: "GetSession (sess_ID ?s) (w_db sample_stale) = Inr ?s"
    "GetRoom (sess_RoomID ?s) (w_db sample_stale) = Inr sample_room"
    by (simp_all add: sample_stale_def GetSession_def GetRoom_def gorm_First_def row_roundtrips sample_room_def)
  have d: "due (sess_RematchDeadlineAt ?s) (env_now sample_env (Suc (w_calls sample_stale)))"
    by (simp add: due_def sample_env_def sample_stale_def)
  have c: "room_CurrentSessionID sample_room \<noteq> Some (sess_ID ?s)" by (simp add: sample_room_def)
  have f: "\<forall>n. env_fault sample_env n = None" by (simp add: sample_env_def)
  from stale_round_reported_forever [OF s(1) _ d s(2) c f, of "svc reference_lib" "[]"]
  show ?thesis by (simp add: note_room_def)
qed


end
