(* ===== verification/Ws_Hub.thy ===== *)
theory Ws_Hub
  imports Room_View
begin

text \<open>
  The WebSocket hub and the connection epochs of \<open>backend/controller/room_ws_controller.go\<close>. A
  connection is identified by a number, as its pointer does in the code; the maps of the hub are
  maps here, keyed by the same strings. The epochs live in Redis: a counter and the latest epoch
  per room and user (the latest one expires with its TTL).
\<close>

subsection \<open>The hub\<close>

type_synonym conn = nat

record wsConnMeta =
  meta_userID :: string
  meta_epoch :: int

record roomHub =
  hub_rooms :: "string \<rightharpoonup> (conn \<rightharpoonup> wsConnMeta)"
  hub_latest :: "string \<rightharpoonup> conn"

definition empty_hub :: roomHub where
  "empty_hub = \<lparr>hub_rooms = Map.empty, hub_latest = Map.empty\<rparr>"

definition latest_key :: "string \<Rightarrow> string \<Rightarrow> string" where
  "latest_key roomID userID = roomID @ '':'' @ userID"

text \<open>Reading a missing room gives an empty (nil) map.\<close>

definition hub_conns :: "roomHub \<Rightarrow> string \<Rightarrow> conn \<rightharpoonup> wsConnMeta" where
  "hub_conns h roomID = (case hub_rooms h roomID of None \<Rightarrow> Map.empty | Some m \<Rightarrow> m)"

definition hub_add :: "string \<Rightarrow> conn \<Rightarrow> wsConnMeta \<Rightarrow> roomHub \<Rightarrow> roomHub \<times> conn option" where
  "hub_add roomID c meta h =
     (let key = latest_key roomID (meta_userID meta);
          old = hub_latest h key;
          conns = hub_conns h roomID;
          conns = (case old of None \<Rightarrow> conns | Some o' \<Rightarrow> conns(o' := None))
      in (\<lparr>hub_rooms = (hub_rooms h)(roomID \<mapsto> conns(c \<mapsto> meta)),
           hub_latest = (hub_latest h)(key \<mapsto> c)\<rparr>, old))"

definition hub_remove :: "string \<Rightarrow> conn \<Rightarrow> roomHub \<Rightarrow> roomHub" where
  "hub_remove roomID c h =
     (case hub_rooms h roomID of
        None \<Rightarrow> h
      | Some conns \<Rightarrow>
          let conns = conns(c := None) in
          \<lparr>hub_rooms = (hub_rooms h)(roomID := (if conns = Map.empty then None else Some conns)),
           hub_latest = (\<lambda>k. if hub_latest h k = Some c then None else hub_latest h k)\<rparr>)"

definition hub_snapshot :: "string \<Rightarrow> roomHub \<Rightarrow> conn \<rightharpoonup> wsConnMeta" where
  "hub_snapshot roomID h = hub_conns h roomID"

definition hub_isLatest :: "string \<Rightarrow> string \<Rightarrow> conn \<Rightarrow> roomHub \<Rightarrow> bool" where
  "hub_isLatest roomID userID c h \<longleftrightarrow> hub_latest h (latest_key roomID userID) = Some c"

text \<open>
  The states the server reaches: a connection is added once, as a new pointer, to a room whose
  id (a UUID) has no colon, and removed from the room it was opened for (\<open>own\<close>), any number of
  times.
\<close>

inductive hub_reach :: "(conn \<rightharpoonup> string) \<Rightarrow> roomHub \<Rightarrow> bool" where
  hub_init: "hub_reach Map.empty empty_hub"
| hub_step_add: "hub_reach own h \<Longrightarrow> own c = None \<Longrightarrow> CHR '':'' \<notin> set roomID \<Longrightarrow>
    hub_reach (own(c \<mapsto> roomID)) (fst (hub_add roomID c meta h))"
| hub_step_remove: "hub_reach own h \<Longrightarrow> own c = Some roomID \<Longrightarrow>
    hub_reach own (hub_remove roomID c h)"

definition hub_inv :: "(conn \<rightharpoonup> string) \<Rightarrow> roomHub \<Rightarrow> bool" where
  "hub_inv own h \<longleftrightarrow>
     (\<forall>r c m. hub_conns h r c = Some m \<longrightarrow>
        own c = Some r \<and> CHR '':'' \<notin> set r \<and> hub_latest h (latest_key r (meta_userID m)) = Some c)"

lemma latest_key_inj:
  assumes "CHR '':'' \<notin> set r" "CHR '':'' \<notin> set r'" "latest_key r u = latest_key r' u'"
  shows "r = r' \<and> u = u'"
proof -
  have tw: "takeWhile (\<lambda>c. c \<noteq> CHR '':'') (latest_key s v) = s" if "CHR '':'' \<notin> set s" for s v
  proof -
    have "\<forall>c \<in> set s. c \<noteq> CHR '':''" using that by auto
    then show ?thesis by (simp add: latest_key_def takeWhile_append)
  qed
  have "r = r'" using tw [OF assms(1), of u] tw [OF assms(2), of u'] assms(3) by simp
  with assms(3) show ?thesis by (simp add: latest_key_def)
qed

lemma hub_conns_add:
  "hub_conns (fst (hub_add roomID c meta h)) r =
     (if r = roomID
      then (case hub_latest h (latest_key roomID (meta_userID meta)) of
              None \<Rightarrow> hub_conns h r | Some o' \<Rightarrow> (hub_conns h r)(o' := None))(c \<mapsto> meta)
      else hub_conns h r)"
  by (auto simp: hub_add_def hub_conns_def Let_def split: option.splits)

lemma hub_inv_add:
  assumes inv: "hub_inv own h" and new: "own c = None" and room: "CHR '':'' \<notin> set roomID"
  shows "hub_inv (own(c \<mapsto> roomID)) (fst (hub_add roomID c meta h))"
proof -
  let ?key = "latest_key roomID (meta_userID meta)"
  let ?h = "fst (hub_add roomID c meta h)"
  have latest: "hub_latest ?h = (hub_latest h)(?key \<mapsto> c)"
    by (simp add: hub_add_def Let_def)
  have "(own(c \<mapsto> roomID)) x = Some r \<and> CHR '':'' \<notin> set r
      \<and> hub_latest ?h (latest_key r (meta_userID m)) = Some x"
    if m: "hub_conns ?h r x = Some m" for r x m
  proof (cases "r = roomID \<and> x = c")
    case True
    with m have "m = meta" by (simp add: hub_conns_add)
    with True room latest show ?thesis by simp
  next
    case False
    with m have old: "hub_conns h r x = Some m"
      and kept: "r = roomID \<Longrightarrow> hub_latest h ?key \<noteq> Some x"
      by (auto simp: hub_conns_add split: if_splits option.splits)
    from inv old have x: "own x = Some r" "CHR '':'' \<notin> set r"
      "hub_latest h (latest_key r (meta_userID m)) = Some x" by (auto simp: hub_inv_def)
    have "latest_key r (meta_userID m) \<noteq> ?key"
    proof
      assume "latest_key r (meta_userID m) = ?key"
      with latest_key_inj [OF x(2) room] x(3) kept show False by force
    qed
    with x new show ?thesis by (auto simp: latest)
  qed
  then show ?thesis by (simp add: hub_inv_def)
qed

lemma hub_inv_remove:
  assumes inv: "hub_inv own h" and own: "own c = Some roomID"
  shows "hub_inv own (hub_remove roomID c h)"
proof (cases "hub_rooms h roomID")
  case None
  with inv show ?thesis by (simp add: hub_remove_def)
next
  case (Some conns)
  let ?h = "hub_remove roomID c h"
  have conns': "hub_conns ?h r = (if r = roomID then (hub_conns h r)(c := None) else hub_conns h r)"
    for r using Some by (auto simp: hub_remove_def hub_conns_def Let_def fun_eq_iff)
  have latest: "hub_latest ?h k = (if hub_latest h k = Some c then None else hub_latest h k)" for k
    using Some by (simp add: hub_remove_def Let_def)
  have "own x = Some r \<and> CHR '':'' \<notin> set r \<and> hub_latest ?h (latest_key r (meta_userID m)) = Some x"
    if m: "hub_conns ?h r x = Some m" for r x m
  proof -
    from m have old: "hub_conns h r x = Some m" and "\<not> (r = roomID \<and> x = c)"
      by (auto simp: conns' split: if_splits)
    with inv own have "x \<noteq> c" by (auto simp: hub_inv_def)
    with inv old show ?thesis by (auto simp: hub_inv_def latest)
  qed
  then show ?thesis by (simp add: hub_inv_def)
qed

lemma hub_reach_inv: "hub_reach own h \<Longrightarrow> hub_inv own h"
proof (induction rule: hub_reach.induct)
  case hub_init
  show ?case by (simp add: hub_inv_def empty_hub_def hub_conns_def)
next
  case hub_step_add
  then show ?case by (intro hub_inv_add)
next
  case hub_step_remove
  then show ?case by (intro hub_inv_remove)
qed

subsection \<open>Connection epochs\<close>

record redis =
  rd_counter :: "string \<times> string \<Rightarrow> int"
  rd_latest :: "string \<times> string \<rightharpoonup> int"

text \<open>
  \<open>on\<close> says whether Redis is configured. Registering runs two commands, \<open>INCR\<close> and \<open>SET\<close>; \<open>fault\<close> is
  the error of each, if it fails. The result is the error or the epoch, and the store afterwards: a
  counter that was advanced stays so when the second command fails.
\<close>

definition registerConnectionEpoch ::
    "bool \<Rightarrow> error option \<times> error option \<Rightarrow> string \<Rightarrow> string \<Rightarrow> redis \<Rightarrow> (error + int) \<times> redis" where
  "registerConnectionEpoch on fault roomID userID r =
     (if \<not> on then (Inr 0, r)
      else case fst fault of
        Some err \<Rightarrow> (Inl err, r)
      | None \<Rightarrow>
          let k = (roomID, userID);
              epoch = rd_counter r k + 1;
              r = r\<lparr>rd_counter := (rd_counter r)(k := epoch)\<rparr>
          in case snd fault of
               Some err \<Rightarrow> (Inl err, r)
             | None \<Rightarrow> (Inr epoch, r\<lparr>rd_latest := (rd_latest r)(k \<mapsto> epoch)\<rparr>))"

definition refreshConnectionEpoch ::
    "bool \<Rightarrow> error option \<Rightarrow> string \<Rightarrow> string \<Rightarrow> int \<Rightarrow> redis \<Rightarrow> error + redis" where
  "refreshConnectionEpoch on fault roomID userID epoch r =
     (if \<not> on \<or> epoch \<le> 0 then Inr r
      else case fault of
        Some err \<Rightarrow> Inl err
      | None \<Rightarrow> Inr (r\<lparr>rd_latest := (rd_latest r)((roomID, userID) \<mapsto> epoch)\<rparr>))"

definition isCurrentConnectionEpoch ::
    "bool \<Rightarrow> error option \<Rightarrow> string \<Rightarrow> string \<Rightarrow> int \<Rightarrow> redis \<Rightarrow> error + bool" where
  "isCurrentConnectionEpoch on fault roomID userID epoch r =
     (if \<not> on \<or> epoch \<le> 0 then Inr True
      else case fault of
        Some err \<Rightarrow> Inl err
      | None \<Rightarrow>
          (case rd_latest r (roomID, userID) of
             None \<Rightarrow> Inr False
           | Some current \<Rightarrow> Inr (current = epoch)))"

text \<open>
  What the receive loop of \<open>RoomWS\<close> does with a message once it is parsed: it refreshes the
  epoch, then asks whether it is current; the message is handled, refused for good, or answered
  with an internal error.
\<close>

datatype gate = Handle | Superseded | InternalError error

definition epoch_gate ::
    "bool \<Rightarrow> error option \<Rightarrow> error option \<Rightarrow> string \<Rightarrow> string \<Rightarrow> wsConnMeta \<Rightarrow> redis \<Rightarrow> gate \<times> redis"
  where
  "epoch_gate on fault1 fault2 roomID userID meta r =
     (case refreshConnectionEpoch on fault1 roomID userID (meta_epoch meta) r of
        Inl err \<Rightarrow> (InternalError err, r)
      | Inr r \<Rightarrow>
          (case isCurrentConnectionEpoch on fault2 roomID userID (meta_epoch meta) r of
             Inl err \<Rightarrow> (InternalError err, r)
           | Inr isCurrent \<Rightarrow> (if isCurrent then Handle else Superseded, r)))"

subsection \<open>Properties\<close>

text \<open>
  C31. In every state the hub reaches, a user has at most one connection in the snapshot of a
  room, and it is the one the hub calls the latest.
\<close>

theorem hub_one_connection_per_user:
  assumes "hub_reach own h" "hub_snapshot roomID h c = Some m" "hub_snapshot roomID h c' = Some m'"
    and "meta_userID m = meta_userID m'"
  shows "c = c' \<and> hub_isLatest roomID (meta_userID m) c h"
  using hub_reach_inv [OF assms(1)] assms(2-4)
  by (auto simp: hub_inv_def hub_snapshot_def hub_isLatest_def) (metis option.inject)+

theorem hub_one_connection_per_user_witness:
  "\<exists>h. hub_reach [1 \<mapsto> ''room'', 2 \<mapsto> ''room''] h
    \<and> (\<forall>c m. hub_snapshot ''room'' h c = Some m \<and> meta_userID m = ''ann'' \<longrightarrow> c = 2)
    \<and> hub_isLatest ''room'' ''ann'' 2 h"
proof -
  let ?m = "\<lparr>meta_userID = ''ann'', meta_epoch = 1\<rparr>"
  let ?h1 = "fst (hub_add ''room'' 1 ?m empty_hub)"
  let ?h2 = "fst (hub_add ''room'' 2 ?m ?h1)"
  have r1: "hub_reach [1 \<mapsto> ''room''] ?h1"
    by (rule hub_step_add [OF hub_init]) simp_all
  have r: "hub_reach [1 \<mapsto> ''room'', 2 \<mapsto> ''room''] ?h2"
    by (rule hub_step_add [OF r1]) simp_all
  have s: "hub_snapshot ''room'' ?h2 2 = Some ?m"
    by (simp add: hub_snapshot_def hub_conns_add)
  have "c = 2" if "hub_snapshot ''room'' ?h2 c = Some m" "meta_userID m = ''ann''" for c m
    using hub_one_connection_per_user [OF r that(1) s] that(2) by simp
  moreover have "hub_isLatest ''room'' ''ann'' 2 ?h2"
    using hub_one_connection_per_user [OF r s s refl] by simp
  ultimately show ?thesis using r by blast
qed

theorem epoch_gate_never_supersedes:
  assumes "epoch_gate on None None roomID userID meta r = (g, r')"
  shows "g = Handle \<and> (on \<and> 0 < meta_epoch meta \<longrightarrow> rd_latest r' (roomID, userID) = Some (meta_epoch meta))"
  using assms
  by (auto simp: epoch_gate_def refreshConnectionEpoch_def isCurrentConnectionEpoch_def split: if_splits)

theorem epoch_gate_never_supersedes_witness:
  "\<exists>g r'. epoch_gate True None None ''room'' ''ann'' \<lparr>meta_userID = ''ann'', meta_epoch = 1\<rparr>
       \<lparr>rd_counter = (\<lambda>_. 2), rd_latest = [(''room'', ''ann'') \<mapsto> 2]\<rparr> = (g, r')
     \<and> g = Handle \<and> rd_latest r' (''room'', ''ann'') = Some 1"
proof -
  let ?gate = "epoch_gate True None None ''room'' ''ann'' \<lparr>meta_userID = ''ann'', meta_epoch = 1\<rparr>
       \<lparr>rd_counter = (\<lambda>_. 2), rd_latest = [(''room'', ''ann'') \<mapsto> 2]\<rparr>"
  have run: "?gate = (fst ?gate, snd ?gate)" by simp
  from epoch_gate_never_supersedes [OF run] run show ?thesis by fastforce
qed

end
