(* ===== verification/Room_Properties.thy ===== *)
theory Room_Properties
  imports Sample_Run Ws_Hub
begin

text \<open>
  The properties of rooms and of what a user is shown.
\<close>

theorem join_seats_host:
  assumes "JoinRoom roomID userID e w = (Inr room, w')"
  shows "(\<exists>r0. GetRoom roomID (w_db w) = Inr r0 \<and> room_HostUserID r0 = userID
       \<and> CanJoinAsHumanPlayer (room_Status r0))
    \<and> (\<exists>m. GetRoomPlayer roomID userID (w_db w') = Inr m \<and> rp_Status m = RoomPlayerActive
         \<and> rp_LeftAt m = None)
    \<and> (\<exists>t. GetRoom roomID (w_db w') = Inr (room\<lparr>room_UpdatedAt := t\<rparr>))
    \<and> room_Status room =
        (if room_CurrentSessionID room = None then RoomStatusReady else RoomStatusPlaying)"
proof -
  from assms obtain r0 players now joiner r1 k v v' where
    r0: "GetRoom roomID (w_db w) = Inr r0" "CanJoinAsHumanPlayer (room_Status r0)" "room_HostUserID r0 = userID" and
    none: "int (length (filter in_room players)) < 1" and
    j: "NewRoomPlayer roomID userID 1 now = Inr joiner" and
    rc: "RecalculateStatus r0 (int (length (filter in_room players)) + 1) (room_CurrentSessionID r0 \<noteq> None) = Inr r1" and
    tx: "JoinRoom_tx roomID userID joiner (Room_Touch now r1) now e (w\<lparr>w_calls := k\<rparr>) = (Inr (), v)"
    "room = Room_Touch now r1" "w_db w' = w_db v"
    by (auto simp: JoinRoom_def prog_elims Let_def split: if_splits)
  have n: "filter in_room players = []" using none by simp
  have room: "valid_room room" "room_ID room = roomID" "room_CurrentSessionID room = room_CurrentSessionID r0"
    "room_Status room = (if room_CurrentSessionID room = None then RoomStatusReady else RoomStatusPlaying)"
    using rc n tx(2) GetRoom_id [OF r0(1)] by (auto simp: RecalculateStatus_Inr)
  have "\<exists>m d1 t. rp_RoomID m = roomID \<and> rp_UserID m = userID \<and> rp_Status m = RoomPlayerActive \<and> rp_LeftAt m = None
      \<and> (CreateRoomPlayer m (w_db w) = Inr d1 \<or> UpdateRoomPlayer m (w_db w) = Inr d1)
      \<and> UpdateRoom t room d1 = Inr (w_db w')"
  proof -
    from tx(1) consider
      (new) d1 t where "CreateRoomPlayer joiner (w_db w) = Inr d1" "UpdateRoom t room d1 = Inr (w_db w')"
    | (again) ex d1 t where "GetRoomPlayer roomID userID (w_db w) = Inr ex"
        "UpdateRoomPlayer (ex\<lparr>rp_Status := RoomPlayerActive, rp_LeftAt := None, rp_JoinedAt := now\<rparr>)
           (w_db w) = Inr d1" "UpdateRoom t room d1 = Inr (w_db w')"
      unfolding JoinRoom_tx_def bind_Inr attempt_read_Inr tx_Inr
      using tx(2,3)
      by (auto simp: prog_elims attempt_Inr read_answer_Inr RoomPlayer_SetStatus_def
          split: sum.splits if_splits)
    then show ?thesis
    proof cases
      case new
      with j show ?thesis by (intro exI [of _ joiner]) (auto simp: NewRoomPlayer_def split: if_splits)
    next
      case again
      with GetRoomPlayer_id [OF again(1)] show ?thesis
        by (intro exI [of _ "ex\<lparr>rp_Status := RoomPlayerActive, rp_LeftAt := None, rp_JoinedAt := now\<rparr>"]) auto
    qed
  qed
  then obtain m d1 t where m: "rp_RoomID m = roomID" "rp_UserID m = userID" "rp_Status m = RoomPlayerActive"
      "rp_LeftAt m = None" "CreateRoomPlayer m (w_db w) = Inr d1 \<or> UpdateRoomPlayer m (w_db w) = Inr d1"
      "UpdateRoom t room d1 = Inr (w_db w')" by blast
  have "GetRoomPlayer roomID userID d1 = Inr m"
    using m(1-3,5) room_players_created.read_same [of m "w_db w" d1] room_players.read_same [of m "w_db w" d1] by auto
  then have "GetRoomPlayer roomID userID (w_db w') = Inr m"
    using UpdateRoom_members [OF m(6)] by (simp add: GetRoomPlayer_def)
  with m room r0 GetRoom_after_update(1) [OF m(6) room(1)] show ?thesis by auto
qed

theorem join_seats_host_witness:
  "\<exists>room. JoinRoom ''room'' ''ann'' sample_env sample_created = (Inr room, sample_lobby)
    \<and> room_Status room = RoomStatusReady"
proof -
  obtain room where run: "JoinRoom ''room'' ''ann'' sample_env sample_created = (Inr room, sample_lobby)"
    using serve_join by (auto simp: void_def prog_elims)
  have "GetRoom ''room'' (w_db sample_lobby) = Inr sample_room" by code_simp
  with join_seats_host [OF run] have "\<exists>t. sample_room = room\<lparr>room_UpdatedAt := t\<rparr>" by auto
  then have "room_CurrentSessionID room = None" by (cases room) (auto simp: sample_room_def)
  with join_seats_host [OF run] run show ?thesis by simp
qed

theorem leave_frees_seat:
  assumes "LeaveRoom roomID userID e w = (Inr (room, transfer), w')"
    and "GetRoomPlayer roomID userID (w_db w) = Inr m0" "rp_Status m0 \<noteq> RoomPlayerLeft"
  shows "(\<exists>m. GetRoomPlayer roomID userID (w_db w') = Inr m \<and> rp_Status m = RoomPlayerLeft
         \<and> rp_LeftAt m \<noteq> None)
    \<and> (\<exists>t. GetRoom roomID (w_db w') = Inr (room\<lparr>room_UpdatedAt := t\<rparr>))
    \<and> room_CurrentSessionID room = None
    \<and> room_Status room \<in> {RoomStatusWaiting, RoomStatusReady}"
proof -
  let ?moved = "\<lambda>r0 players. if room_HostUserID r0 = userID then
       (case selectNextHost players userID of
          Some nextHost \<Rightarrow>
            (r0\<lparr>room_HostUserID := rp_UserID nextHost\<rparr>,
             Some \<lparr>ht_RoomID = roomID, ht_PreviousHostUserID = userID,
                   ht_NewHostUserID = rp_UserID nextHost\<rparr>)
        | None \<Rightarrow> (r0, None))
     else (r0, None)"
  have host: "\<exists>h. fst (?moved r0 players) = r0\<lparr>room_HostUserID := h\<rparr>" for r0 :: Room and players
    by (cases "selectNextHost players userID"; cases r0) auto
  from assms(1) have args: "userID \<noteq> []" "roomID \<noteq> []"
    by (auto simp: LeaveRoom_def prog_elims split: if_splits)
  have "\<exists>r0 players now n r2 t d1. GetRoom roomID (w_db w) = Inr r0 \<and> room_CurrentSessionID r0 = None
     \<and> RecalculateStatus (fst (?moved r0 players)) n False = Inr r2 \<and> room = Room_Touch now r2
     \<and> UpdateRoomPlayer (MarkLeft now m0) (w_db w) = Inr d1 \<and> UpdateRoom t room d1 = Inr (w_db w')"
    using assms args
    by (simp add: LeaveRoom_def prog_elims Let_def split_def split del: if_split)
      (elim exE conjE, hypsubst, intro exI conjI, (assumption | rule refl | simp)+)
  then obtain r0 players now n r1 r2 t d1 where
    r0: "GetRoom roomID (w_db w) = Inr r0" "room_CurrentSessionID r0 = None" and
    r1: "r1 = fst (?moved r0 players)" "RecalculateStatus r1 n False = Inr r2" "room = Room_Touch now r2" and
    d: "UpdateRoomPlayer (MarkLeft now m0) (w_db w) = Inr d1" "UpdateRoom t room d1 = Inr (w_db w')"
    by blast
  have room: "valid_room room" "room_ID room = roomID" "room_CurrentSessionID room = None"
    "room_Status room \<in> {RoomStatusWaiting, RoomStatusReady}"
    using r1 r0 GetRoom_id [OF r0(1)] host [of r0 players] by (auto simp: RecalculateStatus_Inr)
  have ids: "rp_RoomID (MarkLeft now m0) = roomID" "rp_UserID (MarkLeft now m0) = userID"
    "rp_Status (MarkLeft now m0) = RoomPlayerLeft" "rp_LeftAt (MarkLeft now m0) \<noteq> None"
    using GetRoomPlayer_id [OF assms(2)] by (simp_all add: MarkLeft_def)
  have "GetRoomPlayer roomID userID d1 = Inr (MarkLeft now m0)"
    using room_players.read_same [OF _ d(1)] ids by simp
  then have "GetRoomPlayer roomID userID (w_db w') = Inr (MarkLeft now m0)"
    using UpdateRoom_members [OF d(2)] by (simp add: GetRoomPlayer_def)
  with ids room GetRoom_after_update(1) [OF d(2) room(1)] show ?thesis by auto
qed

theorem leave_frees_seat_witness:
  "\<exists>r w' m. LeaveRoom ''room'' ''ann'' sample_env sample_lobby = (Inr r, w')
    \<and> GetRoomPlayer ''room'' ''ann'' (w_db w') = Inr m \<and> rp_Status m = RoomPlayerLeft"
proof -
  have "case fst (LeaveRoom ''room'' ''ann'' sample_env sample_lobby) of Inl _ \<Rightarrow> False | Inr _ \<Rightarrow> True"
    by code_simp
  then obtain room tr w' where run: "LeaveRoom ''room'' ''ann'' sample_env sample_lobby = (Inr (room, tr), w')"
    by (auto split: sum.splits) (metis prod.collapse)
  have m: "GetRoomPlayer ''room'' ''ann'' (w_db sample_lobby) = Inr sample_member"
    "rp_Status sample_member \<noteq> RoomPlayerLeft" by code_simp+
  from leave_frees_seat [OF run m] run show ?thesis by blast
qed

theorem join_conflict_unmapped:
  assumes "GetRoomPlayer roomID userID (w_db w) = Inl ErrNotFound"
    and "list_ex (room_player_clash (roomPlayerRecordFromDomain joiner)) (d_room_players (w_db w))"
    and "env_fault e (w_calls w) = None" "env_fault e (Suc (w_calls w)) = None"
  shows "fst (JoinRoom_tx roomID userID joiner room now e w) = Inl (PgError ''23505'')"
  using assms
  by (simp add: JoinRoom_tx_def bind_def attempt_def store_read_def store_write_def store_op_def
      throw_def CreateRoomPlayer_def insert_row_def unique_violation_def)

theorem join_conflict_unmapped_witness:
  "fst (JoinRoom_tx ''room'' ''bob'' (sample_member\<lparr>rp_UserID := ''bob''\<rparr>) sample_room 30 sample_env
     sample_lobby) = Inl (PgError ''23505'')"
proof -
  have h: "GetRoomPlayer ''room'' ''bob'' (w_db sample_lobby) = Inl ErrNotFound"
    "list_ex (room_player_clash (roomPlayerRecordFromDomain (sample_member\<lparr>rp_UserID := ''bob''\<rparr>)))
       (d_room_players (w_db sample_lobby))" by code_simp+
  have "env_fault sample_env n = None" for n by (simp add: sample_env_def)
  from join_conflict_unmapped [OF h this this] show ?thesis .
qed

text \<open>
  C38. Whoever reads a room's state or its history is its host or a member who has not left.
\<close>

theorem room_read_access:
  assumes "GetRoomState roomID userID e w = (Inr st, w') \<or> GetRoomHistory roomID userID e w = (Inr logs, w')"
  shows "\<exists>room. GetRoom roomID (w_db w) = Inr room \<and>
    (room_HostUserID room = userID \<or>
     (\<exists>m. GetRoomPlayer roomID userID (w_db w) = Inr m \<and> rp_Status m \<noteq> RoomPlayerLeft))"
  using assms
  by (auto simp: GetRoomState_def GetRoom_uc_def GetRoomHistory_def room_access_def prog_elims read_answer_Inr
      split: if_splits option.splits)

theorem room_read_access_witness:
  "\<exists>st. GetRoomState ''room'' ''ann'' sample_env sample_round = (Inr st, sample_round\<lparr>w_calls := 28\<rparr>)
    \<and> room_HostUserID sample_playing = ''ann''"
proof -
  from sample_state obtain st where
    st: "GetRoomState ''room'' ''ann'' sample_env sample_round = (Inr st, sample_round\<lparr>w_calls := 28\<rparr>)" by blast
  have "GetRoomPlayer ''room'' ''ann'' (w_db sample_round) = Inr sample_member" by code_simp
  with room_read_access [OF disjI1 [OF st]] st sample_reads(1) show ?thesis by auto
qed

text \<open>
  C13. The payload for a viewer does not depend on the hidden hole card nor on the cards of
  other players: two states that differ only there give the same payload (non-interference).
\<close>

theorem payload_hides_secrets:
  assumes "looks_alike userID s s'"
  shows "buildRoomDTO s userID = buildRoomDTO s' userID"
  using assms by (rule payload_alike)

theorem payload_hides_secrets_witness:
  "buildRoomDTO (hidden_state \<lparr>card_Rank = ''K'', card_Suit = ''H''\<rparr>) ''ann'' =
   buildRoomDTO (hidden_state \<lparr>card_Rank = ''A'', card_Suit = ''D''\<rparr>) ''ann''"
proof -
  have "looks_alike ''ann'' (hidden_state \<lparr>card_Rank = ''K'', card_Suit = ''H''\<rparr>)
      (hidden_state \<lparr>card_Rank = ''A'', card_Suit = ''D''\<rparr>)"
    by (simp add: looks_alike_def hidden_state_def same_dealer_view_def same_player_view_def
        sample_dealer_def less_Suc_eq All_less_Suc)
  from payload_hides_secrets [OF this] show ?thesis .
qed

text \<open>
  C12. In every reachable store, until the round has its result, the payload a viewer gets
  shows the dealer's cards without the second one, marks it hidden and gives only the number
  of cards.
\<close>

theorem hole_card_hidden:
  assumes "lib_documented lib" "reachable (svc lib) (w_db w)"
    and "GetRoomState roomID userID e w = (Inr st, w')" "st_Session st = Some s"
    and "sess_Status s \<noteq> SessionStatusResetting"
  shows "\<exists>d. st_Dealer st = Some d \<and> pl_Dealer (buildRoomDTO st userID) =
    \<lparr>dj_VisibleCards = map card_text (take 1 (ds_Hand d) @ drop 2 (ds_Hand d)), dj_Hidden = True,
     dj_CardCount = int (length (ds_Hand d))\<rparr>"
proof -
  note run = GetRoomState_run [OF assms(3,4)]
  from game_ok_session [OF reachable_game_ok [OF assms(1,2)] run(1)] obtain p x where
    r: "GetDealerState (sess_ID s) (w_db w) = Inr x" "round_ok lib s p x" .
  from r(2) assms(5) have "ds_HoleHidden x"
    by (cases "sess_Status s") (auto simp: round_ok_def life_ok_def)
  with run(4) [OF r(1)] show ?thesis by (simp add: buildRoomDTO_def dealer_json_def visible_hidden)
qed

text \<open>What is offered to the player is what the turn accepts.\<close>

theorem offered_actions_accepted:
  assumes "lib_documented lib" "reachable (svc lib) (w_db w)"
    and "GetRoomState roomID userID e w = (Inr st, w')" "st_Session st = Some s"
  shows "(st_CanHit st \<longleftrightarrow> (\<exists>p \<in> set (st_Players st). AssertCanHitOrStand p (Some s) userID = None))
    \<and> st_CanStand st = st_CanHit st"
proof -
  note run = GetRoomState_run [OF assms(3,4)]
  from game_ok_session [OF reachable_game_ok [OF assms(1,2)] run(1)] obtain p x where
    l: "ListPlayerStatesBySessionID (sess_ID s) (w_db w) = Inr [p]" .
  with run(5) have "st_Players st = [p]" by simp
  with run(2,3) show ?thesis by (auto simp: can_hit_def AssertCanHitOrStand_def CanAct_def)
qed

theorem hole_card_hidden_witness:
  "\<exists>st. GetRoomState ''room'' ''ann'' sample_env sample_round = (Inr st, sample_round\<lparr>w_calls := 28\<rparr>)
    \<and> dj_VisibleCards (pl_Dealer (buildRoomDTO st ''ann'')) = [''2S'']"
proof -
  from sample_state obtain st where
    st: "GetRoomState ''room'' ''ann'' sample_env sample_round = (Inr st, sample_round\<lparr>w_calls := 28\<rparr>)"
      "st_Session st = Some sample_session" "st_Dealer st = Some sample_dealer" by blast
  have "sess_Status sample_session \<noteq> SessionStatusResetting" by simp
  from hole_card_hidden [OF reference_lib_documented reachable_sample(4) st(1,2) this] st
  show ?thesis by (auto simp: sample_dealer_def card_text_def)
qed

theorem offered_actions_accepted_witness:
  "\<exists>st. GetRoomState ''room'' ''ann'' sample_env sample_round = (Inr st, sample_round\<lparr>w_calls := 28\<rparr>)
    \<and> st_CanStand st \<and> (\<exists>p \<in> set (st_Players st). AssertCanHitOrStand p (Some sample_session) ''ann'' = None)"
proof -
  from sample_state obtain st where
    st: "GetRoomState ''room'' ''ann'' sample_env sample_round = (Inr st, sample_round\<lparr>w_calls := 28\<rparr>)"
      "st_Session st = Some sample_session" "st_CanHit st" by blast
  from offered_actions_accepted [OF reference_lib_documented reachable_sample(4) st(1,2)] st
  show ?thesis by blast
qed


end
