(* ===== verification/Server_Config.thy ===== *)
theory Server_Config
  imports Prog_Effects
begin

text \<open>
  Settings and health (\<open>backend/main.go\<close>) and the origins a WebSocket may come from
  (\<open>ConfigureWebSocketAllowedOrigins\<close> of \<open>backend/controller/room_ws_controller.go\<close>). A setting is
  the value of its environment variable, empty when it is not set.
\<close>

subsection \<open>Origins\<close>

text \<open>\<open>strings.Split\<close> at one character.\<close>

fun split_at :: "char \<Rightarrow> string \<Rightarrow> string list" where
  "split_at sep [] = [[]]"
| "split_at sep (c # cs) =
     (if c = sep then [] # split_at sep cs
      else case split_at sep cs of p # ps \<Rightarrow> (c # p) # ps | [] \<Rightarrow> [[c]])"

definition trimmed_parts :: "string list \<Rightarrow> string list" where
  "trimmed_parts parts = filter (\<lambda>p. p \<noteq> []) (map TrimSpace parts)"

definition parseWSAllowedOrigins :: "string \<Rightarrow> string list" where
  "parseWSAllowedOrigins s = (if s = [] then [] else trimmed_parts (split_at (CHR '','') s))"

text \<open>The check of the upgrader; \<open>origin\<close> is the \<open>Origin\<close> header.\<close>

definition ConfigureWebSocketAllowedOrigins :: "string list \<Rightarrow> string \<Rightarrow> bool" where
  "ConfigureWebSocketAllowedOrigins origins =
     (let trimmed = trimmed_parts origins in
      if trimmed = [] then (\<lambda>origin. True) else (\<lambda>origin. origin \<in> set trimmed))"

subsection \<open>Redis\<close>

definition parseRedisAddr :: "string \<Rightarrow> string prog" where
  "parseRedisAddr targetEnv =
     bind (io_getenv targetEnv) (\<lambda>v.
     if TrimSpace v \<noteq> [] then ret (TrimSpace v)
     else
       bind (io_getenv ''REDIS_ADDR'') (\<lambda>v.
       if TrimSpace v \<noteq> [] then ret (TrimSpace v) else ret ''localhost:6379''))"

subsection \<open>Health\<close>

text \<open>The answers to the three pings: \<open>None\<close> is success. The response has a status and fields.\<close>

definition healthHandler ::
    "(error \<Rightarrow> string) \<Rightarrow> error option \<Rightarrow> error option \<Rightarrow> error option \<Rightarrow> nat \<times> (string \<times> string) list" where
  "healthHandler text database room rate =
     (case database of
        Some err \<Rightarrow>
          (503, [(''status'', ''unhealthy''), (''database'', ''down''), (''redis'', ''unknown''),
                 (''error'', text err)])
      | None \<Rightarrow>
          case room of
            Some err \<Rightarrow>
              (503, [(''status'', ''unhealthy''), (''database'', ''up''), (''room_redis'', ''down''),
                     (''rate_limit_redis'', ''unknown''), (''error'', text err)])
          | None \<Rightarrow>
              case rate of
                Some err \<Rightarrow>
                  (503, [(''status'', ''unhealthy''), (''database'', ''up''), (''room_redis'', ''up''),
                         (''rate_limit_redis'', ''down''), (''error'', text err)])
              | None \<Rightarrow>
                  (200, [(''status'', ''healthy''), (''database'', ''up''), (''room_redis'', ''up''),
                         (''rate_limit_redis'', ''up'')]))"

subsection \<open>Properties\<close>

lemma TrimSpace_idem [simp]: "TrimSpace (TrimSpace s) = TrimSpace s"
proof -
  define a where "a = dropWhile is_space s"
  define b where "b = rev (dropWhile is_space (rev a))"
  have "a = b @ rev (takeWhile is_space (rev a))"
    unfolding b_def by (metis rev_append rev_rev_ident takeWhile_dropWhile_id)
  then have "b \<noteq> [] \<Longrightarrow> hd b = hd a" by (metis hd_append2)
  moreover have "a \<noteq> [] \<Longrightarrow> \<not> is_space (hd a)" unfolding a_def by (rule hd_dropWhile)
  moreover have "b \<noteq> [] \<Longrightarrow> a \<noteq> []" by (auto simp: b_def)
  ultimately have "b \<noteq> [] \<Longrightarrow> \<not> is_space (hd b)" by simp
  then have "dropWhile is_space b = b" by (cases b) simp_all
  then have "TrimSpace b = b" by (simp add: TrimSpace_def) (simp add: b_def dropWhile_idem)
  moreover have "TrimSpace s = b" by (simp add: TrimSpace_def a_def b_def)
  ultimately show ?thesis by simp
qed

lemma trimmed_parts_idem [simp]: "trimmed_parts (trimmed_parts ps) = trimmed_parts ps"
  by (induction ps) (simp_all add: trimmed_parts_def)

text \<open>\<open>split_at\<close> is what \<open>strings.Split\<close> does: joining the parts gives the text, no part has the separator.\<close>

fun join_with :: "char \<Rightarrow> string list \<Rightarrow> string" where
  "join_with sep [] = []"
| "join_with sep [p] = p"
| "join_with sep (p # ps) = p @ sep # join_with sep ps"

lemma split_at_nonempty [simp]: "split_at sep s \<noteq> []"
  by (induction s) (auto split: list.split)

lemma join_split: "join_with sep (split_at sep s) = s \<and> (\<forall>p \<in> set (split_at sep s). sep \<notin> set p)"
proof (induction s)
  case (Cons c s)
  obtain p ps where "split_at sep s = p # ps" using split_at_nonempty [of sep s] by (cases "split_at sep s") auto
  with Cons show ?case by (cases ps) auto
qed simp

theorem origins_of_setting:
  "ConfigureWebSocketAllowedOrigins (parseWSAllowedOrigins s) origin \<longleftrightarrow>
     trimmed_parts (split_at (CHR '','') s) = [] \<or>
     origin \<noteq> [] \<and> origin \<in> TrimSpace ` set (split_at (CHR '','') s)"
proof -
  have "trimmed_parts (split_at (CHR '','') []) = []" by code_simp
  then have "parseWSAllowedOrigins s = trimmed_parts (split_at (CHR '','') s)"
    by (simp add: parseWSAllowedOrigins_def)
  then have "ConfigureWebSocketAllowedOrigins (parseWSAllowedOrigins s) origin \<longleftrightarrow>
      trimmed_parts (split_at (CHR '','') s) = [] \<or> origin \<in> set (trimmed_parts (split_at (CHR '','') s))"
    by (simp add: ConfigureWebSocketAllowedOrigins_def Let_def)
  then show ?thesis by (auto simp: trimmed_parts_def)
qed

lemma healthy_iff: "fst (healthHandler text database room rate) = 200 \<longleftrightarrow>
    database = None \<and> room = None \<and> rate = None"
  by (simp add: healthHandler_def split: option.split)

end
