(* ===== verification/Go_Duration.thy ===== *)
theory Go_Duration
  imports BJ_Prelude
begin

text \<open>
  \<open>time.ParseDuration\<close> of the Go library, which the settings of the server are read with. Numbers
  are \<open>uint64\<close>, with the checks for overflow of the library; the fraction of a unit, a \<open>float64\<close>
  there, is exact here. An error is \<open>None\<close>.
\<close>

definition is_digit :: "char \<Rightarrow> bool" where
  "is_digit c \<longleftrightarrow> 48 \<le> (of_char c :: nat) \<and> (of_char c :: nat) \<le> 57"

definition digit_value :: "char \<Rightarrow> int" where
  "digit_value c = of_char c - 48"

text \<open>\<open>leadingInt\<close>: the number the text begins with, and the rest.\<close>

fun leadingInt :: "string \<Rightarrow> int \<Rightarrow> (int \<times> string) option" where
  "leadingInt [] x = Some (x, [])"
| "leadingInt (c # s) x =
     (if \<not> is_digit c then Some (x, c # s)
      else if x > 2 ^ 63 div 10 then None
      else
        let x = x * 10 + digit_value c in
        if x > 2 ^ 63 then None else leadingInt s x)"

text \<open>\<open>leadingFraction\<close>: digits that do not fit are dropped.\<close>

fun leadingFraction :: "string \<Rightarrow> bool \<Rightarrow> int \<Rightarrow> int \<Rightarrow> int \<times> int \<times> string" where
  "leadingFraction [] overflow x scale = (x, scale, [])"
| "leadingFraction (c # s) overflow x scale =
     (if \<not> is_digit c then (x, scale, c # s)
      else if overflow \<or> x > (2 ^ 63 - 1) div 10 then leadingFraction s True x scale
      else
        let y = x * 10 + digit_value c in
        if y > 2 ^ 63 then leadingFraction s True x scale
        else leadingFraction s False y (scale * 10))"

definition unitMap :: "string \<rightharpoonup> int" where
  "unitMap = map_of
     [(''ns'', 1), (''us'', 1000), ([CHR 0xC2, CHR 0xB5, CHR ''s''], 1000),
      ([CHR 0xCE, CHR 0xBC, CHR ''s''], 1000), (''ms'', 1000000), (''s'', 1000000000),
      (''m'', 60000000000), (''h'', 3600000000000)]"

text \<open>One number with its fraction: the two parts, the scale of the fraction, and the rest.\<close>

definition leading_number :: "string \<Rightarrow> (int \<times> int \<times> int \<times> string) option" where
  "leading_number s =
     (case leadingInt s 0 of
        None \<Rightarrow> None
      | Some (v, s1) \<Rightarrow>
          let pre = length s1 \<noteq> length s in
          if s1 \<noteq> [] \<and> hd s1 = CHR ''.'' then
            case leadingFraction (tl s1) False 0 1 of
              (f, scale, s2) \<Rightarrow>
                let post = length s2 \<noteq> length (tl s1) in
                if \<not> pre \<and> \<not> post then None else Some (v, f, scale, s2)
          else if \<not> pre then None else Some (v, 0, 1, s1))"

definition unit_char :: "char \<Rightarrow> bool" where
  "unit_char c \<longleftrightarrow> c \<noteq> CHR ''.'' \<and> \<not> is_digit c"

text \<open>The nanoseconds of a number in its unit.\<close>

definition scaled :: "int \<Rightarrow> int \<Rightarrow> int \<Rightarrow> int \<Rightarrow> int option" where
  "scaled v f scale unit =
     (if v > 2 ^ 63 div unit then None
      else
        let v = v * unit in
        if f > 0 then
          let v = v + f * unit div scale in
          if v > 2 ^ 63 then None else Some v
        else Some v)"

function (sequential) durations :: "string \<Rightarrow> int \<Rightarrow> int option" where
  "durations [] d = Some d"
| "durations s d =
     (case leading_number s of
        None \<Rightarrow> None
      | Some (v, f, scale, s2) \<Rightarrow>
          (case unitMap (takeWhile unit_char s2) of
             None \<Rightarrow> None
           | Some unit \<Rightarrow>
               (case scaled v f scale unit of
                  None \<Rightarrow> None
                | Some v \<Rightarrow>
                    let d = (d + v) mod 2 ^ 64 in
                    if d > 2 ^ 63 then None else durations (dropWhile unit_char s2) d)))"
  by pat_completeness auto

lemma leadingInt_rest: "leadingInt s x = Some (v, r) \<Longrightarrow> length r \<le> length s"
  by (induction s x rule: leadingInt.induct) (force simp: Let_def split: if_splits)+

lemma leadingFraction_rest: "leadingFraction s b x k = (f, m, r) \<Longrightarrow> length r \<le> length s"
  by (induction s b x k rule: leadingFraction.induct) (force simp: Let_def split: if_splits)+

lemma leading_number_rest: "leading_number s = Some (v, f, scale, r) \<Longrightarrow> length r < length s"
  by (auto simp: leading_number_def Let_def split: option.splits if_splits prod.splits
      dest!: leadingInt_rest leadingFraction_rest)

termination durations
  by (relation "measure (\<lambda>(s, d). length s)")
    (auto dest!: leading_number_rest intro: le_less_trans [OF length_dropWhile_le])

definition ParseDuration :: "string \<Rightarrow> time option" where
  "ParseDuration s =
     (let neg = (s \<noteq> [] \<and> hd s = CHR ''-'');
          s = (if s \<noteq> [] \<and> (hd s = CHR ''-'' \<or> hd s = CHR ''+'') then tl s else s)
      in if s = ''0'' then Some 0
         else if s = [] then None
         else
           case durations s 0 of
             None \<Rightarrow> None
           | Some d \<Rightarrow>
               if neg then Some (- d)
               else if d > 2 ^ 63 - 1 then None else Some d)"

subsection \<open>Reading what was written\<close>

lemma digit_char:
  assumes "k < 10"
  shows "is_digit (char_of (48 + k))" "digit_value (char_of (48 + k)) = int k"
proof -
  have n: "(of_char (char_of (48 + k) :: char) :: nat) = 48 + k" using assms by (simp add: take_bit_nat_eq_self)
  then show "is_digit (char_of (48 + k))" using assms by (simp add: is_digit_def)
  have "digit_value c = int (of_char c) - 48" for c by (simp only: digit_value_def of_nat_of_char)
  then show "digit_value (char_of (48 + k)) = int k" by (simp only: n)
qed

lemma leadingInt_digits:
  assumes "int n \<le> 2 ^ 63"
  shows "leadingInt (digits_of n @ r) 0 = leadingInt r (int n)"
  using assms
proof (induction n arbitrary: r rule: digits_of.induct)
  case (1 n)
  have last: "leadingInt (char_of (48 + n mod 10) # r) (int (n div 10)) = leadingInt r (int n)"
  proof -
    have "int (n div 10) \<le> 2 ^ 63 div 10" using "1.prems" by simp
    moreover have "int (n div 10) * 10 + int (n mod 10) = int n" by presburger
    ultimately show ?thesis
      using digit_char [of "n mod 10"] "1.prems" by (simp add: Let_def)
  qed
  show ?case
  proof (cases "n < 10")
    case True
    then show ?thesis using last by (subst digits_of.simps) simp
  next
    case False
    have "int (n div 10) \<le> 2 ^ 63" using "1.prems" by simp
    from "1.IH" [OF False this] last False show ?thesis by (subst digits_of.simps) simp
  qed
qed

lemma digits_of_first: "is_digit (hd (digits_of n))" "digits_of n \<noteq> []"
proof (induction n rule: digits_of.induct)
  case (1 n)
  {
    case 1
    show ?case
    proof (cases "n < 10")
      case True
      then show ?thesis by (subst digits_of.simps) (simp add: digit_char)
    next
      case False
      with "1.IH" show ?thesis by (subst digits_of.simps) (simp add: hd_append)
    qed
  next
    case 2
    show ?case by (subst digits_of.simps) simp
  }
qed

text \<open>A whole number of a unit is read as that many units.\<close>

theorem duration_roundtrip:
  assumes "unitMap u = Some unit" "0 \<le> n" "n * unit < 2 ^ 63"
  shows "ParseDuration (FormatInt n @ u) = Some (n * unit)"
proof -
  let ?s = "digits_of (nat n) @ u"
  have unit: "0 < unit" "list_all unit_char u" "u \<noteq> []" "\<not> is_digit (hd u)" "hd u \<noteq> CHR ''.''"
    using assms(1) by (auto simp: unitMap_def unit_char_def is_digit_def split: if_splits)
  have n: "n \<le> 2 ^ 63" using assms(2,3) unit(1) by (smt (verit) mult_le_cancel_left1)
  have first: "hd ?s = hd (digits_of (nat n))" "?s \<noteq> []" using digits_of_first(2) by simp_all
  have sign: "hd ?s \<noteq> CHR ''-''" "hd ?s \<noteq> CHR ''+''"
    using digits_of_first(1) [of "nat n"] first by (auto simp: is_digit_def)
  have zero: "?s \<noteq> ''0''" using digits_of_first(2) [of "nat n"] unit(3)
    by (cases "digits_of (nat n)") auto
  have num: "leading_number ?s = Some (n, 0, 1, u)"
  proof -
    have "leadingInt u n = Some (n, u)" using unit by (cases u) simp_all
    with leadingInt_digits [of "nat n" u] n assms(2) have "leadingInt ?s 0 = Some (n, u)" by simp
    then show ?thesis using unit(3,5) digits_of_first(2) [of "nat n"] by (simp add: leading_number_def)
  qed
  have split: "takeWhile unit_char u = u" "dropWhile unit_char u = []"
    using unit(2) by (simp_all add: takeWhile_eq_all_conv list_all_iff)
  have "n * unit div unit \<le> 2 ^ 63 div unit" using assms(3) unit(1) by (intro zdiv_mono1) simp_all
  then have sc: "scaled n 0 1 unit = Some (n * unit)" using unit(1) by (simp add: scaled_def)
  have pos: "0 \<le> n * unit" using assms(2) unit(1) by simp
  have "durations ?s 0 = Some (n * unit)"
  proof (cases ?s)
    case (Cons c s)
    have "(n * unit) mod 2 ^ 64 = n * unit" using pos assms(3) by (intro mod_pos_pos_trivial) simp_all
    with num [unfolded Cons] sc split assms(1,3) show ?thesis
      by (simp only: Cons durations.simps option.case prod.case Let_def add_0) simp
  qed (use first in simp)
  with sign zero first(2) assms(2,3) show ?thesis
    by (simp add: ParseDuration_def FormatInt_def Let_def)
qed

theorem duration_roundtrip_witness: "ParseDuration (FormatInt 90 @ ''m'') = Some (90 * 60000000000)"
  by (rule duration_roundtrip) (simp_all add: unitMap_def)

end
