(* ===== verification/Migrations.thy ===== *)
theory Migrations
  imports BJ_Prelude
begin

text \<open>
  The database handle (\<open>backend/db/db.go\<close>) and the migrations (\<open>backend/db/migrate.go\<close>,
  \<open>backend/migrations/migrate.go\<close>). GORM and the driver are outside: what they answer are parameters;
  the settings of the handle and the statements that are run are values.
\<close>

subsection \<open>The database handle\<close>

text \<open>\<open>g_DB\<close> gives the \<open>*sql.DB\<close> of a handle, an error, or panics (\<open>None\<close>).\<close>

record 'g gorm =
  g_open :: "string \<Rightarrow> string + 'g"
  g_DB :: "'g \<Rightarrow> (string + unit) option"

datatype sql_call = SetMaxIdleConns int | SetMaxOpenConns int | SetConnMaxLifetime time

definition sqlDBFromGorm :: "'g gorm \<Rightarrow> 'g \<Rightarrow> string + unit" where
  "sqlDBFromGorm g gdb =
     (case g_DB g gdb of None \<Rightarrow> Inl ''gorm db handle unavailable'' | Some r \<Rightarrow> r)"

definition configureSQLDB :: "sql_call list" where
  "configureSQLDB = [SetMaxIdleConns 5, SetMaxOpenConns 20, SetConnMaxLifetime (3600 * Second)]"

definition db_Open :: "'g gorm \<Rightarrow> string \<Rightarrow> (string + 'g) \<times> sql_call list" where
  "db_Open g dsn =
     (if dsn = [] then (Inl ''DATABASE_URL is empty'', [])
      else
        case g_open g dsn of
          Inl err \<Rightarrow> (Inl err, [])
        | Inr gdb \<Rightarrow>
            (case sqlDBFromGorm g gdb of
               Inl err \<Rightarrow> (Inl err, [])
             | Inr _ \<Rightarrow> (Inr gdb, configureSQLDB)))"

text \<open>\<open>ping\<close> is the answer of the database.\<close>

definition db_Ping :: "'g gorm \<Rightarrow> ('g \<Rightarrow> string option) \<Rightarrow> 'g \<Rightarrow> string option" where
  "db_Ping g ping gdb =
     (case sqlDBFromGorm g gdb of Inl err \<Rightarrow> Some err | Inr _ \<Rightarrow> ping gdb)"

subsection \<open>Migrations\<close>

text \<open>Statements are run one after the other up to the first error; the ones that were run, and the error.\<close>

fun exec_all :: "(string \<Rightarrow> string option) \<Rightarrow> string list \<Rightarrow> string list \<times> string option" where
  "exec_all exec [] = ([], None)"
| "exec_all exec (q # qs) =
     (case exec q of
        Some err \<Rightarrow> ([q], Some err)
      | None \<Rightarrow> (case exec_all exec qs of (stmts, r) \<Rightarrow> (q # stmts, r)))"

definition foreign_keys :: "(string \<times> string \<times> string) list" where
  "foreign_keys =
     [(''game_sessions'', ''fk_game_sessions_room'', ''FOREIGN KEY (room_id) REFERENCES rooms(id) ON DELETE CASCADE''),
      (''rooms'', ''fk_rooms_current_session'',
       ''FOREIGN KEY (current_session_id) REFERENCES game_sessions(id) ON DELETE SET NULL''),
      (''room_players'', ''fk_room_players_room'', ''FOREIGN KEY (room_id) REFERENCES rooms(id) ON DELETE CASCADE''),
      (''player_states'', ''fk_player_states_session'',
       ''FOREIGN KEY (session_id) REFERENCES game_sessions(id) ON DELETE CASCADE''),
      (''dealer_states'', ''fk_dealer_states_session'',
       ''FOREIGN KEY (session_id) REFERENCES game_sessions(id) ON DELETE CASCADE''),
      (''action_logs'', ''fk_action_logs_session'',
       ''FOREIGN KEY (session_id) REFERENCES game_sessions(id) ON DELETE CASCADE''),
      (''rematch_votes'', ''fk_rematch_votes_session'',
       ''FOREIGN KEY (session_id) REFERENCES game_sessions(id) ON DELETE CASCADE''),
      (''round_logs'', ''fk_round_logs_session'',
       ''FOREIGN KEY (session_id) REFERENCES game_sessions(id) ON DELETE CASCADE''),
      (''sessions'', ''fk_sessions_user'', ''FOREIGN KEY (user_id) REFERENCES users(id) ON DELETE CASCADE'')]"

definition fk_statement :: "string \<times> string \<times> string \<Rightarrow> string" where
  "fk_statement s =
     (case s of (table, name, definition') \<Rightarrow>
        ''DO $$ BEGIN IF NOT EXISTS (SELECT 1 FROM pg_constraint WHERE conname = '' @ [CHR 0x27] @ name @ [CHR 0x27]
          @ '') THEN ALTER TABLE '' @ table @ '' ADD CONSTRAINT '' @ name @ '' '' @ definition'
          @ ''; END IF; END $$;'')"

definition ensureForeignKeys :: "(string \<Rightarrow> string option) \<Rightarrow> string list \<times> string option" where
  "ensureForeignKeys exec = exec_all exec (map fk_statement foreign_keys)"

text \<open>The errors of the first two are dropped.\<close>

definition seat_index_statement :: string where
  "seat_index_statement =
     ''CREATE UNIQUE INDEX IF NOT EXISTS ux_player_session_seat ON player_states (session_id, seat_no)''"

definition ensurePlayerStatesSessionSeatUniqueIndex ::
    "(string \<Rightarrow> string option) \<Rightarrow> string list \<times> string option" where
  "ensurePlayerStatesSessionSeatUniqueIndex exec =
     ([''ALTER TABLE player_states DROP CONSTRAINT IF EXISTS ux_player_session_seat'',
       ''DROP INDEX IF EXISTS ux_player_session_seat'', seat_index_statement],
      exec seat_index_statement)"

text \<open>\<open>auto\<close> is the error of \<open>AutoMigrate\<close> for the ten models.\<close>

definition Migrate :: "string option \<Rightarrow> (string \<Rightarrow> string option) \<Rightarrow> string list \<times> string option" where
  "Migrate auto exec =
     (case auto of
        Some err \<Rightarrow> ([], Some err)
      | None \<Rightarrow>
          (case ensureForeignKeys exec of
             (stmts, Some err) \<Rightarrow> (stmts, Some err)
           | (stmts, None) \<Rightarrow>
               (case ensurePlayerStatesSessionSeatUniqueIndex exec of (stmts', r) \<Rightarrow> (stmts @ stmts', r))))"

definition migrations_run ::
    "'g gorm \<Rightarrow> string option \<Rightarrow> (string \<Rightarrow> string option) \<Rightarrow> string \<Rightarrow> string list \<times> string option" where
  "migrations_run g auto exec dsn =
     (if dsn = [] then ([], Some ''invalid argument'')
      else
        case fst (db_Open g dsn) of
          Inl err \<Rightarrow> ([], Some err)
        | Inr _ \<Rightarrow> Migrate auto exec)"

text \<open>The program: a failed run is fatal.\<close>

definition migrations_main :: "string list \<times> string option \<Rightarrow> string" where
  "migrations_main r =
     (case snd r of Some err \<Rightarrow> ''migrate: '' @ err | None \<Rightarrow> ''migration completed'')"

lemma exec_all_done: "exec_all exec qs = (stmts, None) \<Longrightarrow> stmts = qs \<and> (\<forall>q \<in> set qs. exec q = None)"
  by (induction qs arbitrary: stmts) (auto split: option.splits prod.splits)

theorem migration_complete:
  assumes "migrations_run g auto exec dsn = (stmts, None)"
  shows "(\<forall>k \<in> set foreign_keys. fk_statement k \<in> set stmts \<and> exec (fk_statement k) = None)
    \<and> last stmts = seat_index_statement \<and> exec seat_index_statement = None"
proof -
  from assms have "Migrate auto exec = (stmts, None)"
    by (auto simp: migrations_run_def split: if_splits sum.splits)
  then obtain done1 where r: "ensureForeignKeys exec = (done1, None)"
    "stmts = done1 @ fst (ensurePlayerStatesSessionSeatUniqueIndex exec)"
    "snd (ensurePlayerStatesSessionSeatUniqueIndex exec) = None"
    by (auto simp: Migrate_def split: option.splits prod.splits)
  from exec_all_done [OF r(1) [unfolded ensureForeignKeys_def]] r(2,3) show ?thesis
    by (auto simp: ensurePlayerStatesSessionSeatUniqueIndex_def)
qed

theorem migration_complete_witness:
  "fst (migrations_run \<lparr>g_open = (\<lambda>_. Inr ()), g_DB = (\<lambda>_. Some (Inr ()))\<rparr> None (\<lambda>_. None) ''dsn'') \<noteq> []
   \<and> last (fst (migrations_run \<lparr>g_open = (\<lambda>_. Inr ()), g_DB = (\<lambda>_. Some (Inr ()))\<rparr> None (\<lambda>_. None) ''dsn''))
     = seat_index_statement"
proof -
  let ?g = "\<lparr>g_open = (\<lambda>_. Inr ()), g_DB = (\<lambda>_. Some (Inr ()))\<rparr> :: unit gorm"
  have all: "exec_all (\<lambda>_. None) qs = (qs, None)" for qs by (induction qs) simp_all
  have "\<exists>stmts. migrations_run ?g None (\<lambda>_. None) ''dsn'' = (stmts, None)"
    by (simp add: migrations_run_def db_Open_def sqlDBFromGorm_def Migrate_def ensureForeignKeys_def all
        ensurePlayerStatesSessionSeatUniqueIndex_def)
  then obtain stmts where r: "migrations_run ?g None (\<lambda>_. None) ''dsn'' = (stmts, None)" ..
  have "hd foreign_keys \<in> set foreign_keys" by (simp add: foreign_keys_def)
  then have "stmts \<noteq> []" using migration_complete [OF r] by (metis empty_iff list.set(1))
  with migration_complete [OF r] r show ?thesis by simp
qed

end
