(* ===== verification/Observability.thy ===== *)
theory Observability
  imports Rematch_Service Complex_Main
begin

text \<open>
  The metrics (\<open>backend/observability/metrics.go\<close>). The Prometheus client is outside: what the
  program does to it is the sequence of calls it makes, with the names and labels of the source;
  how often a counter was raised is a fact about that sequence. Durations in seconds are exact.
\<close>

subsection \<open>Observed programs\<close>

text \<open>
  A program that also writes down what it does: the notes (\<open>'s\<close>) are kept when it fails, and no
  step depends on them. \<open>observes m p\<close> says that \<open>m\<close> does what \<open>p\<close> does and takes notes beside it.
\<close>

type_synonym ('s, 'a) observed = "'s \<Rightarrow> ((error + 'a) \<times> 's) prog"

definition oret :: "'a \<Rightarrow> ('s, 'a) observed" where
  "oret x s = ret (Inr x, s)"

definition othrow :: "error \<Rightarrow> ('s, 'a) observed" where
  "othrow err s = ret (Inl err, s)"

definition onote :: "('s \<Rightarrow> 's) \<Rightarrow> ('s, unit) observed" where
  "onote f s = ret (Inr (), f s)"

definition oact :: "'a prog \<Rightarrow> ('s, 'a) observed" where
  "oact p s = bind (attempt p) (\<lambda>r. ret (r, s))"

definition obind :: "('s, 'a) observed \<Rightarrow> ('a \<Rightarrow> ('s, 'b) observed) \<Rightarrow> ('s, 'b) observed" where
  "obind m f s = bind (m s) (\<lambda>(r, s). case r of Inl err \<Rightarrow> ret (Inl err, s) | Inr x \<Rightarrow> f x s)"

definition otry :: "('s, 'a) observed \<Rightarrow> ('s, error + 'a) observed" where
  "otry m s = bind (m s) (\<lambda>(r, s). ret (Inr r, s))"

fun ofor_each :: "('a \<Rightarrow> 'b \<Rightarrow> ('s, 'b) observed) \<Rightarrow> 'a list \<Rightarrow> 'b \<Rightarrow> ('s, 'b) observed" where
  "ofor_each body [] b = oret b"
| "ofor_each body (x # xs) b = obind (body x b) (ofor_each body xs)"

definition observes :: "('s, 'a) observed \<Rightarrow> 'a prog \<Rightarrow> bool" where
  "observes m p \<longleftrightarrow> (\<forall>s e w. \<exists>s'. m s e w = (Inr (fst (p e w), s'), snd (p e w)))"

named_theorems observes_intros \<open>observed programs and what they do\<close>

lemma observes_run:
  assumes "observes m p" "p e w = (r, w')"
  obtains s' where "m s e w = (Inr (r, s'), w')"
  using assms unfolding observes_def by (metis fst_conv snd_conv)

lemma observesI:
  "(\<And>s e w r w'. p e w = (r, w') \<Longrightarrow> \<exists>s'. m s e w = (Inr (r, s'), w')) \<Longrightarrow> observes m p"
  unfolding observes_def by (metis prod.collapse)

lemma observes_basic [observes_intros]:
  "observes (oret x) (ret x)" "observes (othrow err) (throw err)" "observes (onote f) (ret ())"
  "observes (oact p) p"
  by (auto intro!: observesI simp: oret_def othrow_def onote_def oact_def ret_def throw_def bind_def attempt_def)

lemma observes_obind [observes_intros]:
  assumes "observes m p" "\<And>x. observes (f x) (q x)"
  shows "observes (obind m f) (bind p q)"
proof (rule observesI)
  fix s e w r w'
  assume run: "bind p q e w = (r, w')"
  obtain a v where a: "p e w = (a, v)" by fastforce
  obtain s1 where m: "m s e w = (Inr (a, s1), v)" using observes_run [OF assms(1) a] .
  show "\<exists>s'. obind m f s e w = (Inr (r, s'), w')"
  proof (cases a)
    case (Inl err)
    with run a m show ?thesis by (auto simp: obind_def bind_def ret_def)
  next
    case (Inr x)
    with run a have "q x e v = (r, w')" by (simp add: bind_def)
    then obtain s2 where "f x s1 e v = (Inr (r, s2), w')" using observes_run [OF assms(2)] by metis
    with Inr m show ?thesis by (auto simp: obind_def bind_def)
  qed
qed

lemma observes_tail [observes_intros]:
  assumes "observes m p" "\<And>x. observes (f x) (ret ())"
  shows "observes (obind m f) (p :: unit prog)"
proof -
  have "bind p (\<lambda>_. ret ()) = p"
    by (simp add: fun_eq_iff bind_def ret_def split: prod.split sum.split)
  with observes_obind [OF assms] show ?thesis by simp
qed

text \<open>A note is no step of the program.\<close>

lemma observes_note [observes_intros]:
  assumes "observes m p"
  shows "observes (obind (onote f) (\<lambda>_. m)) p"
proof (rule observesI)
  fix s e w r w'
  assume "p e w = (r, w')"
  with assms obtain s' where "m (f s) e w = (Inr (r, s'), w')" by (rule observes_run)
  then show "\<exists>s'. obind (onote f) (\<lambda>_. m) s e w = (Inr (r, s'), w')"
    by (simp add: obind_def onote_def bind_def ret_def)
qed

lemma observes_otry [observes_intros]:
  assumes "observes m p"
  shows "observes (otry m) (attempt p)"
proof (rule observesI)
  fix s e w r w'
  assume run: "attempt p e w = (r, w')"
  then obtain a where a: "p e w = (a, w')" "r = Inr a" by (auto simp: attempt_def split: prod.splits)
  from assms a(1) obtain s' where "m s e w = (Inr (a, s'), w')" by (rule observes_run)
  with a(2) show "\<exists>s'. otry m s e w = (Inr (r, s'), w')" by (simp add: otry_def bind_def ret_def)
qed

lemma observes_branches [observes_intros]:
  "observes m p \<Longrightarrow> observes m' p' \<Longrightarrow> observes (if b then m else m') (if b then p else p')"
  "observes m p \<Longrightarrow> (\<And>x. observes (f x) (q x)) \<Longrightarrow>
     observes (case oc of None \<Rightarrow> m | Some x \<Rightarrow> f x) (case oc of None \<Rightarrow> p | Some x \<Rightarrow> q x)"
  "(\<And>err. observes (g err) (h err)) \<Longrightarrow> (\<And>x. observes (f x) (q x)) \<Longrightarrow>
     observes (case r of Inl err \<Rightarrow> g err | Inr x \<Rightarrow> f x) (case r of Inl err \<Rightarrow> h err | Inr x \<Rightarrow> q x)"
  by (simp_all split: option.split sum.split)

lemma observes_for_each [observes_intros]:
  "(\<And>x b. observes (body x b) (body' x b)) \<Longrightarrow> observes (ofor_each body xs b) (for_each body' xs b)"
  by (induction xs arbitrary: b) (simp_all add: observes_intros)

text \<open>What a run that went through wrote down.\<close>

lemma observed_Inr [prog_elims]:
  "oret x s e w = (Inr (r, s'), w') \<longleftrightarrow> r = Inr x \<and> s' = s \<and> w' = w"
  "othrow err s e w = (Inr (r', s'), w') \<longleftrightarrow> r' = Inl err \<and> s' = s \<and> w' = w"
  "onote g s e w = (Inr (r'', s'), w') \<longleftrightarrow> r'' = Inr () \<and> s' = g s \<and> w' = w"
  "oact p s e w = (Inr (r, s'), w') \<longleftrightarrow> s' = s \<and> p e w = (r, w')"
  by (auto simp: oret_def othrow_def onote_def oact_def ret_def bind_def attempt_def split: prod.splits)

lemma obind_Inr [prog_elims]:
  "obind m f s e w = (Inr (Inr y, s'), w') \<longleftrightarrow>
     (\<exists>x s1 v. m s e w = (Inr (Inr x, s1), v) \<and> f x s1 e v = (Inr (Inr y, s'), w'))"
  by (auto simp: obind_def ret_def bind_def split: prod.splits sum.splits)

subsection \<open>Calls\<close>

datatype metric_call =
    CounterInc string "string list"
  | GaugeInc string
  | GaugeDec string
  | GaugeSet string rat
  | Observe string "string list" rat

type_synonym metrics = "metric_call list"

definition Seconds :: "time \<Rightarrow> rat" where
  "Seconds d = of_int d / of_int Second"

definition ObserveHTTPRequest :: "string \<Rightarrow> string \<Rightarrow> nat \<Rightarrow> rat \<Rightarrow> metrics \<Rightarrow> metrics" where
  "ObserveHTTPRequest method path statusCode durationSeconds m =
     (let status = FormatInt (int statusCode) in
      m @ [CounterInc ''blackjack_http_requests_total'' [method, path, status],
           Observe ''blackjack_http_request_duration_seconds'' [method, path] durationSeconds])"

definition ObserveWSSendLatency :: "rat \<Rightarrow> metrics \<Rightarrow> metrics" where
  "ObserveWSSendLatency durationSeconds m =
     m @ [Observe ''blackjack_ws_send_latency_seconds'' [] durationSeconds]"

definition ObserveWSMessage :: "string \<Rightarrow> string \<Rightarrow> rat \<Rightarrow> metrics \<Rightarrow> metrics" where
  "ObserveWSMessage eventType result durationSeconds m =
     m @ [Observe ''blackjack_ws_message_duration_seconds'' [eventType, result] durationSeconds]"

definition IncActiveWSConnections :: "metrics \<Rightarrow> metrics" where
  "IncActiveWSConnections m = m @ [GaugeInc ''blackjack_active_ws_connections'']"

definition DecActiveWSConnections :: "metrics \<Rightarrow> metrics" where
  "DecActiveWSConnections m = m @ [GaugeDec ''blackjack_active_ws_connections'']"

definition IncReconnect :: "metrics \<Rightarrow> metrics" where
  "IncReconnect m = m @ [CounterInc ''blackjack_reconnect_total'' []]"

definition IncVersionConflict :: "metrics \<Rightarrow> metrics" where
  "IncVersionConflict m = m @ [CounterInc ''blackjack_version_conflict_total'' []]"

definition IncDuplicateAction :: "metrics \<Rightarrow> metrics" where
  "IncDuplicateAction m = m @ [CounterInc ''blackjack_duplicate_action_total'' []]"

definition IncAutoStand :: "metrics \<Rightarrow> metrics" where
  "IncAutoStand m = m @ [CounterInc ''blackjack_auto_stand_total'' []]"

definition IncTimeForfeit :: "metrics \<Rightarrow> metrics" where
  "IncTimeForfeit m = m @ [CounterInc ''blackjack_player_time_forfeit_total'' []]"

definition IncDealerDraw :: "metrics \<Rightarrow> metrics" where
  "IncDealerDraw m = m @ [CounterInc ''blackjack_dealer_draw_total'' []]"

definition SetRoomCount :: "rat \<Rightarrow> metrics \<Rightarrow> metrics" where
  "SetRoomCount v m = m @ [GaugeSet ''blackjack_room_count'' v]"

definition SetSessionCount :: "rat \<Rightarrow> metrics \<Rightarrow> metrics" where
  "SetSessionCount v m = m @ [GaugeSet ''blackjack_session_count'' v]"

text \<open>
  What is declared to Prometheus: the name, the kind with its labels, and the help text. Both
  histograms have the default buckets. A call fits when its metric is declared with that kind and
  that many labels; the client panics on a call that does not.
\<close>

datatype collector = CounterVec "string list" | Counter | HistogramVec "string list" | Histogram | Gauge

definition collectors :: "(string \<times> collector \<times> string) list" where
  "collectors =
     [(''blackjack_http_requests_total'', CounterVec [''method'', ''path'', ''status''],
       ''Total HTTP requests by method/path/status.''),
      (''blackjack_http_request_duration_seconds'', HistogramVec [''method'', ''path''],
       ''HTTP request latency by method/path.''),
      (''blackjack_ws_send_latency_seconds'', Histogram, ''WebSocket send latency.''),
      (''blackjack_ws_message_duration_seconds'', HistogramVec [''event'', ''result''],
       ''WebSocket message processing latency by event/result.''),
      (''blackjack_active_ws_connections'', Gauge, ''Current active websocket connections.''),
      (''blackjack_reconnect_total'', Counter, ''Count of websocket reconnects (old connection replaced).''),
      (''blackjack_version_conflict_total'', Counter, ''Count of version_conflict responses.''),
      (''blackjack_duplicate_action_total'', Counter, ''Count of duplicate_action responses.''),
      (''blackjack_auto_stand_total'', Counter, ''Count of auto-stand executions.''),
      (''blackjack_player_time_forfeit_total'', Counter, ''Count of player turn timeout forfeit losses.''),
      (''blackjack_dealer_draw_total'', Counter, ''Count of dealer draw executions.''),
      (''blackjack_room_count'', Gauge, ''Total rooms count in database.''),
      (''blackjack_session_count'', Gauge, ''Total sessions count in database.'')]"

definition declared_as :: "string \<Rightarrow> collector option" where
  "declared_as name = map_option fst (map_of collectors name)"

fun call_fits :: "metric_call \<Rightarrow> bool" where
  "call_fits (CounterInc name labels) =
     (case declared_as name of
        Some (CounterVec ls) \<Rightarrow> length ls = length labels
      | Some Counter \<Rightarrow> labels = []
      | _ \<Rightarrow> False)"
| "call_fits (GaugeInc name) = (declared_as name = Some Gauge)"
| "call_fits (GaugeDec name) = (declared_as name = Some Gauge)"
| "call_fits (GaugeSet name v) = (declared_as name = Some Gauge)"
| "call_fits (Observe name labels v) =
     (case declared_as name of
        Some (HistogramVec ls) \<Rightarrow> length ls = length labels
      | Some Histogram \<Rightarrow> labels = []
      | _ \<Rightarrow> False)"

lemma calls_fit:
  assumes "list_all call_fits m"
  shows "list_all call_fits (ObserveHTTPRequest verb path code d m)" "list_all call_fits (ObserveWSSendLatency d m)"
    "list_all call_fits (ObserveWSMessage ev res d m)" "list_all call_fits (IncActiveWSConnections m)"
    "list_all call_fits (DecActiveWSConnections m)" "list_all call_fits (IncReconnect m)"
    "list_all call_fits (IncVersionConflict m)" "list_all call_fits (IncDuplicateAction m)"
    "list_all call_fits (IncAutoStand m)" "list_all call_fits (IncTimeForfeit m)" "list_all call_fits (IncDealerDraw m)"
    "list_all call_fits (SetRoomCount v m)" "list_all call_fits (SetSessionCount v m)"
  using assms
  by (simp_all add: ObserveHTTPRequest_def ObserveWSSendLatency_def ObserveWSMessage_def IncActiveWSConnections_def
      DecActiveWSConnections_def IncReconnect_def IncVersionConflict_def IncDuplicateAction_def IncAutoStand_def
      IncTimeForfeit_def IncDealerDraw_def SetRoomCount_def SetSessionCount_def Let_def declared_as_def collectors_def)

text \<open>How often a counter without labels was raised, and what a gauge was moved by.\<close>

definition raised :: "string \<Rightarrow> metrics \<Rightarrow> nat" where
  "raised name m = count_list m (CounterInc name [])"

definition gauge_moves :: "string \<Rightarrow> metrics \<Rightarrow> int" where
  "gauge_moves name m = int (count_list m (GaugeInc name)) - int (count_list m (GaugeDec name))"

lemma raised_simps [simp]:
  "raised name [] = 0"
  "raised name (m @ [c]) = raised name m + (if c = CounterInc name [] then 1 else 0)"
  by (simp_all add: raised_def)

lemma gauge_moves_simps [simp]:
  "gauge_moves name [] = 0"
  "gauge_moves name (m @ [c]) = gauge_moves name m
     + (if c = GaugeInc name then 1 else if c = GaugeDec name then -1 else 0)"
  by (simp_all add: gauge_moves_def)

lemma gauge_moves_append: "gauge_moves name (m @ m') = gauge_moves name m + gauge_moves name m'"
  by (simp add: gauge_moves_def)

subsection \<open>Counted errors\<close>

text \<open>The two counters in \<open>writeTurnMutationError\<close> and \<open>mapWSError\<close>.\<close>

definition count_error :: "error \<Rightarrow> metrics \<Rightarrow> metrics" where
  "count_error err m =
     (if err = ErrVersionConflict then IncVersionConflict m
      else if err = ErrDuplicateAction then IncDuplicateAction m
      else m)"

subsection \<open>The counters of the worker\<close>

definition forfeit_counted ::
    "roomService \<Rightarrow> Room \<Rightarrow> GameSession \<Rightarrow> PlayerState \<Rightarrow> DealerState \<Rightarrow> (metrics, unit) observed" where
  "forfeit_counted u room sess player dealer =
     obind (oact (forfeit u room sess player dealer)) (\<lambda>_. onote IncTimeForfeit)"

definition timeout_move_counted ::
    "roomService \<Rightarrow> string \<Rightarrow> Room \<Rightarrow> GameSession \<Rightarrow> PlayerState \<Rightarrow> DealerState \<Rightarrow>
       (metrics, unit) observed" where
  "timeout_move_counted u sessionID room sess player dealer =
     obind (oact (io_getenv ''BLACKJACK_PLAYER_TIMEOUT_POLICY'')) (\<lambda>policy.
     if TrimSpace policy = ''heuristic'' \<and> ds_Hand dealer \<noteq> []
        \<and> RecommendHitOrStand (svc_evaluator u) (ps_Hand player) (hd (ds_Hand dealer))
     then
       obind (oact (Hit u (room_ID room) (ps_UserID player) (sess_Version sess)
           (''auto-heuristic-hit:'' @ sessionID @ '':'' @ FormatInt (sess_Version sess))))
         (\<lambda>_. oret ())
     else forfeit_counted u room sess player dealer)"

definition playerStand_counted :: "roomService \<Rightarrow> string \<Rightarrow> (metrics, unit) observed" where
  "playerStand_counted u sessionID =
     obind (oact (store_read (GetSession sessionID))) (\<lambda>sess.
     obind (oact io_now) (\<lambda>t.
     if sess_Status sess \<noteq> SessionStatusPlayerTurn \<or> \<not> due (sess_TurnDeadlineAt sess) t then oret ()
     else
       obind (oact (load_round sess)) (\<lambda>(room, player, dealer).
       timeout_move_counted u sessionID room sess player dealer)))"

text \<open>\<open>didDraw\<close>: the dealer's policy asked for a card.\<close>

definition dealerTurn_counted :: "roomService \<Rightarrow> string \<Rightarrow> (metrics, unit) observed" where
  "dealerTurn_counted u sessionID =
     obind (oact (store_read (GetSession sessionID))) (\<lambda>sess.
     if sess_Status sess \<noteq> SessionStatusDealerTurn then oret ()
     else
       obind (oact (load_round sess)) (\<lambda>(room, player, dealer).
       obind (oact (dealer_move u sess room player dealer)) (\<lambda>_.
       case NextDealerAction (svc_evaluator u) (ds_Hand dealer) of
         (action, terminal) \<Rightarrow>
           if terminal \<or> action = DealerActionStand then oret () else onote IncDealerDraw)))"

definition worker_step_counted ::
    "(string \<Rightarrow> (metrics, unit) observed) \<Rightarrow> GameSession \<Rightarrow> string list \<Rightarrow>
       (metrics, string list) observed" where
  "worker_step_counted handle sess updatedRooms =
     obind (otry (handle (sess_ID sess))) (\<lambda>r.
     case r of
       Inl err \<Rightarrow> if passed_over err then oret (note_room (sess_RoomID sess) updatedRooms) else othrow err
     | Inr _ \<Rightarrow> oret (note_room (sess_RoomID sess) updatedRooms))"

definition AutoStandDueSessions_counted :: "roomService \<Rightarrow> (metrics, string list) observed" where
  "AutoStandDueSessions_counted u =
     obind (oact io_now) (\<lambda>now.
     obind (oact (store_read (ListSessionsByStatusAndDeadlineBefore SessionStatusPlayerTurn now)))
       (\<lambda>sessions.
     obind (ofor_each (worker_step_counted (playerStand_counted u)) sessions []) (\<lambda>updatedRooms.
     obind (oact (store_read (ListSessionsByStatus SessionStatusDealerTurn))) (\<lambda>dealerSessions.
     obind (ofor_each (worker_step_counted (dealerTurn_counted u)) dealerSessions updatedRooms)
       (\<lambda>updatedRooms.
     obind (oact (store_read (ListResettingSessionsDueBy now))) (\<lambda>remDue.
     ofor_each (worker_step_counted (\<lambda>i. oact (processRematchDeadline u i))) remDue updatedRooms))))))"

subsection \<open>The snapshot worker\<close>

text \<open>
  A tick of \<open>runSnapshotMetricsWorker\<close>: an error (which is logged) ends the tick without setting
  a gauge.
\<close>

definition snapshot_tick :: "metrics \<Rightarrow> metrics prog" where
  "snapshot_tick m =
     bind (attempt (store_read CountRooms)) (\<lambda>rooms.
     case rooms of
       Inl _ \<Rightarrow> ret m
     | Inr rooms \<Rightarrow>
         bind (attempt (store_read CountSessions)) (\<lambda>sessions.
         case sessions of
           Inl _ \<Rightarrow> ret m
         | Inr sessions \<Rightarrow>
             ret (SetSessionCount (of_int sessions) (SetRoomCount (of_int rooms) m))))"

subsection \<open>What is counted\<close>

lemma observes_playerStand [observes_intros]:
  "observes (forfeit_counted u room s p x) (forfeit u room s p x)"
  "observes (timeout_move_counted u i room s p x) (timeout_move u i room s p x)"
  "observes (playerStand_counted u i) (playerStand u i)"
  unfolding forfeit_counted_def timeout_move_counted_def timeout_move_def playerStand_counted_def
    playerStand_def split_def
  by (intro observes_intros)+

lemma observes_dealerTurn [observes_intros]: "observes (dealerTurn_counted u i) (dealerTurn u i)"
  unfolding dealerTurn_counted_def dealerTurn_def split_def
  by (intro observes_obind observes_basic observes_branches(1) observes_tail) (auto intro: observes_intros)

lemma observes_worker_step [observes_intros]:
  "(\<And>i. observes (h i) (f i)) \<Longrightarrow> observes (worker_step_counted h s rooms) (worker_step f s rooms)"
  unfolding worker_step_counted_def worker_step_def by (intro observes_intros)

theorem counted_pass_is_the_pass: "observes (AutoStandDueSessions_counted u) (AutoStandDueSessions u)"
  unfolding AutoStandDueSessions_counted_def AutoStandDueSessions_def by (intro observes_intros)

end
