(* ===== verification/Http_Api.thy ===== *)
theory Http_Api
  imports Room_View User_Auth
begin

text \<open>
  The HTTP handlers (\<open>backend/controller/game_controller.go\<close>, \<open>room_controller.go\<close>,
  \<open>user_controller.go\<close>) and the data they answer (\<open>backend/dto\<close>). A handler gets the user id
  the authentication put into the context (empty when there is none), the path parameter and the
  bound body (\<open>None\<close> when binding fails); it answers a status with a body, and may ask for a
  broadcast of a room. What it writes down for the audit log is in \<open>Audit_Log\<close>.
\<close>

subsection \<open>Bodies\<close>

record RoomDetailJSON =
  rdj_ID :: string
  rdj_HostUserID :: string
  rdj_Status :: string

record SessionJSON =
  sjs_ID :: string
  sjs_Status :: string
  sjs_Version :: int
  sjs_RoundNo :: int
  sjs_TurnSeat :: int
  sjs_TurnDeadlineAt :: "string option"
  sjs_RematchDeadlineAt :: "string option"

record RoomHistoryItemJSON =
  hi_SessionID :: string
  hi_RoundNo :: int
  hi_ResultPayload :: string
  hi_CreatedAt :: string

record TurnActionRequest =
  ta_ExpectedVersion :: int
  ta_ActionID :: string

record RematchVoteRequest =
  rq_Agree :: bool
  rq_ExpectedVersion :: int
  rq_ActionID :: string

record loginRequest =
  lr_Username :: string
  lr_Password :: string

datatype api_data =
    CreateRoomData RoomDetailJSON
  | ListRoomsData "RoomDetailJSON list"
  | GetRoomData RoomDetailJSON "SessionJSON option"
  | StartRoomData RoomDetailJSON SessionJSON
  | TurnActionData RoomDetailJSON SessionJSON
  | RoomHistoryData string "RoomHistoryItemJSON list"
  | PlayHintData string int string
  | TokenData string int string string
  | UserData string string
  | EmptyData

datatype api_body = OK api_data | Fail string string

text \<open>The header is \<open>X-RateLimit-Retry-After-Ms\<close>.\<close>

record Response =
  rs_status :: nat
  rs_RetryAfterMs :: "int option"
  rs_body :: api_body

text \<open>A response, and the room to broadcast.\<close>

type_synonym reply = "Response \<times> string option"

definition fail_with :: "nat \<Rightarrow> string \<Rightarrow> string \<Rightarrow> Response" where
  "fail_with status code message = \<lparr>rs_status = status, rs_RetryAfterMs = None, rs_body = Fail code message\<rparr>"

definition ok_with :: "nat \<Rightarrow> api_data \<Rightarrow> Response" where
  "ok_with status d = \<lparr>rs_status = status, rs_RetryAfterMs = None, rs_body = OK d\<rparr>"

definition roomDetailJSON :: "Room \<Rightarrow> RoomDetailJSON" where
  "roomDetailJSON room =
     \<lparr>rdj_ID = room_ID room, rdj_HostUserID = room_HostUserID room,
      rdj_Status = RoomStatus_str (room_Status room)\<rparr>"

definition RoomFromDomain :: "Room option \<Rightarrow> RoomJSON" where
  "RoomFromDomain r =
     (case r of
        None \<Rightarrow> \<lparr>rj_ID = [], rj_Status = []\<rparr>
      | Some r \<Rightarrow> \<lparr>rj_ID = room_ID r, rj_Status = RoomStatus_str (room_Status r)\<rparr>)"

definition SessionFromDomain :: "GameSession option \<Rightarrow> (time \<Rightarrow> string) option \<Rightarrow> SessionJSON" where
  "SessionFromDomain s formatTime =
     (case s of
        None \<Rightarrow> \<lparr>sjs_ID = [], sjs_Status = [], sjs_Version = 0, sjs_RoundNo = 0, sjs_TurnSeat = 0,
                 sjs_TurnDeadlineAt = None, sjs_RematchDeadlineAt = None\<rparr>
      | Some s \<Rightarrow>
          \<lparr>sjs_ID = sess_ID s, sjs_Status = SessionStatus_str (sess_Status s),
           sjs_Version = sess_Version s, sjs_RoundNo = sess_RoundNo s, sjs_TurnSeat = sess_TurnSeat s,
           sjs_TurnDeadlineAt =
             (case formatTime of None \<Rightarrow> None | Some f \<Rightarrow> map_option f (sess_TurnDeadlineAt s)),
           sjs_RematchDeadlineAt =
             (case formatTime of None \<Rightarrow> None | Some f \<Rightarrow> map_option f (sess_RematchDeadlineAt s))\<rparr>)"

definition session_body :: "GameSession \<Rightarrow> SessionJSON" where
  "session_body s = SessionFromDomain (Some s) (Some format_RFC3339)"

definition RoomHistoryItemFromDomain :: "string \<Rightarrow> int \<Rightarrow> string \<Rightarrow> time \<Rightarrow> RoomHistoryItemJSON" where
  "RoomHistoryItemFromDomain itemID roundNo resultPayload createdAt =
     \<lparr>hi_SessionID = itemID, hi_RoundNo = roundNo, hi_ResultPayload = resultPayload,
      hi_CreatedAt = format_RFC3339 createdAt\<rparr>"

subsection \<open>Errors\<close>

text \<open>
  \<open>err.Error()\<close>. How the driver words a constraint violation is a parameter of the controller;
  its limiter, broker and secret are arguments of what uses them (\<open>Ws_Session\<close>, \<open>Room_Sync\<close>).
\<close>

record RoomController =
  rc_room :: roomService
  rc_pg_text :: "string \<Rightarrow> string"

fun error_text :: "(string \<Rightarrow> string) \<Rightarrow> error \<Rightarrow> string" where
  "error_text pg ErrInvalidStatus = ''invalid status''"
| "error_text pg ErrInvalidTransition = ''invalid transition''"
| "error_text pg ErrInvalidVersion = ''invalid version''"
| "error_text pg ErrVersionConflict = ''version_conflict''"
| "error_text pg ErrRoomFull = ''room_full''"
| "error_text pg ErrInvalidSeat = ''invalid seat''"
| "error_text pg ErrInvalidPlayerStatus = ''invalid player status''"
| "error_text pg ErrInvalidDeck = ''invalid deck''"
| "error_text pg ErrDeckExhausted = ''deck exhausted''"
| "error_text pg ErrNotPlayerTurn = ''not player turn''"
| "error_text pg ErrNotYourTurn = ''not your turn''"
| "error_text pg ErrCannotJoin = ''cannot join room in current state''"
| "error_text pg ErrForbiddenStart = ''forbidden start''"
| "error_text pg ErrDuplicateAction = ''duplicate_action''"
| "error_text pg ErrNotFound = ''not found''"
| "error_text pg ErrAlreadyExists = ''already exists''"
| "error_text pg ErrUnauthorizedUser = ''unauthorized''"
| "error_text pg ErrInvalidGameState = ''invalid_game_state''"
| "error_text pg ErrForbiddenAction = ''forbidden''"
| "error_text pg ErrUnauthorized = ''unauthorized''"
| "error_text pg ErrInvalidInput = ''invalid_input''"
| "error_text pg ErrUsernameTaken = ''username_taken''"
| "error_text pg (Errorf msg) = msg"
| "error_text pg (PgError code) = pg code"
| "error_text pg (ExtError msg) = msg"

definition internal_error :: "RoomController \<Rightarrow> error \<Rightarrow> Response" where
  "internal_error r err = fail_with 500 ''internal_error'' (error_text (rc_pg_text r) err)"

definition play_hint_error :: "RoomController \<Rightarrow> error \<Rightarrow> Response" where
  "play_hint_error r err =
     (if err = ErrUnauthorizedUser then fail_with 401 ''unauthorized'' ''login required''
      else if err = ErrForbiddenAction then fail_with 403 ''forbidden'' ''room access denied''
      else if err = ErrInvalidInput then fail_with 400 ''invalid_input'' ''room id is required''
      else if err = ErrInvalidGameState
      then fail_with 409 ''invalid_game_state'' ''hint is only available on your turn when you can hit''
      else if err = ErrNotFound then fail_with 404 ''not_found'' ''room or session not found''
      else internal_error r err)"

text \<open>The same switch of \<open>GetRoom\<close>, \<open>GetRoomHistory\<close> and, with its own message, the reset.\<close>

definition room_error :: "RoomController \<Rightarrow> string \<Rightarrow> error \<Rightarrow> Response" where
  "room_error r forbidden err =
     (if err = ErrUnauthorizedUser then fail_with 401 ''unauthorized'' ''login required''
      else if err = ErrForbiddenAction then fail_with 403 ''forbidden'' forbidden
      else if err = ErrInvalidInput then fail_with 400 ''invalid_input'' ''room id is required''
      else if err = ErrNotFound then fail_with 404 ''room_not_found'' ''room not found''
      else internal_error r err)"

definition start_error :: "RoomController \<Rightarrow> error \<Rightarrow> Response" where
  "start_error r err =
     (if err = ErrUnauthorizedUser then fail_with 401 ''unauthorized'' ''login required''
      else if err = ErrForbiddenAction then fail_with 403 ''forbidden'' ''only host can start room''
      else if err = ErrInvalidInput then fail_with 400 ''invalid_input'' ''room id is required''
      else if err = ErrInvalidGameState then fail_with 409 ''invalid_game_state'' ''room is not startable''
      else if err = ErrNotFound then fail_with 404 ''room_not_found'' ''room not found''
      else internal_error r err)"

definition join_error :: "RoomController \<Rightarrow> error \<Rightarrow> Response" where
  "join_error r err =
     (if err = ErrUnauthorizedUser then fail_with 401 ''unauthorized'' ''login required''
      else if err = ErrForbiddenAction then fail_with 403 ''forbidden'' ''only host can join own room''
      else if err = ErrRoomFull then fail_with 409 ''room_full'' ''room is full''
      else if err = ErrInvalidGameState then fail_with 409 ''invalid_game_state'' ''room is not joinable''
      else if err = ErrInvalidInput then fail_with 400 ''invalid_input'' ''room id is required''
      else internal_error r err)"

definition leave_error :: "RoomController \<Rightarrow> error \<Rightarrow> Response" where
  "leave_error r err =
     (if err = ErrUnauthorizedUser then fail_with 401 ''unauthorized'' ''login required''
      else if err = ErrInvalidInput then fail_with 400 ''invalid_input'' ''room id is required''
      else if err = ErrInvalidGameState
      then fail_with 409 ''invalid_game_state'' ''cannot leave during active session''
      else if err = ErrNotFound then fail_with 404 ''not_found'' ''room or membership not found''
      else internal_error r err)"

definition user_error :: "RoomController \<Rightarrow> error \<Rightarrow> Response" where
  "user_error r err =
     (if err = ErrUnauthorizedUser then fail_with 401 ''unauthorized'' ''login required''
      else internal_error r err)"

definition invalid_state_error :: "error \<Rightarrow> bool" where
  "invalid_state_error err \<longleftrightarrow>
     err \<in> {ErrInvalidGameState, ErrNotPlayerTurn, ErrNotYourTurn, ErrInvalidPlayerStatus}"

definition writeTurnMutationError :: "RoomController \<Rightarrow> error \<Rightarrow> string \<Rightarrow> string \<Rightarrow> Response" where
  "writeTurnMutationError r err invalidInputMessage invalidStateDefault =
     (if err = ErrUnauthorizedUser then fail_with 401 ''unauthorized'' ''login required''
      else if err = ErrForbiddenAction then fail_with 403 ''forbidden'' ''room access denied''
      else if err = ErrInvalidInput then fail_with 400 ''invalid_input'' invalidInputMessage
      else if invalid_state_error err then
        (let msg = invalidStateDefault;
             msg = (if msg = [] then error_text (rc_pg_text r) err else msg)
         in fail_with 409 ''invalid_game_state'' msg)
      else if err = ErrVersionConflict
      then fail_with 409 ''version_conflict'' ''session version conflict''
      else if err = ErrDuplicateAction
      then fail_with 409 ''duplicate_action'' ''action id already used with different payload''
      else if err = ErrNotFound then fail_with 404 ''not_found'' ''room or session not found''
      else internal_error r err)"

subsection \<open>Handlers of rooms and rounds\<close>

text \<open>\<open>if err != nil \{ ...; return \}\<close> around a call of the use case.\<close>

definition handle :: "'a prog \<Rightarrow> (error \<Rightarrow> Response) \<Rightarrow> ('a \<Rightarrow> reply) \<Rightarrow> reply prog" where
  "handle call on_error on_success =
     bind (attempt call) (\<lambda>r. ret (case r of Inl err \<Rightarrow> (on_error err, None) | Inr x \<Rightarrow> on_success x))"

definition GetPlayHint_http :: "RoomController \<Rightarrow> string \<Rightarrow> string \<Rightarrow> reply prog" where
  "GetPlayHint_http r userID roomID =
     handle (SuggestPlayerAction (rc_room r) roomID userID) (play_hint_error r) (\<lambda>hint.
       (ok_with 200 (PlayHintData (hint_Recommendation hint) (hint_SessionVersion hint)
          (hint_Rationale hint)), None))"

definition GetRoomHistory_http :: "RoomController \<Rightarrow> string \<Rightarrow> string \<Rightarrow> reply prog" where
  "GetRoomHistory_http r userID roomID =
     handle (GetRoomHistory roomID userID) (room_error r ''room access denied'') (\<lambda>history.
       (ok_with 200 (RoomHistoryData roomID
          (map (\<lambda>h. RoomHistoryItemFromDomain (rl_SessionID h) (rl_RoundNo h) (rl_ResultPayload h)
                  (rl_CreatedAt h)) history)), None))"

definition StartRoom_http :: "RoomController \<Rightarrow> string \<Rightarrow> string \<Rightarrow> reply prog" where
  "StartRoom_http r userID roomID =
     handle (StartRoom (rc_room r) roomID userID) (start_error r) (\<lambda>(room, sess).
       (ok_with 200 (StartRoomData (roomDetailJSON room) (session_body sess)), Some (room_ID room)))"

definition turnAction :: "RoomController \<Rightarrow> bool \<Rightarrow> string \<Rightarrow> string \<Rightarrow> TurnActionRequest option \<Rightarrow> reply prog" where
  "turnAction r hit userID roomID body =
     (case body of
        None \<Rightarrow> ret (fail_with 400 ''invalid_input'' ''expected_version is required'', None)
      | Some req \<Rightarrow>
          if ta_ExpectedVersion req \<le> 0
          then ret (fail_with 400 ''invalid_input'' ''expected_version is required'', None)
          else if ta_ActionID req = []
          then ret (fail_with 400 ''invalid_input'' ''action_id is required'', None)
          else
            handle
              (if hit then Hit (rc_room r) roomID userID (ta_ExpectedVersion req) (ta_ActionID req)
               else Stand (rc_room r) roomID userID (ta_ExpectedVersion req) (ta_ActionID req))
              (\<lambda>err. writeTurnMutationError r err ''room id and expected_version are required'' [])
              (\<lambda>(room, sess).
                (ok_with 200 (TurnActionData (roomDetailJSON room) (session_body sess)),
                 Some (room_ID room))))"

definition Hit_http :: "RoomController \<Rightarrow> string \<Rightarrow> string \<Rightarrow> TurnActionRequest option \<Rightarrow> reply prog" where
  "Hit_http r = turnAction r True"

definition Stand_http :: "RoomController \<Rightarrow> string \<Rightarrow> string \<Rightarrow> TurnActionRequest option \<Rightarrow> reply prog" where
  "Stand_http r = turnAction r False"

definition ResetRoomDebug :: "RoomController \<Rightarrow> string \<Rightarrow> string \<Rightarrow> reply prog" where
  "ResetRoomDebug r userID roomID =
     bind (io_getenv ''BLACKJACK_DEBUG_ROOM_RESET'') (\<lambda>flag.
     if flag \<noteq> ''true'' then ret (fail_with 403 ''debug_disabled'' ''room reset is disabled'', None)
     else
       handle (ResetRoomForDebug roomID userID) (room_error r ''only host can reset room'') (\<lambda>room.
         (ok_with 200 (CreateRoomData (roomDetailJSON room)), Some roomID)))"

definition RematchVote_http :: "RoomController \<Rightarrow> string \<Rightarrow> string \<Rightarrow> RematchVoteRequest option \<Rightarrow> reply prog" where
  "RematchVote_http r userID roomID body =
     (let refused = (fail_with 400 ''invalid_input'' ''agree, action_id, expected_version are required'', None)
      in case body of
        None \<Rightarrow> ret refused
      | Some req \<Rightarrow>
          if rq_ActionID req = [] \<or> rq_ExpectedVersion req \<le> 0 then ret refused
          else
            handle (VoteRematch (rc_room r) roomID userID (rq_Agree req) (rq_ExpectedVersion req)
                (rq_ActionID req))
              (\<lambda>err. writeTurnMutationError r err ''invalid rematch vote payload''
                 ''rematch voting is unavailable'')
              (\<lambda>(room, sess).
                (ok_with 200 (TurnActionData (roomDetailJSON room) (session_body sess)),
                 Some (room_ID room))))"

definition CreateRoom_http :: "RoomController \<Rightarrow> string \<Rightarrow> reply prog" where
  "CreateRoom_http r userID =
     handle (CreateRoom_uc userID) (user_error r) (\<lambda>room.
       (ok_with 200 (CreateRoomData (roomDetailJSON room)), None))"

definition JoinRoom_http :: "RoomController \<Rightarrow> string \<Rightarrow> string \<Rightarrow> reply prog" where
  "JoinRoom_http r userID roomID =
     handle (JoinRoom roomID userID) (join_error r) (\<lambda>room.
       (ok_with 200 (CreateRoomData (roomDetailJSON room)), Some (room_ID room)))"

definition LeaveRoom_http :: "RoomController \<Rightarrow> string \<Rightarrow> string \<Rightarrow> reply prog" where
  "LeaveRoom_http r userID roomID =
     handle (LeaveRoom roomID userID) (leave_error r) (\<lambda>(room, _).
       (ok_with 200 (CreateRoomData (roomDetailJSON room)), Some (room_ID room)))"

definition GetRoom_http :: "RoomController \<Rightarrow> string \<Rightarrow> string \<Rightarrow> reply prog" where
  "GetRoom_http r userID roomID =
     handle (GetRoom_uc roomID userID) (room_error r ''room access denied'') (\<lambda>(room, sess).
       (ok_with 200 (GetRoomData (roomDetailJSON room) (map_option session_body sess)), None))"

definition ListRooms_http :: "RoomController \<Rightarrow> string \<Rightarrow> reply prog" where
  "ListRooms_http r userID =
     handle (ListRooms userID) (user_error r) (\<lambda>rooms.
       (ok_with 200 (ListRoomsData (map roomDetailJSON rooms)), None))"

subsection \<open>Handlers of users\<close>

text \<open>\<open>int(d.Seconds())\<close>: cut towards zero.\<close>

definition whole_seconds :: "int \<Rightarrow> int" where
  "whole_seconds d = (if 0 \<le> d then d div Second else - (- d div Second))"

definition token_reply :: "nat \<Rightarrow> AuthResponse \<Rightarrow> reply prog" where
  "token_reply status res =
     bind io_now (\<lambda>now.
     ret (ok_with status (TokenData (ar_token res) (whole_seconds (ar_expiresAt res - now))
       (user_ID (ar_user res)) (user_Username (ar_user res))), None))"

definition credentials_missing :: Response where
  "credentials_missing = fail_with 400 ''invalid_input'' ''username and password are required''"

definition Signup_http ::
    "(string \<Rightarrow> string) \<Rightarrow> auth_lib \<Rightarrow> string \<Rightarrow> loginRequest option \<Rightarrow> reply prog" where
  "Signup_http pg lib secret body =
     (case body of
        None \<Rightarrow> ret (credentials_missing, None)
      | Some req \<Rightarrow>
          if lr_Username req = [] \<or> lr_Password req = [] then ret (credentials_missing, None)
          else
            bind (attempt (Signup lib secret (lr_Username req) (lr_Password req))) (\<lambda>r.
            case r of
              Inl err \<Rightarrow>
                ret (if err = ErrInvalidInput then
                       fail_with 400 ''invalid_input''
                         ''username must be 3-100 chars and password must be at least 8 chars''
                     else if err = ErrUsernameTaken then
                       fail_with 409 ''username_taken'' ''username already exists''
                     else fail_with 500 ''internal_error'' (error_text pg err), None)
            | Inr res \<Rightarrow> token_reply 201 res))"

definition Login_http ::
    "(string \<Rightarrow> string) \<Rightarrow> auth_lib \<Rightarrow> string \<Rightarrow> loginRequest option \<Rightarrow> reply prog" where
  "Login_http pg lib secret body =
     (case body of
        None \<Rightarrow> ret (credentials_missing, None)
      | Some req \<Rightarrow>
          if lr_Username req = [] \<or> lr_Password req = [] then ret (credentials_missing, None)
          else
            bind (attempt (Login lib secret (lr_Username req) (lr_Password req))) (\<lambda>r.
            case r of
              Inl err \<Rightarrow>
                ret (if err = ErrUnauthorized then
                       fail_with 401 ''unauthorized'' ''invalid credentials''
                     else fail_with 500 ''internal_error'' (error_text pg err), None)
            | Inr res \<Rightarrow> token_reply 200 res))"

definition Logout_http :: "reply prog" where
  "Logout_http = bind (attempt Logout) (\<lambda>_. ret (ok_with 200 EmptyData, None))"

definition Me_http :: "string \<Rightarrow> reply prog" where
  "Me_http userID =
     (if userID = [] then ret (fail_with 401 ''unauthorized'' ''not logged in'', None)
      else
        handle (Me userID) (\<lambda>_. fail_with 401 ''unauthorized'' ''not logged in'') (\<lambda>user.
          (ok_with 200 (UserData (user_ID user) (user_Username user)), None)))"

subsection \<open>What an answer says about the store\<close>

text \<open>
  A well-behaved handler answers 200 after its change; any other answer changes nothing and asks
  for no broadcast.
\<close>

definition succeeded :: "Response \<Rightarrow> bool" where
  "succeeded r \<longleftrightarrow> rs_status r = 200"

definition well_behaved :: "reply prog \<Rightarrow> bool" where
  "well_behaved h \<longleftrightarrow>
     (\<forall>e w. \<exists>resp room w'. h e w = (Inr (resp, room), w')
        \<and> (succeeded resp \<or> room = None \<and> w_db w' = w_db w))"

named_theorems behaved_intros \<open>well-behaved handlers\<close>

lemma refused_simps [simp]:
  "\<not> succeeded (fail_with 400 c m)" "\<not> succeeded (fail_with 401 c m)" "\<not> succeeded (fail_with 403 c m)"
  "\<not> succeeded (fail_with 404 c m)" "\<not> succeeded (fail_with 409 c m)" "\<not> succeeded (fail_with 500 c m)"
  "succeeded (ok_with 200 d)" "\<not> succeeded (internal_error r err)"
  by (simp_all add: succeeded_def fail_with_def ok_with_def internal_error_def)

lemma refused_errors [simp]:
  "\<not> succeeded (play_hint_error r err)" "\<not> succeeded (room_error r m err)"
  "\<not> succeeded (start_error r err)" "\<not> succeeded (join_error r err)"
  "\<not> succeeded (leave_error r err)" "\<not> succeeded (user_error r err)"
  "\<not> succeeded (writeTurnMutationError r err m m')" "\<not> succeeded credentials_missing"
  by (auto simp: play_hint_error_def room_error_def start_error_def join_error_def leave_error_def
      user_error_def writeTurnMutationError_def Let_def credentials_missing_def)

lemma behaved_handle [behaved_intros]:
  assumes "all_or_nothing call" "\<And>err. \<not> succeeded (on_error err)" "\<And>x. succeeded (fst (on_success x))"
  shows "well_behaved (handle call on_error on_success)"
  unfolding well_behaved_def handle_def
proof (intro allI)
  fix e w
  obtain r w' where run: "call e w = (r, w')" by fastforce
  show "\<exists>resp room w'. bind (attempt call) (\<lambda>r. ret (case r of Inl err \<Rightarrow> (on_error err, None)
      | Inr x \<Rightarrow> on_success x)) e w = (Inr (resp, room), w')
    \<and> (succeeded resp \<or> room = None \<and> w_db w' = w_db w)"
  proof (cases r)
    case (Inl err)
    with aonD [OF assms(1)] run show ?thesis by (simp add: bind_def attempt_def ret_def)
  next
    case (Inr x)
    with run assms(3) [of x] show ?thesis
      by (cases "on_success x") (simp add: bind_def attempt_def ret_def)
  qed
qed

lemma behaved_refusal [behaved_intros]: "\<not> succeeded resp \<Longrightarrow> well_behaved (ret (resp, None))"
  by (simp add: well_behaved_def ret_def)

lemma behaved_branches [behaved_intros]:
  "well_behaved a \<Longrightarrow> well_behaved b \<Longrightarrow> well_behaved (if c then a else b)"
  "well_behaved a \<Longrightarrow> (\<And>x. well_behaved (g x)) \<Longrightarrow>
     well_behaved (case oc of None \<Rightarrow> a | Some x \<Rightarrow> g x)"
  by (simp_all split: option.split)

lemma behaved_getenv [behaved_intros]:
  "(\<And>s. well_behaved (f s)) \<Longrightarrow> well_behaved (bind (io_getenv n) f)"
  by (simp add: well_behaved_def bind_def io_getenv_def)

text \<open>Every request of the room and round API.\<close>

datatype api_request =
    Api_CreateRoom | Api_ListRooms | Api_JoinRoom string | Api_LeaveRoom string | Api_GetRoom string
  | Api_History string | Api_PlayHint string | Api_Start string
  | Api_Hit string "TurnActionRequest option" | Api_Stand string "TurnActionRequest option"
  | Api_Reset string

fun api_handler :: "RoomController \<Rightarrow> api_request \<Rightarrow> string \<Rightarrow> reply prog" where
  "api_handler r Api_CreateRoom userID = CreateRoom_http r userID"
| "api_handler r Api_ListRooms userID = ListRooms_http r userID"
| "api_handler r (Api_JoinRoom i) userID = JoinRoom_http r userID i"
| "api_handler r (Api_LeaveRoom i) userID = LeaveRoom_http r userID i"
| "api_handler r (Api_GetRoom i) userID = GetRoom_http r userID i"
| "api_handler r (Api_History i) userID = GetRoomHistory_http r userID i"
| "api_handler r (Api_PlayHint i) userID = GetPlayHint_http r userID i"
| "api_handler r (Api_Start i) userID = StartRoom_http r userID i"
| "api_handler r (Api_Hit i body) userID = Hit_http r userID i body"
| "api_handler r (Api_Stand i body) userID = Stand_http r userID i body"
| "api_handler r (Api_Reset i) userID = ResetRoomDebug r userID i"

lemmas handler_defs = CreateRoom_http_def ListRooms_http_def JoinRoom_http_def LeaveRoom_http_def
  GetRoom_http_def GetRoomHistory_http_def GetPlayHint_http_def StartRoom_http_def Hit_http_def
  Stand_http_def turnAction_def ResetRoomDebug_def RematchVote_http_def

lemma behaved_api: "well_behaved (api_handler r req userID)"
  by (cases req)
    (auto simp: handler_defs intro!: behaved_intros aon_room_uc aon_playerTurn aon_StartRoom
      aon_readonly [OF readonly_room_uc(1)] aon_readonly [OF readonly_room_uc(2)]
      aon_readonly [OF readonly_room_uc(3)] aon_readonly [OF readonly_views(2)])

subsection \<open>Properties\<close>

theorem api_answers_and_keeps:
  "\<exists>resp room w'. api_handler r req userID e w = (Inr (resp, room), w')
     \<and> (rs_status resp = 200 \<or> room = None \<and> w_db w' = w_db w)"
  using behaved_api [of r req userID] unfolding well_behaved_def succeeded_def by blast

theorem missing_room_is_internal_error_on_join:
  assumes "GetRoom roomID (w_db w) = Inl ErrNotFound" "userID \<noteq> []" "roomID \<noteq> []"
    and "env_fault e (w_calls w) = None"
  shows "(\<exists>w'. JoinRoom_http r userID roomID e w =
      (Inr (fail_with 500 ''internal_error'' ''not found'', None), w'))
    \<and> (\<exists>w'. GetRoom_http r userID roomID e w =
      (Inr (fail_with 404 ''room_not_found'' ''room not found'', None), w'))
    \<and> (\<exists>w'. StartRoom_http r userID roomID e w =
      (Inr (fail_with 404 ''room_not_found'' ''room not found'', None), w'))
    \<and> (\<exists>w'. LeaveRoom_http r userID roomID e w =
      (Inr (fail_with 404 ''not_found'' ''room or membership not found'', None), w'))"
  using assms
  by (simp_all add: handler_defs handle_def bind_def attempt_def JoinRoom_def GetRoom_uc_def StartRoom_def
      LeaveRoom_def store_read_def store_op_def mapR_def ret_def throw_def join_error_def room_error_def start_error_def
      leave_error_def internal_error_def)

theorem missing_room_is_internal_error_on_join_witness:
  "\<exists>r w'. JoinRoom_http r ''ann'' ''room'' auth_env before_signup =
      (Inr (fail_with 500 ''internal_error'' ''not found'', None), w')"
proof -
  have "GetRoom ''room'' (w_db before_signup) = Inl ErrNotFound" by code_simp
  from missing_room_is_internal_error_on_join [OF this, of "''ann''" auth_env] show ?thesis by auto
qed

end
