(* ===== verification/Rate_Limit.thy ===== *)
theory Rate_Limit
  imports Model_Types Complex_Main
begin

text \<open>
  The rate limits: the Redis token bucket of \<open>backend/repository/rate_limit_repository.go\<close> (the
  Lua script, which Redis runs as one step) and \<open>backend/usecase/rate_limit_usecase.go\<close>. The
  floating-point numbers of the script are exact rationals here; Redis turns the numbers of the
  reply into integers by truncation. A key disappears when its time to live is over, by the
  clock of Redis.
\<close>

subsection \<open>The bucket\<close>

record bucket =
  bk_tokens :: rat
  bk_ts :: int
  bk_expires :: int

type_synonym buckets = "string \<rightharpoonup> bucket"

definition live :: "int \<Rightarrow> buckets \<Rightarrow> string \<Rightarrow> bucket option" where
  "live clock s key =
     (case s key of
        None \<Rightarrow> None
      | Some b \<Rightarrow> if clock < bk_expires b then Some b else None)"

definition refilled :: "rat \<Rightarrow> rat \<Rightarrow> int \<Rightarrow> bucket option \<Rightarrow> rat" where
  "refilled rate capacity now data =
     (let tokens = (case data of None \<Rightarrow> capacity | Some b \<Rightarrow> bk_tokens b);
          ts = (case data of None \<Rightarrow> now | Some b \<Rightarrow> bk_ts b);
          delta = max 0 (now - ts);
          refill = of_int delta / 1000 * rate
      in min capacity (tokens + refill))"

definition lua_integer :: "rat \<Rightarrow> int" where
  "lua_integer x = (if 0 \<le> x then \<lfloor>x\<rfloor> else \<lceil>x\<rceil>)"

definition tokenBucketScript ::
    "int \<Rightarrow> string \<Rightarrow> rat \<Rightarrow> rat \<Rightarrow> rat \<Rightarrow> int \<Rightarrow> buckets \<Rightarrow> (int \<times> int \<times> int) \<times> buckets" where
  "tokenBucketScript clock key rate capacity cost now s =
     (if rate \<le> 0 \<or> capacity \<le> 0 \<or> cost \<le> 0 then ((0, 0, 0), s)
      else
        let tokens = refilled rate capacity now (live clock s key);
            (allowed, tokens, retry_after_ms) =
              (if tokens \<ge> cost then (1, tokens - cost, 0)
               else (0, tokens, \<lceil>(cost - tokens) / rate * 1000\<rceil>));
            ttl_ms = max 1000 \<lceil>capacity / rate * 2000\<rceil>
        in ((allowed, lua_integer tokens, retry_after_ms),
            s(key \<mapsto> \<lparr>bk_tokens = tokens, bk_ts = now, bk_expires = clock + ttl_ms\<rparr>)))"

text \<open>The client may be missing, and the call for a key may fail.\<close>

record redis_env =
  re_client :: bool
  re_fault :: "string \<Rightarrow> string option"
  re_clock :: int

definition bucket_Allow ::
    "redis_env \<Rightarrow> string \<Rightarrow> rat \<Rightarrow> rat \<Rightarrow> rat \<Rightarrow> int \<Rightarrow> buckets \<Rightarrow>
       (error + (bool \<times> int \<times> int)) \<times> buckets" where
  "bucket_Allow e key rate capacity cost nowMS s =
     (if \<not> re_client e then (Inl (ExtError ''redis client is nil''), s)
      else
        let key = ''rate:'' @ key in
        case re_fault e key of
          Some msg \<Rightarrow> (Inl (ExtError msg), s)
        | None \<Rightarrow>
            (case tokenBucketScript (re_clock e) key rate capacity cost nowMS s of
               ((allowed, tokens, retryAfterMS), s') \<Rightarrow>
                 (Inr (allowed = 1, tokens, retryAfterMS), s')))"

subsection \<open>The use case\<close>

record RateLimitResult =
  rl_Allowed :: bool
  rl_Tokens :: int
  rl_RetryAfterMS :: int

record RateLimitDecision =
  rd_Allowed :: bool
  rd_Remaining :: int
  rd_RetryAfter :: int
  rd_LimitName :: string

record rateLimitService =
  defaultRate :: rat
  defaultCapacity :: rat
  signupRate :: rat
  signupCapacity :: rat
  loginRate :: rat
  loginCapacity :: rat
  taskRate :: rat
  taskCapacity :: rat

definition NewRateLimitUsecase :: rateLimitService where
  "NewRateLimitUsecase =
     \<lparr>defaultRate = 5, defaultCapacity = 20, signupRate = 1, signupCapacity = 5, loginRate = 1,
      loginCapacity = 5, taskRate = 5, taskCapacity = 20\<rparr>"

definition rate_Allow ::
    "rateLimitService \<Rightarrow> redis_env \<Rightarrow> int \<Rightarrow> string \<Rightarrow> buckets \<Rightarrow> (error + RateLimitResult) \<times> buckets" where
  "rate_Allow u e nowMS key s =
     (case bucket_Allow e key (defaultRate u) (defaultCapacity u) 1 nowMS s of
        (Inl err, s') \<Rightarrow> (Inl err, s')
      | (Inr (allowed, tokens, retryAfterMS), s') \<Rightarrow>
          (Inr \<lparr>rl_Allowed = allowed, rl_Tokens = tokens, rl_RetryAfterMS = retryAfterMS\<rparr>, s'))"

definition Millisecond :: int where "Millisecond = 1000000"

definition rateLimitIPKey :: "string \<Rightarrow> string" where
  "rateLimitIPKey ip =
     (let v = TrimSpace ip in
      if v = [] then ''unknown''
      else
        let v = map (\<lambda>c. if c = CHR '':'' then CHR ''_'' else c) v in
        map (\<lambda>c. if c = CHR ''.'' then CHR ''_'' else c) v)"

text \<open>\<open>strings.ToLower\<close> on ASCII text.\<close>

definition ascii_lower :: "char \<Rightarrow> char" where
  "ascii_lower c =
     (if CHR ''A'' \<le> c \<and> c \<le> CHR ''Z'' then char_of ((of_char c :: nat) + 32) else c)"

definition rateLimitEmailKey :: "string \<Rightarrow> string" where
  "rateLimitEmailKey email =
     (let v = map ascii_lower (TrimSpace email) in filter (\<lambda>c. c \<noteq> CHR '' '') v)"

definition allowUsername ::
    "redis_env \<Rightarrow> int \<Rightarrow> string \<Rightarrow> string \<Rightarrow> string \<Rightarrow> rat \<Rightarrow> rat \<Rightarrow> buckets \<Rightarrow>
       (error + RateLimitDecision) \<times> buckets" where
  "allowUsername e nowMS action ip email rate capacity s =
     (case bucket_Allow e (''rl:'' @ action @ '':ip:'' @ rateLimitIPKey ip) rate capacity 1 nowMS s of
        (Inl err, s) \<Rightarrow> (Inl err, s)
      | (Inr (ok, rem, retry), s) \<Rightarrow>
          if \<not> ok then
            (Inr \<lparr>rd_Allowed = False, rd_Remaining = rem, rd_RetryAfter = wrap64 (retry * Millisecond),
                  rd_LimitName = action @ '':ip''\<rparr>, s)
          else if rateLimitEmailKey email = [] then
            (Inr \<lparr>rd_Allowed = True, rd_Remaining = rem, rd_RetryAfter = 0,
                  rd_LimitName = action @ '':ip''\<rparr>, s)
          else
            (case bucket_Allow e (''rl:'' @ action @ '':email:'' @ rateLimitEmailKey email)
                rate capacity 1 nowMS s of
               (Inl err, s) \<Rightarrow> (Inl err, s)
             | (Inr (ok2, rem2, retry2), s) \<Rightarrow>
                 if \<not> ok2 then
                   (Inr \<lparr>rd_Allowed = False, rd_Remaining = rem2,
                         rd_RetryAfter = wrap64 (retry2 * Millisecond),
                         rd_LimitName = action @ '':email''\<rparr>, s)
                 else
                   (Inr \<lparr>rd_Allowed = True, rd_Remaining = (if rem2 < rem then rem2 else rem),
                         rd_RetryAfter = 0, rd_LimitName = action\<rparr>, s)))"

definition AllowSignup ::
    "rateLimitService \<Rightarrow> redis_env \<Rightarrow> int \<Rightarrow> string \<Rightarrow> string \<Rightarrow> buckets \<Rightarrow> (error + RateLimitDecision) \<times> buckets" where
  "AllowSignup u e nowMS ip email s =
     allowUsername e nowMS ''signup'' ip email (signupRate u) (signupCapacity u) s"

definition AllowLogin ::
    "rateLimitService \<Rightarrow> redis_env \<Rightarrow> int \<Rightarrow> string \<Rightarrow> string \<Rightarrow> buckets \<Rightarrow> (error + RateLimitDecision) \<times> buckets" where
  "AllowLogin u e nowMS ip email s =
     allowUsername e nowMS ''login'' ip email (loginRate u) (loginCapacity u) s"

definition AllowTasks ::
    "rateLimitService \<Rightarrow> redis_env \<Rightarrow> int \<Rightarrow> nat \<Rightarrow> buckets \<Rightarrow> (error + RateLimitDecision) \<times> buckets" where
  "AllowTasks u e nowMS userID s =
     (case bucket_Allow e (''rl:tasks:user:'' @ FormatInt (int userID)) (taskRate u) (taskCapacity u) 1
         nowMS s of
        (Inl err, s) \<Rightarrow> (Inl err, s)
      | (Inr (ok, rem, retry), s) \<Rightarrow>
          (Inr \<lparr>rd_Allowed = ok, rd_Remaining = rem, rd_RetryAfter = wrap64 (retry * Millisecond),
                rd_LimitName = ''tasks:user''\<rparr>, s))"

subsection \<open>What a bucket lets through\<close>

text \<open>
  The laws of a bucket, for any positive rate, capacity and cost: \<open>level\<close> is what a key holds at a
  time. A request takes its cost from the level or leaves it; time adds to it at the rate, and the
  disappearance of a key adds nothing more, since the bucket would have been full by then.
\<close>

definition bucket_ok :: "rat \<Rightarrow> rat \<Rightarrow> int \<Rightarrow> bucket \<Rightarrow> bool" where
  "bucket_ok rate capacity now b \<longleftrightarrow> 0 \<le> bk_tokens b \<and> bk_tokens b \<le> capacity \<and> bk_ts b \<le> now
     \<and> capacity / rate * 2000 \<le> of_int (bk_expires b - bk_ts b)"

definition buckets_ok :: "rat \<Rightarrow> rat \<Rightarrow> int \<Rightarrow> buckets \<Rightarrow> bool" where
  "buckets_ok rate capacity now s \<longleftrightarrow> (\<forall>key b. s key = Some b \<longrightarrow> bucket_ok rate capacity now b)"

locale token_bucket =
  fixes rate capacity cost :: rat
  assumes rate_pos: "0 < rate" and cost_pos: "0 < cost" and cost_le: "cost \<le> capacity"
begin

definition level :: "int \<Rightarrow> buckets \<Rightarrow> string \<Rightarrow> rat" where
  "level t s key = refilled rate capacity t (live t s key)"

abbreviation request :: "int \<Rightarrow> string \<Rightarrow> buckets \<Rightarrow> (int \<times> int \<times> int) \<times> buckets" where
  "request t key s \<equiv> tokenBucketScript t key rate capacity cost t s"

lemma level_le: "level t s key \<le> capacity"
  by (simp add: level_def refilled_def Let_def)

lemma level_nonneg: "buckets_ok rate capacity t s \<Longrightarrow> 0 \<le> level t s key"
  using cost_pos cost_le rate_pos
  by (auto simp: level_def refilled_def live_def buckets_ok_def bucket_ok_def Let_def
      split: option.split)

text \<open>What a request does to the level of its own key, at its time.\<close>

lemma request_eq:
  "request t key s =
     (if cost \<le> level t s key
      then ((1, lua_integer (level t s key - cost), 0),
            s(key \<mapsto> \<lparr>bk_tokens = level t s key - cost, bk_ts = t,
                      bk_expires = t + max 1000 \<lceil>capacity / rate * 2000\<rceil>\<rparr>))
      else ((0, lua_integer (level t s key), \<lceil>(cost - level t s key) / rate * 1000\<rceil>),
            s(key \<mapsto> \<lparr>bk_tokens = level t s key, bk_ts = t,
                      bk_expires = t + max 1000 \<lceil>capacity / rate * 2000\<rceil>\<rparr>)))"
  using rate_pos cost_pos cost_le by (simp add: tokenBucketScript_def level_def Let_def)

lemma ttl_enough: "capacity / rate * 2000 \<le> of_int (max 1000 \<lceil>capacity / rate * 2000\<rceil>)"
  by (simp add: le_max_iff_disj of_int_max)

lemma request_ok:
  assumes "buckets_ok rate capacity t s"
  shows "buckets_ok rate capacity t (snd (request t key s))"
proof -
  have "bucket_ok rate capacity t \<lparr>bk_tokens = x, bk_ts = t,
      bk_expires = t + max 1000 \<lceil>capacity / rate * 2000\<rceil>\<rparr>" if "0 \<le> x" "x \<le> capacity" for x
    using that ttl_enough by (simp add: bucket_ok_def)
  moreover have "0 \<le> level t s key" "level t s key \<le> capacity"
    using level_nonneg [OF assms] level_le by auto
  ultimately show ?thesis using assms cost_pos by (auto simp: request_eq buckets_ok_def)
qed

lemma level_own:
  assumes "buckets_ok rate capacity t s"
  shows "level t (snd (request t key s)) key =
    level t s key - (if fst (fst (request t key s)) = 1 then cost else 0)"
proof -
  have "level t s key \<le> capacity" by (rule level_le)
  moreover have "level t (s'(key \<mapsto> \<lparr>bk_tokens = x, bk_ts = t,
      bk_expires = t + max 1000 \<lceil>capacity / rate * 2000\<rceil>\<rparr>)) key = x" if "x \<le> capacity" for x s'
    using that by (simp add: level_def refilled_def live_def Let_def less_max_iff_disj)
  ultimately show ?thesis using cost_pos by (auto simp: request_eq)
qed

lemma level_other:
  "key' \<noteq> key \<Longrightarrow> level t (snd (request t key s)) key' = level t s key'"
  by (simp add: request_eq level_def live_def)

lemma ok_later: "buckets_ok rate capacity t s \<Longrightarrow> t \<le> t' \<Longrightarrow> buckets_ok rate capacity t' s"
  by (fastforce simp: buckets_ok_def bucket_ok_def)

lemma level_later:
  assumes ok: "buckets_ok rate capacity t s" and t: "t \<le> t'"
  shows "level t' s key \<le> level t s key + of_int (t' - t) / 1000 * rate"
proof (cases "live t s key")
  case None
  then have "level t s key = capacity" by (simp add: level_def refilled_def Let_def)
  moreover have "0 \<le> of_int (t' - t) / 1000 * rate" using t rate_pos by simp
  ultimately show ?thesis using level_le [of t' s key] by linarith
next
  case (Some b)
  then have b: "s key = Some b" by (auto simp: live_def split: option.splits if_splits)
  with ok have o: "0 \<le> bk_tokens b" "bk_ts b \<le> t"
    and e: "capacity / rate * 2000 \<le> of_int (bk_expires b - bk_ts b)"
    by (auto simp: buckets_ok_def bucket_ok_def)
  let ?f = "\<lambda>u. bk_tokens b + of_int (u - bk_ts b) / 1000 * rate"
  have lv: "level t s key = min capacity (?f t)"
    using Some o by (simp add: level_def refilled_def Let_def)
  have f: "?f t' = ?f t + of_int (t' - t) / 1000 * rate" by (simp add: field_simps)
  have pos: "0 \<le> of_int (t' - t) / 1000 * rate" using t rate_pos by simp
  have "level t' s key \<le> ?f t'"
  proof (cases "live t' s key")
    case None
    with b have "bk_expires b \<le> t'" by (auto simp: live_def split: if_splits)
    then have "of_int (bk_expires b - bk_ts b) \<le> (of_int (t' - bk_ts b) :: rat)" by simp
    with e have "capacity / rate * 2000 \<le> of_int (t' - bk_ts b)" by linarith
    then have "2 * capacity \<le> of_int (t' - bk_ts b) / 1000 * rate"
      using rate_pos by (simp add: field_simps)
    moreover have "level t' s key = capacity" using None by (simp add: level_def refilled_def Let_def)
    ultimately show ?thesis using o(1) cost_pos cost_le by linarith
  next
    case (Some b')
    with b have "b' = b" by (auto simp: live_def split: if_splits)
    with Some o t show ?thesis by (simp add: level_def refilled_def Let_def)
  qed
  with level_le [of t' s key] lv f pos show ?thesis by linarith
qed

text \<open>A run of requests for several keys, each at its time, and what was admitted of one key.\<close>

fun run :: "(string \<times> int) list \<Rightarrow> buckets \<Rightarrow> bool list \<times> buckets" where
  "run [] s = ([], s)"
| "run ((key, t) # rs) s =
     (case request t key s of
        ((allowed, _), s') \<Rightarrow> (case run rs s' of (as, s'') \<Rightarrow> ((allowed = 1) # as, s'')))"

abbreviation admitted :: "string \<Rightarrow> (string \<times> int) list \<Rightarrow> bool list \<Rightarrow> nat" where
  "admitted key rs as \<equiv> length (filter (\<lambda>(r, a). fst r = key \<and> a) (zip rs as))"

lemma run_spends:
  assumes "buckets_ok rate capacity t s" "\<forall>r \<in> set rs. t \<le> snd r" "sorted (map snd rs)"
    and "run rs s = (as, s')"
  shows "cost * of_nat (admitted key rs as)
       \<le> level t s key + of_int ((if rs = [] then t else snd (last rs)) - t) / 1000 * rate
    \<and> buckets_ok rate capacity (if rs = [] then t else snd (last rs)) s'"
  using assms
proof (induction rs arbitrary: t s as)
  case Nil
  then show ?case using level_nonneg by simp
next
  case (Cons r rs)
  obtain k u where r: "r = (k, u)" by fastforce
  obtain al x s1 where q: "request u k s = ((al, x), s1)" by (metis prod.collapse)
  obtain as1 where rn: "run rs s1 = (as1, s')" and as: "as = (al = 1) # as1"
    using Cons.prems(4) q r by (auto split: prod.splits)
  have tu: "t \<le> u" using Cons.prems(2) r by simp
  have ok: "buckets_ok rate capacity u s" using Cons.prems(1) tu by (rule ok_later)
  have ok1: "buckets_ok rate capacity u s1" using request_ok [OF ok, of k] q by simp
  have later: "\<forall>r \<in> set rs. u \<le> snd r" "sorted (map snd rs)" using Cons.prems(3) r by auto
  note IH = Cons.IH [OF ok1 later rn]
  let ?upto = "if rs = [] then u else snd (last rs)"
  have "level u s1 key = level u s key - (if k = key \<and> al = 1 then cost else 0)"
    using level_own [OF ok, of k] level_other [of key k u s] q by (cases "key = k") simp_all
  moreover have "cost * of_nat (admitted key (r # rs) as) =
      cost * of_nat (admitted key rs as1) + (if k = key \<and> al = 1 then cost else 0)"
    by (simp add: as r algebra_simps)
  moreover have "level u s key \<le> level t s key + of_int (u - t) / 1000 * rate"
    by (rule level_later [OF Cons.prems(1) tu])
  moreover have "of_int (u - t) / 1000 * rate + of_int (?upto - u) / 1000 * rate =
      of_int (?upto - t) / 1000 * rate" by (simp add: field_simps)
  ultimately have "cost * of_nat (admitted key (r # rs) as)
      \<le> level t s key + of_int (?upto - t) / 1000 * rate"
    using IH [THEN conjunct1] by linarith
  moreover have "(if r # rs = [] then t else snd (last (r # rs))) = ?upto" by (simp add: r)
  ultimately show ?case using IH [THEN conjunct2] by (simp only:)
qed

theorem window:
  assumes "sorted (map snd (xs @ ys))" "ys \<noteq> []"
    and "run xs Map.empty = (as, s)" "run ys s = (bs, s')"
  shows "cost * of_nat (admitted key ys bs)
    \<le> capacity + of_int (snd (last ys) - snd (hd ys)) / 1000 * rate"
proof -
  let ?t = "snd (hd ys)"
  have e: "buckets_ok rate capacity u Map.empty" for u by (simp add: buckets_ok_def)
  have xs: "sorted (map snd xs)" "sorted (map snd ys)" and xy: "\<forall>x \<in> set xs. \<forall>y \<in> set ys. snd x \<le> snd y"
    using assms(1) by (auto simp: sorted_append)
  have ok: "buckets_ok rate capacity ?t s"
  proof (cases xs)
    case Nil
    with assms(3) e show ?thesis by simp
  next
    case (Cons x xs')
    have "\<forall>r \<in> set xs. snd x \<le> snd r" using xs(1) Cons by auto
    from run_spends [OF e this xs(1) assms(3)] Cons
    have "buckets_ok rate capacity (snd (last xs)) s" by simp
    moreover have "snd (last xs) \<le> ?t" using xy Cons assms(2) by (simp add: hd_in_set)
    ultimately show ?thesis by (rule ok_later)
  qed
  have "\<forall>r \<in> set ys. ?t \<le> snd r" using xs(2) assms(2) by (cases ys) auto
  from run_spends [OF ok this xs(2) assms(4), of key] level_le [of ?t s key] assms(2)
  show ?thesis by simp
qed

text \<open>Waiting for as long as a refusal says is enough.\<close>

theorem retry:
  assumes ok: "buckets_ok rate capacity t s" and req: "request t key s = ((al, x, ms), s')"
    and al: "al \<noteq> 1" and t': "t + ms \<le> t'"
  shows "0 < ms \<and> fst (fst (request t' key s')) = 1"
proof -
  have short: "level t s key < cost" and ms: "ms = \<lceil>(cost - level t s key) / rate * 1000\<rceil>"
    and s': "s' = s(key \<mapsto> \<lparr>bk_tokens = level t s key, bk_ts = t,
        bk_expires = t + max 1000 \<lceil>capacity / rate * 2000\<rceil>\<rparr>)"
    using req al by (auto simp: request_eq split: if_splits)
  have pos: "0 < (cost - level t s key) / rate * 1000" using short rate_pos by simp
  have "(cost - level t s key) / rate * 1000 \<le> of_int ms" by (simp add: ms)
  then have "cost - level t s key \<le> of_int ms / 1000 * rate" using rate_pos by (simp add: field_simps)
  moreover have "of_int ms / 1000 * rate \<le> of_int (t' - t) / 1000 * rate"
    using t' rate_pos by (intro mult_right_mono divide_right_mono) auto
  ultimately have enough: "cost \<le> level t s key + of_int (t' - t) / 1000 * rate" by linarith
  have "0 < ms" using pos by (simp add: ms)
  have "cost \<le> level t' s' key"
  proof (cases "live t' s' key")
    case None
    then show ?thesis using cost_le by (simp add: level_def refilled_def Let_def)
  next
    case (Some b)
    then have "bk_tokens b = level t s key" "bk_ts b = t"
      by (auto simp: live_def s' split: if_splits)
    with Some enough cost_le \<open>0 < ms\<close> t' show ?thesis by (simp add: level_def refilled_def Let_def)
  qed
  with \<open>0 < ms\<close> show ?thesis by (simp add: request_eq)
qed

end


interpretation default_limit: token_bucket 5 20 1 by unfold_locales simp_all

interpretation login_limit: token_bucket 1 5 1 by unfold_locales simp_all

subsection \<open>Properties\<close>

text \<open>Redis answers, and its clock is the one of the servers.\<close>

definition redis_at :: "int \<Rightarrow> redis_env" where
  "redis_at t = \<lparr>re_client = True, re_fault = (\<lambda>_. None), re_clock = t\<rparr>"

text \<open>A run of calls of \<open>Allow\<close>, each for a key at a time, with what was allowed.\<close>

fun limiter_run :: "rateLimitService \<Rightarrow> (string \<times> int) list \<Rightarrow> buckets \<Rightarrow> bool list \<times> buckets" where
  "limiter_run u [] s = ([], s)"
| "limiter_run u ((key, t) # rs) s =
     (case rate_Allow u (redis_at t) t key s of
        (r, s') \<Rightarrow>
          (case limiter_run u rs s' of
             (as, s'') \<Rightarrow> ((case r of Inl _ \<Rightarrow> False | Inr x \<Rightarrow> rl_Allowed x) # as, s'')))"

definition allowed_of :: "string \<Rightarrow> (string \<times> int) list \<Rightarrow> bool list \<Rightarrow> nat" where
  "allowed_of key rs as = length (filter (\<lambda>((k, _), a). k = key \<and> a) (zip rs as))"

lemma rate_Allow_default:
  "rate_Allow NewRateLimitUsecase (redis_at t) t key s =
     (case tokenBucketScript t (''rate:'' @ key) 5 20 1 t s of
        ((al, x, ms), s') \<Rightarrow> (Inr \<lparr>rl_Allowed = (al = 1), rl_Tokens = x, rl_RetryAfterMS = ms\<rparr>, s'))"
  by (simp add: rate_Allow_def bucket_Allow_def redis_at_def NewRateLimitUsecase_def Let_def
      split: prod.split)

text \<open>The same run with the keys Redis sees.\<close>

definition prefixed :: "(string \<times> int) list \<Rightarrow> (string \<times> int) list" where
  "prefixed rs = map (\<lambda>(k, t). (''rate:'' @ k, t)) rs"

lemma prefixed_simps [simp]:
  "map snd (prefixed rs) = map snd rs" "prefixed rs = [] \<longleftrightarrow> rs = []"
  "rs \<noteq> [] \<Longrightarrow> snd (last (prefixed rs)) = snd (last rs)"
  "rs \<noteq> [] \<Longrightarrow> snd (hd (prefixed rs)) = snd (hd rs)"
  by (auto simp: prefixed_def last_map hd_map split: prod.split)

lemma limiter_run_default:
  "limiter_run NewRateLimitUsecase rs s = default_limit.run (prefixed rs) s"
  unfolding prefixed_def
  by (induction rs arbitrary: s) (auto simp: rate_Allow_default split: prod.splits)

lemma allowed_of_run:
  "allowed_of key rs as = default_limit.admitted (''rate:'' @ key) (prefixed rs) as"
  unfolding allowed_of_def prefixed_def
proof (induction rs arbitrary: as)
  case (Cons r rs)
  then show ?case by (cases as) (auto split: prod.splits)
qed simp

text \<open>
  C14. Whatever requests come, in the order of time, the default limiter admits for one key at
  most 20 of them plus five for every second of any stretch, also when the key expires in
  between.
\<close>

theorem limiter_window_bound:
  assumes "sorted (map snd (xs @ ys))" "ys \<noteq> []"
    and "limiter_run NewRateLimitUsecase xs Map.empty = (as, s)"
    and "limiter_run NewRateLimitUsecase ys s = (bs, s')"
  shows "1000 * int (allowed_of key ys bs) \<le> 20000 + 5 * (snd (last ys) - snd (hd ys))"
proof -
  have "sorted (map snd (prefixed xs @ prefixed ys))" "prefixed ys \<noteq> []"
    using assms(1,2) by simp_all
  from default_limit.window [OF this] assms(3,4) have
    "1 * of_nat (allowed_of key ys bs)
      \<le> 20 + of_int (snd (last (prefixed ys)) - snd (hd (prefixed ys))) / 1000 * (5 :: rat)"
    unfolding limiter_run_default allowed_of_run by blast
  with assms(2) have "(of_int (1000 * int (allowed_of key ys bs)) :: rat)
      \<le> of_int (20000 + 5 * (snd (last ys) - snd (hd ys)))" by (simp add: field_simps)
  then show ?thesis by (simp only: of_int_le_iff)
qed

theorem limiter_window_bound_witness:
  "\<exists>bs s'. limiter_run NewRateLimitUsecase (replicate 3 (''ann'', 7)) Map.empty = (bs, s')
     \<and> bs = [True, True, True]
     \<and> 1000 * int (allowed_of ''ann'' (replicate 3 (''ann'', 7)) bs) \<le> 20000"
proof -
  let ?rs = "replicate 3 (''ann'', 7 :: int)"
  have "fst (limiter_run NewRateLimitUsecase ?rs Map.empty) = [True, True, True]" by code_simp
  then obtain s' where run: "limiter_run NewRateLimitUsecase ?rs Map.empty = ([True, True, True], s')"
    by (metis prod.collapse)
  have times: "sorted (map snd ([] @ ?rs))" "?rs \<noteq> []" "snd (last ?rs) = 7" "snd (hd ?rs) = 7"
    by (simp_all add: numeral_3_eq_3)
  from limiter_window_bound [OF times(1,2) limiter_run.simps(1) run, of "''ann''"] run times(3,4)
  show ?thesis by (metis add_0_right cancel_comm_monoid_add_class.diff_cancel mult_zero_right)
qed



end
