(* ===== verification/Audit_Log.thy ===== *)
theory Audit_Log
  imports Observability Http_Api Rate_Limit
begin

text \<open>
  The audit log: an entry (\<open>backend/auditlog/entry.go\<close>), what the handlers put into the context of
  a request for it (\<open>backend/controller\<close>), and the middlewares that log and measure a request
  (\<open>backend/middleware/audit_log_middleware.go\<close>, \<open>metrics_middleware.go\<close>). An audited handler
  observes the handler of \<open>Http_Api\<close>: it gives the same answer and does the same to the store.
\<close>

subsection \<open>Entries\<close>

datatype audit_value = Null | Text string | Number int

type_synonym audit_entry = "string \<rightharpoonup> audit_value"

text \<open>\<open>t.UTC().Format(time.RFC3339Nano)\<close>: the fraction without its last zeros.\<close>

definition format_RFC3339Nano :: "time \<Rightarrow> string" where
  "format_RFC3339Nano t =
     (let ns = nat (t mod Second);
          frac = rev (dropWhile (\<lambda>c. c = CHR ''0'') (rev (pad 9 ns)))
      in butlast (format_RFC3339 t) @ (if ns = 0 then [] else CHR ''.'' # frac) @ ''Z'')"

definition text_or_null :: "string option \<Rightarrow> audit_value" where
  "text_or_null v = (case v of None \<Rightarrow> Null | Some s \<Rightarrow> Text s)"

definition number_or_null :: "int option \<Rightarrow> audit_value" where
  "number_or_null v = (case v of None \<Rightarrow> Null | Some n \<Rightarrow> Number n)"

definition BuildEntry ::
    "time \<Rightarrow> string \<Rightarrow> string \<Rightarrow> string \<Rightarrow> string option \<Rightarrow> string option \<Rightarrow> string \<Rightarrow> string \<Rightarrow> string \<Rightarrow>
       int option \<Rightarrow> int option \<Rightarrow> int \<Rightarrow> string \<Rightarrow> string \<Rightarrow> (string \<times> audit_value) list \<Rightarrow> audit_entry" where
  "BuildEntry ts reqID actionID roomID sessionID gameSessionID userID actorType requestType
      sessionVersionBefore sessionVersionAfter latencyMs result errorCode extra =
     [''timestamp'' \<mapsto> Text (format_RFC3339Nano ts),
      ''level'' \<mapsto> Text ''INFO'',
      ''request_id'' \<mapsto> Text reqID,
      ''action_id'' \<mapsto> Text actionID,
      ''room_id'' \<mapsto> Text roomID,
      ''session_id'' \<mapsto> text_or_null sessionID,
      ''game_session_id'' \<mapsto> text_or_null gameSessionID,
      ''user_id'' \<mapsto> Text userID,
      ''actor_type'' \<mapsto> Text actorType,
      ''request_type'' \<mapsto> Text requestType,
      ''session_version_before'' \<mapsto> number_or_null sessionVersionBefore,
      ''session_version_after'' \<mapsto> number_or_null sessionVersionAfter,
      ''latency_ms'' \<mapsto> Number latencyMs,
      ''result'' \<mapsto> Text result,
      ''error_code'' \<mapsto> Text errorCode] ++ map_of extra"

lemma BuildEntry_lookup [simp]:
  fixes ts r a i s g u k q b v l res code extra
  defines "entry \<equiv> BuildEntry ts r a i s g u k q b v l res code extra"
  shows "map_of extra ''request_id'' = None \<Longrightarrow> entry ''request_id'' = Some (Text r)"
    "map_of extra ''action_id'' = None \<Longrightarrow> entry ''action_id'' = Some (Text a)"
    "map_of extra ''room_id'' = None \<Longrightarrow> entry ''room_id'' = Some (Text i)"
    "map_of extra ''session_id'' = None \<Longrightarrow> entry ''session_id'' = Some (text_or_null s)"
    "map_of extra ''game_session_id'' = None \<Longrightarrow> entry ''game_session_id'' = Some (text_or_null g)"
    "map_of extra ''user_id'' = None \<Longrightarrow> entry ''user_id'' = Some (Text u)"
    "map_of extra ''request_type'' = None \<Longrightarrow> entry ''request_type'' = Some (Text q)"
    "map_of extra ''session_version_before'' = None \<Longrightarrow> entry ''session_version_before'' = Some (number_or_null b)"
    "map_of extra ''session_version_after'' = None \<Longrightarrow> entry ''session_version_after'' = Some (number_or_null v)"
    "map_of extra ''result'' = None \<Longrightarrow> entry ''result'' = Some (Text res)"
    "map_of extra ''error_code'' = None \<Longrightarrow> entry ''error_code'' = Some (Text code)"
    "map_of extra key = Some x \<Longrightarrow> entry key = Some x"
  by (simp_all add: entry_def BuildEntry_def map_add_def)

lemma text_or_null_simps [simp]:
  "text_or_null None = Null" "text_or_null (Some s) = Text s"
  "number_or_null None = Null" "number_or_null (Some n) = Number n"
  by (simp_all add: text_or_null_def number_or_null_def)

text \<open>\<open>http.StatusText\<close>.\<close>

definition StatusText :: "nat \<Rightarrow> string" where
  "StatusText code =
     (case map_of
        [(100, ''Continue''), (101, ''Switching Protocols''), (102, ''Processing''), (103, ''Early Hints''),
         (200, ''OK''), (201, ''Created''), (202, ''Accepted''), (203, ''Non-Authoritative Information''),
         (204, ''No Content''), (205, ''Reset Content''), (206, ''Partial Content''), (207, ''Multi-Status''),
         (208, ''Already Reported''), (226, ''IM Used''),
         (300, ''Multiple Choices''), (301, ''Moved Permanently''), (302, ''Found''), (303, ''See Other''),
         (304, ''Not Modified''), (305, ''Use Proxy''), (307, ''Temporary Redirect''), (308, ''Permanent Redirect''),
         (400, ''Bad Request''), (401, ''Unauthorized''), (402, ''Payment Required''), (403, ''Forbidden''),
         (404, ''Not Found''), (405, ''Method Not Allowed''), (406, ''Not Acceptable''),
         (407, ''Proxy Authentication Required''), (408, ''Request Timeout''), (409, ''Conflict''), (410, ''Gone''),
         (411, ''Length Required''), (412, ''Precondition Failed''), (413, ''Request Entity Too Large''),
         (414, ''Request URI Too Long''), (415, ''Unsupported Media Type''),
         (416, ''Requested Range Not Satisfiable''), (417, ''Expectation Failed''), (418, [CHR ''I'', CHR 0x27] @ ''m a teapot''),
         (421, ''Misdirected Request''), (422, ''Unprocessable Entity''), (423, ''Locked''),
         (424, ''Failed Dependency''), (425, ''Too Early''), (426, ''Upgrade Required''),
         (428, ''Precondition Required''), (429, ''Too Many Requests''),
         (431, ''Request Header Fields Too Large''), (451, ''Unavailable For Legal Reasons''),
         (500, ''Internal Server Error''), (501, ''Not Implemented''), (502, ''Bad Gateway''),
         (503, ''Service Unavailable''), (504, ''Gateway Timeout''), (505, ''HTTP Version Not Supported''),
         (506, ''Variant Also Negotiates''), (507, ''Insufficient Storage''), (508, ''Loop Detected''),
         (510, ''Not Extended''), (511, ''Network Authentication Required'')] code of
      None \<Rightarrow> [] | Some s \<Rightarrow> s)"

subsection \<open>The context of a request\<close>

text \<open>The keys of \<open>echo.Context\<close> that the middlewares and handlers set, empty when they are not.\<close>

record echo_context =
  cx_RequestID :: string
  cx_ActionID :: string
  cx_UserID :: string
  cx_SessionID :: "string option"
  cx_VersionBefore :: "int option"
  cx_VersionAfter :: "int option"
  cx_GameSessionID :: "string option"
  cx_Extra :: "(string \<times> audit_value) list"

definition empty_context :: echo_context where
  "empty_context = \<lparr>cx_RequestID = [], cx_ActionID = [], cx_UserID = [], cx_SessionID = None,
     cx_VersionBefore = None, cx_VersionAfter = None, cx_GameSessionID = None, cx_Extra = []\<rparr>"

text \<open>Beside the context: the \<open>X-Request-Id\<close> of the answer, the calls of the metrics, the lines.\<close>

record telemetry =
  tl_context :: echo_context
  tl_ResponseID :: string
  tl_calls :: metrics
  tl_log :: "audit_entry list"

definition empty_telemetry :: telemetry where
  "empty_telemetry = \<lparr>tl_context = empty_context, tl_ResponseID = [], tl_calls = [], tl_log = []\<rparr>"

abbreviation in_context :: "(echo_context \<Rightarrow> echo_context) \<Rightarrow> (telemetry, unit) observed" where
  "in_context f \<equiv> onote (\<lambda>t. t\<lparr>tl_context := f (tl_context t)\<rparr>)"

abbreviation metered :: "(metrics \<Rightarrow> metrics) \<Rightarrow> (telemetry, unit) observed" where
  "metered f \<equiv> onote (\<lambda>t. t\<lparr>tl_calls := f (tl_calls t)\<rparr>)"

abbreviation logged :: "(echo_context \<Rightarrow> audit_entry) \<Rightarrow> (telemetry, unit) observed" where
  "logged f \<equiv> onote (\<lambda>t. t\<lparr>tl_log := tl_log t @ [f (tl_context t)]\<rparr>)"

definition SetAuditSessionVersions :: "int option \<Rightarrow> int option \<Rightarrow> echo_context \<Rightarrow> echo_context" where
  "SetAuditSessionVersions before after c = c\<lparr>cx_VersionBefore := before, cx_VersionAfter := after\<rparr>"

definition SetAuditGameSessionID :: "string option \<Rightarrow> echo_context \<Rightarrow> echo_context" where
  "SetAuditGameSessionID i c = c\<lparr>cx_GameSessionID := i\<rparr>"

definition SetAuditExtra :: "(string \<times> audit_value) list \<Rightarrow> echo_context \<Rightarrow> echo_context" where
  "SetAuditExtra extra c = (if extra = [] then c else c\<lparr>cx_Extra := extra\<rparr>)"

definition set_action_id :: "string \<Rightarrow> echo_context \<Rightarrow> echo_context" where
  "set_action_id i c = c\<lparr>cx_ActionID := i\<rparr>"

definition setAuditGameSessionID :: "GameSession \<Rightarrow> echo_context \<Rightarrow> echo_context" where
  "setAuditGameSessionID sess = SetAuditGameSessionID (Some (sess_ID sess))"

subsection \<open>Audited handlers\<close>

text \<open>\<open>if err != nil \{ ...; return \}\<close> around a call, where both branches may set the context.\<close>

definition handle_audited ::
    "'a prog \<Rightarrow> (error \<Rightarrow> (telemetry, reply) observed) \<Rightarrow> ('a \<Rightarrow> (telemetry, reply) observed) \<Rightarrow>
       (telemetry, reply) observed" where
  "handle_audited call on_error on_success =
     obind (oact (attempt call)) (\<lambda>r. case r of Inl err \<Rightarrow> on_error err | Inr x \<Rightarrow> on_success x)"

text \<open>What \<open>turnAction\<close> and \<open>RematchVote\<close> do with the result of the use case.\<close>

definition mutation_audited ::
    "RoomController \<Rightarrow> string \<Rightarrow> string \<Rightarrow> int \<Rightarrow> (Room \<times> GameSession) prog \<Rightarrow> (telemetry, reply) observed" where
  "mutation_audited r invalidInputMessage invalidStateDefault expectedVersion call =
     handle_audited call
       (\<lambda>err.
         obind (in_context (SetAuditSessionVersions (Some expectedVersion) (Some expectedVersion))) (\<lambda>_.
         obind (metered (count_error err)) (\<lambda>_.
         oret (writeTurnMutationError r err invalidInputMessage invalidStateDefault, None))))
       (\<lambda>(room, sess).
         obind (in_context (SetAuditSessionVersions (Some expectedVersion) (Some (sess_Version sess)))) (\<lambda>_.
         obind (in_context (setAuditGameSessionID sess)) (\<lambda>_.
         oret (ok_with 200 (TurnActionData (roomDetailJSON room) (session_body sess)),
               Some (room_ID room)))))"

definition turnAction_audited ::
    "RoomController \<Rightarrow> bool \<Rightarrow> string \<Rightarrow> string \<Rightarrow> TurnActionRequest option \<Rightarrow> (telemetry, reply) observed" where
  "turnAction_audited r hit userID roomID body =
     (case body of
        None \<Rightarrow> oret (fail_with 400 ''invalid_input'' ''expected_version is required'', None)
      | Some req \<Rightarrow>
          if ta_ExpectedVersion req \<le> 0
          then oret (fail_with 400 ''invalid_input'' ''expected_version is required'', None)
          else if ta_ActionID req = []
          then oret (fail_with 400 ''invalid_input'' ''action_id is required'', None)
          else
            obind (in_context (set_action_id (ta_ActionID req))) (\<lambda>_.
            mutation_audited r ''room id and expected_version are required'' [] (ta_ExpectedVersion req)
              (if hit then Hit (rc_room r) roomID userID (ta_ExpectedVersion req) (ta_ActionID req)
               else Stand (rc_room r) roomID userID (ta_ExpectedVersion req) (ta_ActionID req))))"

definition RematchVote_audited ::
    "RoomController \<Rightarrow> string \<Rightarrow> string \<Rightarrow> RematchVoteRequest option \<Rightarrow> (telemetry, reply) observed" where
  "RematchVote_audited r userID roomID body =
     (let refused = (fail_with 400 ''invalid_input'' ''agree, action_id, expected_version are required'', None)
      in case body of
        None \<Rightarrow> oret refused
      | Some req \<Rightarrow>
          if rq_ActionID req = [] \<or> rq_ExpectedVersion req \<le> 0 then oret refused
          else
            obind (in_context (set_action_id (rq_ActionID req))) (\<lambda>_.
            mutation_audited r ''invalid rematch vote payload'' ''rematch voting is unavailable''
              (rq_ExpectedVersion req)
              (VoteRematch (rc_room r) roomID userID (rq_Agree req) (rq_ExpectedVersion req)
                (rq_ActionID req))))"

definition StartRoom_audited :: "RoomController \<Rightarrow> string \<Rightarrow> string \<Rightarrow> (telemetry, reply) observed" where
  "StartRoom_audited r userID roomID =
     handle_audited (StartRoom (rc_room r) roomID userID) (\<lambda>err. oret (start_error r err, None))
       (\<lambda>(room, sess).
         obind (in_context (SetAuditSessionVersions None (Some (sess_Version sess)))) (\<lambda>_.
         obind (in_context (setAuditGameSessionID sess)) (\<lambda>_.
         oret (ok_with 200 (StartRoomData (roomDetailJSON room) (session_body sess)),
               Some (room_ID room)))))"

definition JoinRoom_audited :: "RoomController \<Rightarrow> string \<Rightarrow> string \<Rightarrow> (telemetry, reply) observed" where
  "JoinRoom_audited r userID roomID =
     handle_audited (JoinRoom roomID userID) (\<lambda>err. oret (join_error r err, None))
       (\<lambda>room.
         obind (case room_CurrentSessionID room of
                  None \<Rightarrow> oret ()
                | Some sid \<Rightarrow> in_context (SetAuditGameSessionID (Some sid))) (\<lambda>_.
         oret (ok_with 200 (CreateRoomData (roomDetailJSON room)), Some (room_ID room))))"

definition LeaveRoom_audited :: "RoomController \<Rightarrow> string \<Rightarrow> string \<Rightarrow> (telemetry, reply) observed" where
  "LeaveRoom_audited r userID roomID =
     handle_audited (LeaveRoom roomID userID) (\<lambda>err. oret (leave_error r err, None))
       (\<lambda>(room, transfer).
         obind (case transfer of
                  None \<Rightarrow> oret ()
                | Some t \<Rightarrow>
                    in_context (SetAuditExtra
                      [(''audit_event'', Text ''HOST_TRANSFER''),
                       (''previous_host_user_id'', Text (ht_PreviousHostUserID t)),
                       (''new_host_user_id'', Text (ht_NewHostUserID t))])) (\<lambda>_.
         oret (ok_with 200 (CreateRoomData (roomDetailJSON room)), Some (room_ID room))))"

definition GetRoom_audited :: "RoomController \<Rightarrow> string \<Rightarrow> string \<Rightarrow> (telemetry, reply) observed" where
  "GetRoom_audited r userID roomID =
     handle_audited (GetRoom_uc roomID userID) (\<lambda>err. oret (room_error r ''room access denied'' err, None))
       (\<lambda>(room, sess).
         obind (case sess of
                  None \<Rightarrow> oret ()
                | Some s \<Rightarrow> in_context (setAuditGameSessionID s)) (\<lambda>_.
         oret (ok_with 200 (GetRoomData (roomDetailJSON room) (map_option session_body sess)), None)))"

text \<open>The other handlers set nothing.\<close>

fun api_audited :: "RoomController \<Rightarrow> api_request \<Rightarrow> string \<Rightarrow> (telemetry, reply) observed" where
  "api_audited r (Api_JoinRoom i) userID = JoinRoom_audited r userID i"
| "api_audited r (Api_LeaveRoom i) userID = LeaveRoom_audited r userID i"
| "api_audited r (Api_GetRoom i) userID = GetRoom_audited r userID i"
| "api_audited r (Api_Start i) userID = StartRoom_audited r userID i"
| "api_audited r (Api_Hit i body) userID = turnAction_audited r True userID i body"
| "api_audited r (Api_Stand i body) userID = turnAction_audited r False userID i body"
| "api_audited r req userID = oact (api_handler r req userID)"

lemma observes_handle [observes_intros]:
  assumes "\<And>err. observes (f err) (ret (on_error err, None))" "\<And>x. observes (g x) (ret (on_success x))"
  shows "observes (handle_audited call f g) (handle call on_error on_success)"
proof -
  have "handle call on_error on_success =
      bind (attempt call) (\<lambda>r. case r of Inl err \<Rightarrow> ret (on_error err, None) | Inr x \<Rightarrow> ret (on_success x))"
    by (simp add: handle_def fun_eq_iff bind_def split: prod.split sum.split)
  then show ?thesis unfolding handle_audited_def by (auto intro!: observes_intros assms)
qed

lemma observes_mutation [observes_intros]:
  "observes (mutation_audited r m m' v call)
     (handle call (\<lambda>err. writeTurnMutationError r err m m')
       (\<lambda>(room, sess). (ok_with 200 (TurnActionData (roomDetailJSON room) (session_body sess)),
          Some (room_ID room))))"
  unfolding mutation_audited_def by (intro observes_intros) (auto intro!: observes_intros)

lemma observes_option_note [observes_intros]:
  "observes (obind (case oc of None \<Rightarrow> oret () | Some x \<Rightarrow> onote (f x)) (\<lambda>_. oret y)) (ret y)"
  by (cases oc) (auto intro: observes_intros simp: observes_def obind_def oret_def onote_def bind_def ret_def)

theorem audited_is_the_handler: "observes (api_audited r req userID) (api_handler r req userID)"
  by (cases req)
    (auto simp: handler_defs JoinRoom_audited_def LeaveRoom_audited_def GetRoom_audited_def
      StartRoom_audited_def turnAction_audited_def intro!: observes_intros)

subsection \<open>Middlewares\<close>

record http_request =
  hq_Method :: string
  hq_Path :: string \<comment> \<open>the pattern of the route, \<open>c.Path()\<close>\<close>
  hq_Param_id :: string
  hq_Authorization :: string
  hq_CsrfCookie :: "string option"
  hq_CsrfHeader :: string
  hq_RequestID :: string \<comment> \<open>the header \<open>X-Request-Id\<close>\<close>
  hq_ActionID :: string \<comment> \<open>the header \<open>X-Action-Id\<close>\<close>

definition RequestIDMiddleware ::
    "http_request \<Rightarrow> (telemetry, 'a) observed \<Rightarrow> (telemetry, 'a) observed" where
  "RequestIDMiddleware rq next =
     obind (if hq_RequestID rq = [] then oact io_uuid else oret (hq_RequestID rq)) (\<lambda>reqID.
     obind (in_context (\<lambda>c. c\<lparr>cx_RequestID := reqID\<rparr>)) (\<lambda>_.
     obind (onote (\<lambda>t. t\<lparr>tl_ResponseID := reqID\<rparr>)) (\<lambda>_.
     next)))"

text \<open>\<open>c.Response().Status\<close>, where nothing written counts as 200; \<open>answer\<close> finds the response.\<close>

definition answered_status :: "Response \<Rightarrow> nat" where
  "answered_status resp = (if rs_status resp = 0 then 200 else rs_status resp)"

definition HTTPTelemetryMiddleware ::
    "http_request \<Rightarrow> ('a \<Rightarrow> Response) \<Rightarrow> (telemetry, 'a) observed \<Rightarrow> (telemetry, 'a) observed" where
  "HTTPTelemetryMiddleware rq answer next =
     obind (oact io_now) (\<lambda>start.
     obind next (\<lambda>x.
     obind (oact io_now) (\<lambda>finished.
     obind (metered (ObserveHTTPRequest (hq_Method rq) (hq_Path rq) (answered_status (answer x))
         (Seconds (finished - start)))) (\<lambda>_.
     oret x))))"

definition resolveActionID :: "http_request \<Rightarrow> echo_context \<Rightarrow> string" where
  "resolveActionID rq c = (if cx_ActionID c \<noteq> [] then cx_ActionID c else hq_ActionID rq)"

text \<open>\<open>d.Milliseconds()\<close>, cut towards zero.\<close>

definition Milliseconds :: "time \<Rightarrow> int" where
  "Milliseconds d = (if 0 \<le> d then d div Millisecond else - (- d div Millisecond))"

text \<open>\<open>broken\<close>: the handler gives echo an error, as when its answer cannot be written.\<close>

definition audit_entry_of ::
    "http_request \<Rightarrow> bool \<Rightarrow> time \<Rightarrow> time \<Rightarrow> Response \<Rightarrow> echo_context \<Rightarrow> audit_entry" where
  "audit_entry_of rq broken start finished resp c =
     (let latency = Milliseconds (finished - start);
          status = answered_status resp;
          (result, errorCode) =
            (if status \<ge> 400 \<or> broken then (''failure'', StatusText status) else (''success'', []))
      in BuildEntry start (cx_RequestID c) (resolveActionID rq c) (hq_Param_id rq) (cx_SessionID c)
           (cx_GameSessionID c) (cx_UserID c) ''USER'' (hq_Method rq @ '' '' @ hq_Path rq)
           (cx_VersionBefore c) (cx_VersionAfter c) latency result errorCode (cx_Extra c))"

definition AuditLogMiddleware ::
    "http_request \<Rightarrow> bool \<Rightarrow> ('a \<Rightarrow> Response) \<Rightarrow> (telemetry, 'a) observed \<Rightarrow> (telemetry, 'a) observed" where
  "AuditLogMiddleware rq broken answer next =
     obind (oact io_now) (\<lambda>start.
     obind next (\<lambda>x.
     obind (oact io_now) (\<lambda>finished.
     obind (logged (audit_entry_of rq broken start finished (answer x))) (\<lambda>_.
     oret x))))"

end
