(* ===== verification/Http_Access.thy ===== *)
theory Http_Access
  imports Audit_Log
begin

text \<open>
  What stands before a handler (\<open>backend/router/game_router.go\<close>): the telemetry, the request id,
  the authentication (\<open>backend/middleware/auth_middleware.go\<close>, around the echo-jwt package), the
  rate limit (\<open>rate_limit_middleware.go\<close>), the CSRF check (\<open>csrf_middleware.go\<close>) and the audit log,
  in the order of the router. How echo-jwt takes the token out of the header is a parameter; what
  the code relies on is \<open>extract_documented\<close>.
\<close>

subsection \<open>Authentication\<close>

definition skipJWTAuth :: "string \<Rightarrow> bool" where
  "skipJWTAuth p \<longleftrightarrow> p \<in> {''/api/auth/login'', ''/api/auth/signup''}
     \<or> p \<in> {''/ws/rooms/:id'', ''/api/ws/rooms/:id''}"

text \<open>The claims of the token, when there was one to check, go into the context.\<close>

definition setAuthContextFromToken :: "jwt_claims option \<Rightarrow> echo_context \<Rightarrow> echo_context" where
  "setAuthContextFromToken token c =
     (case token of
        None \<Rightarrow> c
      | Some claims \<Rightarrow>
          if cl_Subject claims = [] then c
          else
            let c = c\<lparr>cx_UserID := cl_Subject claims\<rparr> in
            if cl_ID claims \<noteq> [] then c\<lparr>cx_SessionID := Some (cl_ID claims)\<rparr> else c)"

definition AuthMiddleware ::
    "(string \<Rightarrow> string option) \<Rightarrow> auth_lib \<Rightarrow> string \<Rightarrow> time \<Rightarrow> http_request \<Rightarrow>
       Response + jwt_claims option" where
  "AuthMiddleware extract lib secret now rq =
     (if skipJWTAuth (hq_Path rq) then Inr None
      else
        case (case extract (hq_Authorization rq) of
                None \<Rightarrow> None | Some tok \<Rightarrow> al_parse lib secret now 0 tok) of
          None \<Rightarrow>
            Inl (if hq_Authorization rq = [] then fail_with 401 ''unauthorized'' ''login required''
                 else fail_with 401 ''unauthorized'' ''invalid or expired token'')
        | Some claims \<Rightarrow> Inr (Some claims))"

text \<open>\<open>c.Get("user_id")\<close>, empty when it is not set.\<close>

definition user_of :: "jwt_claims option \<Rightarrow> string" where
  "user_of token = cx_UserID (setAuthContextFromToken token empty_context)"

lemma user_of_simps [simp]: "user_of None = []" "user_of (Some claims) = cl_Subject claims"
  by (simp_all add: user_of_def setAuthContextFromToken_def empty_context_def Let_def)

subsection \<open>Rate limit\<close>

text \<open>\<open>t.UnixMilli()\<close>: the milliseconds since 1970, where \<open>time\<close> counts from year 1.\<close>

definition UnixMilli :: "time \<Rightarrow> int" where
  "UnixMilli t = (t - 62135596800 * Second) div Millisecond"

definition RateLimitMiddleware ::
    "(string \<Rightarrow> string) \<Rightarrow> rateLimitService option \<Rightarrow> redis_env \<Rightarrow> time \<Rightarrow> string \<Rightarrow> buckets \<Rightarrow>
       Response option \<times> buckets" where
  "RateLimitMiddleware pg limiter e now userID s =
     (case limiter of
        None \<Rightarrow> (None, s)
      | Some u \<Rightarrow>
          if userID = [] then (None, s)
          else
            case rate_Allow u e (UnixMilli now) (''http:'' @ userID) s of
              (Inl err, s') \<Rightarrow> (Some (fail_with 500 ''internal_error'' (error_text pg err)), s')
            | (Inr result, s') \<Rightarrow>
                (if \<not> rl_Allowed result then
                   Some ((fail_with 429 ''rate_limited'' ''too many requests'')
                     \<lparr>rs_RetryAfterMs := Some (rl_RetryAfterMS result)\<rparr>)
                 else None, s'))"

subsection \<open>CSRF\<close>

definition equal_fold :: "string \<Rightarrow> string \<Rightarrow> bool" where
  "equal_fold a b \<longleftrightarrow> map ascii_lower a = map ascii_lower b"

definition hasBearerAuth :: "http_request \<Rightarrow> bool" where
  "hasBearerAuth rq =
     (let h = hq_Authorization rq; prefix = ''Bearer '' in
      length h \<ge> length prefix \<and> equal_fold (take (length prefix) h) prefix
        \<and> TrimSpace (drop (length prefix) h) \<noteq> [])"

definition needsCSRF :: "http_request \<Rightarrow> bool" where
  "needsCSRF rq =
     (if hq_Method rq \<notin> {''POST'', ''PUT'', ''PATCH'', ''DELETE''} then False
      else if hq_Path rq = ''/api/auth/login'' \<or> hq_Path rq = ''/api/auth/signup'' then False
      else True)"

definition CSRFMiddleware :: "http_request \<Rightarrow> Response option" where
  "CSRFMiddleware rq =
     (if \<not> needsCSRF rq then None
      else if hasBearerAuth rq then None
      else
        case hq_CsrfCookie rq of
          None \<Rightarrow> Some (fail_with 403 ''csrf_invalid'' ''csrf token is required'')
        | Some ck \<Rightarrow>
            if ck = [] then Some (fail_with 403 ''csrf_invalid'' ''csrf token is required'')
            else if hq_CsrfHeader rq = [] \<or> hq_CsrfHeader rq \<noteq> ck
            then Some (fail_with 403 ''csrf_invalid'' ''csrf token mismatch'')
            else None)"

subsection \<open>The chain\<close>

record api_config =
  ac_extract :: "string \<Rightarrow> string option"
  ac_auth :: auth_lib
  ac_secret :: string
  ac_limiter :: "rateLimitService option"
  ac_pg_text :: "string \<Rightarrow> string"

text \<open>A handler runs with the user of the context only when every check lets the request pass.\<close>

definition checked ::
    "api_config \<Rightarrow> redis_env \<Rightarrow> http_request \<Rightarrow> (string \<Rightarrow> (telemetry, reply) observed) \<Rightarrow> buckets \<Rightarrow>
       (telemetry, reply \<times> buckets) observed" where
  "checked cfg re rq handler s =
     obind (oact io_now) (\<lambda>now.
     case AuthMiddleware (ac_extract cfg) (ac_auth cfg) (ac_secret cfg) now rq of
       Inl resp \<Rightarrow> oret ((resp, None), s)
     | Inr token \<Rightarrow>
         obind (in_context (setAuthContextFromToken token)) (\<lambda>_.
         obind (oact io_now) (\<lambda>now.
         case RateLimitMiddleware (ac_pg_text cfg) (ac_limiter cfg) re now (user_of token) s of
           (Some resp, s) \<Rightarrow> oret ((resp, None), s)
         | (None, s) \<Rightarrow>
             case CSRFMiddleware rq of
               Some resp \<Rightarrow> oret ((resp, None), s)
             | None \<Rightarrow> obind (handler (user_of token)) (\<lambda>reply. oret (reply, s)))))"

definition api_group ::
    "api_config \<Rightarrow> redis_env \<Rightarrow> http_request \<Rightarrow> bool \<Rightarrow> (string \<Rightarrow> (telemetry, reply) observed) \<Rightarrow> buckets \<Rightarrow>
       (telemetry, reply \<times> buckets) observed" where
  "api_group cfg re rq broken handler s =
     HTTPTelemetryMiddleware rq (fst \<circ> fst)
      (RequestIDMiddleware rq
       (checked cfg re rq (\<lambda>userID. AuditLogMiddleware rq broken fst (handler userID)) s))"

subsection \<open>Properties\<close>

text \<open>
  echo-jwt looks for the scheme \<open>Bearer\<close>, in any case, and takes what follows it; a blank string is
  no token.
\<close>

definition extract_documented :: "(string \<Rightarrow> string option) \<Rightarrow> bool" where
  "extract_documented extract \<longleftrightarrow>
     (\<forall>h tok. extract h = Some tok \<longrightarrow>
        7 \<le> length h \<and> equal_fold (take 7 h) ''Bearer '' \<and> tok = drop 7 h)"

definition blank_refused :: "auth_lib \<Rightarrow> bool" where
  "blank_refused lib \<longleftrightarrow> (\<forall>secret t leeway tok. TrimSpace tok = [] \<longrightarrow> al_parse lib secret t leeway tok = None)"

text \<open>A token reader and a library as documented, and a request with a token, for the instances.\<close>

definition bearer_token :: "string \<Rightarrow> string option" where
  "bearer_token h =
     (if 7 \<le> length h \<and> equal_fold (take 7 h) ''Bearer '' then Some (drop 7 h) else None)"

lemma bearer_token_documented: "extract_documented bearer_token"
  by (auto simp: extract_documented_def bearer_token_def split: if_splits)

definition strict_auth :: auth_lib where
  "strict_auth = reference_auth
     \<lparr>al_parse := (\<lambda>secret t leeway tok.
        if TrimSpace tok = [] then None else al_parse reference_auth secret t leeway tok)\<rparr>"

lemma strict_auth_refuses: "blank_refused strict_auth"
  by (simp add: blank_refused_def strict_auth_def)

definition sample_claims :: jwt_claims where
  "sample_claims = \<lparr>cl_Subject = ''ann'', cl_ID = ''jti'', cl_IssuedAt = 0, cl_ExpiresAt = 60\<rparr>"

definition sample_request :: http_request where
  "sample_request = \<lparr>hq_Method = ''POST'', hq_Path = ''/api/rooms'', hq_Param_id = [],
     hq_Authorization = ''bearer '' @ sample_secret @ reference_token sample_claims,
     hq_CsrfCookie = None, hq_CsrfHeader = [], hq_RequestID = ''q1'', hq_ActionID = []\<rparr>"

lemma TrimSpace_Nil: "TrimSpace s = [] \<longleftrightarrow> list_all is_space s"
proof
  assume "TrimSpace s = []"
  then have "\<forall>x \<in> set (dropWhile is_space s). is_space x"
    by (simp add: TrimSpace_def dropWhile_eq_Nil_conv)
  then have "dropWhile is_space s = []" by (metis hd_dropWhile hd_in_set)
  then show "list_all is_space s" by (simp add: dropWhile_eq_Nil_conv list_all_iff)
qed (auto simp: TrimSpace_def dropWhile_eq_Nil_conv list_all_iff dest: set_dropWhileD)

lemma sample_token:
  "now < 60 \<Longrightarrow> \<not> skipJWTAuth p \<Longrightarrow>
   AuthMiddleware bearer_token strict_auth sample_secret now (sample_request\<lparr>hq_Path := p, hq_Param_id := i\<rparr>) =
     Inr (Some sample_claims)"
proof -
  have f: "equal_fold ''bearer '' ''Bearer ''" by code_simp
  have n: "\<not> is_space (CHR ''0'')" by code_simp
  assume "now < 60" "\<not> skipJWTAuth p"
  then show ?thesis
    using f n by (simp add: AuthMiddleware_def sample_request_def bearer_token_def strict_auth_def
        TrimSpace_Nil reference_auth_def sample_claims_def Let_def)
qed

lemma sample_authenticated:
  "AuthMiddleware bearer_token strict_auth sample_secret 0 sample_request = Inr (Some sample_claims)"
  "\<not> skipJWTAuth (hq_Path sample_request)"
proof -
  show p: "\<not> skipJWTAuth (hq_Path sample_request)" by (simp add: skipJWTAuth_def sample_request_def)
  from sample_token [OF _ p, of 0 "hq_Param_id sample_request"]
  show "AuthMiddleware bearer_token strict_auth sample_secret 0 sample_request = Inr (Some sample_claims)"
    by simp
qed

theorem csrf_spares_tokens:
  assumes "extract_documented extract" "blank_refused lib" "\<not> skipJWTAuth (hq_Path rq)"
    and "AuthMiddleware extract lib secret now rq = Inr token"
  shows "CSRFMiddleware rq = None"
proof -
  from assms(3,4) obtain tok claims where t: "extract (hq_Authorization rq) = Some tok"
    "al_parse lib secret now 0 tok = Some claims"
    by (auto simp: AuthMiddleware_def split: option.splits)
  then have "TrimSpace tok \<noteq> []" using assms(2) by (auto simp: blank_refused_def)
  moreover have "7 \<le> length (hq_Authorization rq)" "equal_fold (take 7 (hq_Authorization rq)) ''Bearer ''"
    "tok = drop 7 (hq_Authorization rq)"
    using assms(1) t(1) unfolding extract_documented_def by blast+
  ultimately have "hasBearerAuth rq" by (simp add: hasBearerAuth_def Let_def eval_nat_numeral)
  then show ?thesis by (simp add: CSRFMiddleware_def)
qed

theorem csrf_spares_tokens_witness:
  "needsCSRF sample_request \<and> CSRFMiddleware sample_request = None"
proof -
  have "CSRFMiddleware sample_request = None"
    by (rule csrf_spares_tokens [OF bearer_token_documented strict_auth_refuses
        sample_authenticated(2) sample_authenticated(1)])
  moreover have "needsCSRF sample_request" by (simp add: needsCSRF_def sample_request_def)
  ultimately show ?thesis by blast
qed

text \<open>A request goes through the checks, or stops at one of them.\<close>

lemma api_group_run:
  assumes "api_group cfg re rq broken handler s t e w = (Inr (Inr ((resp, room), s'), t'), w')"
  obtains t1 v m v' reqID where
    "checked cfg re rq (\<lambda>userID. AuditLogMiddleware rq broken fst (handler userID)) s t1 e v =
       (Inr (Inr ((resp, room), s'), t'\<lparr>tl_calls := m\<rparr>), v')"
    "w_db v = w_db w" "w_calls v = w_calls w + (if hq_RequestID rq = [] then 2 else 1)"
    "tl_log t1 = tl_log t" "tl_context t1 = (tl_context t)\<lparr>cx_RequestID := reqID\<rparr>" "w_db w' = w_db v'"
    "tl_calls t' = m @ [CounterInc ''blackjack_http_requests_total''
        [hq_Method rq, hq_Path rq, FormatInt (int (answered_status resp))],
      Observe ''blackjack_http_request_duration_seconds'' [hq_Method rq, hq_Path rq]
        (Seconds (env_now e (w_calls v') - env_now e (w_calls w)))]"
  using assms
  by (auto simp: api_group_def HTTPTelemetryMiddleware_def RequestIDMiddleware_def prog_elims
      ObserveHTTPRequest_def split: if_splits)

lemma refusals:
  "AuthMiddleware extract lib secret now rq = Inl resp \<Longrightarrow> rs_status resp = 401"
  "RateLimitMiddleware pg limiter re now user s = (Some resp, s') \<Longrightarrow> rs_status resp \<in> {429, 500}"
  "CSRFMiddleware rq = Some resp \<Longrightarrow> rs_status resp = 403"
  by (auto simp: AuthMiddleware_def RateLimitMiddleware_def CSRFMiddleware_def fail_with_def
      split: option.splits prod.splits sum.splits if_splits)

lemma checked_cases:
  assumes "checked cfg re rq h s t e w = (Inr (Inr ((resp, room), s'), t'), w')"
  obtains (Refused) "rs_status resp \<in> {401, 403, 429, 500}" "room = None" "w_db w' = w_db w" "tl_log t' = tl_log t"
  | (Through) token v where
      "AuthMiddleware (ac_extract cfg) (ac_auth cfg) (ac_secret cfg) (env_now e (w_calls w)) rq = Inr token"
      "w_db v = w_db w"
      "h (user_of token) (t\<lparr>tl_context := setAuthContextFromToken token (tl_context t)\<rparr>) e v =
        (Inr (Inr (resp, room), t'), w')"
proof (cases "AuthMiddleware (ac_extract cfg) (ac_auth cfg) (ac_secret cfg) (env_now e (w_calls w)) rq")
  case (Inl resp')
  with assms refusals(1) [OF Inl] show ?thesis by (auto simp: checked_def prog_elims intro: Refused)
next
  case (Inr token)
  obtain oresp s1 where l: "RateLimitMiddleware (ac_pg_text cfg) (ac_limiter cfg) re
      (env_now e (Suc (w_calls w))) (user_of token) s = (oresp, s1)" by fastforce
  show ?thesis
  proof (cases oresp)
    case (Some resp')
    with assms Inr l refusals(2) [OF l [unfolded Some]] show ?thesis
      by (auto simp: checked_def prog_elims intro: Refused)
  next
    case None
    show ?thesis
    proof (cases "CSRFMiddleware rq")
      case (Some resp')
      with assms Inr l None refusals(3) [OF Some] show ?thesis
        by (auto simp: checked_def prog_elims intro: Refused)
    next
      case c: None
      with assms Inr l None have "h (user_of token) (t\<lparr>tl_context := setAuthContextFromToken token (tl_context t)\<rparr>) e
          (w\<lparr>w_calls := Suc (Suc (w_calls w))\<rparr>) = (Inr (Inr (resp, room), t'), w')"
        by (auto simp: checked_def prog_elims)
      with Inr show ?thesis by - (rule Through, simp_all)
    qed
  qed
qed

text \<open>
  A request is refused and leaves no line in the audit log, or its handler runs for the user of its
  token and leaves one.
\<close>

lemma api_group_cases:
  assumes "api_group cfg re rq broken handler s t e w = (Inr (Inr ((resp, room), s'), t'), w')"
    and "\<not> skipJWTAuth (hq_Path rq)"
  obtains (Refused) "rs_status resp \<in> {401, 403, 429, 500}" "room = None" "w_db w' = w_db w" "tl_log t' = tl_log t"
  | (Handled) tok claims t1 v t2 v' start finished reqID where
      "ac_extract cfg (hq_Authorization rq) = Some tok"
      "al_parse (ac_auth cfg) (ac_secret cfg)
         (env_now e (w_calls w + (if hq_RequestID rq = [] then 2 else 1))) 0 tok = Some claims"
      "w_db v = w_db w" "handler (cl_Subject claims) t1 e v = (Inr (Inr (resp, room), t2), v')"
      "w_db w' = w_db v'" "tl_log t1 = tl_log t"
      "tl_context t1 = setAuthContextFromToken (Some claims) ((tl_context t)\<lparr>cx_RequestID := reqID\<rparr>)"
      "tl_log t' = tl_log t2 @ [audit_entry_of rq broken start finished resp (tl_context t2)]"
proof -
  obtain t1 v m v' reqID where
    c: "checked cfg re rq (\<lambda>userID. AuditLogMiddleware rq broken fst (handler userID)) s t1 e v =
      (Inr (Inr ((resp, room), s'), t'\<lparr>tl_calls := m\<rparr>), v')"
    and d: "w_db v = w_db w" "w_calls v = w_calls w + (if hq_RequestID rq = [] then 2 else 1)"
      "w_db w' = w_db v'" "tl_log t1 = tl_log t" "tl_context t1 = (tl_context t)\<lparr>cx_RequestID := reqID\<rparr>"
    by (rule api_group_run [OF assms(1)])
  from c show thesis
  proof (cases rule: checked_cases)
    case Refused
    show thesis by (rule that(1)) (use Refused d in simp_all)
  next
    case (Through token u)
    from Through(1) assms(2) obtain tok claims where k: "token = Some claims"
      "ac_extract cfg (hq_Authorization rq) = Some tok"
      "al_parse (ac_auth cfg) (ac_secret cfg) (env_now e (w_calls v)) 0 tok = Some claims"
      by (auto simp: AuthMiddleware_def split: option.splits)
    from Through(3) obtain t2 v1 v2 start finished where
      h: "handler (user_of token) (t1\<lparr>tl_context := setAuthContextFromToken token (tl_context t1)\<rparr>) e v1 =
          (Inr (Inr (resp, room), t2), v2)"
      "w_db v1 = w_db u" "w_db v' = w_db v2"
      "tl_log t' = tl_log t2 @ [audit_entry_of rq broken start finished resp (tl_context t2)]"
      by (auto simp: AuditLogMiddleware_def prog_elims dest: arg_cong [where f = tl_log])
    show thesis
    proof (rule that(2) [OF k(2)])
      show "al_parse (ac_auth cfg) (ac_secret cfg)
          (env_now e (w_calls w + (if hq_RequestID rq = [] then 2 else 1))) 0 tok = Some claims"
        using k(3) d(2) by simp
      show "handler (cl_Subject claims) (t1\<lparr>tl_context := setAuthContextFromToken token (tl_context t1)\<rparr>) e v1 =
          (Inr (Inr (resp, room), t2), v2)" using h(1) k(1) by simp
      show "w_db v1 = w_db w" "w_db w' = w_db v2" using h d Through(2) by simp_all
      show "tl_log (t1\<lparr>tl_context := setAuthContextFromToken token (tl_context t1)\<rparr>) = tl_log t"
        using d by simp
      show "tl_context (t1\<lparr>tl_context := setAuthContextFromToken token (tl_context t1)\<rparr>) =
          setAuthContextFromToken (Some claims) ((tl_context t)\<lparr>cx_RequestID := reqID\<rparr>)" using d k(1) by simp
      show "tl_log t' = tl_log t2 @ [audit_entry_of rq broken start finished resp (tl_context t2)]" by (rule h(4))
    qed
  qed
qed

text \<open>
  C15. On every route but login, sign-up and the WebSocket, which the token check lets by, a
  handler behind the middlewares runs only for the user of a token the library accepts at that
  time with the server's secret; otherwise the answer is 401, 403, 429 or 500, nothing is
  broadcast and the store stays as it is.
\<close>

theorem handler_needs_token:
  assumes "api_group cfg re rq broken handler s t e w = (Inr (Inr ((resp, room), s'), t'), w')"
    and "\<not> skipJWTAuth (hq_Path rq)"
  shows "(rs_status resp \<in> {401, 403, 429, 500} \<and> room = None \<and> w_db w' = w_db w)
    \<or> (\<exists>tok claims n t1 v t2 v'. ac_extract cfg (hq_Authorization rq) = Some tok
         \<and> al_parse (ac_auth cfg) (ac_secret cfg) (env_now e n) 0 tok = Some claims
         \<and> n = w_calls w + (if hq_RequestID rq = [] then 2 else 1)
         \<and> w_db v = w_db w \<and> handler (cl_Subject claims) t1 e v = (Inr (Inr (resp, room), t2), v')
         \<and> w_db w' = w_db v')"
  using assms by (cases rule: api_group_cases) blast+

definition sample_config :: api_config where
  "sample_config = \<lparr>ac_extract = bearer_token, ac_auth = strict_auth, ac_secret = sample_secret,
     ac_limiter = Some NewRateLimitUsecase, ac_pg_text = (\<lambda>c. c)\<rparr>"

lemma obind_simps:
  "obind (oret x) f = f x" "obind (onote g) f t = f () (g t)" "obind (othrow err) f = othrow err"
  by (simp_all add: fun_eq_iff obind_def oret_def onote_def othrow_def bind_def ret_def)

lemma obind_oact: "p e w = (Inr x, w') \<Longrightarrow> obind (oact p) f t e w = f x t e w'"
  by (simp add: obind_def oact_def bind_def attempt_def ret_def)

theorem handler_needs_token_witness:
  "\<exists>resp room s t w. api_group sample_config (redis_at 0) (sample_request\<lparr>hq_Authorization := []\<rparr>) False
       (\<lambda>user. oret (ok_with 200 EmptyData, Some user)) Map.empty empty_telemetry auth_env before_signup
       = (Inr (Inr ((resp, room), s), t), w)
     \<and> rs_status resp = 401 \<and> room = None"
proof -
  let ?rq = "sample_request\<lparr>hq_Authorization := []\<rparr>"
  let ?h = "\<lambda>user. oret (ok_with 200 EmptyData, Some user)"
  have p: "\<not> skipJWTAuth (hq_Path ?rq)" using sample_authenticated(2) by simp
  obtain t' w' where run: "api_group sample_config (redis_at 0) ?rq False ?h Map.empty empty_telemetry auth_env before_signup
      = (Inr (Inr ((fail_with 401 ''unauthorized'' ''login required'', None), Map.empty), t'), w')"
    using p
    by (auto simp: api_group_def HTTPTelemetryMiddleware_def RequestIDMiddleware_def checked_def prog_elims
        AuthMiddleware_def sample_config_def bearer_token_def sample_request_def)
  from handler_needs_token [OF run p] run show ?thesis by (auto simp: fail_with_def)
qed

text \<open>Logging in and signing up pass every check without touching a bucket.\<close>

theorem login_never_limited:
  "path \<in> {''/api/auth/login'', ''/api/auth/signup''} \<Longrightarrow>
   checked cfg re (rq\<lparr>hq_Path := path\<rparr>) handler s t e w =
     obind (handler []) (\<lambda>reply. oret (reply, s)) t e (tick (tick w))"
  by (auto simp: checked_def AuthMiddleware_def skipJWTAuth_def RateLimitMiddleware_def
      setAuthContextFromToken_def CSRFMiddleware_def needsCSRF_def obind_simps obind_oact io_now_def
      split: option.split)

theorem login_never_limited_witness:
  "\<forall>s. checked sample_config (redis_at 0) (sample_request\<lparr>hq_Path := ''/api/auth/login''\<rparr>)
     (\<lambda>_. oact (Login_http (\<lambda>c. c) reference_auth sample_secret None)) s empty_telemetry auth_env before_signup =
     (Inr (Inr ((credentials_missing, None), s), empty_telemetry), tick (tick before_signup))"
proof -
  have "''/api/auth/login'' \<in> {''/api/auth/login'', ''/api/auth/signup''}" by simp
  from login_never_limited [OF this] show ?thesis
    by (simp add: Login_http_def obind_def oact_def oret_def bind_def attempt_def ret_def)
qed

end
