(* ===== verification/Ws_Session.thy ===== *)
theory Ws_Session
  imports Ws_Hub Http_Access Sample_Run
begin

text \<open>
  The life of a WebSocket connection (\<open>backend/controller/room_ws_controller.go\<close>: \<open>RoomWS\<close> and the
  broadcast; \<open>game_ws_controller.go\<close>: the actions). Opening, one message of the receive loop,
  closing and one broadcast are programs of their own, so that they can be interleaved. The
  sockets themselves are outside: what a read delivers and whether a write succeeds are
  parameters, and frames are values before they are turned into JSON.
\<close>

subsection \<open>Actions\<close>

record WSActionRequest =
  wr_Type :: string
  wr_RequestID :: string
  wr_ActionID :: string
  wr_ExpectedVersion :: int
  wr_Agree :: "bool option"

text \<open>An \<open>ERROR\<close> frame with its code, message and retry time; \<open>PONG\<close>; a broadcast to the room.\<close>

datatype ws_outcome = SendError string string "int option" | SendPong | Broadcast

definition mapWSError :: "RoomController \<Rightarrow> error \<Rightarrow> string \<times> string" where
  "mapWSError r err =
     (if err = ErrUnauthorizedUser then (''unauthorized'', ''login required'')
      else if err = ErrForbiddenAction then (''forbidden'', ''room access denied'')
      else if err = ErrInvalidInput
      then (''invalid_input'', ''action_id and expected_version are required'')
      else if invalid_state_error err then (''invalid_game_state'', error_text (rc_pg_text r) err)
      else if err = ErrRoomFull then (''room_full'', ''room is full'')
      else if err = ErrVersionConflict then (''version_conflict'', ''session version conflict'')
      else if err = ErrDuplicateAction
      then (''duplicate_action'', ''action id already used with different payload'')
      else if err = ErrNotFound then (''not_found'', ''room or session not found'')
      else (''internal_error'', error_text (rc_pg_text r) err))"

text \<open>A call of the use case, then the error frame or the broadcast.\<close>

definition ws_mutation :: "RoomController \<Rightarrow> 'a prog \<Rightarrow> ws_outcome prog" where
  "ws_mutation r call =
     bind (attempt call) (\<lambda>res.
     ret (case res of
            Inl err \<Rightarrow> (case mapWSError r err of (code, message) \<Rightarrow> SendError code message None)
          | Inr _ \<Rightarrow> Broadcast))"

definition handleGameWSAction ::
    "RoomController \<Rightarrow> WSActionRequest \<Rightarrow> string \<Rightarrow> string \<Rightarrow> ws_outcome prog" where
  "handleGameWSAction r req roomID userID =
     (let missing = wr_ActionID req = [] \<or> wr_ExpectedVersion req \<le> 0;
          refuse = (\<lambda>message. ret (SendError ''invalid_input'' message None))
      in if wr_Type req = ''HIT'' then
           if missing then refuse ''action_id and expected_version are required''
           else ws_mutation r (Hit (rc_room r) roomID userID (wr_ExpectedVersion req) (wr_ActionID req))
         else if wr_Type req = ''STAND'' then
           if missing then refuse ''action_id and expected_version are required''
           else ws_mutation r (Stand (rc_room r) roomID userID (wr_ExpectedVersion req) (wr_ActionID req))
         else if wr_Type req = ''REMATCH_VOTE'' then
           case wr_Agree req of
             None \<Rightarrow> refuse ''agree, action_id and expected_version are required''
           | Some agree \<Rightarrow>
               if missing then refuse ''agree, action_id and expected_version are required''
               else
                 ws_mutation r (VoteRematch (rc_room r) roomID userID agree (wr_ExpectedVersion req)
                   (wr_ActionID req))
         else if wr_Type req = ''ROOM_SYNC_REQUEST'' then ret Broadcast
         else if wr_Type req = ''PING'' then ret SendPong
         else refuse ''unsupported ws event type'')"

subsection \<open>Broadcast\<close>

text \<open>The connections of the room, in the order the map is read, each with its own view.\<close>

fun broadcast_loop ::
    "(conn \<Rightarrow> bool) \<Rightarrow> string \<Rightarrow> (conn \<times> wsConnMeta) list \<Rightarrow> roomHub \<Rightarrow>
       ((conn \<times> RoomStateSyncPayload) list \<times> roomHub) prog" where
  "broadcast_loop write_ok roomID [] h = ret ([], h)"
| "broadcast_loop write_ok roomID ((c, meta) # cs) h =
     bind (attempt (GetRoomState roomID (meta_userID meta))) (\<lambda>r.
     case r of
       Inl _ \<Rightarrow> broadcast_loop write_ok roomID cs h
     | Inr state \<Rightarrow>
         if write_ok c then
           bind (broadcast_loop write_ok roomID cs h) (\<lambda>(frames, h).
           ret ((c, buildRoomDTO state (meta_userID meta)) # frames, h))
         else broadcast_loop write_ok roomID cs (hub_remove roomID c h))"

definition in_order :: "(conn \<times> wsConnMeta) list \<Rightarrow> (conn \<rightharpoonup> wsConnMeta) \<Rightarrow> bool" where
  "in_order cs m \<longleftrightarrow> distinct (map fst cs) \<and> map_of cs = m"

definition broadcastRoomStateLocal ::
    "(conn \<Rightarrow> bool) \<Rightarrow> string \<Rightarrow> string \<Rightarrow> (conn \<times> wsConnMeta) list \<Rightarrow> roomHub \<Rightarrow>
       ((conn \<times> string \<times> RoomStateSyncPayload) list \<times> roomHub) prog" where
  "broadcastRoomStateLocal write_ok roomID eventType cs h =
     bind (broadcast_loop write_ok roomID cs h) (\<lambda>(frames, h).
     ret (map (\<lambda>(c, payload). (c, eventType, payload)) frames, h))"

subsection \<open>The limits on the way\<close>

record ws_state =
  wss_buckets :: buckets
  wss_redis :: redis
  wss_hub :: roomHub

text \<open>The answer of the limiter, when there is one.\<close>

definition ws_allow ::
    "rateLimitService option \<Rightarrow> redis_env \<Rightarrow> string \<Rightarrow> ws_state \<Rightarrow>
       ((error + RateLimitResult) option \<times> ws_state) prog" where
  "ws_allow limiter re key s =
     (case limiter of
        None \<Rightarrow> ret (None, s)
      | Some u \<Rightarrow>
          bind io_now (\<lambda>now.
          case rate_Allow u re (UnixMilli now) key (wss_buckets s) of
            (r, b) \<Rightarrow> ret (Some r, s\<lparr>wss_buckets := b\<rparr>)))"

text \<open>A step behind the limiter: what to answer on an error and when there are too many.\<close>

definition with_limit ::
    "rateLimitService option \<Rightarrow> redis_env \<Rightarrow> string \<Rightarrow> (error \<Rightarrow> 'a) \<Rightarrow> (int \<Rightarrow> 'a) \<Rightarrow>
       (ws_state \<Rightarrow> ('a \<times> ws_state) prog) \<Rightarrow> ws_state \<Rightarrow> ('a \<times> ws_state) prog" where
  "with_limit limiter re key fail refuse go s =
     bind (ws_allow limiter re key s) (\<lambda>(res, s).
     case res of
       Some (Inl err) \<Rightarrow> ret (fail err, s)
     | Some (Inr result) \<Rightarrow>
         if \<not> rl_Allowed result then ret (refuse (rl_RetryAfterMS result), s) else go s
     | None \<Rightarrow> go s)"

subsection \<open>One message\<close>

text \<open>What the loop does after a message: it goes on after a frame or a broadcast, or it ends.\<close>

datatype ws_step = GoOn ws_outcome | EndWith ws_outcome

definition ws_handle ::
    "RoomController \<Rightarrow> bool \<Rightarrow> error option \<Rightarrow> error option \<Rightarrow> string \<Rightarrow> wsConnMeta \<Rightarrow>
       WSActionRequest option \<Rightarrow> ws_state \<Rightarrow> (ws_step \<times> ws_state) prog" where
  "ws_handle r on fault1 fault2 roomID meta msg s =
     (case msg of
        None \<Rightarrow> ret (GoOn (SendError ''invalid_input'' ''invalid message payload'' None), s)
      | Some req \<Rightarrow>
          (case epoch_gate on fault1 fault2 roomID (meta_userID meta) meta (wss_redis s) of
             (g, rd) \<Rightarrow>
               let s = s\<lparr>wss_redis := rd\<rparr> in
               (case g of
                  InternalError err \<Rightarrow>
                    ret (GoOn (SendError ''internal_error'' (error_text (rc_pg_text r) err) None), s)
                | Superseded \<Rightarrow>
                    ret (EndWith (SendError ''forbidden'' ''stale websocket connection'' None), s)
                | Handle \<Rightarrow>
                    bind (handleGameWSAction r req roomID (meta_userID meta)) (\<lambda>out.
                    ret (GoOn out, s)))))"

definition ws_message ::
    "RoomController \<Rightarrow> rateLimitService option \<Rightarrow> redis_env \<Rightarrow> bool \<Rightarrow> error option \<Rightarrow> error option \<Rightarrow>
       string \<Rightarrow> wsConnMeta \<Rightarrow> WSActionRequest option \<Rightarrow> ws_state \<Rightarrow> (ws_step \<times> ws_state) prog" where
  "ws_message r limiter re on fault1 fault2 roomID meta msg s =
     with_limit limiter re (''ws:'' @ meta_userID meta)
       (\<lambda>err. GoOn (SendError ''internal_error'' (error_text (rc_pg_text r) err) None))
       (\<lambda>ms. GoOn (SendError ''rate_limited'' ''too many requests'' (Some ms)))
       (ws_handle r on fault1 fault2 roomID meta msg) s"

subsection \<open>Closing\<close>

text \<open>\<open>strconv.ParseBool\<close>, and the switch for marking a member as disconnected.\<close>

definition ParseBool :: "string \<Rightarrow> bool option" where
  "ParseBool s =
     (if s \<in> {''1'', ''t'', ''T'', ''TRUE'', ''true'', ''True''} then Some True
      else if s \<in> {''0'', ''f'', ''F'', ''FALSE'', ''false'', ''False''} then Some False
      else None)"

definition wsShouldMarkDisconnected :: "string \<Rightarrow> bool" where
  "wsShouldMarkDisconnected env =
     (let v = TrimSpace env in
      if v = [] then True else case ParseBool v of None \<Rightarrow> True | Some b \<Rightarrow> b)"

text \<open>The deferred function of the receive loop.\<close>

definition ws_close ::
    "bool \<Rightarrow> error option \<Rightarrow> string \<Rightarrow> conn \<Rightarrow> wsConnMeta \<Rightarrow> ws_state \<Rightarrow> ws_state prog" where
  "ws_close on fault roomID c meta s =
     (let userID = meta_userID meta;
          isLatest = hub_isLatest roomID userID c (wss_hub s);
          isCurrentEpoch =
            (case isCurrentConnectionEpoch on fault roomID userID (meta_epoch meta) (wss_redis s) of
               Inl _ \<Rightarrow> True | Inr b \<Rightarrow> b)
      in bind (io_getenv ''BLACKJACK_WS_MARK_DISCONNECTED'') (\<lambda>env.
         bind (if isLatest \<and> isCurrentEpoch \<and> wsShouldMarkDisconnected env
               then bind (attempt (MarkDisconnected roomID userID)) (\<lambda>_. ret ()) else ret ()) (\<lambda>_.
         ret (s\<lparr>wss_hub := hub_remove roomID c (wss_hub s)\<rparr>))))"

subsection \<open>Opening\<close>

definition preWSConnectionKey :: "string \<Rightarrow> string \<Rightarrow> string" where
  "preWSConnectionKey realIP remoteAddr =
     (let ip = TrimSpace realIP; ip = (if ip = [] then remoteAddr else ip) in ''ws-open-pre:'' @ ip)"

record WSAuthMessage =
  wa_Type :: string
  wa_RequestID :: string
  wa_AccessToken :: string

text \<open>
  \<open>Rejected\<close> is an HTTP response before the upgrade, \<open>Dropped\<close> a connection closed after at most
  one frame, \<open>Opened\<close> a connection with who opened it (the token's user and id, and the session
  of the room then), its meta data and the older connection it replaces.
\<close>

record ws_identity =
  wi_userID :: string
  wi_jti :: string
  wi_sess :: "GameSession option"

datatype ws_open =
    Rejected Response
  | Dropped "ws_outcome option"
  | Opened ws_identity wsConnMeta "conn option"

text \<open>After the limits: the epoch, the mark in the database, the hub.\<close>

definition ws_register ::
    "RoomController \<Rightarrow> bool \<Rightarrow> error option \<times> error option \<Rightarrow> string \<Rightarrow> ws_identity \<Rightarrow> conn \<Rightarrow> ws_state \<Rightarrow> (ws_open \<times> ws_state) prog" where
  "ws_register r on fault roomID who c s =
     (let userID = wi_userID who;
          drop = (\<lambda>err. Dropped (Some (SendError ''internal_error'' (error_text (rc_pg_text r) err) None)))
      in case registerConnectionEpoch on fault roomID userID (wss_redis s) of (epoch_res, rd) \<Rightarrow>
      let s = s\<lparr>wss_redis := rd\<rparr> in
      case epoch_res of
        Inl err \<Rightarrow> ret (drop err, s)
      | Inr epoch \<Rightarrow>
          let meta = \<lparr>meta_userID = userID, meta_epoch = epoch\<rparr> in
          bind (attempt (MarkConnected roomID userID)) (\<lambda>res.
          let add = (case hub_add roomID c meta (wss_hub s) of
                (h, old) \<Rightarrow> ret (Opened who meta old, s\<lparr>wss_hub := h\<rparr>))
          in case res of
            Inl err \<Rightarrow> if err \<noteq> ErrNotFound then ret (drop err, s) else add
          | Inr _ \<Rightarrow> add))"

definition ws_admit ::
    "RoomController \<Rightarrow> rateLimitService option \<Rightarrow> redis_env \<Rightarrow> bool \<Rightarrow> error option \<times> error option \<Rightarrow> string \<Rightarrow> ws_identity \<Rightarrow>
       conn \<Rightarrow> ws_state \<Rightarrow> (ws_open \<times> ws_state) prog" where
  "ws_admit r limiter re on fault roomID who c s =
     with_limit limiter re (''ws-open:'' @ wi_userID who)
       (\<lambda>err. Dropped (Some (SendError ''internal_error'' (error_text (rc_pg_text r) err) None)))
       (\<lambda>ms. Dropped (Some (SendError ''rate_limited'' ''too many websocket connection attempts'' (Some ms))))
       (ws_register r on fault roomID who c) s"

text \<open>
  The first message: \<open>None\<close> when the read fails or times out, \<open>Some None\<close> when it is no JSON. The
  user is who the token says, and must have access to the room.
\<close>

definition ws_authenticate ::
    "RoomController \<Rightarrow> auth_lib \<Rightarrow> string \<Rightarrow> string \<Rightarrow> WSAuthMessage option option \<Rightarrow>
       (ws_outcome option + ws_identity) prog" where
  "ws_authenticate r lib secret roomID first =
     (let refuse = (\<lambda>code message. ret (Inl (Some (SendError code message None)))) in
      case first of
        None \<Rightarrow> ret (Inl None)
      | Some None \<Rightarrow> refuse ''unauthorized'' ''first message must be AUTH with access_token''
      | Some (Some msg) \<Rightarrow>
          if wa_Type msg \<noteq> ''AUTH'' \<or> TrimSpace (wa_AccessToken msg) = []
          then refuse ''unauthorized'' ''first message must be AUTH with access_token''
          else
            bind (attempt (ParseAndValidate lib secret (wa_AccessToken msg))) (\<lambda>res.
            case res of
              Inl _ \<Rightarrow> refuse ''unauthorized'' ''invalid or expired token''
            | Inr (userID, jti) \<Rightarrow>
                bind (attempt (GetRoom_uc roomID userID)) (\<lambda>res.
                case res of
                  Inl _ \<Rightarrow> refuse ''forbidden'' ''room access denied''
                | Inr (_, sess) \<Rightarrow>
                    ret (Inr \<lparr>wi_userID = userID, wi_jti = jti, wi_sess = sess\<rparr>))))"

definition RoomWS ::
    "RoomController \<Rightarrow> auth_lib \<Rightarrow> string \<Rightarrow> rateLimitService option \<Rightarrow> redis_env \<Rightarrow> bool \<Rightarrow> error option \<times> error option \<Rightarrow>
       string \<Rightarrow> string \<Rightarrow> WSAuthMessage option option \<Rightarrow> conn \<Rightarrow> ws_state \<Rightarrow> (ws_open \<times> ws_state) prog" where
  "RoomWS r lib secret limiter re on fault roomID preKey first c s =
     (if roomID = [] then ret (Rejected (fail_with 400 ''invalid_input'' ''room is required''), s)
      else
        with_limit limiter re preKey
          (\<lambda>err. Rejected (fail_with 500 ''internal_error'' (error_text (rc_pg_text r) err)))
          (\<lambda>ms. Rejected ((fail_with 429 ''rate_limited'' ''too many websocket connection attempts'')
             \<lparr>rs_RetryAfterMs := Some ms\<rparr>))
          (\<lambda>s. bind (ws_authenticate r lib secret roomID first) (\<lambda>res.
             case res of
               Inl frame \<Rightarrow> ret (Dropped frame, s)
             | Inr who \<Rightarrow> ws_admit r limiter re on fault roomID who c s)) s)"

subsection \<open>Properties\<close>

theorem ws_and_http_codes_agree:
  "(case rs_body (writeTurnMutationError r err m m') of Fail code _ \<Rightarrow> code | OK _ \<Rightarrow> []) =
     (if err = ErrRoomFull then ''internal_error'' else fst (mapWSError r err))"
  by (simp add: writeTurnMutationError_def mapWSError_def fail_with_def internal_error_def
      invalid_state_error_def Let_def)

lemma ws_mutation_cases:
  assumes "all_or_nothing call"
  shows "\<exists>out w'. ws_mutation r call e w = (Inr out, w') \<and> (out = Broadcast \<or> w_db w' = w_db w)"
proof -
  obtain res w' where run: "call e w = (res, w')" by fastforce
  with aonD [OF assms] show ?thesis
    by (cases res) (auto simp: ws_mutation_def bind_def attempt_def ret_def split: prod.split)
qed

theorem ws_action_answers_and_keeps:
  "\<exists>out w'. handleGameWSAction r req roomID userID e w = (Inr out, w')
     \<and> (out = Broadcast \<or> w_db w' = w_db w)"
proof -
  have m: "all_or_nothing (Hit (rc_room r) roomID userID n a)" "all_or_nothing (Stand (rc_room r) roomID userID n a)"
    "all_or_nothing (VoteRematch (rc_room r) roomID userID b n a)" for n a b
    by (rule aon_playerTurn aon_VoteRematch)+
  show ?thesis
    using ws_mutation_cases [OF m(1)] ws_mutation_cases [OF m(2)] ws_mutation_cases [OF m(3)]
    by (simp add: handleGameWSAction_def ret_def Let_def split: option.split)
qed

lemma broadcast_loop_frames:
  assumes "broadcast_loop write_ok roomID cs h e w = (Inr (frames, h'), w')"
  shows "w_db w' = w_db w \<and> (\<forall>(c, payload) \<in> set frames. write_ok c \<and>
     (\<exists>meta st v v'. (c, meta) \<in> set cs \<and> w_db v = w_db w
        \<and> GetRoomState roomID (meta_userID meta) e v = (Inr st, v')
        \<and> payload = buildRoomDTO st (meta_userID meta)))"
  using assms
proof (induction cs arbitrary: h w frames h' w')
  case Nil
  then show ?case by (simp add: ret_def)
next
  case (Cons cm cs)
  obtain c meta where cm: "cm = (c, meta)" by fastforce
  obtain res v where run: "GetRoomState roomID (meta_userID meta) e w = (res, v)" by fastforce
  have v: "w_db v = w_db w" by (rule readonlyD [OF readonly_views(1) run])
  show ?case
  proof (cases "case res of Inl _ \<Rightarrow> False | Inr _ \<Rightarrow> write_ok c")
    case False
    then obtain h1 where "broadcast_loop write_ok roomID cs h1 e v = (Inr (frames, h'), w')"
      using Cons.prems run cm by (auto simp: bind_def attempt_def split: sum.splits if_splits)
    from Cons.IH [OF this] v show ?thesis by fastforce
  next
    case True
    then obtain st where st: "res = Inr st" "write_ok c" by (auto split: sum.splits)
    with Cons.prems run cm obtain fs where
      "broadcast_loop write_ok roomID cs h e v = (Inr (fs, h'), w')"
      "frames = (c, buildRoomDTO st (meta_userID meta)) # fs"
      by (auto simp: bind_def attempt_def ret_def split: prod.splits sum.splits)
    with Cons.IH [OF this(1)] v run st cm show ?thesis by (fastforce simp: split_beta)
  qed
qed

text \<open>
  C18. Every frame of a broadcast is the payload built for the user of the connection it goes
  to, and that user is the host of the room or a member who has not left.
\<close>

theorem broadcast_own_views:
  assumes "broadcastRoomStateLocal write_ok roomID ev cs h e w = (Inr (frames, h'), w')"
    and "(c, ev', payload) \<in> set frames"
  shows "\<exists>meta st room. (c, meta) \<in> set cs \<and> payload = buildRoomDTO st (meta_userID meta)
     \<and> GetRoom roomID (w_db w) = Inr room
     \<and> (room_HostUserID room = meta_userID meta \<or>
        (\<exists>m. GetRoomPlayer roomID (meta_userID meta) (w_db w) = Inr m \<and> rp_Status m \<noteq> RoomPlayerLeft))"
proof -
  from assms obtain fs where l: "broadcast_loop write_ok roomID cs h e w = (Inr (fs, h'), w')"
    and "(c, payload) \<in> set fs"
    by (auto simp: broadcastRoomStateLocal_def prog_elims)
  with broadcast_loop_frames [OF l] obtain meta st v v' where
    g: "(c, meta) \<in> set cs" "w_db v = w_db w" "payload = buildRoomDTO st (meta_userID meta)"
    and s: "GetRoomState roomID (meta_userID meta) e v = (Inr st, v')" by blast
  from GetRoomState_access [OF s] g show ?thesis by auto
qed

text \<open>
  C24. When an older connection of a user closes after a newer one was opened in the room, the
  store is not touched, so the member is not marked as disconnected, and the newer connection
  stays registered and the latest one.
\<close>

theorem reconnect_stays_connected:
  assumes "hub_isLatest roomID (meta_userID meta) c' (wss_hub s)" "c' \<noteq> c"
  shows "\<exists>s'. ws_close on fault roomID c meta s e w = (Inr s', w)
     \<and> hub_isLatest roomID (meta_userID meta) c' (wss_hub s')
     \<and> (\<forall>m. hub_snapshot roomID (wss_hub s) c' = Some m \<longrightarrow> hub_snapshot roomID (wss_hub s') c' = Some m)"
proof -
  have "\<not> hub_isLatest roomID (meta_userID meta) c (wss_hub s)"
    using assms by (simp add: hub_isLatest_def)
  then have "ws_close on fault roomID c meta s e w =
      (Inr (s\<lparr>wss_hub := hub_remove roomID c (wss_hub s)\<rparr>), w)"
    by (simp add: ws_close_def bind_def io_getenv_def ret_def Let_def)
  moreover have "hub_isLatest roomID (meta_userID meta) c' (hub_remove roomID c (wss_hub s))"
    using assms by (auto simp: hub_isLatest_def hub_remove_def Let_def split: option.split)
  moreover have "hub_snapshot roomID (hub_remove roomID c (wss_hub s)) c' = hub_snapshot roomID (wss_hub s) c'"
    using assms(2)
    by (auto simp: hub_snapshot_def hub_conns_def hub_remove_def Let_def fun_eq_iff split: option.split)
  ultimately show ?thesis by simp
qed

theorem failed_write_never_marks:
  assumes "GetRoomState roomID (meta_userID meta) e w = (Inr st, v)" "\<not> write_ok c"
    and "hub_snapshot roomID (wss_hub s) c = Some meta"
    and "broadcastRoomStateLocal write_ok roomID ev [(c, meta)] (wss_hub s) e w = (Inr (frames, h'), w')"
  shows "frames = [] \<and> (\<exists>s'. ws_close on fault roomID c meta (s\<lparr>wss_hub := h'\<rparr>) e' u = (Inr s', u))"
proof -
  from assms(1,2,4) have "frames = []" "h' = hub_remove roomID c (wss_hub s)"
    by (auto simp: broadcastRoomStateLocal_def bind_def attempt_def ret_def)
  moreover have "\<not> hub_isLatest roomID (meta_userID meta) c (hub_remove roomID c (wss_hub s))"
    using assms(3) by (auto simp: hub_isLatest_def hub_remove_def hub_snapshot_def hub_conns_def Let_def
        split: option.splits)
  ultimately show ?thesis by (simp add: ws_close_def bind_def io_getenv_def ret_def Let_def)
qed

definition sample_meta :: wsConnMeta where
  "sample_meta = \<lparr>meta_userID = ''ann'', meta_epoch = 1\<rparr>"

definition sample_ws :: ws_state where
  "sample_ws = \<lparr>wss_buckets = Map.empty,
     wss_redis = \<lparr>rd_counter = (\<lambda>_. 1), rd_latest = [(''room'', ''ann'') \<mapsto> 1]\<rparr>,
     wss_hub = fst (hub_add ''room'' 7 sample_meta empty_hub)\<rparr>"

lemma sample_broadcast:
  obtains st where
    "broadcastRoomStateLocal (\<lambda>_. True) ''room'' ev [(7, sample_meta)] h sample_env sample_round =
       (Inr ([(7, ev, buildRoomDTO st ''ann'')], h), sample_round\<lparr>w_calls := 28\<rparr>)"
    "broadcastRoomStateLocal (\<lambda>_. False) ''room'' ev [(7, sample_meta)] h sample_env sample_round =
       (Inr ([], hub_remove ''room'' 7 h), sample_round\<lparr>w_calls := 28\<rparr>)"
    "GetRoomState ''room'' (meta_userID sample_meta) sample_env sample_round =
       (Inr st, sample_round\<lparr>w_calls := 28\<rparr>)"
proof -
  from sample_state obtain st where st:
    "GetRoomState ''room'' ''ann'' sample_env sample_round = (Inr st, sample_round\<lparr>w_calls := 28\<rparr>)" by blast
  show thesis
    by (rule that [of st])
      (simp_all add: broadcastRoomStateLocal_def bind_def attempt_def ret_def sample_meta_def st)
qed

theorem broadcast_own_views_witness:
  "\<exists>st room. GetRoom ''room'' (w_db sample_round) = Inr room
     \<and> broadcastRoomStateLocal (\<lambda>_. True) ''room'' ''ROOM_STATE_SYNC'' [(7, sample_meta)] empty_hub
         sample_env sample_round
       = (Inr ([(7, ''ROOM_STATE_SYNC'', buildRoomDTO st ''ann'')], empty_hub), sample_round\<lparr>w_calls := 28\<rparr>)"
proof -
  obtain st where b: "broadcastRoomStateLocal (\<lambda>_. True) ''room'' ''ROOM_STATE_SYNC'' [(7, sample_meta)]
       empty_hub sample_env sample_round =
       (Inr ([(7, ''ROOM_STATE_SYNC'', buildRoomDTO st ''ann'')], empty_hub), sample_round\<lparr>w_calls := 28\<rparr>)"
    by (rule sample_broadcast)
  from broadcast_own_views [OF b, of 7 "''ROOM_STATE_SYNC''" "buildRoomDTO st ''ann''"] b
  show ?thesis by auto
qed

theorem reconnect_stays_connected_witness:
  "\<exists>s'. ws_close True None ''room'' 3 sample_meta sample_ws sample_env sample_round = (Inr s', sample_round)
     \<and> hub_isLatest ''room'' ''ann'' 7 (wss_hub s')"
  using reconnect_stays_connected [of "''room''" sample_meta 7 sample_ws 3 True None sample_env sample_round]
  by (auto simp: sample_ws_def sample_meta_def hub_isLatest_def hub_add_def Let_def)

theorem failed_write_never_marks_witness:
  "\<exists>h' s'. broadcastRoomStateLocal (\<lambda>_. False) ''room'' ''ROOM_STATE_SYNC'' [(7, sample_meta)]
       (wss_hub sample_ws) sample_env sample_round = (Inr ([], h'), sample_round\<lparr>w_calls := 28\<rparr>)
     \<and> ws_close True None ''room'' 7 sample_meta (sample_ws\<lparr>wss_hub := h'\<rparr>) sample_env sample_round
       = (Inr s', sample_round)"
proof -
  obtain st where b: "broadcastRoomStateLocal (\<lambda>_. False) ''room'' ''ROOM_STATE_SYNC'' [(7, sample_meta)]
       (wss_hub sample_ws) sample_env sample_round =
       (Inr ([], hub_remove ''room'' 7 (wss_hub sample_ws)), sample_round\<lparr>w_calls := 28\<rparr>)"
    and g: "GetRoomState ''room'' (meta_userID sample_meta) sample_env sample_round =
       (Inr st, sample_round\<lparr>w_calls := 28\<rparr>)" by (rule sample_broadcast)
  have "hub_snapshot ''room'' (wss_hub sample_ws) 7 = Some sample_meta"
    by (simp add: sample_ws_def hub_snapshot_def hub_conns_add empty_hub_def)
  from failed_write_never_marks [OF g _ this b, of True None sample_env sample_round] b show ?thesis by auto
qed

text \<open>The stages of an opening that succeeds.\<close>

lemma ws_allow_db: "ws_allow limiter re key s e w = (Inr x, w') \<Longrightarrow> w_db w' = w_db w"
  by (auto simp: ws_allow_def prog_elims split: option.splits prod.splits)

lemma bind_attempt: "bind (attempt m) f e w = f (fst (m e w)) e (snd (m e w))"
  by (cases "m e w") (simp add: bind_def attempt_def)

lemma bind_value:
  assumes "bind m f e w = (Inr y, w')"
  obtains x v where "m e w = (Inr x, v)" "f x e v = (Inr y, w')"
  using assms by (auto simp: bind_Inr)

lemma ws_authenticate_user:
  assumes "ws_authenticate r lib secret roomID first e w = (Inr (Inr who), w')"
  shows "\<exists>msg t claims. first = Some (Some msg) \<and> wa_Type msg = ''AUTH''
     \<and> al_parse lib secret t (30 * Second) (wa_AccessToken msg) = Some claims
     \<and> cl_Subject claims = wi_userID who \<and> cl_ID claims = wi_jti who \<and> wi_userID who \<noteq> []
     \<and> (\<exists>room. GetRoom roomID (w_db w) = Inr room \<and> (room_HostUserID room = wi_userID who \<or>
          (\<exists>m. GetRoomPlayer roomID (wi_userID who) (w_db w) = Inr m \<and> rp_Status m \<noteq> RoomPlayerLeft)))"
proof -
  from assms obtain msg where msg: "first = Some (Some msg)" "wa_Type msg = ''AUTH''"
    and tok: "TrimSpace (wa_AccessToken msg) \<noteq> []"
    by (auto simp: ws_authenticate_def ret_def Let_def split: option.splits if_splits)
  obtain res v where p0: "ParseAndValidate lib secret (wa_AccessToken msg) e w = (res, v)" by fastforce
  from assms msg tok p0 obtain u jti where res: "res = Inr (u, jti)"
    by (cases res) (auto simp: ws_authenticate_def Let_def bind_attempt ret_def)
  obtain g v' where g0: "GetRoom_uc roomID u e v = (g, v')" by fastforce
  from assms msg tok p0 res g0 obtain x where g: "g = Inr x" and u: "u = wi_userID who" "jti = wi_jti who"
    by (cases g) (auto simp: ws_authenticate_def Let_def bind_attempt ret_def)
  have p: "ParseAndValidate lib secret (wa_AccessToken msg) e w = (Inr (wi_userID who, wi_jti who), v)"
    using p0 res u by simp
  have v: "w_db v = w_db w" by (rule readonlyD [OF readonly_auth(1) p])
  from p obtain t claims where "al_parse lib secret t (30 * Second) (wa_AccessToken msg) = Some claims"
    "cl_Subject claims = wi_userID who" "cl_ID claims = wi_jti who" "wi_userID who \<noteq> []"
    by (auto simp: ParseAndValidate_def prog_elims split: if_splits option.splits)
  with GetRoom_uc_access [of roomID "wi_userID who" e v x v'] g0 g u v msg show ?thesis by auto
qed

lemma ws_register_opened:
  assumes "ws_register r on fault roomID who c s e w = (Inr (Opened who' meta old, s'), w')"
  shows "who' = who \<and> meta_userID meta = wi_userID who \<and> hub_isLatest roomID (wi_userID who) c (wss_hub s')"
proof -
  obtain er rd where reg: "registerConnectionEpoch on fault roomID (wi_userID who) (wss_redis s) = (er, rd)" by fastforce
  with assms obtain epoch where er: "er = Inr epoch"
    by (cases er) (simp_all add: ws_register_def ret_def Let_def)
  obtain res v where run: "MarkConnected roomID (wi_userID who) e w = (res, v)" by fastforce
  obtain h old' where add: "hub_add roomID c \<lparr>meta_userID = wi_userID who, meta_epoch = epoch\<rparr> (wss_hub s) = (h, old')"
    by fastforce
  from assms reg er run add have "who' = who" "meta = \<lparr>meta_userID = wi_userID who, meta_epoch = epoch\<rparr>" "s' = s\<lparr>wss_redis := rd, wss_hub := h\<rparr>"
    by (cases res; auto simp: ws_register_def bind_attempt ret_def Let_def split: if_splits)+
  moreover from add have "hub_isLatest roomID (wi_userID who) c h"
    by (auto simp: hub_add_def hub_isLatest_def Let_def)
  ultimately show ?thesis by simp
qed

lemma ws_allow_hub:
  "ws_allow limiter re key s e w = (Inr (res, s'), w') \<Longrightarrow> wss_hub s' = wss_hub s"
  by (auto simp: ws_allow_def prog_elims split: option.splits prod.splits)

lemma with_limit_cases:
  assumes "with_limit limiter re key fail refuse go s e w = (Inr (res, s'), w')"
  obtains (Through) s1 v where "go s1 e v = (Inr (res, s'), w')" "wss_hub s1 = wss_hub s" "w_db v = w_db w"
  | (Refused) "wss_hub s' = wss_hub s" "(\<exists>err. res = fail err) \<or> (\<exists>ms. res = refuse ms)"
proof -
  from assms [unfolded with_limit_def] obtain x v where a: "ws_allow limiter re key s e w = (Inr x, v)"
    and rest: "(case x of (res, s) \<Rightarrow> case res of
       Some (Inl err) \<Rightarrow> ret (fail err, s)
     | Some (Inr result) \<Rightarrow>
         if \<not> rl_Allowed result then ret (refuse (rl_RetryAfterMS result), s) else go s
     | None \<Rightarrow> go s) e v = (Inr (res, s'), w')" by (rule bind_value)
  obtain q s1 where x: "x = (q, s1)" by fastforce
  have h: "wss_hub s1 = wss_hub s" "w_db v = w_db w" using ws_allow_hub ws_allow_db a x by blast+
  from rest x have "go s1 e v = (Inr (res, s'), w') \<or> s' = s1 \<and> ((\<exists>err. res = fail err) \<or> (\<exists>ms. res = refuse ms))"
    by (cases q; cases "the q") (auto simp: ret_def split: if_splits)
  with h that show thesis by blast
qed

lemma ws_admit_opened:
  assumes "ws_admit r limiter re on fault roomID who c s e w = (Inr (Opened who' meta old, s'), w')"
  shows "who' = who \<and> meta_userID meta = wi_userID who \<and> hub_isLatest roomID (wi_userID who) c (wss_hub s')"
  using assms unfolding ws_admit_def
  by (cases rule: with_limit_cases) (auto dest: ws_register_opened)

text \<open>
  C16. A WebSocket that is opened was asked for with an AUTH message whose token the library
  accepts for the user it is opened for, who is the host of the room or a member who has not
  left, and it is then that user's latest connection in the room.
\<close>

theorem opened_connection_authorized:
  assumes "RoomWS r lib secret limiter re on fault roomID preKey first c s e w =
     (Inr (Opened who meta old, s'), w')"
  shows "\<exists>msg t claims room. first = Some (Some msg) \<and> wa_Type msg = ''AUTH''
     \<and> al_parse lib secret t (30 * Second) (wa_AccessToken msg) = Some claims
     \<and> cl_Subject claims = meta_userID meta \<and> wi_userID who = meta_userID meta \<and> cl_ID claims = wi_jti who \<and>
       meta_userID meta \<noteq> []
     \<and> GetRoom roomID (w_db w) = Inr room
     \<and> (room_HostUserID room = meta_userID meta \<or>
        (\<exists>m. GetRoomPlayer roomID (meta_userID meta) (w_db w) = Inr m \<and> rp_Status m \<noteq> RoomPlayerLeft))
     \<and> hub_isLatest roomID (meta_userID meta) c (wss_hub s')"
proof -
  from assms have "roomID \<noteq> []" by (auto simp: RoomWS_def ret_def split: if_splits)
  with assms have "with_limit limiter re preKey
      (\<lambda>err. Rejected (fail_with 500 ''internal_error'' (error_text (rc_pg_text r) err)))
      (\<lambda>ms. Rejected ((fail_with 429 ''rate_limited'' ''too many websocket connection attempts'')
         \<lparr>rs_RetryAfterMs := Some ms\<rparr>))
      (\<lambda>s. bind (ws_authenticate r lib secret roomID first) (\<lambda>res.
         case res of
           Inl frame \<Rightarrow> ret (Dropped frame, s)
         | Inr who \<Rightarrow> ws_admit r limiter re on fault roomID who c s)) s e w
    = (Inr (Opened who meta old, s'), w')" by (simp add: RoomWS_def)
  then show ?thesis
  proof (cases rule: with_limit_cases)
    case (Through s1 v)
    from Through(1) obtain y v' where a: "ws_authenticate r lib secret roomID first e v = (Inr y, v')"
      and m: "(case y of Inl frame \<Rightarrow> ret (Dropped frame, s1)
          | Inr who \<Rightarrow> ws_admit r limiter re on fault roomID who c s1) e v'
        = (Inr (Opened who meta old, s'), w')" by (rule bind_value)
    from m obtain who1 where y: "y = Inr who1" by (cases y) (auto simp: ret_def)
    from m y have "ws_admit r limiter re on fault roomID who1 c s1 e v' = (Inr (Opened who meta old, s'), w')"
      by simp
    from ws_admit_opened [OF this] ws_authenticate_user [OF a [unfolded y]] Through(3)
    show ?thesis by auto
  qed auto
qed

definition lenient_auth :: auth_lib where
  "lenient_auth = reference_auth\<lparr>al_parse := (\<lambda>_ _ _ _. Some sample_claims)\<rparr>"

definition sample_controller :: RoomController where
  "sample_controller = \<lparr>rc_room = svc reference_lib, rc_pg_text = (\<lambda>c. c)\<rparr>"

definition auth_frame :: WSAuthMessage where
  "auth_frame = \<lparr>wa_Type = ''AUTH'', wa_RequestID = [], wa_AccessToken = ''t''\<rparr>"

lemma sample_mark: "fst (MarkConnected ''room'' ''ann'' sample_env (sample_round\<lparr>w_calls := n\<rparr>)) = Inr ()"
proof -
  have m: "GetRoomPlayer ''room'' ''ann'' (w_db sample_round) = Inr sample_member"
    "rp_Status sample_member = RoomPlayerActive" by code_simp+
  have f: "env_fault sample_env k = None" for k by (simp add: sample_env_def)
  from m f show ?thesis
    by (auto simp: MarkConnected_def bind_def store_read_def store_op_def ret_def)
qed

lemma sample_opened:
  "\<exists>who old s' w'. RoomWS sample_controller lenient_auth sample_secret None (redis_at 0) False (None, None) ''room'' ''k''
     (Some (Some auth_frame)) 9 s sample_env sample_round =
     (Inr (Opened who \<lparr>meta_userID = ''ann'', meta_epoch = 0\<rparr> old, s'), w')"
proof -
  have t: "TrimSpace ''t'' \<noteq> []" by code_simp
  have f: "env_fault sample_env k = None" for k by (simp add: sample_env_def)
  have c: "w_calls sample_round = 24" by (simp add: sample_round_def)
  have h: "room_HostUserID sample_playing = ''ann''" by code_simp
  have a: "ws_authenticate sample_controller lenient_auth sample_secret ''room'' (Some (Some auth_frame))
      sample_env sample_round = (Inr (Inr \<lparr>wi_userID = ''ann'', wi_jti = ''jti'', wi_sess = Some sample_session\<rparr>), sample_round\<lparr>w_calls := 27\<rparr>)"
    using t f h
    by (simp add: ws_authenticate_def auth_frame_def Let_def bind_attempt ParseAndValidate_def lenient_auth_def
        sample_claims_def bind_def attempt_def io_now_def ret_def GetRoom_uc_def room_access_def store_read_def store_op_def
        sample_reads c)
  obtain v where m: "MarkConnected ''room'' ''ann'' sample_env (sample_round\<lparr>w_calls := 27\<rparr>) = (Inr (), v)"
    using sample_mark [of 27] by (cases "MarkConnected ''room'' ''ann'' sample_env (sample_round\<lparr>w_calls := 27\<rparr>)") simp
  show ?thesis
    by (simp add: RoomWS_def with_limit_def ws_allow_def bind_def ret_def a ws_admit_def ws_register_def
        registerConnectionEpoch_def attempt_def m hub_add_def Let_def)
qed

theorem opened_connection_authorized_witness:
  "\<exists>who old s' w'. RoomWS sample_controller lenient_auth sample_secret None (redis_at 0) False (None, None) ''room'' ''k''
     (Some (Some auth_frame)) 9 sample_ws sample_env sample_round =
     (Inr (Opened who \<lparr>meta_userID = ''ann'', meta_epoch = 0\<rparr> old, s'), w')
   \<and> hub_isLatest ''room'' ''ann'' 9 (wss_hub s')"
proof -
  from sample_opened obtain who old s' w' where o: "RoomWS sample_controller lenient_auth sample_secret None
     (redis_at 0) False (None, None) ''room'' ''k'' (Some (Some auth_frame)) 9 sample_ws sample_env sample_round =
     (Inr (Opened who \<lparr>meta_userID = ''ann'', meta_epoch = 0\<rparr> old, s'), w')" by blast
  from opened_connection_authorized [OF o] o show ?thesis by auto
qed

end
