(* ===== verification/Ws_Server.thy ===== *)
theory Ws_Server
  imports Ws_Session
begin

text \<open>
  All connections of an instance together: any order of openings, messages, closings and
  broadcasts, each the program of \<open>Ws_Session\<close> (\<open>backend/controller/room_ws_controller.go\<close>), with
  any tables, clock and faults. The hub only sees the steps of \<open>Ws_Hub\<close>, so what holds in every
  state of the hub holds in the server.
\<close>

text \<open>
  \<open>own\<close> says for which room a connection was opened. A connection is a new pointer when it is
  opened and closes for its own room. What is in Redis may change at any time (\<open>ws_elsewhere\<close>):
  other instances write to it, and its keys expire.
\<close>

inductive ws_reach :: "(conn \<rightharpoonup> string) \<Rightarrow> ws_state \<Rightarrow> bool" where
  ws_init: "wss_hub s = empty_hub \<Longrightarrow> ws_reach Map.empty s"
| ws_opened: "ws_reach own s \<Longrightarrow> own c = None \<Longrightarrow> CHR '':'' \<notin> set roomID \<Longrightarrow>
    RoomWS r lib secret limiter re on fault roomID preKey first c s e w = (Inr (Opened who meta old, s'), w') \<Longrightarrow>
    ws_reach (own(c \<mapsto> roomID)) s'"
| ws_refused: "ws_reach own s \<Longrightarrow>
    RoomWS r lib secret limiter re on fault roomID preKey first c s e w = (Inr (res, s'), w') \<Longrightarrow>
    \<forall>who meta old. res \<noteq> Opened who meta old \<Longrightarrow> ws_reach own s'"
| ws_handled: "ws_reach own s \<Longrightarrow>
    ws_message r limiter re on fault1 fault2 roomID meta msg s e w = (Inr (step, s'), w') \<Longrightarrow>
    ws_reach own s'"
| ws_closed: "ws_reach own s \<Longrightarrow> own c = Some roomID \<Longrightarrow>
    ws_close on fault roomID c meta s e w = (Inr s', w') \<Longrightarrow> ws_reach own s'"
| ws_sent: "ws_reach own s \<Longrightarrow> in_order cs (hub_snapshot roomID (wss_hub s)) \<Longrightarrow>
    broadcastRoomStateLocal write_ok roomID ev cs (wss_hub s) e w = (Inr (frames, h), w') \<Longrightarrow>
    ws_reach own (s\<lparr>wss_hub := h\<rparr>)"
| ws_elsewhere: "ws_reach own s \<Longrightarrow> ws_reach own (s\<lparr>wss_redis := rd, wss_buckets := bs\<rparr>)"

subsection \<open>What each program does to the hub\<close>

definition opened_hub :: "string \<Rightarrow> conn \<Rightarrow> ws_open \<Rightarrow> roomHub \<Rightarrow> roomHub" where
  "opened_hub roomID c res h =
     (case res of Opened _ meta _ \<Rightarrow> fst (hub_add roomID c meta h) | _ \<Rightarrow> h)"

lemma opened_hub_simps [simp]:
  "opened_hub roomID c (Opened who meta old) h = fst (hub_add roomID c meta h)"
  "opened_hub roomID c (Dropped fr) h = h" "opened_hub roomID c (Rejected resp) h = h"
  by (simp_all add: opened_hub_def)

lemma opened_hub_other: "\<forall>who meta old. res \<noteq> Opened who meta old \<Longrightarrow> opened_hub roomID c res h = h"
  by (cases res) auto

lemma ws_register_hub:
  assumes "ws_register r on fault roomID who c s e w = (Inr (res, s'), w')"
  shows "wss_hub s' = opened_hub roomID c res (wss_hub s)"
proof -
  obtain er rd where reg: "registerConnectionEpoch on fault roomID (wi_userID who) (wss_redis s) = (er, rd)" by fastforce
  obtain x v where run: "MarkConnected roomID (wi_userID who) e w = (x, v)" by fastforce
  from assms reg run show ?thesis
    by (cases er; cases x; auto simp: ws_register_def bind_attempt ret_def Let_def split: if_splits prod.splits)
qed

lemma ws_admit_hub:
  assumes "ws_admit r limiter re on fault roomID who c s e w = (Inr (res, s'), w')"
  shows "wss_hub s' = opened_hub roomID c res (wss_hub s)"
  using assms unfolding ws_admit_def
  by (cases rule: with_limit_cases) (auto dest: ws_register_hub)

lemma RoomWS_hub:
  assumes "RoomWS r lib secret limiter re on fault roomID preKey first c s e w = (Inr (res, s'), w')"
  shows "wss_hub s' = opened_hub roomID c res (wss_hub s)"
proof (cases "roomID = []")
  case True
  with assms show ?thesis by (auto simp: RoomWS_def ret_def)
next
  case False
  with assms have "with_limit limiter re preKey
      (\<lambda>err. Rejected (fail_with 500 ''internal_error'' (error_text (rc_pg_text r) err)))
      (\<lambda>ms. Rejected ((fail_with 429 ''rate_limited'' ''too many websocket connection attempts'')
         \<lparr>rs_RetryAfterMs := Some ms\<rparr>))
      (\<lambda>s. bind (ws_authenticate r lib secret roomID first) (\<lambda>res.
         case res of
           Inl frame \<Rightarrow> ret (Dropped frame, s)
         | Inr who \<Rightarrow> ws_admit r limiter re on fault roomID who c s)) s e w
    = (Inr (res, s'), w')" by (simp add: RoomWS_def)
  then show ?thesis
  proof (cases rule: with_limit_cases)
    case (Through s1 v)
    from Through(1) obtain y v' where m: "(case y of Inl frame \<Rightarrow> ret (Dropped frame, s1)
        | Inr who \<Rightarrow> ws_admit r limiter re on fault roomID who c s1) e v' = (Inr (res, s'), w')"
      by (rule bind_value)
    with Through(2) show ?thesis by (cases y) (auto simp: ret_def dest: ws_admit_hub)
  qed auto
qed

lemma ws_handle_hub:
  assumes "ws_handle r on fault1 fault2 roomID meta msg s e w = (Inr (step, s'), w')"
  shows "wss_hub s' = wss_hub s"
  using assms
  by (auto simp: ws_handle_def Let_def prog_elims split: option.splits prod.splits gate.splits)

lemma ws_message_hub:
  assumes "ws_message r limiter re on fault1 fault2 roomID meta msg s e w = (Inr (step, s'), w')"
  shows "wss_hub s' = wss_hub s"
  using assms unfolding ws_message_def
  by (cases rule: with_limit_cases) (auto dest: ws_handle_hub)

lemma ws_close_hub:
  "ws_close on fault roomID c meta s e w = (Inr s', w') \<Longrightarrow>
   wss_hub s' = hub_remove roomID c (wss_hub s)"
  by (auto simp: ws_close_def Let_def prog_elims split: if_splits)

lemma broadcast_loop_hub:
  assumes "broadcast_loop write_ok roomID cs h e w = (Inr (frames, h'), w')"
    and "hub_reach own h" "\<forall>c \<in> fst ` set cs. own c = Some roomID"
  shows "hub_reach own h'"
  using assms
proof (induction cs arbitrary: h w frames h' w')
  case (Cons cm cs)
  obtain c meta where cm: "cm = (c, meta)" by fastforce
  obtain res v where run: "GetRoomState roomID (meta_userID meta) e w = (res, v)" by fastforce
  have gone: "hub_reach own (hub_remove roomID c h)"
    using Cons.prems(2,3) cm by (intro hub_step_remove) auto
  from Cons.prems(1) run cm have
    "(\<exists>fs. broadcast_loop write_ok roomID cs h e v = (Inr (fs, h'), w')) \<or>
     broadcast_loop write_ok roomID cs (hub_remove roomID c h) e v = (Inr (frames, h'), w')"
    by (cases res) (auto simp: bind_attempt bind_Inr ret_def split: if_splits)
  with Cons.IH Cons.prems(2,3) gone show ?case by fastforce
qed (simp add: ret_def)

text \<open>
  C39. Whatever order openings, messages, closings and broadcasts of an instance come in, with
  any store, clock and faults, its hub is in a state of the abstract hub: the programs of the
  connections take the hub through adding and removing only, so one connection per user holds
  in the running server.
\<close>

theorem ws_refines_hub:
  assumes "ws_reach own s"
  shows "hub_reach own (wss_hub s)"
  using assms
proof (induction rule: ws_reach.induct)
  case ws_init
  then show ?case by (simp add: hub_init)
next
  case ws_opened
  then show ?case by (metis RoomWS_hub hub_step_add opened_hub_simps(1))
next
  case ws_refused
  then show ?case by (simp add: RoomWS_hub opened_hub_other)
next
  case ws_handled
  then show ?case by (simp add: ws_message_hub)
next
  case ws_closed
  then show ?case by (simp add: ws_close_hub hub_step_remove)
next
  case (ws_sent own s cs roomID write_ok ev e w frames h w')
  from ws_sent(3) obtain fs where "broadcast_loop write_ok roomID cs (wss_hub s) e w = (Inr (fs, h), w')"
    by (auto simp: broadcastRoomStateLocal_def prog_elims)
  moreover have "own c = Some roomID" if "(c, m) \<in> set cs" for c m
  proof -
    from that ws_sent(2) have "hub_conns (wss_hub s) roomID c = Some m"
      by (auto simp: in_order_def hub_snapshot_def map_of_eq_Some_iff [symmetric])
    with hub_reach_inv [OF ws_sent.IH] show ?thesis by (simp add: hub_inv_def)
  qed
  then have "\<forall>c \<in> fst ` set cs. own c = Some roomID" by auto
  ultimately show ?case using broadcast_loop_hub ws_sent.IH by simp
qed simp

lemma sample_ws_start: "ws_reach Map.empty (sample_ws\<lparr>wss_hub := empty_hub\<rparr>)"
  by (rule ws_init) simp

theorem ws_refines_hub_witness:
  "\<exists>s' :: ws_state. hub_reach [9 \<mapsto> ''room''] (wss_hub s')
     \<and> hub_snapshot ''room'' (wss_hub s') 9 = Some \<lparr>meta_userID = ''ann'', meta_epoch = 0\<rparr>"
proof -
  let ?s = "sample_ws\<lparr>wss_hub := empty_hub\<rparr>"
  from sample_opened [of ?s] obtain who old s' w' where
    o: "RoomWS sample_controller lenient_auth sample_secret None (redis_at 0) False (None, None) ''room'' ''k''
     (Some (Some auth_frame)) 9 ?s sample_env sample_round =
     (Inr (Opened who \<lparr>meta_userID = ''ann'', meta_epoch = 0\<rparr> old, s'), w')" by blast
  have "ws_reach (Map.empty(9 \<mapsto> ''room'')) s'"
    by (rule ws_opened [OF sample_ws_start _ _ o]) simp_all
  from ws_refines_hub [OF this] have "hub_reach [9 \<mapsto> ''room''] (wss_hub s')" .
  moreover from RoomWS_hub [OF o] have "hub_snapshot ''room'' (wss_hub s') 9 = Some \<lparr>meta_userID = ''ann'', meta_epoch = 0\<rparr>"
    by (simp add: hub_snapshot_def hub_conns_add)
  ultimately show ?thesis by blast
qed

end
