(* ===== verification/Room_Sync.thy ===== *)
theory Room_Sync
  imports Ws_Session
begin

text \<open>
  Several instances of the server: the room messages between them
  (\<open>backend/realtime/room_sync.go\<close>), the broadcasts of \<open>backend/controller/room_ws_controller.go\<close> and
  the worker of \<open>backend/main.go\<close> that starts them, with the subscriber of \<open>backend/run.go\<close>. Redis
  carries messages as values before they are turned into JSON; what a subscriber sees of its
  channel is a list of events. Goroutines and the ticker are outside: a tick is one program.
\<close>

subsection \<open>Messages\<close>

record RoomSyncMessage =
  rsm_RoomID :: string
  rsm_EventType :: string
  rsm_Origin :: string

text \<open>\<open>rb_rdb\<close> says whether there is a Redis client.\<close>

record RoomSyncBroker =
  rb_rdb :: bool
  rb_serverID :: string

definition NewRoomSyncBroker :: "bool \<Rightarrow> string \<Rightarrow> RoomSyncBroker" where
  "NewRoomSyncBroker rdb serverID =
     \<lparr>rb_rdb = rdb, rb_serverID = (if serverID = [] then ''unknown'' else serverID)\<rparr>"

text \<open>What goes to the channel, and the error, which is Redis' own (\<open>fault\<close>).\<close>

definition Publish ::
    "error option \<Rightarrow> RoomSyncBroker option \<Rightarrow> string \<Rightarrow> string \<Rightarrow> RoomSyncMessage list \<times> error option" where
  "Publish fault b roomID eventType =
     (case b of
        None \<Rightarrow> ([], None)
      | Some b \<Rightarrow>
          if \<not> rb_rdb b \<or> roomID = [] then ([], None)
          else case fault of
            Some err \<Rightarrow> ([], Some err)
          | None \<Rightarrow>
              ([\<lparr>rsm_RoomID = roomID, rsm_EventType = eventType, rsm_Origin = rb_serverID b\<rparr>], None))"

text \<open>
  A subscriber waits for the end of its context, the end of its channel or a message, which may be
  nil or no JSON. It calls back for the messages of other instances; \<open>Waits\<close> is a loop that has
  handled all events so far.
\<close>

datatype sub_event = CtxDone error | ChannelClosed | NilMessage | Undecodable | Decoded RoomSyncMessage

datatype sub_end = Waits | Returns "error option"

fun subscriber_loop :: "RoomSyncBroker \<Rightarrow> sub_event list \<Rightarrow> (string \<times> string) list \<times> sub_end" where
  "subscriber_loop b [] = ([], Waits)"
| "subscriber_loop b (CtxDone err # evs) = ([], Returns (Some err))"
| "subscriber_loop b (ChannelClosed # evs) = ([], Returns None)"
| "subscriber_loop b (NilMessage # evs) = subscriber_loop b evs"
| "subscriber_loop b (Undecodable # evs) = subscriber_loop b evs"
| "subscriber_loop b (Decoded m # evs) =
     (if rsm_Origin m = rb_serverID b \<or> rsm_RoomID m = [] then subscriber_loop b evs
      else
        let ev = (if rsm_EventType m = [] then ''ROOM_STATE_SYNC'' else rsm_EventType m) in
        case subscriber_loop b evs of (calls, r) \<Rightarrow> ((rsm_RoomID m, ev) # calls, r))"

fun ctx_end :: "sub_event list \<Rightarrow> sub_end" where
  "ctx_end [] = Waits"
| "ctx_end (CtxDone err # evs) = Returns (Some err)"
| "ctx_end (_ # evs) = ctx_end evs"

definition RunSubscriber ::
    "RoomSyncBroker option \<Rightarrow> sub_event list \<Rightarrow> (string \<times> string) list \<times> sub_end" where
  "RunSubscriber b evs =
     (case b of
        None \<Rightarrow> ([], ctx_end evs)
      | Some b \<Rightarrow> if \<not> rb_rdb b then ([], ctx_end evs) else subscriber_loop b evs)"

subsection \<open>Broadcasts\<close>

text \<open>
  \<open>order\<close> is the order in which a map is read. The frames with their connections, the hub, and what
  was published.
\<close>

type_synonym frames = "(conn \<times> string \<times> RoomStateSyncPayload) list"

record sync_env =
  se_order :: "(conn \<rightharpoonup> wsConnMeta) \<Rightarrow> (conn \<times> wsConnMeta) list"
  se_write_ok :: "conn \<Rightarrow> bool"
  se_fault :: "error option"

definition BroadcastRoomStateFromPeer ::
    "sync_env \<Rightarrow> string \<Rightarrow> string \<Rightarrow> roomHub \<Rightarrow> (frames \<times> roomHub) prog" where
  "BroadcastRoomStateFromPeer se roomID eventType h =
     broadcastRoomStateLocal (se_write_ok se) roomID eventType (se_order se (hub_snapshot roomID h)) h"

definition broadcastRoomState ::
    "sync_env \<Rightarrow> RoomSyncBroker option \<Rightarrow> string \<Rightarrow> string \<Rightarrow> roomHub \<Rightarrow>
       (frames \<times> roomHub \<times> RoomSyncMessage list) prog" where
  "broadcastRoomState se b roomID eventType h =
     bind (broadcastRoomStateLocal (se_write_ok se) roomID eventType
             (se_order se (hub_snapshot roomID h)) h) (\<lambda>(frames, h).
     ret (frames, h, fst (Publish (se_fault se) b roomID eventType)))"

definition BroadcastRoomSync ::
    "sync_env \<Rightarrow> RoomSyncBroker option \<Rightarrow> string \<Rightarrow> roomHub \<Rightarrow>
       (frames \<times> roomHub \<times> RoomSyncMessage list) prog" where
  "BroadcastRoomSync se b roomID h = broadcastRoomState se b roomID ''ROOM_STATE_SYNC'' h"

text \<open>
  What a handler and a connection do with it: the room a reply names is broadcast, and so is the
  room of a message that was carried out or of a connection just opened.
\<close>

definition http_synced ::
    "sync_env \<Rightarrow> RoomSyncBroker option \<Rightarrow> reply prog \<Rightarrow> roomHub \<Rightarrow>
       (Response \<times> frames \<times> roomHub \<times> RoomSyncMessage list) prog" where
  "http_synced se b handler h =
     bind handler (\<lambda>(resp, room).
     case room of
       None \<Rightarrow> ret (resp, [], h, [])
     | Some roomID \<Rightarrow>
         bind (broadcastRoomState se b roomID ''ROOM_STATE_SYNC'' h) (\<lambda>r. ret (resp, r)))"

definition ws_broadcast ::
    "sync_env \<Rightarrow> RoomSyncBroker option \<Rightarrow> string \<Rightarrow> ws_state \<Rightarrow>
       (frames \<times> ws_state \<times> RoomSyncMessage list) prog" where
  "ws_broadcast se b roomID s =
     bind (broadcastRoomState se b roomID ''ROOM_STATE_SYNC'' (wss_hub s)) (\<lambda>(frames, h, ms).
     ret (frames, s\<lparr>wss_hub := h\<rparr>, ms))"

definition ws_synced ::
    "sync_env \<Rightarrow> RoomSyncBroker option \<Rightarrow> string \<Rightarrow> (ws_step \<times> ws_state) prog \<Rightarrow>
       (ws_step \<times> frames \<times> ws_state \<times> RoomSyncMessage list) prog" where
  "ws_synced se b roomID message =
     bind message (\<lambda>(step, s).
     if step = GoOn Broadcast then bind (ws_broadcast se b roomID s) (\<lambda>r. ret (step, r))
     else ret (step, [], s, []))"

definition RoomWS_synced ::
    "sync_env \<Rightarrow> RoomSyncBroker option \<Rightarrow> string \<Rightarrow> (ws_open \<times> ws_state) prog \<Rightarrow>
       (ws_open \<times> frames \<times> ws_state \<times> RoomSyncMessage list) prog" where
  "RoomWS_synced se b roomID opening =
     bind opening (\<lambda>(res, s).
     case res of
       Opened who meta old \<Rightarrow> bind (ws_broadcast se b roomID s) (\<lambda>r. ret (res, r))
     | _ \<Rightarrow> ret (res, [], s, []))"

text \<open>The calls of a subscriber, each handled by \<open>subscriberRoomSyncHandler\<close>.\<close>

fun handle_calls ::
    "sync_env \<Rightarrow> (string \<times> string) list \<Rightarrow> roomHub \<Rightarrow> (frames \<times> roomHub) prog" where
  "handle_calls se [] h = ret ([], h)"
| "handle_calls se ((roomID, ev) # calls) h =
     bind (BroadcastRoomStateFromPeer se roomID ev h) (\<lambda>(frames, h).
     bind (handle_calls se calls h) (\<lambda>(frames', h).
     ret (frames @ frames', h)))"

text \<open>One tick of the worker.\<close>

fun sync_rooms ::
    "sync_env \<Rightarrow> RoomSyncBroker option \<Rightarrow> string list \<Rightarrow> roomHub \<Rightarrow>
       (frames \<times> roomHub \<times> RoomSyncMessage list) prog" where
  "sync_rooms se b [] h = ret ([], h, [])"
| "sync_rooms se b (roomID # ids) h =
     bind (BroadcastRoomSync se b roomID h) (\<lambda>(frames, h, ms).
     bind (sync_rooms se b ids h) (\<lambda>(frames', h, ms').
     ret (frames @ frames', h, ms @ ms')))"

definition auto_stand_tick ::
    "sync_env \<Rightarrow> RoomSyncBroker option \<Rightarrow> roomService \<Rightarrow> roomHub \<Rightarrow>
       (frames \<times> roomHub \<times> RoomSyncMessage list) prog" where
  "auto_stand_tick se b u h =
     bind (attempt (AutoStandDueSessions u)) (\<lambda>res.
     case res of
       Inl _ \<Rightarrow> ret ([], h, [])
     | Inr roomIDs \<Rightarrow> sync_rooms se b roomIDs h)"

subsection \<open>Properties\<close>

text \<open>A broadcast never fails and changes no table.\<close>

lemma broadcast_loop_total:
  "\<exists>fs h' w'. broadcast_loop write_ok roomID cs h e w = (Inr (fs, h'), w') \<and> w_db w' = w_db w"
proof -
  have "\<exists>fs h' w'. broadcast_loop write_ok roomID cs h e w = (Inr (fs, h'), w')"
  proof (induction cs arbitrary: h w)
    case (Cons cm cs)
    obtain c meta where cm: "cm = (c, meta)" by fastforce
    obtain res v where "GetRoomState roomID (meta_userID meta) e w = (res, v)" by fastforce
    with Cons.IH [of h v] Cons.IH [of "hub_remove roomID c h" v] cm show ?case
      by (cases res) (auto simp: bind_def attempt_def ret_def)
  qed (simp add: ret_def)
  with broadcast_loop_frames show ?thesis by blast
qed

lemma broadcastRoomStateLocal_total:
  "\<exists>fs h' w'. broadcastRoomStateLocal write_ok roomID ev cs h e w = (Inr (fs, h'), w') \<and> w_db w' = w_db w"
  using broadcast_loop_total [of write_ok roomID cs h e w]
  by (auto simp: broadcastRoomStateLocal_def bind_def ret_def)

text \<open>Whatever reaches another user follows a request that succeeded.\<close>

text \<open>
  C17. Every request of the room and round API is answered, and one that is not answered with
  200 has changed no table, sent no frame to any connection and published nothing: what others
  are told follows a change that was made.
\<close>

theorem refusal_tells_nobody:
  "\<exists>resp fr h' ms w'. http_synced se b (api_handler r req userID) h e w = (Inr (resp, fr, h', ms), w')
     \<and> (rs_status resp = 200 \<or> fr = [] \<and> h' = h \<and> ms = [] \<and> w_db w' = w_db w)"
proof -
  obtain resp room v where run: "api_handler r req userID e w = (Inr (resp, room), v)"
    and kept: "rs_status resp = 200 \<or> room = None \<and> w_db v = w_db w"
    using behaved_api [of r req userID] unfolding well_behaved_def succeeded_def by blast
  show ?thesis
  proof (cases room)
    case None
    with run kept show ?thesis by (auto simp: http_synced_def bind_def ret_def)
  next
    case (Some i)
    obtain fs h1 u where "broadcastRoomStateLocal (se_write_ok se) i ''ROOM_STATE_SYNC''
        (se_order se (hub_snapshot i h)) h e v = (Inr (fs, h1), u)"
      using broadcastRoomStateLocal_total by blast
    with run kept Some show ?thesis by (auto simp: http_synced_def broadcastRoomState_def bind_def ret_def)
  qed
qed

text \<open>The instances of a cluster, each with its own id, on the same Redis.\<close>

definition cluster :: "RoomSyncBroker list \<Rightarrow> bool" where
  "cluster bs \<longleftrightarrow> distinct (map rb_serverID bs) \<and> list_all rb_rdb bs"

text \<open>
  Calls of \<open>Publish\<close> by the instances: the error of Redis, the instance, the room and the event. Those
  that go out are on the channel; the messages a subscriber gets are the decoded ones of its events.
\<close>

type_synonym announcement = "error option \<times> RoomSyncBroker \<times> string \<times> string"

definition channel :: "announcement list \<Rightarrow> RoomSyncMessage list" where
  "channel calls = concat (map (\<lambda>(fault, b, roomID, ev). fst (Publish fault (Some b) roomID ev)) calls)"

definition went_out :: "announcement \<Rightarrow> bool" where
  "went_out = (\<lambda>(fault, b, roomID, ev). fault = None \<and> roomID \<noteq> [])"

fun decoded :: "sub_event list \<Rightarrow> RoomSyncMessage list" where
  "decoded [] = []"
| "decoded (Decoded m # evs) = m # decoded evs"
| "decoded (_ # evs) = decoded evs"

definition still_open :: "sub_event list \<Rightarrow> bool" where
  "still_open evs \<longleftrightarrow> list_all (\<lambda>e. \<forall>err. e \<noteq> CtxDone err \<and> e \<noteq> ChannelClosed) evs"

lemma channel_sent:
  assumes "list_all (\<lambda>(fault, b, roomID, ev). rb_rdb b) calls"
  shows "channel calls =
    map (\<lambda>(fault, b, roomID, ev). \<lparr>rsm_RoomID = roomID, rsm_EventType = ev, rsm_Origin = rb_serverID b\<rparr>)
      (filter went_out calls)"
  using assms by (induction calls) (auto simp: channel_def Publish_def went_out_def split: option.splits if_splits)

lemma subscriber_loop_decoded:
  "still_open evs \<Longrightarrow> fst (subscriber_loop b evs) = fst (subscriber_loop b (map Decoded (decoded evs)))"
  by (induction b evs rule: subscriber_loop.induct) (auto simp: still_open_def Let_def split: prod.splits)

lemma subscriber_loop_others:
  assumes "list_all (\<lambda>m. rsm_RoomID m \<noteq> [] \<and> rsm_EventType m \<noteq> []) ms"
  shows "fst (subscriber_loop b (map Decoded ms)) =
    map (\<lambda>m. (rsm_RoomID m, rsm_EventType m)) (filter (\<lambda>m. rsm_Origin m \<noteq> rb_serverID b) ms)"
  using assms by (induction ms) (auto simp: Let_def split: prod.splits)

lemma set_nths_filter: "x \<in> set (nths (filter P xs) N) \<Longrightarrow> x \<in> set xs \<and> P x"
  using notin_set_nthsI [of x "filter P xs" N] by auto

text \<open>
  C21. Instances with distinct server ids publish room events; Redis delivers each of them to
  a subscriber at most once, may lose some, and may carry messages that do not decode.
  Whichever of the published events reach an instance, it handles exactly those of the other
  instances, each once and in the order they arrive, and never one of its own.
\<close>

theorem delivered_event_handled_once:
  assumes "cluster bs" "b' \<in> set bs" "list_all (\<lambda>(fault, b, roomID, ev). b \<in> set bs \<and> ev \<noteq> []) calls"
    and "still_open evs" "decoded evs = nths (channel calls) N"
  shows "fst (RunSubscriber (Some b') evs) =
    map (\<lambda>(fault, b, roomID, ev). (roomID, ev))
      (filter (\<lambda>(fault, b, roomID, ev). b \<noteq> b') (nths (filter went_out calls) N))"
proof -
  have rdb: "rb_rdb b" if "b \<in> set bs" for b using assms(1) that by (auto simp: cluster_def list_all_iff)
  have ids: "rb_serverID b = rb_serverID b' \<longleftrightarrow> b = b'" if "b \<in> set bs" for b
    using assms(1,2) that by (auto simp: cluster_def distinct_map dest: inj_onD)
  let ?sent = "nths (filter went_out calls) N"
  let ?msg = "\<lambda>(fault :: error option, b, roomID, ev). \<lparr>rsm_RoomID = roomID, rsm_EventType = ev, rsm_Origin = rb_serverID b\<rparr>"
  have sent: "b \<in> set bs \<and> ev \<noteq> [] \<and> roomID \<noteq> []" if "(fault, b, roomID, ev) \<in> set ?sent" for fault b roomID ev
    using set_nths_filter [OF that] assms(3) by (auto simp: list_all_iff went_out_def)
  have "list_all (\<lambda>(fault, b, roomID, ev). rb_rdb b) calls" using assms(3) rdb by (auto simp: list_all_iff)
  then have ms: "decoded evs = map ?msg ?sent" using assms(5) by (simp add: channel_sent nths_map)
  have "fst (RunSubscriber (Some b') evs) = fst (subscriber_loop b' (map Decoded (map ?msg ?sent)))"
    using subscriber_loop_decoded [OF assms(4), of b'] rdb [OF assms(2)] ms by (simp add: RunSubscriber_def)
  also have "\<dots> = map (\<lambda>m. (rsm_RoomID m, rsm_EventType m))
      (filter (\<lambda>m. rsm_Origin m \<noteq> rb_serverID b') (map ?msg ?sent))"
    by (rule subscriber_loop_others) (auto simp: list_all_iff dest: sent)
  also have "\<dots> = map (\<lambda>(fault, b, roomID, ev). (roomID, ev)) (filter (\<lambda>(fault, b, roomID, ev). b \<noteq> b') ?sent)"
    using sent ids by (auto simp: filter_map o_def split_def intro!: map_cong filter_cong) 
  finally show ?thesis .
qed

text \<open>Of three events, the second one its own and the third one lost, an instance handles the first.\<close>

theorem delivered_event_handled_once_witness:
  "let a = NewRoomSyncBroker True ''a''; b = NewRoomSyncBroker True ''b'';
       calls = [(None, a, ''room'', ''GAME_SYNC''), (None, b, ''room'', ''GAME_SYNC''), (None, a, ''other'', ''GAME_SYNC'')]
   in fst (RunSubscriber (Some b) (NilMessage # map Decoded (nths (channel calls) {0, 1}))) = [(''room'', ''GAME_SYNC'')]"
proof -
  let ?a = "NewRoomSyncBroker True ''a''" and ?b = "NewRoomSyncBroker True ''b''"
  let ?calls = "[(None, ?a, ''room'', ''GAME_SYNC''), (None, ?b, ''room'', ''GAME_SYNC''), (None, ?a, ''other'', ''GAME_SYNC'')]
      :: announcement list"
  let ?evs = "NilMessage # map Decoded (nths (channel ?calls) {0, 1})"
  have c: "cluster [?a, ?b]" by (simp add: cluster_def NewRoomSyncBroker_def)
  have d: "decoded (map Decoded ms) = ms" for ms by (induction ms) simp_all
  have n: "nths (filter went_out ?calls) {0, 1} = take 2 ?calls"
    by (simp add: went_out_def nths_Cons numeral_2_eq_2)
  from delivered_event_handled_once [OF c, of ?b ?calls ?evs "{0, 1}"] n
  show ?thesis by (auto simp: d still_open_def list_all_iff NewRoomSyncBroker_def)
qed

lemma sync_rooms_published:
  assumes "rb_rdb b" "se_fault se = None" "[] \<notin> set ids"
  shows "\<exists>fs h' ms w'. sync_rooms se (Some b) ids h e w = (Inr (fs, h', ms), w')
     \<and> w_db w' = w_db w \<and> map rsm_RoomID ms = ids \<and> (\<forall>m \<in> set ms. rsm_Origin m = rb_serverID b)"
  using assms(3)
proof (induction ids arbitrary: h w)
  case (Cons roomID ids)
  obtain fs h1 v where r: "broadcastRoomStateLocal (se_write_ok se) roomID ''ROOM_STATE_SYNC''
      (se_order se (hub_snapshot roomID h)) h e w = (Inr (fs, h1), v)" "w_db v = w_db w"
    using broadcastRoomStateLocal_total by blast
  from Cons obtain fs' h' ms w' where "sync_rooms se (Some b) ids h1 e v = (Inr (fs', h', ms), w')"
    "w_db w' = w_db v" "map rsm_RoomID ms = ids" "\<forall>m \<in> set ms. rsm_Origin m = rb_serverID b"
    by (metis list.set_intros(2))
  with r assms(1,2) Cons.prems show ?case
    by (auto simp: BroadcastRoomSync_def broadcastRoomState_def bind_def ret_def Publish_def)
qed (simp add: ret_def)

theorem worker_tick_publishes:
  assumes "AutoStandDueSessions u e w = (Inr ids, v)" "[] \<notin> set ids" "rb_rdb b" "se_fault se = None"
  shows "\<exists>fs h' ms w'. auto_stand_tick se (Some b) u h e w = (Inr (fs, h', ms), w')
     \<and> w_db w' = w_db v \<and> map rsm_RoomID ms = ids"
proof -
  from sync_rooms_published [OF assms(3,4,2), of h e v] obtain fs h' ms w' where
    "sync_rooms se (Some b) ids h e v = (Inr (fs, h', ms), w')" "w_db w' = w_db v" "map rsm_RoomID ms = ids"
    by blast
  with assms(1) show ?thesis by (simp add: auto_stand_tick_def bind_attempt)
qed

lemma sample_pass:
  "\<exists>v. AutoStandDueSessions (svc reference_lib) sample_env sample_stale = (Inr [''room''], v)"
proof -
  let ?s = "sample_session\<lparr>sess_Status := SessionStatusResetting, sess_RematchDeadlineAt := Some 20\<rparr>"
  have g: "gs_Status (gameSessionRecordFromDomain ?s) = SessionStatus_str SessionStatusResetting"
    "gs_RematchDeadlineAt (gameSessionRecordFromDomain ?s) = Some 20"
    by (simp_all add: gameSessionRecordFromDomain_def)
  have t: "gameSessionRecordToDomain (gameSessionRecordFromDomain ?s) = Inr ?s"
    by (simp add: row_roundtrips)
  have l: "ListSessionsByStatusAndDeadlineBefore SessionStatusPlayerTurn t (w_db sample_stale) = Inr []"
    "ListSessionsByStatus SessionStatusDealerTurn (w_db sample_stale) = Inr []"
    "50 < t \<Longrightarrow> ListResettingSessionsDueBy t (w_db sample_stale) = Inr [?s]" for t
    using g t by (simp_all add: ListSessionsByStatusAndDeadlineBefore_def ListSessionsByStatus_def
        ListResettingSessionsDueBy_def sample_stale_def due_def)
  have r: "GetSessionForUpdate ''r1'' (w_db sample_stale) = Inr ?s" "GetRoom ''room'' (w_db sample_stale) = Inr sample_room"
    "sess_ID ?s = ''r1''" "sess_RoomID ?s = ''room''" "room_CurrentSessionID sample_room = None"
    by (simp_all add: sample_stale_def GetSession_def GetSessionForUpdate_eq GetRoom_def gorm_First_def row_roundtrips sample_room_def)
  have f: "env_fault sample_env n = None" "env_now sample_env n = int n + 1" "w_calls sample_stale = 50" for n
    by (simp_all add: sample_env_def sample_stale_def)
  show ?thesis
    by (simp add: AutoStandDueSessions_def bind_def io_now_def store_read_def store_op_def ret_def f l r
        worker_step_def attempt_def processRematchDeadline_def transaction_def due_def note_room_def)
qed

theorem worker_tick_publishes_witness:
  "\<exists>fs h' m w'. auto_stand_tick \<lparr>se_order = (\<lambda>_. []), se_write_ok = (\<lambda>_. True), se_fault = None\<rparr>
      (Some (NewRoomSyncBroker True ''a'')) (svc reference_lib) empty_hub sample_env sample_stale
    = (Inr (fs, h', [m]), w') \<and> rsm_RoomID m = ''room''"
proof -
  from sample_pass obtain v where p:
    "AutoStandDueSessions (svc reference_lib) sample_env sample_stale = (Inr [''room''], v)" by blast
  have b: "rb_rdb (NewRoomSyncBroker True ''a'')" by (simp add: NewRoomSyncBroker_def)
  from worker_tick_publishes [OF p _ b,
      of "\<lparr>se_order = (\<lambda>_. []), se_write_ok = (\<lambda>_. True), se_fault = None\<rparr>" empty_hub]
  show ?thesis by (auto simp: map_eq_Cons_conv)
qed

end
