(* ===== verification/Ws_Audit.thy ===== *)
theory Ws_Audit
  imports Ws_Server Room_Sync
begin

text \<open>
  What is written down about WebSockets: the frames and their latency, the audit line of a message
  (\<open>backend/controller/ws_audit.go\<close>), the counters and the context of an opening
  (\<open>room_ws_controller.go\<close>), and the chain of middlewares of the route. The programs of \<open>Ws_Session\<close>
  come back with their notes.
\<close>

subsection \<open>Frames\<close>

record WSErrorBody =
  eb_Code :: string
  eb_Message :: string
  eb_RetryAfterMS :: "int option"

record WSErrorEvent =
  we_Type :: string
  we_Error :: WSErrorBody

record WSRoomStateSyncEvent =
  ws_Type :: string
  ws_Data :: RoomStateSyncPayload

datatype ws_frame = ErrorFrame WSErrorEvent | PongFrame | StateFrame WSRoomStateSyncEvent

text \<open>The clock is read for the start, the write deadline and the end; \<open>write_ok\<close> is the socket's answer.\<close>

definition writeWS :: "(conn \<Rightarrow> bool) \<Rightarrow> conn \<Rightarrow> ws_frame \<Rightarrow> telemetry \<Rightarrow> ((conn \<times> ws_frame) list \<times> telemetry) prog" where
  "writeWS write_ok c payload t =
     bind io_now (\<lambda>start.
     bind io_now (\<lambda>_.
     bind io_now (\<lambda>finished.
     ret (if write_ok c then [(c, payload)] else [],
          t\<lparr>tl_calls := ObserveWSSendLatency (Seconds (finished - start)) (tl_calls t)\<rparr>))))"

definition sendWSErrorWithRetryPtr ::
    "(conn \<Rightarrow> bool) \<Rightarrow> conn \<Rightarrow> string \<Rightarrow> string \<Rightarrow> int option \<Rightarrow> telemetry \<Rightarrow>
       ((conn \<times> ws_frame) list \<times> telemetry) prog" where
  "sendWSErrorWithRetryPtr write_ok c code message retryAfterMS =
     writeWS write_ok c (ErrorFrame
       \<lparr>we_Type = ''ERROR'',
        we_Error = \<lparr>eb_Code = code, eb_Message = message, eb_RetryAfterMS = retryAfterMS\<rparr>\<rparr>)"

definition sendWSPong :: "(conn \<Rightarrow> bool) \<Rightarrow> conn \<Rightarrow> telemetry \<Rightarrow> ((conn \<times> ws_frame) list \<times> telemetry) prog" where
  "sendWSPong write_ok c = writeWS write_ok c PongFrame"

text \<open>The frame an outcome of \<open>Ws_Session\<close> stands for; a broadcast sends its own.\<close>

definition send_outcome ::
    "(conn \<Rightarrow> bool) \<Rightarrow> conn \<Rightarrow> ws_outcome \<Rightarrow> telemetry \<Rightarrow> ((conn \<times> ws_frame) list \<times> telemetry) prog" where
  "send_outcome write_ok c out t =
     (case out of
        SendError code message retry \<Rightarrow> sendWSErrorWithRetryPtr write_ok c code message retry t
      | SendPong \<Rightarrow> sendWSPong write_ok c t
      | Broadcast \<Rightarrow> ret ([], t))"

subsection \<open>The line of a message\<close>

record WsAuditLogContext =
  wl_RequestID :: string
  wl_SessionID :: string \<comment> \<open>the \<open>jti\<close> of the token\<close>

definition logWSEvent ::
    "WsAuditLogContext option \<Rightarrow> WSActionRequest \<Rightarrow> string \<Rightarrow> string \<Rightarrow> string option \<Rightarrow> int option \<Rightarrow> int option \<Rightarrow>
       time \<Rightarrow> string \<Rightarrow> string \<Rightarrow> (string \<times> audit_value) list \<Rightarrow> telemetry \<Rightarrow> telemetry prog" where
  "logWSEvent ws req roomID userID gameSessionID before after start result errorCode extra t =
     (case ws of
        None \<Rightarrow> ret t
      | Some ws \<Rightarrow>
          let reqID = (if wr_RequestID req = [] then wl_RequestID ws else wr_RequestID req) in
          bind io_now (\<lambda>now.
          let entry = BuildEntry start reqID (wr_ActionID req) roomID (Some (wl_SessionID ws)) gameSessionID
                userID ''USER'' (''WS '' @ wr_Type req) before after (Milliseconds (now - start))
                result errorCode extra in
          bind io_now (\<lambda>now.
          ret (t\<lparr>tl_log := tl_log t @ [entry],
                 tl_calls := ObserveWSMessage (wr_Type req) result (Seconds (now - start)) (tl_calls t)\<rparr>))))"

definition ws_mutation_audited ::
    "RoomController \<Rightarrow> WsAuditLogContext option \<Rightarrow> WSActionRequest \<Rightarrow> string \<Rightarrow> string \<Rightarrow> time \<Rightarrow>
       (Room \<times> GameSession) prog \<Rightarrow> telemetry \<Rightarrow> (ws_outcome \<times> telemetry) prog" where
  "ws_mutation_audited r ws req roomID userID msgStart call t =
     bind (attempt call) (\<lambda>res.
     let ev = Some (wr_ExpectedVersion req) in
     case res of
       Inl err \<Rightarrow>
         (case mapWSError r err of (code, message) \<Rightarrow>
            let t = t\<lparr>tl_calls := count_error err (tl_calls t)\<rparr> in
            bind (logWSEvent ws req roomID userID None ev ev msgStart ''failure'' code [] t) (\<lambda>t.
            ret (SendError code message None, t)))
     | Inr (_, sess) \<Rightarrow>
         bind (logWSEvent ws req roomID userID (Some (sess_ID sess)) ev (Some (sess_Version sess)) msgStart
             ''success'' [] [] t) (\<lambda>t.
         ret (Broadcast, t)))"

definition handleGameWSAction_audited ::
    "RoomController \<Rightarrow> WsAuditLogContext option \<Rightarrow> WSActionRequest \<Rightarrow> string \<Rightarrow> string \<Rightarrow> time \<Rightarrow>
       telemetry \<Rightarrow> (ws_outcome \<times> telemetry) prog" where
  "handleGameWSAction_audited r ws req roomID userID msgStart t =
     (let missing = wr_ActionID req = [] \<or> wr_ExpectedVersion req \<le> 0;
          refuse = (\<lambda>message. ret (SendError ''invalid_input'' message None, t));
          log = (\<lambda>result code out.
            bind (logWSEvent ws req roomID userID None None None msgStart result code [] t) (\<lambda>t. ret (out, t)));
          mutation = (\<lambda>call. ws_mutation_audited r ws req roomID userID msgStart call t)
      in if wr_Type req = ''HIT'' then
           if missing then refuse ''action_id and expected_version are required''
           else mutation (Hit (rc_room r) roomID userID (wr_ExpectedVersion req) (wr_ActionID req))
         else if wr_Type req = ''STAND'' then
           if missing then refuse ''action_id and expected_version are required''
           else mutation (Stand (rc_room r) roomID userID (wr_ExpectedVersion req) (wr_ActionID req))
         else if wr_Type req = ''REMATCH_VOTE'' then
           case wr_Agree req of
             None \<Rightarrow> refuse ''agree, action_id and expected_version are required''
           | Some agree \<Rightarrow>
               if missing then refuse ''agree, action_id and expected_version are required''
               else
                 mutation (VoteRematch (rc_room r) roomID userID agree (wr_ExpectedVersion req)
                   (wr_ActionID req))
         else if wr_Type req = ''ROOM_SYNC_REQUEST'' then log ''success'' [] Broadcast
         else if wr_Type req = ''PING'' then log ''success'' [] SendPong
         else log ''failure'' ''invalid_input''
           (SendError ''invalid_input'' ''unsupported ws event type'' None))"

definition ws_handle_audited ::
    "RoomController \<Rightarrow> WsAuditLogContext option \<Rightarrow> bool \<Rightarrow> error option \<Rightarrow> error option \<Rightarrow> string \<Rightarrow> wsConnMeta \<Rightarrow>
       time \<Rightarrow> WSActionRequest option \<Rightarrow> telemetry \<Rightarrow> ws_state \<Rightarrow> ((ws_step \<times> telemetry) \<times> ws_state) prog" where
  "ws_handle_audited r ws on fault1 fault2 roomID meta msgStart msg t s =
     (case msg of
        None \<Rightarrow> ret ((GoOn (SendError ''invalid_input'' ''invalid message payload'' None), t), s)
      | Some req \<Rightarrow>
          (case epoch_gate on fault1 fault2 roomID (meta_userID meta) meta (wss_redis s) of
             (g, rd) \<Rightarrow>
               let s = s\<lparr>wss_redis := rd\<rparr> in
               (case g of
                  InternalError err \<Rightarrow>
                    ret ((GoOn (SendError ''internal_error'' (error_text (rc_pg_text r) err) None), t), s)
                | Superseded \<Rightarrow>
                    bind (logWSEvent ws req roomID (meta_userID meta) None None None msgStart ''failure''
                        ''forbidden''
                        [(''audit_event'', Text ''WS_CONNECTION_EPOCH_SUPERSEDED''),
                         (''connection_epoch'', Number (meta_epoch meta))] t) (\<lambda>t.
                    ret ((EndWith (SendError ''forbidden'' ''stale websocket connection'' None), t), s))
                | Handle \<Rightarrow>
                    bind (handleGameWSAction_audited r ws req roomID (meta_userID meta) msgStart t) (\<lambda>(out, t).
                    ret ((GoOn out, t), s)))))"

text \<open>One pass of the receive loop, with the frame it sends.\<close>

definition ws_message_audited ::
    "RoomController \<Rightarrow> rateLimitService option \<Rightarrow> redis_env \<Rightarrow> WsAuditLogContext option \<Rightarrow> bool \<Rightarrow>
       error option \<Rightarrow> error option \<Rightarrow> string \<Rightarrow> wsConnMeta \<Rightarrow> (conn \<Rightarrow> bool) \<Rightarrow> conn \<Rightarrow> WSActionRequest option \<Rightarrow>
       telemetry \<Rightarrow> ws_state \<Rightarrow> ((ws_step \<times> (conn \<times> ws_frame) list \<times> telemetry) \<times> ws_state) prog" where
  "ws_message_audited r limiter re ws on fault1 fault2 roomID meta write_ok c msg t s =
     bind io_now (\<lambda>msgStart.
     bind (with_limit limiter re (''ws:'' @ meta_userID meta)
         (\<lambda>err. (GoOn (SendError ''internal_error'' (error_text (rc_pg_text r) err) None), t))
         (\<lambda>ms. (GoOn (SendError ''rate_limited'' ''too many requests'' (Some ms)), t))
         (ws_handle_audited r ws on fault1 fault2 roomID meta msgStart msg t) s) (\<lambda>((step, t), s).
     bind (send_outcome write_ok c (case step of GoOn out \<Rightarrow> out | EndWith out \<Rightarrow> out) t) (\<lambda>(frames, t).
     ret ((step, frames, t), s))))"

subsection \<open>Opening and closing\<close>

text \<open>The counters of a connection in the hub, and what its opening leaves in the context.\<close>

definition opened_notes :: "ws_identity \<Rightarrow> wsConnMeta \<Rightarrow> conn option \<Rightarrow> telemetry \<Rightarrow> telemetry" where
  "opened_notes who meta old t =
     (let m = IncActiveWSConnections (tl_calls t);
          m = (case old of None \<Rightarrow> m | Some _ \<Rightarrow> IncReconnect m);
          c = SetAuditGameSessionID (map_option sess_ID (wi_sess who)) (tl_context t);
          c = SetAuditExtra
                [(''audit_event'', Text ''WS_CONNECTION_EPOCH_ASSIGNED''),
                 (''connection_epoch'', Number (meta_epoch meta))] c
      in t\<lparr>tl_calls := m, tl_context := c\<rparr>)"

text \<open>The line of the \<open>AUTH\<close> message, after the broadcast.\<close>

definition opened_log ::
    "string \<Rightarrow> ws_identity \<Rightarrow> WSAuthMessage option option \<Rightarrow> time \<Rightarrow> telemetry \<Rightarrow> telemetry prog" where
  "opened_log roomID who first authFrameStart t =
     (let reqID = (case first of Some (Some msg) \<Rightarrow> wa_RequestID msg | _ \<Rightarrow> []);
          audit = \<lparr>wl_RequestID = cx_RequestID (tl_context t), wl_SessionID = wi_jti who\<rparr>;
          req = \<lparr>wr_Type = ''AUTH'', wr_RequestID = reqID, wr_ActionID = [], wr_ExpectedVersion = 0,
                 wr_Agree = None\<rparr>
      in logWSEvent (Some audit) req roomID (wi_userID who) None None None authFrameStart ''success'' [] [] t)"

type_synonym ws_opening = "ws_open \<times> frames \<times> ws_state \<times> RoomSyncMessage list"

text \<open>\<open>authFrameStart\<close> is the time of the upgrade.\<close>

definition RoomWS_audited ::
    "string \<Rightarrow> WSAuthMessage option option \<Rightarrow> time \<Rightarrow> ws_opening prog \<Rightarrow> (telemetry, ws_opening) observed" where
  "RoomWS_audited roomID first authFrameStart opening_run t =
     bind opening_run (\<lambda>(res, rest).
     case res of
       Opened who meta old \<Rightarrow>
         bind (opened_log roomID who first authFrameStart (opened_notes who meta old t)) (\<lambda>t.
         ret (Inr (res, rest), t))
     | _ \<Rightarrow> ret (Inr (res, rest), t))"

definition ws_close_audited ::
    "bool \<Rightarrow> error option \<Rightarrow> string \<Rightarrow> conn \<Rightarrow> wsConnMeta \<Rightarrow> telemetry \<Rightarrow> ws_state \<Rightarrow> (telemetry \<times> ws_state) prog" where
  "ws_close_audited on fault roomID c meta t s =
     bind (ws_close on fault roomID c meta s) (\<lambda>s.
     ret (t\<lparr>tl_calls := DecActiveWSConnections (tl_calls t)\<rparr>, s))"

subsection \<open>The route\<close>

text \<open>A connection that was upgraded has no response written by the handler.\<close>

definition ws_answer :: "ws_open \<Rightarrow> Response" where
  "ws_answer res =
     (case res of
        Rejected resp \<Rightarrow> resp
      | _ \<Rightarrow> \<lparr>rs_status = 0, rs_RetryAfterMs = None, rs_body = OK EmptyData\<rparr>)"

definition ws_group ::
    "api_config \<Rightarrow> http_request \<Rightarrow> bool \<Rightarrow> (telemetry, ws_open \<times> 'a) observed \<Rightarrow> 'a \<Rightarrow>
       (telemetry, ws_open \<times> 'a) observed" where
  "ws_group cfg rq broken handler idle =
     HTTPTelemetryMiddleware rq (ws_answer \<circ> fst)
      (RequestIDMiddleware rq
        (obind (oact io_now) (\<lambda>now.
         case AuthMiddleware (ac_extract cfg) (ac_auth cfg) (ac_secret cfg) now rq of
           Inl resp \<Rightarrow> oret (Rejected resp, idle)
         | Inr token \<Rightarrow>
             obind (in_context (setAuthContextFromToken token)) (\<lambda>_.
             AuditLogMiddleware rq broken (ws_answer \<circ> fst) handler))))"

lemma RoomWS_audited_opened:
  "RoomWS_audited roomID first start op t e w = (Inr (Inr (Opened who meta old, rest), t'), w') \<longleftrightarrow>
     (\<exists>v. op e w = (Inr (Opened who meta old, rest), v)
        \<and> opened_log roomID who first start (opened_notes who meta old t) e v = (Inr t', w'))"
proof -
  obtain q v where "op e w = (q, v)" by fastforce
  then show ?thesis
    by (cases q; cases "fst (projr q)")
      (auto simp: RoomWS_audited_def bind_def ret_def split: prod.splits sum.splits ws_open.splits)
qed

theorem epoch_line_names_nobody:
  assumes "ws_group cfg rq False (RoomWS_audited (hq_Param_id rq) first start opening_run) idle t e w =
      (Inr (Inr (Opened who meta old, rest), t'), w')"
    and "hq_Path rq = ''/ws/rooms/:id''" "tl_context t = empty_context"
  shows "\<exists>auth line. tl_log t' = tl_log t @ [auth, line]
     \<and> auth ''user_id'' = Some (Text (wi_userID who)) \<and> auth ''session_id'' = Some (Text (wi_jti who))
     \<and> line ''audit_event'' = Some (Text ''WS_CONNECTION_EPOCH_ASSIGNED'')
     \<and> line ''connection_epoch'' = Some (Number (meta_epoch meta))
     \<and> line ''user_id'' = Some (Text []) \<and> line ''session_id'' = Some Null"
proof -
  have auth: "AuthMiddleware x l k now rq = Inr None" for x l k now
    using assms(2) by (simp add: AuthMiddleware_def skipJWTAuth_def)
  from assms(1) obtain t1 v t2 v' start' finished where
    run: "RoomWS_audited (hq_Param_id rq) first start opening_run t1 e v = (Inr (Inr (Opened who meta old, rest), t2), v')"
    and t1: "cx_UserID (tl_context t1) = []" "cx_SessionID (tl_context t1) = None" "tl_log t1 = tl_log t"
    and log: "tl_log t' = tl_log t2 @ [audit_entry_of rq False start' finished
        (ws_answer (Opened who meta old)) (tl_context t2)]"
    using assms(3)
    by (auto simp: ws_group_def HTTPTelemetryMiddleware_def RequestIDMiddleware_def AuditLogMiddleware_def auth
        prog_elims setAuthContextFromToken_def empty_context_def split: if_splits)
  from run obtain u u' where
    l: "opened_log (hq_Param_id rq) who first start (opened_notes who meta old t1) e u = (Inr t2, u')"
    by (auto simp: RoomWS_audited_opened)
  then obtain auth where a: "tl_log t2 = tl_log t1 @ [auth]"
    "auth ''user_id'' = Some (Text (wi_userID who))" "auth ''session_id'' = Some (Text (wi_jti who))"
    and c: "tl_context t2 = tl_context (opened_notes who meta old t1)"
    by (auto simp: opened_log_def logWSEvent_def opened_notes_def Let_def prog_elims)
  have extra: "cx_Extra (tl_context t2) = [(''audit_event'', Text ''WS_CONNECTION_EPOCH_ASSIGNED''),
      (''connection_epoch'', Number (meta_epoch meta))]"
    "cx_UserID (tl_context t2) = []" "cx_SessionID (tl_context t2) = None"
    by (simp_all add: c opened_notes_def SetAuditExtra_def SetAuditGameSessionID_def t1 Let_def)
  show ?thesis
    using a t1(3) by (simp add: log audit_entry_of_def extra Let_def split_def)
qed

subsection \<open>The gauge of active connections\<close>

text \<open>
  The runs of \<open>Ws_Server\<close> with their notes: \<open>alive\<close> has the connections whose receive loop runs. What
  else is sent (broadcasts) adds latencies.
\<close>

definition latencies :: "metrics \<Rightarrow> bool" where
  "latencies m \<longleftrightarrow> (\<forall>x \<in> set m. \<exists>d. x = Observe ''blackjack_ws_send_latency_seconds'' [] d)"

inductive ws_run :: "(conn \<rightharpoonup> string) \<Rightarrow> conn set \<Rightarrow> ws_state \<Rightarrow> telemetry \<Rightarrow> bool" where
  run_init: "wss_hub s = empty_hub \<Longrightarrow> tl_calls t = [] \<Longrightarrow> ws_run Map.empty {} s t"
| run_opened: "ws_run own alive s t \<Longrightarrow> own c = None \<Longrightarrow> CHR '':'' \<notin> set roomID \<Longrightarrow>
    RoomWS_audited roomID first start
      (RoomWS_synced se b roomID (RoomWS r lib secret limiter re on fault roomID preKey first c s)) t e w =
      (Inr (Inr (Opened who meta old, frames, s', ms), t'), w') \<Longrightarrow>
    ws_run (own(c \<mapsto> roomID)) (insert c alive) s' t'"
| run_refused: "ws_run own alive s t \<Longrightarrow>
    RoomWS r lib secret limiter re on fault roomID preKey first c s e w = (Inr (res, s'), w') \<Longrightarrow>
    \<forall>who meta old. res \<noteq> Opened who meta old \<Longrightarrow> ws_run own alive s' t"
| run_message: "ws_run own alive s t \<Longrightarrow> c \<in> alive \<Longrightarrow>
    ws_message_audited r limiter re ws on fault1 fault2 roomID meta write_ok c msg t s e w =
      (Inr ((step, frames, t'), s'), w') \<Longrightarrow> ws_run own alive s' t'"
| run_closed: "ws_run own alive s t \<Longrightarrow> c \<in> alive \<Longrightarrow> own c = Some roomID \<Longrightarrow>
    ws_close_audited on fault roomID c meta t s e w = (Inr (t', s'), w') \<Longrightarrow>
    ws_run own (alive - {c}) s' t'"
| run_sent: "ws_run own alive s t \<Longrightarrow>
    ws_broadcast se b roomID s e w = (Inr (frames, s', ms), w') \<Longrightarrow> latencies m \<Longrightarrow>
    ws_run own alive s' (t\<lparr>tl_calls := tl_calls t @ m\<rparr>)"
| run_elsewhere: "ws_run own alive s t \<Longrightarrow> ws_run own alive (s\<lparr>wss_redis := rd, wss_buckets := bs\<rparr>) t"

abbreviation active :: "telemetry \<Rightarrow> int" where
  "active t \<equiv> gauge_moves ''blackjack_active_ws_connections'' (tl_calls t)"

text \<open>Every registered connection is alive, in the room it was opened for.\<close>

definition registered_live :: "(conn \<rightharpoonup> string) \<Rightarrow> conn set \<Rightarrow> roomHub \<Rightarrow> bool" where
  "registered_live own alive h \<longleftrightarrow> (\<forall>room c m. hub_conns h room c = Some m \<longrightarrow> c \<in> alive \<and> own c = Some room)"

definition hub_within :: "roomHub \<Rightarrow> roomHub \<Rightarrow> bool" where
  "hub_within h' h \<longleftrightarrow> (\<forall>room c m. hub_conns h' room c = Some m \<longrightarrow> hub_conns h room c = Some m)"

lemma hub_within_refl: "hub_within h h"
  by (simp add: hub_within_def)

lemma hub_within_trans: "hub_within h h1 \<Longrightarrow> hub_within h1 h2 \<Longrightarrow> hub_within h h2"
  by (auto simp: hub_within_def)

lemma hub_conns_remove:
  "hub_conns (hub_remove roomID c h) r = (if r = roomID then (hub_conns h r)(c := None) else hub_conns h r)"
  by (auto simp: hub_remove_def hub_conns_def Let_def fun_eq_iff split: option.splits)

lemma hub_within_remove: "hub_within (hub_remove roomID c h) h"
  by (simp add: hub_within_def hub_conns_remove)

lemma registered_within: "registered_live own alive h \<Longrightarrow> hub_within h' h \<Longrightarrow> registered_live own alive h'"
  unfolding registered_live_def hub_within_def by blast

lemma broadcast_within:
  "broadcast_loop write_ok roomID cs h e w = (Inr (frames, h'), w') \<Longrightarrow> hub_within h' h"
proof (induction cs arbitrary: h w frames h' w')
  case Nil
  then show ?case by (simp add: ret_def hub_within_refl)
next
  case (Cons cm cs)
  obtain c meta where cm: "cm = (c, meta)" by fastforce
  obtain res v where run: "GetRoomState roomID (meta_userID meta) e w = (res, v)" by fastforce
  from Cons.prems run cm have
    "(\<exists>fs. broadcast_loop write_ok roomID cs h e v = (Inr (fs, h'), w')) \<or>
     broadcast_loop write_ok roomID cs (hub_remove roomID c h) e v = (Inr (frames, h'), w')"
    by (cases res) (auto simp: bind_attempt bind_Inr ret_def split: if_splits)
  then show ?case using Cons.IH hub_within_trans [OF _ hub_within_remove] by blast
qed

lemma ws_broadcast_within:
  "ws_broadcast se b roomID s e w = (Inr (frames, s', ms), w') \<Longrightarrow> hub_within (wss_hub s') (wss_hub s)"
  by (auto simp: ws_broadcast_def broadcastRoomState_def broadcastRoomStateLocal_def prog_elims
      dest: broadcast_within)

lemma registered_add:
  assumes "registered_live own alive h" "own c = None"
  shows "registered_live (own(c \<mapsto> roomID)) (insert c alive) (fst (hub_add roomID c meta h))"
proof -
  have "hub_conns h room c = None" for room
    using assms unfolding registered_live_def by (metis not_None_eq)
  with assms(1) show ?thesis
    by (auto simp: registered_live_def hub_conns_add split: if_splits option.splits)
qed

lemma registered_remove:
  assumes "registered_live own alive h" "own c = Some roomID"
  shows "registered_live own (alive - {c}) (hub_remove roomID c h)"
proof -
  have "room = roomID" if "hub_conns h room c = Some m" for room m
    using assms that unfolding registered_live_def by fastforce
  with assms(1) show ?thesis
    unfolding registered_live_def hub_conns_remove by (auto split: if_splits)
qed

lemma logWSEvent_active:
  "logWSEvent ws req roomID userID g b a start res code extra t e w = (Inr t', w') \<Longrightarrow> active t' = active t"
  by (auto simp: logWSEvent_def prog_elims ObserveWSMessage_def Let_def split: option.splits)

lemma count_error_active: "gauge_moves ''blackjack_active_ws_connections'' (count_error err m) =
    gauge_moves ''blackjack_active_ws_connections'' m"
  by (simp add: count_error_def IncVersionConflict_def IncDuplicateAction_def)

lemma send_outcome_active:
  "send_outcome write_ok c out t e w = (Inr (frames, t'), w') \<Longrightarrow> active t' = active t"
  by (auto simp: send_outcome_def sendWSErrorWithRetryPtr_def sendWSPong_def writeWS_def prog_elims
      ObserveWSSendLatency_def split: ws_outcome.splits)

lemma mutation_active:
  "ws_mutation_audited r ws req roomID userID start call t e w = (Inr (out, t'), w') \<Longrightarrow> active t' = active t"
  by (cases "call e w"; cases "fst (call e w)")
    (auto simp: ws_mutation_audited_def bind_attempt prog_elims Let_def count_error_active
      dest!: logWSEvent_active split: prod.splits)

lemma action_active:
  "handleGameWSAction_audited r ws req roomID userID start t e w = (Inr (out, t'), w') \<Longrightarrow> active t' = active t"
  by (auto simp: handleGameWSAction_audited_def prog_elims Let_def
      dest!: logWSEvent_active mutation_active split: if_splits option.splits)

lemma ws_handle_active:
  assumes "ws_handle_audited r ws on fault1 fault2 roomID meta start msg t s e w = (Inr ((step, t'), s'), w')"
  shows "active t' = active t \<and> wss_hub s' = wss_hub s"
  using assms
  by (auto simp: ws_handle_audited_def Let_def prog_elims dest!: logWSEvent_active action_active
      split: option.splits prod.splits gate.splits)

lemma message_active:
  assumes "ws_message_audited r limiter re ws on fault1 fault2 roomID meta write_ok c msg t s e w =
    (Inr ((step, frames, t'), s'), w')"
  shows "active t' = active t \<and> wss_hub s' = wss_hub s"
proof -
  from assms obtain start t1 v v' where
    l: "with_limit limiter re (''ws:'' @ meta_userID meta)
         (\<lambda>err. (GoOn (SendError ''internal_error'' (error_text (rc_pg_text r) err) None), t))
         (\<lambda>ms. (GoOn (SendError ''rate_limited'' ''too many requests'' (Some ms)), t))
         (ws_handle_audited r ws on fault1 fault2 roomID meta start msg t) s e v = (Inr ((step, t1), s'), v')"
    and o: "active t' = active t1"
    by (auto simp: ws_message_audited_def prog_elims dest!: send_outcome_active)
  from l have "active t1 = active t \<and> wss_hub s' = wss_hub s"
    by (cases rule: with_limit_cases) (auto dest: ws_handle_active)
  with o show ?thesis by simp
qed

lemma opened_active:
  assumes "RoomWS_audited roomID first start (RoomWS_synced se b roomID op) t e w =
      (Inr (Inr (Opened who meta old, frames, s', ms), t'), w')"
  shows "active t' = active t + 1
    \<and> (\<exists>s1 v. op e w = (Inr (Opened who meta old, s1), v) \<and> hub_within (wss_hub s') (wss_hub s1))"
proof -
  from assms obtain v where
    o: "RoomWS_synced se b roomID op e w = (Inr (Opened who meta old, frames, s', ms), v)"
    and t: "active t' = active (opened_notes who meta old t)"
    by (auto simp: RoomWS_audited_opened opened_log_def Let_def dest!: logWSEvent_active)
  have "active (opened_notes who meta old t) = active t + 1"
    by (simp add: opened_notes_def IncActiveWSConnections_def IncReconnect_def Let_def gauge_moves_append
        split: option.split) (simp add: gauge_moves_def)
  moreover obtain q v1 where q: "op e w = (q, v1)" by fastforce
  with o obtain s1 where "q = Inr (Opened who meta old, s1)"
    "ws_broadcast se b roomID s1 e v1 = (Inr (frames, s', ms), v)"
    by (cases q; cases "fst (projr q)")
      (auto simp: RoomWS_synced_def bind_def ret_def split: prod.splits sum.splits)
  ultimately show ?thesis using t q ws_broadcast_within by fastforce
qed

lemma latencies_active:
  "latencies m \<Longrightarrow> gauge_moves ''blackjack_active_ws_connections'' (k @ m) =
     gauge_moves ''blackjack_active_ws_connections'' k"
  by (induction m rule: rev_induct) (auto simp: latencies_def simp flip: append_assoc)

lemma ws_run_inv:
  "ws_run own alive s t \<Longrightarrow>
   finite alive \<and> alive \<subseteq> dom own \<and> active t = int (card alive) \<and> registered_live own alive (wss_hub s)"
proof (induction rule: ws_run.induct)
  case run_init
  then show ?case by (simp add: registered_live_def hub_conns_def empty_hub_def)
next
  case (run_opened own alive s t c roomID first start se b r lib secret limiter re on fault preKey e w who meta old frames s' ms t' w')
  from opened_active [OF run_opened(4)] obtain s1 v where
    a: "active t' = active t + 1" "hub_within (wss_hub s') (wss_hub s1)" and
    o: "RoomWS r lib secret limiter re on fault roomID preKey first c s e w = (Inr (Opened who meta old, s1), v)"
    by blast
  from RoomWS_hub [OF o] run_opened.IH run_opened(2)
  have "registered_live (own(c \<mapsto> roomID)) (insert c alive) (wss_hub s1)"
    by (simp add: registered_add)
  with a(2) have "registered_live (own(c \<mapsto> roomID)) (insert c alive) (wss_hub s')"
    by (rule registered_within [rotated])
  moreover have "c \<notin> alive" using run_opened.IH run_opened(2) by blast
  ultimately show ?case using run_opened.IH a(1) by (auto simp del: fun_upd_apply)
next
  case run_refused
  then show ?case by (simp add: RoomWS_hub opened_hub_other)
next
  case run_message
  then show ?case using message_active by fastforce
next
  case (run_closed own alive s t c roomID on fault meta e w t' s' w')
  from run_closed(4) have s': "wss_hub s' = hub_remove roomID c (wss_hub s)" "active t' = active t - 1"
    by (auto simp: ws_close_audited_def prog_elims DecActiveWSConnections_def dest!: ws_close_hub)
  moreover have "int (card (alive - {c})) = int (card alive) - 1"
    using run_closed.IH run_closed(2) card.remove [of alive c] by simp
  moreover have "registered_live own (alive - {c}) (hub_remove roomID c (wss_hub s))"
    using run_closed.IH run_closed(3) by (intro registered_remove) simp_all
  ultimately show ?case using run_closed.IH by (simp del: card_Diff_insert card_Diff_singleton) blast
next
  case run_sent
  then show ?case using ws_broadcast_within registered_within by (simp add: latencies_active) blast
qed simp

text \<open>
  C28. After any run of openings, messages, closings and broadcasts the gauge of active
  connections is the number of connections that were opened and not closed, and every
  connection in the hub is one of them.
\<close>

theorem active_connections_gauge:
  assumes "ws_run own alive s t"
  shows "active t = int (card alive)
    \<and> (\<forall>room c m. hub_snapshot room (wss_hub s) c = Some m \<longrightarrow> c \<in> alive \<and> own c = Some room)"
  using ws_run_inv [OF assms] by (simp add: registered_live_def hub_snapshot_def)

subsection \<open>What is not logged\<close>

text \<open>A message that lacks its action id is answered, but neither logged nor measured.\<close>

theorem incomplete_message_unlogged:
  assumes "wr_Type req \<in> {''HIT'', ''STAND'', ''REMATCH_VOTE''}" "wr_ActionID req = []"
  shows "\<exists>message. handleGameWSAction_audited r ws req roomID userID start t e w =
    (Inr (SendError ''invalid_input'' message None, t), w)"
  using assms by (auto simp: handleGameWSAction_audited_def Let_def ret_def split: option.split)

subsection \<open>A connection of \<open>Sample_Run\<close>\<close>

definition sample_sync :: sync_env where
  "sample_sync = \<lparr>se_order = (\<lambda>_. []), se_write_ok = (\<lambda>_. True), se_fault = None\<rparr>"

definition sample_opening :: "ws_state \<Rightarrow> ws_opening prog" where
  "sample_opening s = RoomWS_synced sample_sync None ''room'' (RoomWS sample_controller lenient_auth sample_secret
     None (redis_at 0) False (None, None) ''room'' ''k'' (Some (Some auth_frame)) 9 s)"

lemma sample_audited:
  "\<exists>who old rest t' w'. RoomWS_audited ''room'' (Some (Some auth_frame)) 0 (sample_opening s) t sample_env sample_round =
     (Inr (Inr (Opened who \<lparr>meta_userID = ''ann'', meta_epoch = 0\<rparr> old, rest), t'), w')"
proof -
  from sample_opened [of s] obtain who old s' w' where
    o: "RoomWS sample_controller lenient_auth sample_secret None (redis_at 0) False (None, None) ''room'' ''k''
     (Some (Some auth_frame)) 9 s sample_env sample_round =
     (Inr (Opened who \<lparr>meta_userID = ''ann'', meta_epoch = 0\<rparr> old, s'), w')" by blast
  show ?thesis
    by (simp add: RoomWS_audited_opened sample_opening_def RoomWS_synced_def bind_def o ws_broadcast_def
        broadcastRoomState_def broadcastRoomStateLocal_def sample_sync_def opened_log_def logWSEvent_def
        io_now_def ret_def Let_def)
qed

theorem epoch_line_names_nobody_witness:
  "\<exists>t :: telemetry. \<exists>auth line. tl_log t = [auth, line] \<and> line ''user_id'' = Some (Text [])
     \<and> line ''connection_epoch'' = Some (Number 0)"
proof -
  let ?rq = "sample_request\<lparr>hq_Path := ''/ws/rooms/:id'', hq_Param_id := ''room''\<rparr>"
  have calls: "sample_round\<lparr>w_calls := 24\<rparr> = sample_round" by (simp add: sample_round_def)
  have auth: "AuthMiddleware x l k now ?rq = Inr None" for x l k now
    by (simp add: AuthMiddleware_def skipJWTAuth_def)
  have rid: "hq_RequestID sample_request = ''q1''" by (simp add: sample_request_def)
  let ?t = "empty_telemetry\<lparr>tl_context := (tl_context empty_telemetry)\<lparr>cx_RequestID := ''q1''\<rparr>, tl_ResponseID := ''q1''\<rparr>"
  from sample_audited [of sample_ws ?t] obtain who old rest t' w' where
    r: "RoomWS_audited ''room'' (Some (Some auth_frame)) 0 (sample_opening sample_ws) ?t sample_env sample_round =
      (Inr (Inr (Opened who \<lparr>meta_userID = ''ann'', meta_epoch = 0\<rparr> old, rest), t'), w')" by blast
  have "\<exists>t' w'. ws_group sample_config ?rq False (RoomWS_audited (hq_Param_id ?rq) (Some (Some auth_frame)) 0 (sample_opening sample_ws))
       undefined empty_telemetry sample_env (sample_round\<lparr>w_calls := 21\<rparr>) =
     (Inr (Inr (Opened who \<lparr>meta_userID = ''ann'', meta_epoch = 0\<rparr> old, rest), t'), w')"
    by (cases rest) (simp add: ws_group_def HTTPTelemetryMiddleware_def RequestIDMiddleware_def AuditLogMiddleware_def
          prog_elims auth rid setAuthContextFromToken_def calls r)
  then obtain t2 w2 where run: "ws_group sample_config ?rq False (RoomWS_audited (hq_Param_id ?rq) (Some (Some auth_frame)) 0
       (sample_opening sample_ws)) undefined empty_telemetry sample_env (sample_round\<lparr>w_calls := 21\<rparr>) =
     (Inr (Inr (Opened who \<lparr>meta_userID = ''ann'', meta_epoch = 0\<rparr> old, rest), t2), w2)" by blast
  from epoch_line_names_nobody [OF run] show ?thesis
    by (fastforce simp: empty_telemetry_def)
qed

theorem active_connections_gauge_witness:
  "\<exists>s t. ws_run [9 \<mapsto> ''room''] {9} s t \<and> active t = 1"
proof -
  let ?s = "sample_ws\<lparr>wss_hub := empty_hub\<rparr>"
  from sample_audited [of ?s empty_telemetry] obtain who old frames s' ms t' w' where
    o: "RoomWS_audited ''room'' (Some (Some auth_frame)) 0 (sample_opening ?s) empty_telemetry sample_env sample_round =
     (Inr (Inr (Opened who \<lparr>meta_userID = ''ann'', meta_epoch = 0\<rparr> old, frames, s', ms), t'), w')"
    by (metis prod.exhaust)
  have "ws_run Map.empty {} ?s empty_telemetry" by (rule run_init) (simp_all add: empty_telemetry_def)
  from run_opened [OF this _ _ o [unfolded sample_opening_def]] have "ws_run [9 \<mapsto> ''room''] {9} s' t'" by simp
  with active_connections_gauge [OF this] show ?thesis by auto
qed

end
