(* ===== verification/Round_Progress.thy ===== *)
theory Round_Progress
  imports Service_Facts
begin

text \<open>
  What the conditional update promises to a request that has read a round and writes later: the
  rows of a session (\<open>part\<close>: its own, its players', its dealer's) change only together with its
  version, and the version only grows. \<open>advances\<close> says so of the database before and after a
  step; the operations of the service are judged by it, one lemma per way of writing.
\<close>

definition session_ids :: "DB \<Rightarrow> string set" where
  "session_ids d = gs_ID ` set (d_game_sessions d)"

definition part ::
    "string \<Rightarrow> DB \<Rightarrow> GameSessionRecord option \<times> PlayerStateRecord list \<times> DealerStateRecord list" where
  "part i d = (session_row d i, filter (\<lambda>p. psr_SessionID p = i) (d_player_states d),
     filter (\<lambda>x. dsr_SessionID x = i) (d_dealer_states d))"

definition moved :: "DB \<Rightarrow> DB \<Rightarrow> string \<Rightarrow> bool" where
  "moved d d' i \<longleftrightarrow> (\<forall>g'. session_row d' i = Some g' \<longrightarrow>
     (\<exists>g. session_row d i = Some g \<and> (gs_Version g < gs_Version g' \<or> part i d' = part i d)))"

definition advances :: "DB \<Rightarrow> DB \<Rightarrow> bool" where
  "advances d d' \<longleftrightarrow> (\<forall>i \<in> session_ids d. moved d d' i)"

text \<open>The versions are far from the end of \<open>int64\<close>.\<close>

definition versions_fit :: "DB \<Rightarrow> bool" where
  "versions_fit d \<longleftrightarrow> list_all (\<lambda>g. 0 < gs_Version g \<and> gs_Version g < 2 ^ 63 - 1) (d_game_sessions d)"

subsection \<open>The reads of a round\<close>

lemma tbl_first_filter: "(\<And>y. P y \<Longrightarrow> Q y) \<Longrightarrow> tbl_first P (filter Q t) = tbl_first P t"
  by (induction t) auto

lemma session_ids_row: "i \<in> session_ids d \<longleftrightarrow> session_row d i \<noteq> None"
  by (auto simp: session_ids_def session_row_def tbl_first_None dest: tbl_first_Some)

lemma part_row: "part i d' = part i d \<Longrightarrow> session_row d' i = session_row d i"
  by (simp add: part_def)

lemma part_reads:
  assumes "part i d' = part i d"
  shows "GetSession i d' = GetSession i d" "ListPlayerStatesBySessionID i d' = ListPlayerStatesBySessionID i d"
    "GetPlayerState i u d' = GetPlayerState i u d" "GetDealerState i d' = GetDealerState i d"
proof -
  show "GetSession i d' = GetSession i d"
    using assms by (simp add: part_def GetSession_def gorm_First_def session_row_def [symmetric])
  show "ListPlayerStatesBySessionID i d' = ListPlayerStatesBySessionID i d"
    using assms by (simp add: part_def ListPlayerStatesBySessionID_def)
  have f: "filter (\<lambda>p. psr_SessionID p = i) (d_player_states d') = filter (\<lambda>p. psr_SessionID p = i) (d_player_states d)"
    "filter (\<lambda>x. dsr_SessionID x = i) (d_dealer_states d') = filter (\<lambda>x. dsr_SessionID x = i) (d_dealer_states d)"
    using assms by (simp_all add: part_def)
  have "tbl_first (\<lambda>y. psr_key y = (i, u)) (d_player_states e) =
      tbl_first (\<lambda>y. psr_key y = (i, u)) (filter (\<lambda>p. psr_SessionID p = i) (d_player_states e))" for e
    by (rule tbl_first_filter [symmetric]) (simp add: psr_key_def)
  from this [of d] this [of d'] f(1)
  have "tbl_first (\<lambda>y. psr_key y = (i, u)) (d_player_states d') = tbl_first (\<lambda>y. psr_key y = (i, u)) (d_player_states d)"
    by simp
  then show "GetPlayerState i u d' = GetPlayerState i u d"
    by (simp add: GetPlayerState_def gorm_First_def)
  have "tbl_first (\<lambda>x. dsr_SessionID x = i) (d_dealer_states e) =
      tbl_first (\<lambda>x. dsr_SessionID x = i) (filter (\<lambda>x. dsr_SessionID x = i) (d_dealer_states e))" for e
    by (rule tbl_first_filter [symmetric])
  from this [of d] this [of d'] f(2)
  have "tbl_first (\<lambda>x. dsr_SessionID x = i) (d_dealer_states d') = tbl_first (\<lambda>x. dsr_SessionID x = i) (d_dealer_states d)"
    by simp
  then show "GetDealerState i d' = GetDealerState i d"
    by (simp add: GetDealerState_def gorm_First_def)
qed

lemma GetSession_row:
  "GetSession i d = Inr s \<Longrightarrow>
     \<exists>g. session_row d i = Some g \<and> gs_Version g = sess_Version s \<and> i \<in> session_ids d"
  by (auto simp: GetSession_Inr session_ids_row dest: session_read_key)

subsection \<open>Rules\<close>

lemma part_rounds: "rounds d' = rounds d \<Longrightarrow> part i d' = part i d"
  by (simp add: rounds_def part_def session_row_def)

lemma session_ids_rounds: "rounds d' = rounds d \<Longrightarrow> session_ids d' = session_ids d"
  by (simp add: rounds_def session_ids_def)

lemma moved_part: "part i d' = part i d \<Longrightarrow> moved d d' i"
  by (auto simp: moved_def dest: part_row)

lemma moved_trans: "moved d d1 i \<Longrightarrow> moved d1 d2 i \<Longrightarrow> moved d d2 i"
  unfolding moved_def by (metis order_less_trans part_row option.inject)

lemma advances_rounds: "rounds d' = rounds d \<Longrightarrow> advances d d'"
  unfolding advances_def using moved_part part_rounds by blast

lemma advances_refl [simp]: "advances d d"
  by (rule advances_rounds) (rule refl)

lemma advances_trans:
  "advances d d1 \<Longrightarrow> advances d1 d2 \<Longrightarrow> session_ids d \<subseteq> session_ids d1 \<Longrightarrow> advances d d2"
  unfolding advances_def using moved_trans by blast

lemma advances_cong:
  assumes "advances d d'" "rounds e = rounds d" "rounds e' = rounds d'"
  shows "advances e e'"
  using assms(1) part_rounds [OF assms(2)] part_rounds [OF assms(3)] session_ids_rounds [OF assms(2)]
  unfolding advances_def moved_def part_def by simp

lemma versions_fit_rounds: "rounds d' = rounds d \<Longrightarrow> versions_fit d' = versions_fit d"
  by (simp add: versions_fit_def rounds_def)

text \<open>A new round.\<close>

lemma advances_create:
  assumes run: "create_round_tx s p x room e w = (Inr u, w')"
    and ids: "ps_SessionID p = sess_ID s" "ds_SessionID x = sess_ID s"
  shows "advances (w_db w) (w_db w')" "session_ids (w_db w') = insert (sess_ID s) (session_ids (w_db w))"
    "sess_ID s \<notin> session_ids (w_db w)"
    "\<And>i. i \<in> session_ids (w_db w) \<Longrightarrow> part i (w_db w') = part i (w_db w)"
proof -
  from run obtain d1 d2 d3 now where
    d: "CreateSession s (w_db w) = Inr d1" "CreatePlayerState p d1 = Inr d2"
      "CreateDealerState x d2 = Inr d3" "UpdateRoom now room d3 = Inr (w_db w')"
    by (rule create_round_tx_run)
  have t: "d_game_sessions (w_db w') = d_game_sessions (w_db w) @ [gameSessionRecordFromDomain s]"
    "d_player_states (w_db w') = d_player_states (w_db w) @ [playerStateRecordFromDomain p]"
    "d_dealer_states (w_db w') = d_dealer_states (w_db w) @ [dealerStateRecordFromDomain x]"
    using d by (auto simp: CreateSession_def CreatePlayerState_def CreateDealerState_def UpdateRoom_def
        insert_row_Inr)
  have k: "gs_ID (gameSessionRecordFromDomain s) = sess_ID s"
    "psr_SessionID (playerStateRecordFromDomain p) = sess_ID s"
    "dsr_SessionID (dealerStateRecordFromDomain x) = sess_ID s"
    using ids by (simp_all add: gameSessionRecordFromDomain_def playerStateRecordFromDomain_def
        dealerStateRecordFromDomain_def Let_def)
  show "session_ids (w_db w') = insert (sess_ID s) (session_ids (w_db w))"
    by (simp add: session_ids_def t k)
  have "\<not> session_exists (w_db w) (sess_ID s)"
    using d(1) by (auto simp: CreateSession_def insert_row_Inr session_clash_def session_exists_def list_ex_iff)
  then show new: "sess_ID s \<notin> session_ids (w_db w)"
    by (auto simp: session_exists_def session_ids_def list_ex_iff)
  show part: "part i (w_db w') = part i (w_db w)" if i: "i \<in> session_ids (w_db w)" for i
  proof -
    have "sess_ID s \<noteq> i" using i new by blast
    moreover from this k have "session_row (w_db w') i = session_row (w_db w) i"
      by (simp add: session_row_def t tbl_first_append split: option.split)
    ultimately show ?thesis using k by (simp add: part_def t)
  qed
  with moved_part show "advances (w_db w) (w_db w')" unfolding advances_def by blast
qed

lemma filter_tbl_save:
  "f r \<noteq> i \<Longrightarrow> (\<And>x. key x = key r \<Longrightarrow> f x = f r) \<Longrightarrow>
     filter (\<lambda>x. f x = i) (tbl_save key r t) = filter (\<lambda>x. f x = i) t"
proof -
  assume a: "f r \<noteq> i" "\<And>x. key x = key r \<Longrightarrow> f x = f r"
  have "f x \<noteq> i" if "key x = key r" for x using a(1) a(2) [OF that] by simp
  then have "filter (\<lambda>x. f x = i) (map (\<lambda>x. if key x = key r then r else x) t) = filter (\<lambda>x. f x = i) t"
    using a(1) by (induction t) auto
  with a(1) show ?thesis by (simp add: tbl_save_def)
qed

text \<open>A commit: the conditional update, then the rows of the same session.\<close>

lemma advances_commit:
  assumes keys: "distinct (map gs_ID (d_game_sessions d))" and fit: "versions_fit d"
    and cas: "UpdateSessionIfVersion s n d = (d1, True)" and v: "sess_Version s = wrap64 (n + 1)"
    and d2: "UpdatePlayerState p d1 = Inr d2 \<or> d2 = d1"
    and d3: "UpdateDealerState x d2 = Inr d3 \<or> d3 = d2" and d4: "rounds d4 = rounds d3"
    and ids: "ps_SessionID p = sess_ID s" "ds_SessionID x = sess_ID s"
  shows "advances d d4" "session_ids d4 = session_ids d"
proof -
  from session_cas.cas_success [OF keys cas] obtain g
    where g: "session_row d (sess_ID s) = Some g" "gs_Version g = n"
      and row: "session_row d1 = (session_row d)(sess_ID s \<mapsto>
        session_columns (gameSessionRecordFromDomain s) g)" .
  have "g \<in> set (d_game_sessions d)" using session_row_in [OF g(1)] by simp
  with fit g have "0 < n" "n < 2 ^ 63 - 1" by (auto simp: versions_fit_def list_all_iff)
  then have n: "n < sess_Version s" using v by (simp add: wrap64_id)
  have row4: "session_row d4 = session_row d1"
    using d2 d3 d4 by (auto simp: rounds_def session_row_def UpdatePlayerState_def UpdateDealerState_def)
  show "session_ids d4 = session_ids d"
    using row4 row g by (auto simp: session_ids_row split: if_splits)
  have "moved d d4 i" if i: "i \<in> session_ids d" for i
  proof (cases "i = sess_ID s")
    case True
    with row row4 g n show ?thesis
      by (simp add: moved_def session_columns_def gameSessionRecordFromDomain_def Let_def)
  next
    case False
    have k: "psr_SessionID (playerStateRecordFromDomain p) = sess_ID s"
      "dsr_SessionID (dealerStateRecordFromDomain x) = sess_ID s"
      using ids by (simp_all add: playerStateRecordFromDomain_def dealerStateRecordFromDomain_def Let_def)
    have "d_player_states d1 = d_player_states d" "d_dealer_states d1 = d_dealer_states d"
      using cas by (auto simp: UpdateSessionIfVersion_def Let_def)
    moreover have "filter (\<lambda>q. psr_SessionID q = i) (tbl_save psr_key (playerStateRecordFromDomain p) t) =
        filter (\<lambda>q. psr_SessionID q = i) t" for t
      by (rule filter_tbl_save) (use k False in \<open>auto simp: psr_key_def\<close>)
    moreover have "filter (\<lambda>y. dsr_SessionID y = i) (tbl_save dsr_SessionID (dealerStateRecordFromDomain x) t) =
        filter (\<lambda>y. dsr_SessionID y = i) t" for t
      by (rule filter_tbl_save) (use k False in auto)
    ultimately have "filter (\<lambda>p. psr_SessionID p = i) (d_player_states d4) = filter (\<lambda>p. psr_SessionID p = i) (d_player_states d)"
      "filter (\<lambda>x. dsr_SessionID x = i) (d_dealer_states d4) = filter (\<lambda>x. dsr_SessionID x = i) (d_dealer_states d)"
      using d2 d3 d4
      by (auto simp: rounds_def UpdatePlayerState_def UpdateDealerState_def save_row_Inr)
    then have "part i d4 = part i d" using False row4 row by (simp add: part_def)
    then show ?thesis by (rule moved_part)
  qed
  then show "advances d d4" by (simp add: advances_def)
qed

text \<open>A reset takes the rounds of a room away and leaves the others as they are.\<close>

lemma advances_delete:
  assumes keys: "distinct (map gs_ID (d_game_sessions d))"
    and del: "DeleteGameSessionsByRoomID roomID d = Inr d'"
  shows "advances d d'" "session_ids d' \<subseteq> session_ids d"
proof -
  let ?gone = "\<lambda>j. list_ex (\<lambda>g. gs_ID g = j \<and> gs_RoomID g = roomID) (d_game_sessions d)"
  have d': "d_game_sessions d' = tbl_delete (\<lambda>g. gs_RoomID g = roomID) (d_game_sessions d)"
    "d_player_states d' = tbl_delete (\<lambda>p. ?gone (psr_SessionID p)) (d_player_states d)"
    "d_dealer_states d' = tbl_delete (\<lambda>p. ?gone (dsr_SessionID p)) (d_dealer_states d)"
    using del by (auto simp: DeleteGameSessionsByRoomID_def Let_def)
  show "session_ids d' \<subseteq> session_ids d" by (auto simp: session_ids_def d' tbl_delete_def)
  have "moved d d' i" for i
  proof (cases "session_row d' i")
    case None
    then show ?thesis by (simp add: moved_def)
  next
    case (Some g)
    have g: "g \<in> set (d_game_sessions d)" "gs_ID g = i" "gs_RoomID g \<noteq> roomID"
      using session_row_in [OF Some] by (auto simp: d' tbl_delete_def)
    have not: "\<not> ?gone i"
    proof
      assume "?gone i"
      then obtain h where "h \<in> set (d_game_sessions d)" "gs_ID h = i" "gs_RoomID h = roomID"
        by (auto simp: list_ex_iff)
      with g keys show False by (metis distinct_map inj_on_def)
    qed
    have "session_row d i = Some g"
    proof -
      have "session_row d i \<noteq> None" using g by (auto simp: session_row_def tbl_first_None)
      then obtain h where h: "session_row d i = Some h" by blast
      with session_row_in [OF h] g keys have "h = g" by (metis distinct_map inj_on_def)
      with h show ?thesis by simp
    qed
    with Some not have "part i d' = part i d"
      by (simp add: part_def d' filter_delete(1) [of ?gone])
    then show ?thesis by (rule moved_part)
  qed
  then show "advances d d'" by (simp add: advances_def)
qed

subsection \<open>The service\<close>

text \<open>What a step must do for the requests that are under way: keep the rounds consistent, and advance.\<close>

definition sound :: "bj_lib \<Rightarrow> DB \<Rightarrow> DB \<Rightarrow> bool" where
  "sound lib d d' \<longleftrightarrow> (game_ok lib d \<longrightarrow> versions_fit d \<longrightarrow> game_ok lib d' \<and> advances d d')"

lemma sound_same [simp]: "sound lib d d"
  by (simp add: sound_def)

lemma round_of:
  assumes "game_ok lib d" "GetSession (sess_ID sess) d = Inr sess"
    and "ListPlayerStatesBySessionID (sess_ID sess) d = Inr (p # ps) \<or> GetPlayerState (sess_ID sess) u d = Inr p"
    and "GetDealerState (sess_ID sess) d = Inr x"
  shows "round_ok lib sess p x" "ps_SessionID p = sess_ID sess" "ds_SessionID x = sess_ID sess"
proof -
  from assms(1,2) obtain p0 x0 where o: "ListPlayerStatesBySessionID (sess_ID sess) d = Inr [p0]"
    "GetDealerState (sess_ID sess) d = Inr x0" "round_ok lib sess p0 x0" by (rule game_ok_session)
  with assms(3,4) GetPlayerState_only [OF o(1)] show r: "round_ok lib sess p x" by auto
  then show "ps_SessionID p = sess_ID sess" "ds_SessionID x = sess_ID sess"
    by (simp_all add: round_ok_def life_ok_def)
qed

lemma turn_sound:
  assumes lib: "lib_documented lib"
    and sess: "GetSession (sess_ID sess) (w_db v) = Inr sess" "sess_Version sess = n"
    and p: "GetPlayerState (sess_ID sess) userID (w_db v) = Inr p"
    and x: "GetDealerState (sess_ID sess) (w_db v) = Inr x"
    and may: "AssertCanHitOrStand p (Some sess) userID = None"
    and act: "turn_apply (svc lib) hit now sess p = Inr (s', p')"
    and c: "tc_sess c = Session_Touch now (IncrementVersion s')" "tc_player c = p'" "tc_dealer c = x"
    and tx: "turn_tx n c e v = (Inr u, v')"
  shows "sound lib (w_db v) (w_db v')"
  unfolding sound_def
proof (intro impI conjI)
  assume ok: "game_ok lib (w_db v)" and fit: "versions_fit (w_db v)"
  show "game_ok lib (w_db v')" by (rule turn_commit_ok [OF lib ok sess(1) p x may act c tx])
  have "sess_Status sess = SessionStatusPlayerTurn"
    using may by (auto simp: AssertCanHitOrStand_def split: if_splits)
  note same = turn_apply_same [OF act this]
  note r = round_of [OF ok sess(1) disjI2 [OF p] x]
  from tx show "advances (w_db v) (w_db v')"
  proof (rule turn_tx_run)
    fix d1 d2 d3
    assume d: "UpdateSessionIfVersion (tc_sess c) n (w_db v) = (d1, True)"
      "UpdatePlayerState (tc_player c) d1 = Inr d2" "UpdateDealerState (tc_dealer c) d2 = Inr d3"
      "rounds (w_db v') = rounds d3"
    show ?thesis
      by (rule advances_commit(1) [OF game_ok_keys [OF ok] fit d(1) _ disjI1 [OF d(2)] disjI1 [OF d(3)] d(4)])
        (use same r c sess(2) in simp_all)
  qed
qed

lemma forfeit_sound:
  assumes sess: "GetSession (sess_ID sess) (w_db w) = Inr sess"
    and p: "ListPlayerStatesBySessionID (sess_ID sess) (w_db w) = Inr (p # ps)"
    and x: "GetDealerState (sess_ID sess) (w_db w) = Inr x"
    and run: "forfeit (svc lib) room sess p x e w = (Inr r, w')"
  shows "sound lib (w_db w) (w_db w')"
  unfolding sound_def
proof (intro impI conjI)
  assume ok: "game_ok lib (w_db w)" and fit: "versions_fit (w_db w)"
  show "game_ok lib (w_db w')" by (rule kept_forfeit [OF ok sess p x run])
  note r = round_of [OF ok sess disjI1 [OF p] x]
  from run show "advances (w_db w) (w_db w')"
  proof (rule forfeit_run)
    fix now s' p' x' l d1 d2 d3
    assume a: "forfeit_apply (svc lib) now sess p x = Inr (s', p', x', l)"
      and d: "UpdateSessionIfVersion (Session_Touch now (IncrementVersion s')) (sess_Version sess)
        (w_db w) = (d1, True)" "UpdatePlayerState p' d1 = Inr d2" "UpdateDealerState x' d2 = Inr d3"
        "rounds (w_db w') = rounds d3"
    show ?thesis
      by (rule advances_commit(1) [OF game_ok_keys [OF ok] fit d(1) _ disjI1 [OF d(2)] disjI1 [OF d(3)] d(4)])
        (use forfeit_apply_same [OF a] r in simp_all)
  qed
qed

lemma dealer_move_sound:
  assumes lib: "lib_documented lib"
    and sess: "GetSession (sess_ID sess) (w_db w) = Inr sess" "sess_Status sess = SessionStatusDealerTurn"
    and p: "ListPlayerStatesBySessionID (sess_ID sess) (w_db w) = Inr (p # ps)"
    and x: "GetDealerState (sess_ID sess) (w_db w) = Inr x"
    and run: "dealer_move (svc lib) sess room p x e w = (Inr r, w')"
  shows "sound lib (w_db w) (w_db w')"
  unfolding sound_def
proof (intro impI conjI)
  assume ok: "game_ok lib (w_db w)" and fit: "versions_fit (w_db w)"
  show "game_ok lib (w_db w')" by (rule dealer_move_ok [OF lib ok sess p x run])
  note r = round_of [OF ok sess(1) disjI1 [OF p] x]
  from run show "advances (w_db w) (w_db w')"
  proof (rule dealer_move_run)
    fix now s' p' x' ol d1 d2 d3
    assume a: "dealer_apply (svc lib) now sess p x = Inr (s', p', x', ol)"
      and d: "UpdateSessionIfVersion (Session_Touch now (IncrementVersion s'))
        (sess_Version sess) (w_db w) = (d1, True)" "UpdateDealerState x' d1 = Inr d2"
        "if ol = None then d3 = d2 else UpdatePlayerState p' d2 = Inr d3"
        "rounds (w_db w') = rounds d3"
    obtain e1 where e1: "UpdatePlayerState p' d1 = Inr e1 \<or> e1 = d1" "UpdateDealerState x' e1 = Inr d3"
      using d(2,3) by (cases "ol = None") (auto elim: swap_updates)
    show ?thesis
      by (rule advances_commit(1) [OF game_ok_keys [OF ok] fit d(1) _ e1(1) disjI1 [OF e1(2)] d(4)])
        (use dealer_apply_same [OF a] r in simp_all)
  qed
qed

text \<open>The transactions that read the session themselves.\<close>

lemma advances_cas:
  assumes "distinct (map gs_ID (d_game_sessions d))" "versions_fit d"
    "UpdateSessionIfVersion s n d = (d1, True)" "sess_Version s = wrap64 (n + 1)"
  shows "advances d d1" "session_ids d1 = session_ids d"
  using advances_commit [OF assms disjI2 [OF refl] disjI2 [OF refl] refl,
      of "undefined\<lparr>ps_SessionID := sess_ID s\<rparr>" "undefined\<lparr>ds_SessionID := sess_ID s\<rparr>"] by simp_all

lemma success_advances:
  assumes lib: "lib_documented lib" and ok: "game_ok lib (w_db w)" and fit: "versions_fit (w_db w)"
    and n: "sess_Version prev = n"
    and run: "rematchUnanimousSuccessTx (svc lib) room prev user now n e w = (Inr r, w')"
  shows "advances (w_db w) (w_db w')"
  using run
proof (rule success_run)
  fix d1 sid sess rnd deck s p x room' k
  assume cas: "UpdateSessionIfVersion (Session_Touch now (IncrementVersion prev)) n (w_db w)
      = (d1, True)"
    and new: "NewGameSession now sid (room_ID room) (wrap64 (sess_RoundNo prev + 1)) now = Inr sess"
      "newShuffledDeck rnd = Inr deck"
    and deal: "open_round (svc lib) now (SetDeck deck sess) user = Inr (s, p, x)"
    and tx: "create_round_tx s p x (Room_Touch now room') e (w\<lparr>w_db := d1, w_calls := k\<rparr>) = (Inr (), w')"
  have "round_ok lib s p x" by (rule open_round_ok(1) [OF lib fresh_round(1) [OF new] deal])
  then have "advances d1 (w_db w')"
    using advances_create(1) [OF tx] by (simp add: round_ok_def life_ok_def)
  with advances_cas [OF game_ok_keys [OF ok] fit cas] n show ?thesis by (auto intro: advances_trans)
qed

lemma vote_outcome_advances:
  assumes lib: "lib_documented lib" and ok: "game_ok lib (w_db w)" and fit: "versions_fit (w_db w)"
    and n: "sess_Version s = n"
    and run: "vote_outcome (svc lib) room s eligible agreeMap now n e w = (Inr r, w')"
  shows "advances (w_db w) (w_db w')"
proof -
  from run consider
    (yes) "rematchUnanimousSuccessTx (svc lib) room s (hd eligible) now n e w = (Inr r, w')"
  | (no) room' where "finalizeRematchFailureTx room e w = (Inr room', w')"
  | (pending) d1 where "UpdateSessionIfVersion (Session_Touch now (IncrementVersion s)) n (w_db w)
      = (d1, True)" "w_db w' = d1"
    by (auto simp: vote_outcome_def prog_elims Let_def split: if_splits)
  then show ?thesis
  proof cases
    case yes
    show ?thesis by (rule success_advances [OF lib ok fit n yes])
  next
    case no
    show ?thesis by (rule advances_rounds) (rule asideD [OF aside_finalize no])
  next
    case pending
    with advances_cas(1) [OF game_ok_keys [OF ok] fit pending(1)] n show ?thesis by simp
  qed
qed

lemma vote_tx_sound:
  assumes lib: "lib_documented lib"
    and tx: "VoteRematch_tx (svc lib) room roomID sid userID agree n actionID e w = (Inr r, w')"
  shows "sound lib (w_db w) (w_db w')"
  unfolding sound_def
proof (intro impI)
  assume ok: "game_ok lib (w_db w)" and fit: "versions_fit (w_db w)"
  from tx show "game_ok lib (w_db w') \<and> advances (w_db w) (w_db w')"
  proof (cases rule: VoteRematch_tx_run)
    case replay
    with ok show ?thesis by simp
  next
    case (vote sess u)
    from vote(5) show ?thesis
    proof (rule cast_vote_run)
      fix players votes now v1 v2 k
      let ?sess = "if sess_RematchDeadlineAt sess = None then SetRematchDeadline now sess else sess"
      assume up: "tx_UpsertRematchVote \<lparr>rv_SessionID = sess_ID sess, rv_UserID = userID, rv_Agree = agree\<rparr>
          e (u\<lparr>w_calls := k\<rparr>) = (Inr (), v1)"
        and out: "vote_outcome (svc lib) room ?sess (rematchEligibleUserIDs players)
          ((votes_map votes)(userID \<mapsto> agree)) now n e v1 = (Inr r, v2)"
        and save: "SaveActionSuccessSnapshot (vote_log (sess_ID sess) userID actionID
          (env_sha256hex e (vote_payload agree n)))
          (action_snapshot (room_ID (fst r)) (sess_ID (snd r)) (sess_Version (snd r))) e v2
          = (Inr (), w')"
      have r1: "rounds (w_db v1) = rounds (w_db w)" using asideD [OF aside_store(8) up] vote(4) by simp
      have ok1: "game_ok lib (w_db v1)"
        using aside_run [OF aside_store(8) writes_store(14) up] ok vote(4) by simp
      have g1: "GetSession (sess_ID sess) (w_db v1) = Inr sess"
        using vote(1) GetSession_id [OF vote(1)] GetSession_rounds [OF r1] by simp
      from vote_outcome_ok [OF lib ok1 g1 _ _ _ out] have ok2: "game_ok lib (w_db v2)" by simp
      have "advances (w_db v1) (w_db v2)"
        by (rule vote_outcome_advances [OF lib ok1 _ _ out])
          (use fit versions_fit_rounds [OF r1] vote(3) in simp_all)
      from advances_cong [OF this r1 [symmetric] asideD [OF aside_Save save]]
        aside_run [OF aside_Save writes_Save save ok2]
      show ?thesis by simp
    qed
  qed
qed

lemma deadline_sound:
  assumes lib: "lib_documented lib" and run: "processRematchDeadline (svc lib) i e w = (Inr r, w')"
  shows "sound lib (w_db w) (w_db w')"
  unfolding sound_def
proof (intro impI conjI)
  assume ok: "game_ok lib (w_db w)" and fit: "versions_fit (w_db w)"
  show "game_ok lib (w_db w')"
    using keptD [OF kept_processRematchDeadline [OF lib], of w i e] ok run by simp
  from run show "advances (w_db w) (w_db w')"
  proof (cases rule: processRematchDeadline_run)
    case skip
    then show ?thesis by simp
  next
    case no
    from asideD [OF aside_finalize no(1)] no(2) show ?thesis by (simp add: advances_rounds)
  next
    case (yes sess)
    from success_advances [OF lib _ _ _ yes(2)] ok fit yes(3) show ?thesis by simp
  qed
qed

lemma reset_sound:
  assumes run: "ResetRoomForDebug roomID userID e w = (Inr r, w')"
  shows "sound lib (w_db w) (w_db w')"
  unfolding sound_def
proof (intro impI conjI)
  assume ok: "game_ok lib (w_db w)"
  show "game_ok lib (w_db w')"
    using keptD [OF kept_Reset, of lib w roomID userID e] ok run by simp
  from run obtain t1 t2 room1 room2 d1 d2 d3 where
    d: "UpdateRoom t1 room1 (w_db w) = Inr d1" "DeleteGameSessionsByRoomID roomID d1 = Inr d2"
      "DeleteRoomPlayersByRoomID roomID d2 = Inr d3" "UpdateRoom t2 room2 d3 = Inr (w_db w')"
    by (auto simp: ResetRoomForDebug_def prog_elims Let_def split: if_splits)
  have r: "rounds (w_db w) = rounds d1" "rounds (w_db w') = rounds d2"
    using d by (auto simp: UpdateRoom_def DeleteRoomPlayersByRoomID_def rounds_def)
  then have "distinct (map gs_ID (d_game_sessions d1))" using game_ok_keys [OF ok] by (simp add: rounds_def)
  from advances_cong [OF advances_delete(1) [OF this d(2)] r]
  show "advances (w_db w) (w_db w')" .
qed

lemma start_sound:
  assumes lib: "lib_documented lib"
    and new: "NewGameSession now sid roomID n now = Inr sess" "newShuffledDeck rnd = Inr deck"
    and deal: "open_round (svc lib) now (SetDeck deck sess) userID = Inr (s, p, x)"
    and tx: "create_round_tx (Session_Touch now s) p x room e v = (Inr u, v')"
  shows "sound lib (w_db v) (w_db v')"
  unfolding sound_def
proof (intro impI conjI)
  assume ok: "game_ok lib (w_db v)"
  note fresh = fresh_round [OF new]
  note opened = open_round_ok [OF lib fresh(1) deal]
  show "game_ok lib (w_db v')"
    by (rule create_round_ok [OF ok _ _ tx]) (simp_all add: opened fresh)
  have "round_ok lib s p x" by (rule opened(1))
  with advances_create(1) [OF tx] show "advances (w_db v) (w_db v')"
    by (simp add: round_ok_def life_ok_def)
qed

lemma aside_sound:
  assumes "effect same_rounds m" "writes_only m" "m e w = (r, w')"
  shows "sound lib (w_db w) (w_db w')"
  using aside_run [OF assms] asideD [OF assms(1,3)] by (simp add: sound_def advances_rounds)

end
