(* ===== verification/Resumption.thy ===== *)
theory Resumption
  imports Prog_Effects
begin

text \<open>
  Requests that overlap. A program of \<open>Service_Monad\<close> runs without anything in between; a
  \<open>thread\<close> is the same program cut at its statements: \<open>Done r\<close> has its result, \<open>Running m\<close> runs
  \<open>m\<close> in one go and is then the thread \<open>m\<close> returns. \<open>act\<close> makes one statement (or one
  transaction) of a program, \<open>tbind\<close> continues after a thread and stops at its error, and \<open>run\<close>
  puts the cuts together again, so that \<open>run t = m\<close> says that \<open>t\<close> is \<open>m\<close>, cut.

  The locale \<open>rely_guarantee\<close> has the reasoning on threads that other threads interrupt: \<open>R\<close>
  relates the states before and after any number of steps of any thread, \<open>I\<close> is the invariant of
  the state, and \<open>safe t s\<close> says that every step of \<open>t\<close>, taken after any interference that
  started at \<open>s\<close>, keeps \<open>I\<close> and is within \<open>R\<close> itself.
\<close>

datatype 'a thread = Done "error + 'a" | Running "env \<Rightarrow> world \<Rightarrow> 'a thread \<times> world"

definition act :: "'a prog \<Rightarrow> 'a thread" where
  "act m = Running (\<lambda>e w. map_prod Done id (m e w))"

primrec tbind :: "'a thread \<Rightarrow> ('a \<Rightarrow> 'b thread) \<Rightarrow> 'b thread" where
  "tbind (Done r) k = (case r of Inl err \<Rightarrow> Done (Inl err) | Inr x \<Rightarrow> k x)"
| "tbind (Running m) k = Running (\<lambda>e w. map_prod (\<lambda>t. tbind t k) id (m e w))"

primrec tattempt :: "'a thread \<Rightarrow> (error + 'a) thread" where
  "tattempt (Done r) = Done (Inr r)"
| "tattempt (Running m) = Running (\<lambda>e w. map_prod tattempt id (m e w))"

primrec run :: "'a thread \<Rightarrow> 'a prog" where
  "run (Done r) = (\<lambda>e w. (r, w))"
| "run (Running m) = (\<lambda>e w. case map_prod run id (m e w) of (f, w') \<Rightarrow> f e w')"

abbreviation tret :: "'a \<Rightarrow> 'a thread" where "tret x \<equiv> Done (Inr x)"

abbreviation tthrow :: "error \<Rightarrow> 'a thread" where "tthrow err \<equiv> Done (Inl err)"

fun tfor_each :: "('a \<Rightarrow> 's \<Rightarrow> 's thread) \<Rightarrow> 'a list \<Rightarrow> 's \<Rightarrow> 's thread" where
  "tfor_each body [] s = tret s"
| "tfor_each body (x # xs) s = tbind (body x s) (tfor_each body xs)"

lemma thread_induct [case_names Done Running, induct type]:
  assumes "\<And>r. P (Done r)"
    and "\<And>m. (\<And>e w t w'. m e w = (t, w') \<Longrightarrow> P t) \<Longrightarrow> P (Running m)"
  shows "P t"
proof (induction t rule: thread.induct)
  case (Done r)
  show ?case by (rule assms(1))
next
  case (Running m)
  show ?case
  proof (rule assms(2))
    fix e w t w'
    assume "m e w = (t, w')"
    then have "t \<in> Basic_BNFs.fsts (m e w)" by (auto intro: fsts.intros)
    with Running show "P t" by blast
  qed
qed

subsection \<open>A thread that nothing interrupts\<close>

named_theorems uncut \<open>a thread that nothing interrupts is the program\<close>

lemma run_act [uncut]: "run (act m) = m"
proof (intro ext)
  fix e w
  show "run (act m) e w = m e w" by (cases "m e w") (simp add: act_def)
qed

lemma run_done [uncut]: "run (Done r) = lift r" "lift (Inr x) = ret x" "lift (Inl err) = throw err"
  by (simp_all add: fun_eq_iff ret_def throw_def lift_def)

lemma run_Running: "run (Running m) e w = (case m e w of (t, w') \<Rightarrow> run t e w')"
  by (simp split: prod.split)

declare run.simps [simp del]

lemma run_tbind [uncut]: "run (tbind t k) = bind (run t) (\<lambda>x. run (k x))"
proof (induction t)
  case (Done r)
  show ?case by (simp add: fun_eq_iff bind_def run.simps(1) split: sum.split)
next
  case (Running m)
  show ?case
  proof (intro ext)
    fix e w
    obtain t w' where m: "m e w = (t, w')" by fastforce
    from Running [OF m] show "run (tbind (Running m) k) e w = bind (run (Running m)) (\<lambda>x. run (k x)) e w"
      by (simp add: run_Running m bind_def)
  qed
qed

lemma run_tattempt [uncut]: "run (tattempt t) = attempt (run t)"
proof (induction t)
  case (Done r)
  show ?case by (simp add: fun_eq_iff attempt_def run.simps(1))
next
  case (Running m)
  show ?case
  proof (intro ext)
    fix e w
    obtain t w' where m: "m e w = (t, w')" by fastforce
    from Running [OF m] show "run (tattempt (Running m)) e w = attempt (run (Running m)) e w"
      by (simp add: run_Running m attempt_def)
  qed
qed

lemma run_branches [uncut]:
  "run (if b then t else t') = (if b then run t else run t')"
  "run (case r of Inl err \<Rightarrow> f err | Inr x \<Rightarrow> g x) = (case r of Inl err \<Rightarrow> run (f err) | Inr x \<Rightarrow> run (g x))"
  "run (case oc of None \<Rightarrow> t | Some x \<Rightarrow> g x) = (case oc of None \<Rightarrow> run t | Some x \<Rightarrow> run (g x))"
  "run (case l of [] \<Rightarrow> t | x # xs \<Rightarrow> h x xs) = (case l of [] \<Rightarrow> run t | x # xs \<Rightarrow> run (h x xs))"
  "run (case p of (x, y) \<Rightarrow> k x y) = (case p of (x, y) \<Rightarrow> run (k x y))"
  by (auto split: sum.split option.split list.split prod.split)

lemma run_for_each [uncut]:
  "(\<And>x s. run (body x s) = f x s) \<Longrightarrow> run (tfor_each body xs s) = for_each f xs s"
  by (induction xs arbitrary: s) (simp_all add: uncut)

subsection \<open>Threads among others\<close>

text \<open>
  The state has the database and the names that were ever used for something in it. A step of a
  thread may take names that are new, and must leave the state \<open>fit\<close>.
\<close>

locale rely_guarantee =
  fixes R :: "'s \<Rightarrow> 's \<Rightarrow> bool" and I :: "'s \<Rightarrow> bool" and db :: "'s \<Rightarrow> DB" and ok :: "'s \<Rightarrow> 's \<Rightarrow> bool"
  assumes R_refl: "R s s"
    and R_trans: "R s t \<Longrightarrow> R t u \<Longrightarrow> R s u"
    and quiet: "ok s t \<Longrightarrow> db t = db s \<Longrightarrow> R s t \<and> (I s \<longrightarrow> I t)"
begin

inductive safe :: "'s \<Rightarrow> ('a \<Rightarrow> 's \<Rightarrow> bool) \<Rightarrow> 'a thread \<Rightarrow> bool" where
  safe_done: "(\<And>x t. r = Inr x \<Longrightarrow> R s t \<Longrightarrow> Q x t) \<Longrightarrow> safe s Q (Done r)"
| safe_running: "(\<And>t e w k w' t'. R s t \<Longrightarrow> I t \<Longrightarrow> db t = w_db w \<Longrightarrow> m e w = (k, w') \<Longrightarrow>
      ok t t' \<Longrightarrow> db t' = w_db w' \<Longrightarrow> R t t' \<and> I t' \<and> safe t' Q k) \<Longrightarrow> safe s Q (Running m)"

inductive_cases safe_doneE [elim!]: "safe s Q (Done r)"

inductive_cases safe_runningE: "safe s Q (Running m)"

lemma safe_runningD:
  "safe s Q (Running m) \<Longrightarrow> R s t \<Longrightarrow> I t \<Longrightarrow> db t = w_db w \<Longrightarrow> m e w = (k, w') \<Longrightarrow> ok t t' \<Longrightarrow>
     db t' = w_db w' \<Longrightarrow> R t t' \<and> I t' \<and> safe t' Q k"
  by (erule safe_runningE) blast

lemma safe_later: "safe s Q k \<Longrightarrow> R s t \<Longrightarrow> safe t Q k"
proof (cases k)
  case (Done r)
  assume "safe s Q k" "R s t"
  with Done show ?thesis by (auto intro!: safe_done intro: R_trans)
next
  case (Running m)
  assume "safe s Q k" "R s t"
  with Running show ?thesis
    by (auto elim!: safe_runningE intro!: safe_running) (blast intro: R_trans)+
qed

lemma safe_mono: "safe s Q k \<Longrightarrow> (\<And>x t. Q x t \<Longrightarrow> Q' x t) \<Longrightarrow> safe s Q' k"
  by (induction rule: safe.induct) (blast intro: safe.intros)+

text \<open>A statement, judged by what it does to any later state.\<close>

lemma safe_act:
  assumes "\<And>t e w r w' t'. R s t \<Longrightarrow> I t \<Longrightarrow> db t = w_db w \<Longrightarrow> m e w = (r, w') \<Longrightarrow> ok t t' \<Longrightarrow>
      db t' = w_db w' \<Longrightarrow> R t t' \<and> I t' \<and> (\<forall>x u. r = Inr x \<longrightarrow> R t' u \<longrightarrow> Q x u)"
  shows "safe s Q (act m)"
  unfolding act_def
proof (rule safe_running)
  fix t e w k w' t'
  assume "R s t" "I t" "db t = w_db w" "map_prod Done id (m e w) = (k, w')" "ok t t'" "db t' = w_db w'"
  moreover from this obtain r where "m e w = (r, w')" "k = Done r" by (cases "m e w") auto
  ultimately show "R t t' \<and> I t' \<and> safe t' Q k" using assms by (auto intro: safe_done)
qed

lemma safe_tbind:
  assumes "safe s P a" and "\<And>x t. R s t \<Longrightarrow> P x t \<Longrightarrow> safe t Q (k x)"
  shows "safe s Q (tbind a k)"
  using assms
proof (induction s P a rule: safe.induct)
  case (safe_done r s P)
  then show ?case using R_refl by (cases r) (auto intro: safe.safe_done)
next
  case (safe_running s m P)
  show ?case
  proof (simp, rule safe.safe_running)
    fix t e w k' w' t'
    assume a: "R s t" "I t" "db t = w_db w" "map_prod (\<lambda>t. tbind t k) id (m e w) = (k', w')"
      "ok t t'" "db t' = w_db w'"
    then obtain l where l: "m e w = (l, w')" "k' = tbind l k" by (cases "m e w") auto
    note IH = safe_running(1) [OF a(1-3) l(1) a(5,6)]
    then have "R s t'" using a(1) R_trans by blast
    with IH l(2) safe_running.prems show "R t t' \<and> I t' \<and> safe t' Q k'" by (blast intro: R_trans)
  qed
qed

lemma safe_tattempt: "safe s (\<lambda>_ _. True) a \<Longrightarrow> safe s (\<lambda>_ _. True) (tattempt a)"
proof (induction s "\<lambda>(_ :: 'a) (_ :: 's). True" a rule: safe.induct)
  case (safe_done r s)
  show ?case by (auto intro: safe.safe_done)
next
  case (safe_running s m)
  show ?case
  proof (simp, rule safe.safe_running)
    fix t e w k' w' t'
    assume a: "R s t" "I t" "db t = w_db w" "map_prod tattempt id (m e w) = (k', w')"
      "ok t t'" "db t' = w_db w'"
    then obtain l where l: "m e w = (l, w')" "k' = tattempt l" by (cases "m e w") auto
    from safe_running(1) [OF a(1-3) l(1) a(5,6)] l(2)
    show "R t t' \<and> I t' \<and> safe t' (\<lambda>_ _. True) k'" by blast
  qed
qed

text \<open>A statement that only reads, with its answer.\<close>

lemma safe_read:
  assumes "readonly m"
    and "\<And>t e w x w'. R s t \<Longrightarrow> I t \<Longrightarrow> db t = w_db w \<Longrightarrow> m e w = (Inr x, w') \<Longrightarrow> safe t Q (k x)"
  shows "safe s Q (tbind (act m) k)"
proof (rule safe_tbind)
  let ?P = "\<lambda>x u. \<exists>t e w w'. R s t \<and> I t \<and> db t = w_db w \<and> m e w = (Inr x, w') \<and> R t u"
  show "safe s ?P (act m)"
  proof (rule safe_act)
    fix t e w r w' t'
    assume a: "R s t" "I t" "db t = w_db w" "m e w = (r, w')" "ok t t'" "db t' = w_db w'"
    with readonlyD [OF assms(1) a(4)] quiet have "R t t' \<and> I t'" by metis
    with a show "R t t' \<and> I t' \<and> (\<forall>x u. r = Inr x \<longrightarrow> R t' u \<longrightarrow> ?P x u)"
      by (meson R_trans)
  qed
  show "safe t Q (k x)" if "R s t" "?P x t" for x t
    using that assms(2) safe_later by blast
qed

lemma safe_branches:
  "(b \<Longrightarrow> safe s Q t) \<Longrightarrow> (\<not> b \<Longrightarrow> safe s Q t') \<Longrightarrow> safe s Q (if b then t else t')"
  "(\<And>err. r = Inl err \<Longrightarrow> safe s Q (f err)) \<Longrightarrow> (\<And>x. r = Inr x \<Longrightarrow> safe s Q (g x)) \<Longrightarrow>
     safe s Q (case r of Inl err \<Rightarrow> f err | Inr x \<Rightarrow> g x)"
  "(oc = None \<Longrightarrow> safe s Q t) \<Longrightarrow> (\<And>y. oc = Some y \<Longrightarrow> safe s Q (h y)) \<Longrightarrow>
     safe s Q (case oc of None \<Rightarrow> t | Some y \<Rightarrow> h y)"
  "(l = [] \<Longrightarrow> safe s Q t) \<Longrightarrow> (\<And>y ys. l = y # ys \<Longrightarrow> safe s Q (j y ys)) \<Longrightarrow>
     safe s Q (case l of [] \<Rightarrow> t | y # ys \<Rightarrow> j y ys)"
  "(\<And>y z. p = (y, z) \<Longrightarrow> safe s Q (k y z)) \<Longrightarrow> safe s Q (case p of (y, z) \<Rightarrow> k y z)"
  by (auto split: sum.split option.split list.split prod.split)

lemma safe_throw: "safe s Q (tthrow err)"
  by (auto intro: safe_done)

lemma safe_ret: "(\<And>t. R s t \<Longrightarrow> Q x t) \<Longrightarrow> safe s Q (tret x)"
  by (auto intro: safe_done)

lemma safe_for_each:
  assumes "\<And>x s a. safe s (\<lambda>_ _. True) (body x a)"
  shows "safe s (\<lambda>_ _. True) (tfor_each body xs a)"
  by (induction xs arbitrary: s a) (auto intro: safe_ret safe_tbind [OF assms])

end

subsection \<open>The pool\<close>

text \<open>One thread of the pool takes a step; a thread that is done stays as it is.\<close>

type_synonym pool = "nat \<rightharpoonup> unit thread"


context rely_guarantee
begin

lemma pool_step:
  assumes pool: "\<forall>n t. ts n = Some t \<longrightarrow> safe s (\<lambda>_ _. True) t" and "I s"
    and "ts n = Some (Running m)" "db s = w_db w" "m e w = (t, w')" "ok s s'" "db s' = w_db w'"
  shows "I s'" "R s s'" "\<forall>k t'. (ts(n \<mapsto> t)) k = Some t' \<longrightarrow> safe s' (\<lambda>_ _. True) t'"
proof -
  from pool assms(3) have "safe s (\<lambda>_ _. True) (Running m)" by blast
  then have step: "R s s' \<and> I s' \<and> safe s' (\<lambda>_ _. True) t"
    using safe_runningD [OF _ R_refl] assms(2,4-7) by blast
  then show "I s'" "R s s'" by auto
  show "\<forall>k t'. (ts(n \<mapsto> t)) k = Some t' \<longrightarrow> safe s' (\<lambda>_ _. True) t'"
    using step pool by (auto split: if_splits intro: safe_later)
qed

end

end
