(* ===== verification/Overlap_Service.thy ===== *)
theory Overlap_Service
  imports Resumption User_Auth Rematch_Service System_Invariant
begin

text \<open>
  The use cases of \<open>backend/usecase/game_usecase.go\<close>, cut at their statements: between two of
  them another request may run, since the code reads outside its transactions. A transaction is
  one step. Each thread is proved to be its use case when nothing interrupts it (\<open>run\<close>), so the
  cuts are the only thing that is new. \<open>request_thread\<close> has one thread per request; a request
  that is one statement, one transaction, or only reads, is one step.
\<close>

subsection \<open>Rooms\<close>

definition JoinRoom_t :: "string \<Rightarrow> string \<Rightarrow> Room thread" where
  "JoinRoom_t roomID userID =
     (if userID = [] then tthrow ErrUnauthorizedUser
      else if roomID = [] then tthrow ErrInvalidInput
      else
        tbind (act (store_read (GetRoom roomID))) (\<lambda>room.
        tbind (act (guard (CanJoinAsHumanPlayer (room_Status room)) ErrInvalidGameState)) (\<lambda>_.
        tbind (act (guard (room_HostUserID room = userID) ErrForbiddenAction)) (\<lambda>_.
        tbind (act (store_read (ListRoomPlayersByRoomID roomID))) (\<lambda>players.
        let activeHuman = int (length (filter in_room players)) in
        tbind (act (guard (activeHuman < 1) ErrRoomFull)) (\<lambda>_.
        tbind (act io_now) (\<lambda>now.
        tbind (act (lift (NewRoomPlayer roomID userID 1 now))) (\<lambda>joiner.
        tbind (act (lift (RecalculateStatus room (activeHuman + 1)
            (room_CurrentSessionID room \<noteq> None)))) (\<lambda>room.
        let room = Room_Touch now room in
        tbind (act (transaction (JoinRoom_tx roomID userID joiner room now))) (\<lambda>_.
        tret room))))))))))"

definition LeaveRoom_t :: "string \<Rightarrow> string \<Rightarrow> (Room \<times> HostTransfer option) thread" where
  "LeaveRoom_t roomID userID =
     (if userID = [] then tthrow ErrUnauthorizedUser
      else if roomID = [] then tthrow ErrInvalidInput
      else
        tbind (act (store_read (GetRoom roomID))) (\<lambda>room.
        tbind (act (guard (room_CurrentSessionID room = None) ErrInvalidGameState)) (\<lambda>_.
        tbind (act (store_read (GetRoomPlayer roomID userID))) (\<lambda>p.
        if rp_Status p = RoomPlayerLeft then tret (room, None)
        else
          tbind (act (store_read (ListRoomPlayersByRoomID roomID))) (\<lambda>players.
          tbind (act io_now) (\<lambda>now.
          let p = MarkLeft now p;
              activeAfterLeave =
                int (length (filter (\<lambda>rp. rp_UserID rp \<noteq> userID \<and> in_room rp) players));
              (room, transfer) =
                (if room_HostUserID room = userID then
                   (case selectNextHost players userID of
                      Some nextHost \<Rightarrow>
                        (room\<lparr>room_HostUserID := rp_UserID nextHost\<rparr>,
                         Some \<lparr>ht_RoomID = roomID, ht_PreviousHostUserID = userID,
                               ht_NewHostUserID = rp_UserID nextHost\<rparr>)
                    | None \<Rightarrow> (room, None))
                 else (room, None))
          in
          tbind (act (lift (RecalculateStatus room activeAfterLeave False))) (\<lambda>room.
          let room = Room_Touch now room in
          tbind (act (transaction
              (bind (store_write (UpdateRoomPlayer p)) (\<lambda>_. tx_UpdateRoom room)))) (\<lambda>_.
          tret (room, transfer)))))))))"

definition MarkConnected_t :: "string \<Rightarrow> string \<Rightarrow> unit thread" where
  "MarkConnected_t roomID userID =
     (if roomID = [] \<or> userID = [] then tthrow ErrInvalidInput
      else
        tbind (act (store_read (GetRoomPlayer roomID userID))) (\<lambda>p.
        if rp_Status p = RoomPlayerLeft \<or> rp_Status p = RoomPlayerActive then tret ()
        else
          tbind (act (lift (RoomPlayer_SetStatus p RoomPlayerActive))) (\<lambda>p.
          act (store_write (UpdateRoomPlayer p)))))"

text \<open>The mark of a closed connection: the member as it was read, and the write.\<close>

definition mark_disconnected_t :: "(error + RoomPlayer) \<Rightarrow> unit thread" where
  "mark_disconnected_t r =
     (case r of
        Inl err \<Rightarrow> if err = ErrNotFound then tret () else tthrow err
      | Inr p \<Rightarrow>
          if rp_Status p = RoomPlayerLeft \<or> rp_Status p = RoomPlayerDisconnected then tret ()
          else
            tbind (act (lift (RoomPlayer_SetStatus p RoomPlayerDisconnected))) (\<lambda>p.
            act (store_write (UpdateRoomPlayer p))))"

definition MarkDisconnected_t :: "string \<Rightarrow> string \<Rightarrow> unit thread" where
  "MarkDisconnected_t roomID userID =
     (if roomID = [] \<or> userID = [] then tthrow ErrInvalidInput
      else
        tbind (act (attempt (store_read (GetRoomPlayer roomID userID)))) mark_disconnected_t)"

subsection \<open>Starting a round\<close>

text \<open>The reads and checks on the room, and what is done with the room that was read.\<close>

definition start_check_t :: "string \<Rightarrow> string \<Rightarrow> Room thread" where
  "start_check_t roomID userID =
     tbind (act (store_read (GetRoom roomID))) (\<lambda>room.
     tbind (act (guard (room_HostUserID room = userID) ErrForbiddenAction)) (\<lambda>_.
     tbind (act (guard (room_Status room = RoomStatusReady) ErrInvalidGameState)) (\<lambda>_.
     tbind (act (store_read (GetRoomPlayer roomID userID))) (\<lambda>player.
     tbind (act (guard (in_room player) ErrInvalidGameState)) (\<lambda>_.
     tbind (act (guard (room_CurrentSessionID room = None) ErrInvalidGameState)) (\<lambda>_.
     tret room))))))"

text \<open>The rest of a start once it has read its round number.\<close>

definition start_write_t ::
    "roomService \<Rightarrow> string \<Rightarrow> string \<Rightarrow> Room \<Rightarrow> int \<Rightarrow> (Room \<times> GameSession) thread" where
  "start_write_t u roomID userID room = (\<lambda>roundNo.
     tbind (act io_now) (\<lambda>now.
     tbind (act io_uuid) (\<lambda>sid.
     tbind (act (lift (NewGameSession now sid roomID roundNo now))) (\<lambda>sess.
     tbind (act io_deck) (\<lambda>deck.
     tbind (act (lift (open_round u now (SetDeck deck sess) userID))) (\<lambda>(sess, pstate, dealer).
     let room = room\<lparr>room_CurrentSessionID := Some (sess_ID sess)\<rparr> in
     tbind (act (lift (RecalculateStatus room 1 True))) (\<lambda>room.
     let room = Room_Touch now room; sess = Session_Touch now sess in
     tbind (act (transaction (create_round_tx sess pstate dealer room))) (\<lambda>_.
     tret (room, sess)))))))))"

definition start_create_t ::
    "roomService \<Rightarrow> string \<Rightarrow> string \<Rightarrow> Room \<Rightarrow> (Room \<times> GameSession) thread" where
  "start_create_t u roomID userID room =
     tbind (act (next_round_no roomID)) (start_write_t u roomID userID room)"

definition StartRoom_t :: "roomService \<Rightarrow> string \<Rightarrow> string \<Rightarrow> (Room \<times> GameSession) thread" where
  "StartRoom_t u roomID userID =
     (if userID = [] then tthrow ErrUnauthorizedUser
      else if roomID = [] then tthrow ErrInvalidInput
      else tbind (start_check_t roomID userID) (start_create_t u roomID userID))"

subsection \<open>The player's turn\<close>

definition turn_load_t ::
    "string \<Rightarrow> string \<Rightarrow> int \<Rightarrow> (Room \<times> GameSession \<times> PlayerState \<times> DealerState) thread" where
  "turn_load_t roomID userID expectedVersion =
     tbind (act (store_read (GetRoom roomID))) (\<lambda>room.
     case room_CurrentSessionID room of
       None \<Rightarrow> tthrow ErrInvalidGameState
     | Some sid \<Rightarrow>
         tbind (act (store_read (GetSession sid))) (\<lambda>sess.
         tbind (act (check (CheckVersion sess expectedVersion))) (\<lambda>_.
         tbind (act (attempt (store_read (GetPlayerState (sess_ID sess) userID)))) (\<lambda>r.
         case r of
           Inl err \<Rightarrow> if err = ErrNotFound then tthrow ErrForbiddenAction else tthrow err
         | Inr player \<Rightarrow>
             tbind (act (store_read (GetDealerState (sess_ID sess)))) (\<lambda>dealer.
             tbind (act (check (AssertCanHitOrStand player (Some sess) userID))) (\<lambda>_.
             tret (room, sess, player, dealer)))))))"

definition playerTurn_t ::
    "roomService \<Rightarrow> string \<Rightarrow> string \<Rightarrow> int \<Rightarrow> string \<Rightarrow> bool \<Rightarrow> (Room \<times> GameSession) thread" where
  "playerTurn_t u roomID userID expectedVersion actionID hit =
     (if userID = [] then tthrow ErrUnauthorizedUser
      else if roomID = [] \<or> expectedVersion \<le> 0 \<or> actionID = [] then tthrow ErrInvalidInput
      else
        tbind (turn_load_t roomID userID expectedVersion) (\<lambda>(room, sess, player, dealer).
        tbind (act (sha256hex (turn_payload hit expectedVersion))) (\<lambda>hash.
        let actionLog = turn_log (sess_ID sess) userID actionID hit hash in
        tbind (act (EnsureActionIdempotency actionLog)) (\<lambda>(_, replay).
        if replay then tret (room, sess)
        else
          tbind (act (turn_compute u hit actionLog (room, sess, player, dealer))) (\<lambda>c.
          tbind (act (transaction (turn_tx expectedVersion c))) (\<lambda>_.
          tret (tc_room c, tc_sess c)))))))"

subsection \<open>The worker\<close>

definition timeout_move_t ::
    "roomService \<Rightarrow> string \<Rightarrow> Room \<Rightarrow> GameSession \<Rightarrow> PlayerState \<Rightarrow> DealerState \<Rightarrow> unit thread" where
  "timeout_move_t u sessionID room sess player dealer =
     tbind (act (io_getenv ''BLACKJACK_PLAYER_TIMEOUT_POLICY'')) (\<lambda>policy.
     if TrimSpace policy = ''heuristic'' \<and> ds_Hand dealer \<noteq> []
        \<and> RecommendHitOrStand (svc_evaluator u) (ps_Hand player) (hd (ds_Hand dealer))
     then
       tbind (playerTurn_t u (room_ID room) (ps_UserID player) (sess_Version sess)
           (''auto-heuristic-hit:'' @ sessionID @ '':'' @ FormatInt (sess_Version sess)) True)
         (\<lambda>_. tret ())
     else act (forfeit u room sess player dealer))"

definition load_round_t :: "GameSession \<Rightarrow> (Room \<times> PlayerState \<times> DealerState) thread" where
  "load_round_t sess =
     tbind (act (store_read (GetRoom (sess_RoomID sess)))) (\<lambda>room.
     tbind (act (store_read (ListPlayerStatesBySessionID (sess_ID sess)))) (\<lambda>players.
     case players of
       [] \<Rightarrow> tthrow ErrNotFound
     | player # _ \<Rightarrow>
         tbind (act (store_read (GetDealerState (sess_ID sess)))) (\<lambda>dealer.
         tret (room, player, dealer))))"

definition playerStand_t :: "roomService \<Rightarrow> string \<Rightarrow> unit thread" where
  "playerStand_t u sessionID =
     tbind (act (store_read (GetSession sessionID))) (\<lambda>sess.
     tbind (act io_now) (\<lambda>t.
     if sess_Status sess \<noteq> SessionStatusPlayerTurn \<or> \<not> due (sess_TurnDeadlineAt sess) t then tret ()
     else
       tbind (load_round_t sess) (\<lambda>(room, player, dealer).
       timeout_move_t u sessionID room sess player dealer)))"

definition dealerTurn_t :: "roomService \<Rightarrow> string \<Rightarrow> unit thread" where
  "dealerTurn_t u sessionID =
     tbind (act (store_read (GetSession sessionID))) (\<lambda>sess.
     if sess_Status sess \<noteq> SessionStatusDealerTurn then tret ()
     else
       tbind (load_round_t sess) (\<lambda>(room, player, dealer).
       act (dealer_move u sess room player dealer)))"

definition worker_step_t ::
    "(string \<Rightarrow> unit thread) \<Rightarrow> GameSession \<Rightarrow> string list \<Rightarrow> string list thread" where
  "worker_step_t handle sess updatedRooms =
     tbind (tattempt (handle (sess_ID sess))) (\<lambda>r.
     case r of
       Inl err \<Rightarrow>
         if passed_over err then tret (note_room (sess_RoomID sess) updatedRooms) else tthrow err
     | Inr _ \<Rightarrow> tret (note_room (sess_RoomID sess) updatedRooms))"

definition AutoStandDueSessions_t :: "roomService \<Rightarrow> string list thread" where
  "AutoStandDueSessions_t u =
     tbind (act io_now) (\<lambda>now.
     tbind (act (store_read
         (ListSessionsByStatusAndDeadlineBefore SessionStatusPlayerTurn now))) (\<lambda>sessions.
     tbind (tfor_each (worker_step_t (playerStand_t u)) sessions []) (\<lambda>updatedRooms.
     tbind (act (store_read (ListSessionsByStatus SessionStatusDealerTurn))) (\<lambda>dealerSessions.
     tbind (tfor_each (worker_step_t (dealerTurn_t u)) dealerSessions updatedRooms)
       (\<lambda>updatedRooms.
     tbind (act (store_read (ListResettingSessionsDueBy now))) (\<lambda>remDue.
     tfor_each (worker_step_t (\<lambda>i. act (processRematchDeadline u i))) remDue updatedRooms))))))"

subsection \<open>Votes\<close>

definition VoteRematch_t ::
    "roomService \<Rightarrow> string \<Rightarrow> string \<Rightarrow> bool \<Rightarrow> int \<Rightarrow> string \<Rightarrow> (Room \<times> GameSession) thread" where
  "VoteRematch_t u roomID userID agree expectedVersion actionID =
     (if userID = [] then tthrow ErrUnauthorizedUser
      else if roomID = [] \<or> expectedVersion \<le> 0 \<or> actionID = [] then tthrow ErrInvalidInput
      else
        tbind (act (store_read (GetRoom roomID))) (\<lambda>room.
        tbind (act (attempt (store_read (GetRoomPlayer roomID userID)))) (\<lambda>r.
        case r of
          Inl err \<Rightarrow> if err = ErrNotFound then tthrow ErrForbiddenAction else tthrow err
        | Inr _ \<Rightarrow>
            tbind (act (store_read (GetLatestSessionByRoomID roomID))) (\<lambda>latest.
            act (transaction (VoteRematch_tx u room roomID (sess_ID latest) userID agree
              expectedVersion actionID))))))"

lemmas thread_defs =
  JoinRoom_t_def LeaveRoom_t_def MarkConnected_t_def mark_disconnected_t_def MarkDisconnected_t_def
  start_check_t_def start_create_t_def start_write_t_def StartRoom_t_def turn_load_t_def playerTurn_t_def
  timeout_move_t_def load_round_t_def playerStand_t_def dealerTurn_t_def worker_step_t_def
  AutoStandDueSessions_t_def VoteRematch_t_def

subsection \<open>The cuts are the code\<close>

lemma bind_assoc: "bind (bind m f) g = bind m (\<lambda>x. bind (f x) g)"
  by (simp add: fun_eq_iff bind_def split: prod.split sum.split)

lemma bind_ret: "bind (ret x) f = f x" "bind (throw err) g = throw err"
  by (simp_all add: fun_eq_iff bind_def ret_def throw_def)

lemma bind_branches:
  "bind (if b then m else m') f = (if b then bind m f else bind m' f)"
  "bind (case oc of None \<Rightarrow> m | Some x \<Rightarrow> g x) f = (case oc of None \<Rightarrow> bind m f | Some x \<Rightarrow> bind (g x) f)"
  "bind (case r of Inl err \<Rightarrow> h err | Inr x \<Rightarrow> k x) f = (case r of Inl err \<Rightarrow> bind (h err) f | Inr x \<Rightarrow> bind (k x) f)"
  by (simp_all split: option.split sum.split)

lemmas branch_congs = if_cong option.case_cong sum.case_cong list.case_cong

named_theorems run_thread \<open>a use case is its thread without interruption\<close>

lemma run_rooms [run_thread]:
  "run (JoinRoom_t i user) = JoinRoom i user" "run (LeaveRoom_t i user) = LeaveRoom i user"
  "run (MarkConnected_t i user) = MarkConnected i user"
  "run (MarkDisconnected_t i user) = MarkDisconnected i user"
  by (simp_all add: thread_defs JoinRoom_def LeaveRoom_def MarkConnected_def MarkDisconnected_def uncut
      Let_def split_def cong: branch_congs)

lemma run_StartRoom [run_thread]: "run (StartRoom_t u i user) = StartRoom u i user"
  by (simp add: thread_defs StartRoom_def uncut bind_assoc bind_ret Let_def split_def cong: branch_congs)

lemma run_turn_load [run_thread]: "run (turn_load_t i user n) = turn_load i user n"
  by (simp add: turn_load_t_def turn_load_def uncut cong: branch_congs)

lemma run_playerTurn [run_thread]:
  "run (playerTurn_t u i user n a hit) = playerTurn u i user n a hit"
  by (simp add: playerTurn_t_def playerTurn_def turn_prepare_def uncut run_thread bind_assoc bind_ret
      bind_branches Let_def split_def cong: branch_congs)

lemma run_worker [run_thread]:
  "run (load_round_t s) = load_round s"
  "run (timeout_move_t u i r s p x) = timeout_move u i r s p x"
  "run (playerStand_t u i) = playerStand u i" "run (dealerTurn_t u i) = dealerTurn u i"
  by (simp_all add: load_round_t_def load_round_def timeout_move_t_def timeout_move_def
      playerStand_t_def playerStand_def dealerTurn_t_def dealerTurn_def Hit_def uncut run_thread split_def
      cong: branch_congs)

lemma run_worker_step [run_thread]:
  "(\<And>i. run (h i) = f i) \<Longrightarrow> run (worker_step_t h s rooms) = worker_step f s rooms"
  by (simp add: worker_step_t_def worker_step_def uncut cong: branch_congs)

lemma run_AutoStand [run_thread]: "run (AutoStandDueSessions_t u) = AutoStandDueSessions u"
  unfolding AutoStandDueSessions_t_def AutoStandDueSessions_def
  by (simp add: uncut run_for_each [OF run_worker_step] run_thread)

lemma run_VoteRematch [run_thread]:
  "run (VoteRematch_t u i user agree n a) = VoteRematch u i user agree n a"
  by (simp add: VoteRematch_t_def VoteRematch_def uncut cong: branch_congs)

subsection \<open>The thread of a request\<close>

definition tvoid :: "'a thread \<Rightarrow> unit thread" where
  "tvoid t = tbind t (\<lambda>_. tret ())"

fun request_thread :: "roomService \<Rightarrow> request \<Rightarrow> unit thread" where
  "request_thread u (ReqJoinRoom i user) = tvoid (JoinRoom_t i user)"
| "request_thread u (ReqLeaveRoom i user) = tvoid (LeaveRoom_t i user)"
| "request_thread u (ReqStartRoom i user) = tvoid (StartRoom_t u i user)"
| "request_thread u (ReqHit i user v a) = tvoid (playerTurn_t u i user v a True)"
| "request_thread u (ReqStand i user v a) = tvoid (playerTurn_t u i user v a False)"
| "request_thread u (ReqVoteRematch i user agree v a) = tvoid (VoteRematch_t u i user agree v a)"
| "request_thread u (ReqMarkConnected i user) = MarkConnected_t i user"
| "request_thread u (ReqMarkDisconnected i user) = MarkDisconnected_t i user"
| "request_thread u WorkerPass = tvoid (AutoStandDueSessions_t u)"
| "request_thread u req = act (serve u req)"

lemma run_tvoid [uncut]: "run (tvoid t) = void (run t)"
  by (simp add: tvoid_def void_def uncut)

lemma void_unit: "void m = m"
  by (simp add: fun_eq_iff void_def bind_def ret_def split: prod.split sum.split)

theorem cuts_are_the_code: "run (request_thread u req) = serve u req"
  by (cases req) (simp_all add: uncut run_thread Hit_def Stand_def void_unit)

end
