(* ===== verification/Overlap.thy ===== *)
theory Overlap
  imports Round_Progress Overlap_Service
begin

text \<open>
  The server under overlapping requests. A state has the database and the ids that sessions ever
  had; any number of threads (\<open>Overlap_Service\<close>) take steps in any order, each step in an
  environment of its own. Two things are asked of a step (\<open>admitted\<close>): \<open>uuid.NewString\<close> gives no
  session an id that a session already had, and the versions have not come to the end of \<open>int64\<close>.
  The threads are judged by rely and guarantee (\<open>Resumption\<close>): every step keeps \<open>game_ok\<close> and
  moves the rounds by their versions (\<open>together\<close>); a request that has read a round holds what it
  read until its conditional update (\<open>held\<close>), because another request cannot have changed the
  round without changing its version.
\<close>

type_synonym server_state = "string set \<times> DB"

definition together :: "server_state \<Rightarrow> server_state \<Rightarrow> bool" where
  "together s t \<longleftrightarrow> fst s \<subseteq> fst t \<and> (\<forall>i \<in> fst s. moved (snd s) (snd t) i)"

definition steady :: "bj_lib \<Rightarrow> server_state \<Rightarrow> bool" where
  "steady lib s \<longleftrightarrow> game_ok lib (snd s) \<and> session_ids (snd s) \<subseteq> fst s"

definition admitted :: "server_state \<Rightarrow> server_state \<Rightarrow> bool" where
  "admitted s t \<longleftrightarrow> fst t = fst s \<union> session_ids (snd t)
     \<and> session_ids (snd t) \<inter> fst s \<subseteq> session_ids (snd s) \<and> versions_fit (snd s)"

lemma together_refl: "together s s"
  by (simp add: together_def moved_part)

lemma together_trans: "together s t \<Longrightarrow> together t u \<Longrightarrow> together s u"
  unfolding together_def using moved_trans by blast

lemma sound_step:
  assumes "admitted s t" "steady lib s" "sound lib (snd s) (snd t)"
  shows "together s t \<and> steady lib t"
proof -
  have "game_ok lib (snd t)" "advances (snd s) (snd t)"
    using assms by (simp_all add: sound_def admitted_def steady_def)
  moreover have "moved (snd s) (snd t) i" if "i \<in> fst s" for i
  proof (cases "i \<in> session_ids (snd s)")
    case True
    with \<open>advances (snd s) (snd t)\<close> show ?thesis by (simp add: advances_def)
  next
    case False
    with that assms(1) have "i \<notin> session_ids (snd t)" by (auto simp: admitted_def)
    then show ?thesis by (simp add: moved_def session_ids_row)
  qed
  ultimately show ?thesis using assms(1) by (auto simp: together_def steady_def admitted_def)
qed

interpretation runs: rely_guarantee together "steady lib" snd admitted for lib
proof
  show "together s s" for s by (rule together_refl)
  show "together s u" if "together s t" "together t u" for s t u using that by (rule together_trans)
  show "together s t \<and> (steady lib s \<longrightarrow> steady lib t)" if "admitted s t" "snd t = snd s" for s t
    using that by (auto simp: together_def admitted_def steady_def moved_part)
qed

abbreviation safe_thread :: "bj_lib \<Rightarrow> server_state \<Rightarrow> 'a thread \<Rightarrow> bool" where
  "safe_thread lib s t \<equiv> runs.safe lib s (\<lambda>_ _. True) t"

text \<open>A step that is sound when it succeeds, and changes nothing when it fails.\<close>

lemma safe_commit:
  assumes "all_or_nothing m"
    and "\<And>t e w x w'. together s t \<Longrightarrow> steady lib t \<Longrightarrow> snd t = w_db w \<Longrightarrow> m e w = (Inr x, w') \<Longrightarrow>
      sound lib (w_db w) (w_db w')"
  shows "safe_thread lib s (act m)"
proof (rule runs.safe_act)
  fix t e w r w' t'
  assume a: "together s t" "steady lib t" "snd t = w_db w" "m e w = (r, w')" "admitted t t'" "snd t' = w_db w'"
  have "sound lib (w_db w) (w_db w')"
  proof (cases r)
    case (Inl err)
    with a(4) aonD [OF assms(1)] show ?thesis by simp
  next
    case (Inr x)
    with a assms(2) show ?thesis by blast
  qed
  with sound_step [OF a(5,2)] a(3,6)
  show "together t t' \<and> steady lib t' \<and> (\<forall>x u. r = Inr x \<longrightarrow> together t' u \<longrightarrow> True)" by simp
qed

lemma safe_aside:
  assumes "effect same_rounds m" "writes_only m"
  shows "safe_thread lib s (act m)"
proof (rule runs.safe_act)
  fix t e w r w' t'
  assume a: "together s t" "steady lib t" "snd t = w_db w" "m e w = (r, w')" "admitted t t'" "snd t' = w_db w'"
  with sound_step [OF a(5,2)] aside_sound [OF assms a(4)]
  show "together t t' \<and> steady lib t' \<and> (\<forall>x u. r = Inr x \<longrightarrow> together t' u \<longrightarrow> True)" by simp
qed

lemma safe_readonly: "readonly m \<Longrightarrow> safe_thread lib s (act m)"
  by (rule safe_aside) (simp_all add: aside_readonly writes_readonly)

lemma safe_void: "safe_thread lib s t \<Longrightarrow> safe_thread lib s (tvoid t)"
  unfolding tvoid_def by (rule runs.safe_tbind [where P = "\<lambda>_ _. True"]) (auto intro: runs.safe_ret)

subsection \<open>What a request has read\<close>

definition held :: "string \<Rightarrow> int \<Rightarrow> (DB \<Rightarrow> bool) \<Rightarrow> server_state \<Rightarrow> bool" where
  "held i v K s \<longleftrightarrow> i \<in> fst s \<and> (\<forall>t g. together s t \<longrightarrow> session_row (snd t) i = Some g \<longrightarrow>
     v \<le> gs_Version g \<and> (gs_Version g = v \<longrightarrow> K (snd t)))"

definition of_part :: "string \<Rightarrow> (DB \<Rightarrow> bool) \<Rightarrow> bool" where
  "of_part i K \<longleftrightarrow> (\<forall>d d'. part i d' = part i d \<longrightarrow> K d \<longrightarrow> K d')"

lemma of_part_reads [simp]:
  "of_part i (\<lambda>d. GetSession i d = r)" "of_part i (\<lambda>d. ListPlayerStatesBySessionID i d = r1)"
  "of_part i (\<lambda>d. GetPlayerState i u d = r2)" "of_part i (\<lambda>d. GetDealerState i d = r3)"
  by (auto simp: of_part_def dest: part_reads)

lemma together_row:
  assumes "together s t" "i \<in> fst s" "session_row (snd t) i = Some g'"
  obtains g where "session_row (snd s) i = Some g"
    "gs_Version g < gs_Version g' \<or> part i (snd t) = part i (snd s)"
  using assms unfolding together_def moved_def by blast

lemma heldD:
  assumes "held i v K s" "together s t" "session_row (snd t) i = Some g"
  shows "v \<le> gs_Version g" "gs_Version g = v \<Longrightarrow> K (snd t)"
  using assms unfolding held_def by blast+

lemma heldI:
  assumes "i \<in> fst s" "\<And>t g. together s t \<Longrightarrow> session_row (snd t) i = Some g \<Longrightarrow>
     v \<le> gs_Version g \<and> (gs_Version g = v \<longrightarrow> K (snd t))"
  shows "held i v K s"
  using assms unfolding held_def by blast

lemma held_id: "held i v K s \<Longrightarrow> i \<in> fst s"
  by (simp add: held_def)

lemma held_later: "held i v K s \<Longrightarrow> together s t \<Longrightarrow> held i v K t"
proof (rule heldI)
  assume h: "held i v K s" "together s t"
  from held_id [OF h(1)] h(2) show "i \<in> fst t" by (auto simp: together_def)
  fix u g
  assume "together t u" "session_row (snd u) i = Some g"
  with heldD [OF h(1) together_trans [OF h(2)]] show "v \<le> gs_Version g \<and> (gs_Version g = v \<longrightarrow> K (snd u))"
    by blast
qed

lemma held_now: "held i v K s \<Longrightarrow> session_row (snd s) i = Some g \<Longrightarrow> gs_Version g = v \<Longrightarrow> K (snd s)"
  by (rule heldD(2) [OF _ together_refl])

lemma held_read:
  assumes "steady lib s" "GetSession i (snd s) = Inr sess"
  shows "held i (sess_Version sess) (\<lambda>d. GetSession i d = Inr sess) s"
proof -
  from GetSession_row [OF assms(2)] obtain g where g: "session_row (snd s) i = Some g"
    "gs_Version g = sess_Version sess" "i \<in> session_ids (snd s)" by blast
  with assms(1) have i: "i \<in> fst s" by (auto simp: steady_def)
  show ?thesis
  proof (rule heldI [OF i])
    fix t g'
    assume t: "together s t" "session_row (snd t) i = Some g'"
    from t(1) i t(2) obtain g0 where g0: "session_row (snd s) i = Some g0"
      "gs_Version g0 < gs_Version g' \<or> part i (snd t) = part i (snd s)" by (rule together_row)
    with g have v: "gs_Version g0 = sess_Version sess" by simp
    from g0(2) show "sess_Version sess \<le> gs_Version g' \<and>
        (gs_Version g' = sess_Version sess \<longrightarrow> GetSession i (snd t) = Inr sess)"
    proof
      assume "gs_Version g0 < gs_Version g'"
      with v show ?thesis by simp
    next
      assume same: "part i (snd t) = part i (snd s)"
      with part_row [OF same] g0(1) t(2) v part_reads(1) [OF same] assms(2) show ?thesis by simp
    qed
  qed
qed

lemma held_more:
  assumes h: "held i v K s" and K': "K' (snd s)" "of_part i K'"
  shows "held i v (\<lambda>d. K d \<and> K' d) s"
proof (rule heldI [OF held_id [OF h]])
  fix t g
  assume t: "together s t" "session_row (snd t) i = Some g"
  from t(1) held_id [OF h] t(2) obtain g0 where g0: "session_row (snd s) i = Some g0"
    "gs_Version g0 < gs_Version g \<or> part i (snd t) = part i (snd s)" by (rule together_row)
  have "K' (snd t)" if "gs_Version g = v"
    using g0(2)
  proof
    assume "gs_Version g0 < gs_Version g"
    with heldD(1) [OF h together_refl g0(1)] that show ?thesis by simp
  next
    assume "part i (snd t) = part i (snd s)"
    with K' show ?thesis unfolding of_part_def by blast
  qed
  with heldD [OF h t] show "v \<le> gs_Version g \<and> (gs_Version g = v \<longrightarrow> K (snd t) \<and> K' (snd t))" by blast
qed

text \<open>A conditional update that went through, on what was held.\<close>

lemma held_cas:
  assumes "held (sess_ID s) n K t" "steady lib t" "snd t = w_db w"
    and "UpdateSessionIfVersion s n (w_db w) = (d1, True)"
  shows "K (w_db w)"
proof -
  have "distinct (map gs_ID (d_game_sessions (w_db w)))"
    using assms(2,3) by (auto simp: steady_def dest: game_ok_keys)
  from session_cas.cas_success [OF this assms(4)] obtain g
    where "session_row (w_db w) (sess_ID s) = Some g" "gs_Version g = n" .
  with held_now [OF assms(1)] assms(3) show ?thesis by simp
qed

subsection \<open>The threads are safe\<close>

lemma safe_room_threads:
  "safe_thread lib s (JoinRoom_t i user)" "safe_thread lib s (LeaveRoom_t i user)"
  "safe_thread lib s (MarkConnected_t i user)" "safe_thread lib s (MarkDisconnected_t i user)"
  unfolding thread_defs JoinRoom_tx_def Let_def
  by (intro runs.safe_tbind [where P = "\<lambda>_ _. True"] runs.safe_branches runs.safe_throw runs.safe_ret
        safe_aside aside_intros writes_intros TrueI)+

lemma safe_StartRoom:
  assumes lib: "lib_documented lib"
  shows "safe_thread lib s (StartRoom_t (svc lib) i user)"
proof -
  have check: "safe_thread lib s (start_check_t i user)" for s
    unfolding start_check_t_def
    by (intro runs.safe_tbind [where P = "\<lambda>_ _. True"] runs.safe_branches runs.safe_throw runs.safe_ret
        safe_readonly readonly_intros TrueI)
  have create: "safe_thread lib s (start_create_t (svc lib) i user room)" for s room
    unfolding start_create_t_def start_write_t_def Let_def split_def
  proof ((rule runs.safe_read, rule readonly_round(1) reads.basic)+,
      rule runs.safe_tbind [where P = "\<lambda>_ _. True"], goal_cases)
    case (1 _ _ _ n _ _ _ _ now _ _ _ _ sid _ _ e1 w1 sess w1' _ e2 w2 deck w2' _ e3 w3 z w3' t e4 w4 room' w4')
    let ?tx = "create_round_tx (Session_Touch now (fst z)) (fst (snd z)) (snd (snd z)) (Room_Touch now room')"
    have "sound lib (w_db w) (w_db w')" if run: "transaction ?tx e w = (Inr u, w')" for e w u w'
    proof -
      from run obtain v where tx: "?tx e w = (Inr u, v)" and w': "w_db w' = w_db v" by (auto simp: transaction_Inr)
      show ?thesis
        unfolding w' by (rule start_sound [OF lib _ _ _ tx]) (use 1 in \<open>auto simp: prog_elims\<close>)
    qed
    then show ?case by (rule safe_commit [OF aon_transaction])
  qed (auto intro: runs.safe_ret)
  show ?thesis
    unfolding StartRoom_t_def
    by (intro runs.safe_branches runs.safe_throw runs.safe_tbind [where P = "\<lambda>_ _. True"] check create)
qed

text \<open>What a turn holds after its reads.\<close>

abbreviation turn_read ::
    "string \<Rightarrow> GameSession \<Rightarrow> PlayerState \<Rightarrow> DealerState \<Rightarrow> DB \<Rightarrow> bool" where
  "turn_read userID sess p x d \<equiv> (GetSession (sess_ID sess) d = Inr sess
     \<and> GetPlayerState (sess_ID sess) userID d = Inr p) \<and> GetDealerState (sess_ID sess) d = Inr x"

definition turn_held ::
    "string \<Rightarrow> int \<Rightarrow> Room \<times> GameSession \<times> PlayerState \<times> DealerState \<Rightarrow> server_state \<Rightarrow> bool" where
  "turn_held userID n = (\<lambda>(room, sess, p, x) s.
     held (sess_ID sess) n (turn_read userID sess p x) s
     \<and> sess_Version sess = n \<and> AssertCanHitOrStand p (Some sess) userID = None)"

lemma turn_held_later: "turn_held userID n l s \<Longrightarrow> together s t \<Longrightarrow> turn_held userID n l t"
  by (auto simp: turn_held_def intro: held_later)

lemma safe_turn_load: "runs.safe lib s (turn_held userID n) (turn_load_t i userID n)"
  unfolding turn_load_t_def
proof (intro runs.safe_read [OF reads.store_read] runs.safe_branches(3) runs.safe_throw)
  fix t e w room w' sid t1 e1 w1 sess w1'
  assume t1: "steady lib t1" "snd t1 = w_db w1" "store_read (GetSession sid) e1 w1 = (Inr sess, w1')"
  then have g: "GetSession sid (snd t1) = Inr sess" by (simp add: store_read_Inr)
  with GetSession_id have sid: "sess_ID sess = sid" by blast
  have h1: "held sid (sess_Version sess) (\<lambda>d. GetSession sid d = Inr sess) t1"
    by (rule held_read [OF t1(1) g])
  show "runs.safe lib t1 (turn_held userID n)
      (tbind (act (check (CheckVersion sess n))) (\<lambda>_.
       tbind (act (attempt (store_read (GetPlayerState (sess_ID sess) userID)))) (\<lambda>r.
       case r of
         Inl err \<Rightarrow> if err = ErrNotFound then tthrow ErrForbiddenAction else tthrow err
       | Inr player \<Rightarrow>
           tbind (act (store_read (GetDealerState (sess_ID sess)))) (\<lambda>dealer.
           tbind (act (check (AssertCanHitOrStand player (Some sess) userID))) (\<lambda>_.
           tret (room, sess, player, dealer))))))"
  proof (intro runs.safe_read reads.basic reads.attempt reads.store_read runs.safe_branches(1,2)
      runs.safe_throw runs.safe_ret)
    fix t2 e2 w2 u2 w2' t3 e3 w3 r w3' p t4 e4 w4 x w4' t5 e5 w5 u5 w5' t6
    assume t: "together t1 t2" "together t2 t3" "together t3 t4" "together t4 t5" "together t5 t6"
      and v: "check (CheckVersion sess n) e2 w2 = (Inr u2, w2')"
      and p: "snd t3 = w_db w3" "attempt (store_read (GetPlayerState (sess_ID sess) userID)) e3 w3 = (Inr r, w3')"
        "r = Inr p"
      and x: "snd t4 = w_db w4" "store_read (GetDealerState (sess_ID sess)) e4 w4 = (Inr x, w4')"
      and may: "check (AssertCanHitOrStand p (Some sess) userID) e5 w5 = (Inr u5, w5')"
    have n: "sess_Version sess = n" using v by (auto simp: check_Inr CheckVersion_def split: if_splits)
    have "held sid n (\<lambda>d. GetSession sid d = Inr sess) t3"
      using held_later [OF h1] t(1,2) together_trans n by blast
    moreover from p have "read_answer (GetPlayerState (sess_ID sess) userID) e3 w3 = Inr p"
      by (simp add: attempt_read_Inr)
    then have "GetPlayerState sid userID (snd t3) = Inr p" using p(1) sid by (simp add: read_answer_Inr)
    ultimately have "held sid n (\<lambda>d. GetSession sid d = Inr sess \<and> GetPlayerState sid userID d = Inr p) t3"
      by (rule held_more) simp
    then have "held sid n (\<lambda>d. GetSession sid d = Inr sess \<and> GetPlayerState sid userID d = Inr p) t4"
      using t(3) by (rule held_later)
    moreover have "GetDealerState sid (snd t4) = Inr x" using x sid by (simp add: store_read_Inr)
    ultimately have "held sid n (\<lambda>d. (GetSession sid d = Inr sess \<and> GetPlayerState sid userID d = Inr p)
        \<and> GetDealerState sid d = Inr x) t4" by (rule held_more) simp
    then have "held sid n (turn_read userID sess p x) t6"
      using held_later [OF _ together_trans [OF t(4,5)]] sid by simp
    with n may sid show "turn_held userID n (room, sess, p, x) t6"
      by (simp add: turn_held_def check_Inr)
  qed
qed

lemma safe_playerTurn:
  assumes lib: "lib_documented lib"
  shows "safe_thread lib s (playerTurn_t (svc lib) i userID n a hit)"
proof -
  have commit: "safe_thread lib t (act (transaction (turn_tx n c)))"
    if l: "turn_held userID n (room, sess, p, x) t"
      and comp: "turn_compute (svc lib) hit l (room, sess, p, x) e w = (Inr c, w')"
    for t room sess p x l e w c w'
  proof (rule safe_commit [OF aon_transaction])
    fix t1 e1 w1 u w1'
    assume t1: "together t t1" "steady lib t1" "snd t1 = w_db w1"
      and run: "transaction (turn_tx n c) e1 w1 = (Inr u, w1')"
    from run obtain v where tx: "turn_tx n c e1 w1 = (Inr u, v)" and w1': "w_db w1' = w_db v"
      by (auto simp: transaction_Inr)
    from comp obtain now s' p' where act: "turn_apply (svc lib) hit now sess p = Inr (s', p')"
      and c: "tc_sess c = Session_Touch now (IncrementVersion s')" "tc_player c = p'" "tc_dealer c = x"
      by (rule turn_compute_run)
    from l have may: "AssertCanHitOrStand p (Some sess) userID = None" and n: "sess_Version sess = n"
      and h: "held (sess_ID sess) n (turn_read userID sess p x) t1"
      using held_later [OF _ t1(1)] by (auto simp: turn_held_def)
    have "sess_Status sess = SessionStatusPlayerTurn"
      using may by (auto simp: AssertCanHitOrStand_def split: if_splits)
    from turn_apply_same [OF act this] c have id: "sess_ID (tc_sess c) = sess_ID sess" by simp
    from tx obtain d1 where "UpdateSessionIfVersion (tc_sess c) n (w_db w1) = (d1, True)"
      by (rule turn_tx_run)
    from held_cas [OF _ t1(2,3) this] h id have "turn_read userID sess p x (w_db w1)" by simp
    with turn_sound [OF lib _ n _ _ may act c tx] w1' show "sound lib (w_db w1) (w_db w1')" by simp
  qed
  show ?thesis
    unfolding playerTurn_t_def Let_def
  proof (intro runs.safe_branches(1) runs.safe_throw runs.safe_tbind [OF safe_turn_load] runs.safe_branches(5))
    fix l t room z sess y p x
    assume "turn_held userID n l t" "l = (room, z)" "z = (sess, y)" "y = (p, x)"
    then have l: "turn_held userID n (room, sess, p, x) t" by simp
    show "safe_thread lib t
        (tbind (act (sha256hex (turn_payload hit n))) (\<lambda>hash.
         tbind (act (EnsureActionIdempotency (turn_log (sess_ID sess) userID a hit hash))) (\<lambda>(_, replay).
         if replay then tret (room, sess)
         else
           tbind (act (turn_compute (svc lib) hit (turn_log (sess_ID sess) userID a hit hash)
             (room, sess, p, x))) (\<lambda>c.
           tbind (act (transaction (turn_tx n c))) (\<lambda>_. tret (tc_room c, tc_sess c))))))"
      by (intro runs.safe_read [OF reads.basic(10)] runs.safe_read [OF readonly_Ensure]
          runs.safe_read [OF readonly_round(3)] runs.safe_branches(1,5) runs.safe_ret TrueI
          runs.safe_tbind [OF commit])
        (blast intro: turn_held_later [OF l] together_trans)
  qed
qed

text \<open>What a move of the worker holds.\<close>

abbreviation round_read ::
    "GameSession \<Rightarrow> PlayerState \<Rightarrow> PlayerState list \<Rightarrow> DealerState \<Rightarrow> DB \<Rightarrow> bool" where
  "round_read sess p ps x d \<equiv> (GetSession (sess_ID sess) d = Inr sess
     \<and> ListPlayerStatesBySessionID (sess_ID sess) d = Inr (p # ps)) \<and> GetDealerState (sess_ID sess) d = Inr x"

definition round_held :: "GameSession \<Rightarrow> Room \<times> PlayerState \<times> DealerState \<Rightarrow> server_state \<Rightarrow> bool" where
  "round_held sess = (\<lambda>(room, p, x) s.
     \<exists>ps. held (sess_ID sess) (sess_Version sess) (round_read sess p ps x) s)"

lemma round_held_later: "round_held sess l s \<Longrightarrow> together s t \<Longrightarrow> round_held sess l t"
  unfolding round_held_def by (auto intro: held_later)

lemma safe_load_round:
  assumes h: "held (sess_ID sess) (sess_Version sess) (\<lambda>d. GetSession (sess_ID sess) d = Inr sess) s"
  shows "runs.safe lib s (round_held sess) (load_round_t sess)"
  unfolding load_round_t_def
proof (intro runs.safe_read [OF reads.store_read] runs.safe_branches(4) runs.safe_throw runs.safe_ret)
  fix t1 e1 w1 room w1' t2 e2 w2 players w2' p ps t3 e3 w3 x w3' t4
  assume t: "together s t1" "together t1 t2" "together t2 t3" "together t3 t4"
    and p: "snd t2 = w_db w2" "store_read (ListPlayerStatesBySessionID (sess_ID sess)) e2 w2 = (Inr players, w2')"
      "players = p # ps"
    and x: "snd t3 = w_db w3" "store_read (GetDealerState (sess_ID sess)) e3 w3 = (Inr x, w3')"
  have "held (sess_ID sess) (sess_Version sess) (\<lambda>d. GetSession (sess_ID sess) d = Inr sess) t2"
    using held_later [OF h together_trans [OF t(1,2)]] .
  moreover have "ListPlayerStatesBySessionID (sess_ID sess) (snd t2) = Inr (p # ps)"
    using p by (simp add: store_read_Inr)
  ultimately have "held (sess_ID sess) (sess_Version sess) (\<lambda>d. GetSession (sess_ID sess) d = Inr sess
      \<and> ListPlayerStatesBySessionID (sess_ID sess) d = Inr (p # ps)) t2"
    by (rule held_more) simp
  then have "held (sess_ID sess) (sess_Version sess) (\<lambda>d. GetSession (sess_ID sess) d = Inr sess
      \<and> ListPlayerStatesBySessionID (sess_ID sess) d = Inr (p # ps)) t3"
    using t(3) by (rule held_later)
  moreover have "GetDealerState (sess_ID sess) (snd t3) = Inr x" using x by (simp add: store_read_Inr)
  ultimately have "held (sess_ID sess) (sess_Version sess) (round_read sess p ps x) t3"
    by (rule held_more) simp
  from held_later [OF this t(4)] show "round_held sess (room, p, x) t4" by (auto simp: round_held_def)
qed

lemma held_session:
  assumes "steady lib t" "snd t = w_db w" "store_read (GetSession i) e w = (Inr sess, w')"
  shows "held (sess_ID sess) (sess_Version sess) (\<lambda>d. GetSession (sess_ID sess) d = Inr sess) t"
proof -
  have g: "GetSession i (snd t) = Inr sess" using assms(2,3) by (simp add: store_read_Inr)
  with GetSession_id held_read [OF assms(1) g] show ?thesis by fastforce
qed

lemma safe_forfeit:
  assumes "round_held sess (room, p, x) s"
  shows "safe_thread lib s (act (forfeit (svc lib) room sess p x))"
proof (rule safe_commit [OF aon_forfeit])
  fix t e w r w'
  assume t: "together s t" "steady lib t" "snd t = w_db w"
    and run: "forfeit (svc lib) room sess p x e w = (Inr r, w')"
  from assms obtain ps where h: "held (sess_ID sess) (sess_Version sess) (round_read sess p ps x) t"
    by (auto simp: round_held_def dest: held_later [OF _ t(1)])
  from run have "round_read sess p ps x (w_db w)"
  proof (rule forfeit_run)
    fix now s' p' x' l d1
    assume a: "forfeit_apply (svc lib) now sess p x = Inr (s', p', x', l)"
      and cas: "UpdateSessionIfVersion (Session_Touch now (IncrementVersion s')) (sess_Version sess)
        (w_db w) = (d1, True)"
    show ?thesis
      by (rule held_cas [OF _ t(2,3) cas]) (use h forfeit_apply_same [OF a] in simp)
  qed
  then show "sound lib (w_db w) (w_db w')" by (auto intro: forfeit_sound [OF _ _ _ run])
qed

lemma safe_dealer_move:
  assumes lib: "lib_documented lib" and r: "round_held sess (room, p, x) s"
    and st: "sess_Status sess = SessionStatusDealerTurn"
  shows "safe_thread lib s (act (dealer_move (svc lib) sess room p x))"
proof (rule safe_commit [OF aon_dealer_move])
  fix t e w r' w'
  assume t: "together s t" "steady lib t" "snd t = w_db w"
    and run: "dealer_move (svc lib) sess room p x e w = (Inr r', w')"
  from r obtain ps where h: "held (sess_ID sess) (sess_Version sess) (round_read sess p ps x) t"
    by (auto simp: round_held_def dest: held_later [OF _ t(1)])
  from run have "round_read sess p ps x (w_db w)"
  proof (rule dealer_move_run)
    fix now s' p' x' ol d1
    assume a: "dealer_apply (svc lib) now sess p x = Inr (s', p', x', ol)"
      and cas: "UpdateSessionIfVersion (Session_Touch now (IncrementVersion s')) (sess_Version sess)
        (w_db w) = (d1, True)"
    show ?thesis
      by (rule held_cas [OF _ t(2,3) cas]) (use h dealer_apply_same [OF a] in simp)
  qed
  then show "sound lib (w_db w) (w_db w')" by (auto intro: dealer_move_sound [OF lib _ st _ _ run])
qed

lemma safe_playerStand:
  assumes lib: "lib_documented lib"
  shows "safe_thread lib s (playerStand_t (svc lib) i)"
  unfolding playerStand_t_def
proof (intro runs.safe_read [OF reads.store_read] runs.safe_read [OF reads.basic(6)] runs.safe_branches(1)
    runs.safe_ret TrueI)
  fix t1 e1 w1 sess w1' t2
  assume "steady lib t1" "snd t1 = w_db w1" "store_read (GetSession i) e1 w1 = (Inr sess, w1')" "together t1 t2"
  then have h: "held (sess_ID sess) (sess_Version sess) (\<lambda>d. GetSession (sess_ID sess) d = Inr sess) t2"
    using held_later held_session by blast
  have "safe_thread lib t (timeout_move_t (svc lib) i room sess p x)" if "round_held sess (room, p, x) t" for t room p x
    unfolding timeout_move_t_def
    by (intro runs.safe_read [OF reads.basic(9)] runs.safe_branches(1) runs.safe_ret TrueI
        runs.safe_tbind [OF safe_playerTurn [OF lib]] safe_forfeit) (rule round_held_later [OF that])
  then show "safe_thread lib t2 (tbind (load_round_t sess) (\<lambda>(room, p, x). timeout_move_t (svc lib) i room sess p x))"
    by (intro runs.safe_tbind [OF safe_load_round [OF h]]) (auto split: prod.split)
qed

lemma safe_dealerTurn:
  assumes lib: "lib_documented lib"
  shows "safe_thread lib s (dealerTurn_t (svc lib) i)"
  unfolding dealerTurn_t_def
proof (intro runs.safe_read [OF reads.store_read] runs.safe_branches(1) runs.safe_ret TrueI)
  fix t1 e1 w1 sess w1'
  assume "steady lib t1" "snd t1 = w_db w1" "store_read (GetSession i) e1 w1 = (Inr sess, w1')"
    and st: "\<not> sess_Status sess \<noteq> SessionStatusDealerTurn"
  then have h: "held (sess_ID sess) (sess_Version sess) (\<lambda>d. GetSession (sess_ID sess) d = Inr sess) t1"
    using held_session by blast
  show "safe_thread lib t1 (tbind (load_round_t sess) (\<lambda>(room, p, x). act (dealer_move (svc lib) sess room p x)))"
    by (intro runs.safe_tbind [OF safe_load_round [OF h]])
      (use st in \<open>auto split: prod.split intro: safe_dealer_move [OF lib]\<close>)
qed

lemma safe_worker_step:
  "(\<And>i t. safe_thread lib t (h i)) \<Longrightarrow> safe_thread lib s (worker_step_t h sess rooms)"
  unfolding worker_step_t_def
  by (intro runs.safe_tbind [OF runs.safe_tattempt] runs.safe_branches runs.safe_ret runs.safe_throw TrueI)

lemma safe_worker:
  assumes lib: "lib_documented lib"
  shows "safe_thread lib s (AutoStandDueSessions_t (svc lib))"
proof -
  have deadline: "safe_thread lib t (act (processRematchDeadline (svc lib) i))" for t i
    by (rule safe_commit [OF aon_processRematchDeadline]) (rule deadline_sound [OF lib])
  show ?thesis
    unfolding AutoStandDueSessions_t_def
    by (intro runs.safe_read [OF reads.store_read] runs.safe_read [OF reads.basic(6)]
        runs.safe_tbind [OF runs.safe_for_each] runs.safe_for_each safe_worker_step
        safe_playerStand safe_dealerTurn deadline lib)
qed

lemma safe_Vote:
  assumes lib: "lib_documented lib"
  shows "safe_thread lib s (VoteRematch_t (svc lib) i user agree n a)"
proof -
  have "safe_thread lib t (act (transaction (VoteRematch_tx (svc lib) room i sid user agree n a)))" for t room sid
  proof (rule safe_commit [OF aon_transaction])
    fix e w r w'
    assume "transaction (VoteRematch_tx (svc lib) room i sid user agree n a) e w = (Inr r, w')"
    then obtain v where tx: "VoteRematch_tx (svc lib) room i sid user agree n a e w = (Inr r, v)"
      and w': "w_db w' = w_db v" by (auto simp: transaction_Inr)
    from vote_tx_sound [OF lib tx] w' show "sound lib (w_db w) (w_db w')" by simp
  qed
  then show ?thesis
    unfolding VoteRematch_t_def
    by (intro runs.safe_branches runs.safe_throw runs.safe_read [OF reads.store_read]
        runs.safe_read [OF reads.attempt [OF reads.store_read]])
qed

text \<open>Every request, whole or cut.\<close>

lemma safe_request:
  assumes lib: "lib_documented lib"
  shows "safe_thread lib s (request_thread (svc lib) req)"
proof (cases req)
  case (ReqResetRoom i user)
  have "safe_thread lib s (act (void (ResetRoomForDebug i user)))"
    by (rule safe_commit) (auto simp: void_def prog_elims intro!: aon_intros intro: reset_sound)
  with ReqResetRoom show ?thesis by simp
next
  case (ReqCreateRoom u)
  have "effect same_rounds (void (CreateRoom_uc u))" "writes_only (void (CreateRoom_uc u))"
    unfolding void_def by (intro aside_intros aside_room_uc writes_intros writes_room_uc)+
  with ReqCreateRoom show ?thesis by (simp add: safe_aside)
next
  case (ReqSignup al secret name pw)
  have "effect same_rounds (void (Signup al secret name pw))" "writes_only (void (Signup al secret name pw))"
    unfolding void_def by (intro aside_intros aside_Signup writes_intros writes_Signup)+
  with ReqSignup show ?thesis by (simp add: safe_aside)
qed (simp_all add: safe_void safe_room_threads safe_StartRoom safe_playerTurn safe_worker safe_Vote lib
    safe_readonly void_def reads.bind reads.basic readonly_views readonly_room_uc readonly_auth)

subsection \<open>Any number of requests at a time\<close>

text \<open>A request arrives, or a thread runs its next statement.\<close>

inductive ostep :: "roomService \<Rightarrow> server_state \<times> pool \<Rightarrow> server_state \<times> pool \<Rightarrow> bool" for u where
  over_request: "ts n = None \<Longrightarrow> ostep u (s, ts) (s, ts(n \<mapsto> request_thread u req))"
| over_step: "ts n = Some (Running m) \<Longrightarrow> w_db w = snd s \<Longrightarrow> m e w = (t, w') \<Longrightarrow>
    s' = (fst s \<union> session_ids (w_db w'), w_db w') \<Longrightarrow> admitted s s' \<Longrightarrow>
    ostep u (s, ts) (s', ts(n \<mapsto> t))"

definition overlapped :: "roomService \<Rightarrow> server_state \<Rightarrow> pool \<Rightarrow> bool" where
  "overlapped u s ts \<longleftrightarrow> (ostep u)\<^sup>*\<^sup>* (({}, empty_db), Map.empty) (s, ts)"

definition pool_safe :: "bj_lib \<Rightarrow> server_state \<Rightarrow> pool \<Rightarrow> bool" where
  "pool_safe lib s ts \<longleftrightarrow> steady lib s \<and> (\<forall>n t. ts n = Some t \<longrightarrow> safe_thread lib s t)"

lemma ostep_safe:
  assumes lib: "lib_documented lib" and ok: "pool_safe lib s ts"
    and step: "ostep (svc lib) (s, ts) (s', ts')"
  shows "together s s' \<and> pool_safe lib s' ts'"
  using step
proof cases
  case (over_request n req)
  with ok safe_request [OF lib] together_refl show ?thesis by (auto simp: pool_safe_def)
next
  case (over_step n m w e t w')
  from ok have "\<forall>n t. ts n = Some t \<longrightarrow> safe_thread lib s t" "steady lib s" by (auto simp: pool_safe_def)
  from runs.pool_step [OF this over_step(2) _ over_step(4,6)] over_step(1,3,5)
  show ?thesis by (auto simp: pool_safe_def)
qed

lemma osteps_safe:
  assumes lib: "lib_documented lib" and steps: "(ostep (svc lib))\<^sup>*\<^sup>* (s, ts) (s', ts')"
    and ok: "pool_safe lib s ts"
  shows "together s s' \<and> pool_safe lib s' ts'"
  using steps ok
proof (induction "(s, ts)" "(s', ts')" arbitrary: s' ts' rule: rtranclp.induct)
  case rtrancl_refl
  then show ?case using together_refl by simp
next
  case (rtrancl_into_rtrancl z)
  obtain s1 ts1 where z: "z = (s1, ts1)" by fastforce
  from rtrancl_into_rtrancl.hyps(2) [OF z] rtrancl_into_rtrancl.prems
  have "together s s1" "pool_safe lib s1 ts1" by blast+
  with ostep_safe [OF lib _ rtrancl_into_rtrancl.hyps(3) [unfolded z]] together_trans show ?case by blast
qed

lemma overlapped_safe:
  assumes "lib_documented lib" "overlapped (svc lib) s ts"
  shows "pool_safe lib s ts"
proof -
  have "pool_safe lib ({}, empty_db) Map.empty"
    using game_ok_empty by (simp add: pool_safe_def steady_def session_ids_def empty_db_def)
  with osteps_safe [OF assms(1)] assms(2) show ?thesis unfolding overlapped_def by blast
qed

lemma overlapped_game_ok:
  "lib_documented lib \<Longrightarrow> overlapped (svc lib) s ts \<Longrightarrow> game_ok lib (snd s) \<and> session_ids (snd s) \<subseteq> fst s"
  using overlapped_safe by (auto simp: pool_safe_def steady_def)

end
