(* ===== verification/Sample_Overlap.thy ===== *)
theory Sample_Overlap
  imports Overlap Sample_Run
begin

text \<open>
  A concrete run with two starts of the same room: \<open>ann\<close> creates and joins the room, her first
  start is read and checked, the second one runs from its first statement to its commit, and the
  first one goes on and commits as well.
\<close>

lemma tbind_assoc: "tbind (tbind t k) l = tbind t (\<lambda>x. tbind (k x) l)"
proof (induction t)
  case (Done r)
  show ?case by (simp split: sum.split)
next
  case (Running m)
  have "map_prod (\<lambda>t. tbind t l) id (map_prod (\<lambda>t. tbind t k) id (m e w)) =
      map_prod (\<lambda>t. tbind t (\<lambda>x. tbind (k x) l)) id (m e w)" for e w
    using Running [of e w] by (cases "m e w") simp
  then show ?case by simp
qed

text \<open>Statements that a thread runs one after the other without changing the database.\<close>

definition settled :: "server_state \<Rightarrow> bool" where
  "settled s \<longleftrightarrow> session_ids (snd s) \<subseteq> fst s \<and> versions_fit (snd s)"

definition idle :: "roomService \<Rightarrow> server_state \<Rightarrow> unit thread \<Rightarrow> unit thread \<Rightarrow> bool" where
  "idle u s t t' \<longleftrightarrow> (\<forall>n ts. ts n = Some t \<longrightarrow> (ostep u)\<^sup>*\<^sup>* (s, ts) (s, ts(n \<mapsto> t')))"

lemma idle_here: "idle u s t t"
proof -
  have "ts(n \<mapsto> t) = ts" if "ts n = Some t" for ts :: pool and n using that by auto
  then show ?thesis by (simp add: idle_def)
qed

lemma act_step:
  assumes "ts n = Some (tbind (act m) k)" "m e w = (Inr x, w')" "w_db w = snd s"
    and "s' = (fst s \<union> session_ids (w_db w'), w_db w')" "admitted s s'"
  shows "ostep u (s, ts) (s', ts(n \<mapsto> k x))"
proof (rule over_step [OF _ assms(3) _ assms(4,5)])
  show "ts n = Some (Running (\<lambda>e w. map_prod (\<lambda>t. tbind t k) id (map_prod Done id (m e w))))"
    using assms(1) by (simp add: act_def)
  show "map_prod (\<lambda>t. tbind t k) id (map_prod Done id (m e w)) = (k x, w')" using assms(2) by simp
qed

lemma idle_step:
  assumes "settled s" "m e w = (Inr x, w')" "w_db w = snd s" "w_db w' = snd s" "idle u s (k x) t"
  shows "idle u s (tbind (act m) k) t"
  unfolding idle_def
proof (intro allI impI)
  fix n and ts :: pool
  assume ts: "ts n = Some (tbind (act m) k)"
  have s: "s = (fst s \<union> session_ids (w_db w'), w_db w')" "admitted s s"
    using assms(1,4) by (auto simp: settled_def admitted_def prod_eq_iff)
  have "ostep u (s, ts) (s, ts(n \<mapsto> k x))"
    by (rule act_step [where m = m and k = k and e = e and w = w and w' = w'])
      (use ts assms(2,3) s in blast)+
  moreover have "(ostep u)\<^sup>*\<^sup>* (s, ts(n \<mapsto> k x)) (s, ts(n \<mapsto> k x, n \<mapsto> t))"
    using assms(5) unfolding idle_def by (metis fun_upd_same)
  ultimately show "(ostep u)\<^sup>*\<^sup>* (s, ts) (s, ts(n \<mapsto> t))" by (simp add: converse_rtranclp_into_rtranclp)
qed

lemma idle_guard: "settled s \<Longrightarrow> b \<Longrightarrow> idle u s (k ()) t \<Longrightarrow> idle u s (tbind (act (guard b err)) k) t"
  by (rule idle_step [where w = "\<lparr>w_db = snd s, w_calls = 0\<rparr>" and e = sample_env]) (auto simp: guard_def)

lemma idle_lift: "settled s \<Longrightarrow> r = Inr x \<Longrightarrow> idle u s (k x) t \<Longrightarrow> idle u s (tbind (act (lift r)) k) t"
  by (rule idle_step [where w = "\<lparr>w_db = snd s, w_calls = 0\<rparr>" and e = sample_env]) (auto simp: lift_def)

lemma steps_idle:
  "(ostep u)\<^sup>*\<^sup>* z (s, ts) \<Longrightarrow> ts n = Some t \<Longrightarrow> idle u s t t' \<Longrightarrow> (ostep u)\<^sup>*\<^sup>* z (s, ts(n \<mapsto> t'))"
  unfolding idle_def by (meson rtranclp_trans)

lemma steps_commit:
  assumes "(ostep u)\<^sup>*\<^sup>* z (s, ts)" "ts n = Some (tbind (act m) k)" "m e w = (Inr x, w')" "w_db w = snd s"
    and "s' = (fst s \<union> session_ids (w_db w'), w_db w')" "admitted s s'" and "t = k x"
  shows "(ostep u)\<^sup>*\<^sup>* z (s', ts(n \<mapsto> t))"
proof -
  have "ostep u (s, ts) (s', ts(n \<mapsto> k x))"
    by (rule act_step [where m = m and k = k and e = e and w = w and w' = w']) (use assms(2-6) in blast)+
  with assms(7) have "ostep u (s, ts) (s', ts(n \<mapsto> t))" by simp
  with assms(1) show ?thesis by (meson rtranclp.rtrancl_into_rtrancl)
qed

lemma steps_act:
  assumes "(ostep u)\<^sup>*\<^sup>* z (s, ts)" "ts n = Some (act m)" "m e w = (r, w')" "w_db w = snd s"
    and "s' = (fst s \<union> session_ids (w_db w'), w_db w')" "admitted s s'"
  shows "(ostep u)\<^sup>*\<^sup>* z (s', ts(n \<mapsto> Done r))"
proof -
  have "ostep u (s, ts) (s', ts(n \<mapsto> Done r))"
    by (rule over_step [where m = "\<lambda>e w. map_prod Done id (m e w)" and e = e and w = w])
      (use assms in \<open>simp_all add: act_def\<close>)
  with assms(1) show ?thesis by (meson rtranclp.rtrancl_into_rtrancl)
qed

lemma steps_request:
  "(ostep u)\<^sup>*\<^sup>* z (s, ts) \<Longrightarrow> ts n = None \<Longrightarrow> (ostep u)\<^sup>*\<^sup>* z (s, ts(n \<mapsto> request_thread u req))"
  by (meson over_request rtranclp.rtrancl_into_rtrancl)

lemmas overlapped_idle = steps_idle [where z = "(({}, empty_db), Map.empty)", folded overlapped_def]
lemmas overlapped_commit = steps_commit [where z = "(({}, empty_db), Map.empty)", folded overlapped_def]
lemmas overlapped_act = steps_act [where z = "(({}, empty_db), Map.empty)", folded overlapped_def]
lemmas overlapped_request = steps_request [where z = "(({}, empty_db), Map.empty)", folded overlapped_def]

subsection \<open>The states of the run\<close>

definition sample_waiting :: Room where
  "sample_waiting = \<lparr>room_ID = ''room'', room_HostUserID = ''ann'', room_Status = RoomStatusWaiting,
     room_CurrentSessionID = None, room_CreatedAt = 1, room_UpdatedAt = 1\<rparr>"

definition sample_double :: world where
  "sample_double = snd (transaction (create_round_tx (fst sample_next) (fst (snd sample_next))
     (snd (snd sample_next)) sample_again) sample_env (round_at 52))"

lemma no_sessions:
  "session_ids empty_db = {}" "session_ids (w_db sample_created) = {}" "session_ids (w_db sample_lobby) = {}"
  "versions_fit empty_db" "versions_fit (w_db sample_created)" "versions_fit (w_db sample_lobby)"
  by (simp_all add: session_ids_def versions_fit_def sample_created_def sample_lobby_def empty_db_def)

lemma one_session:
  "session_ids (w_db sample_round) = {''r1''}" "versions_fit (w_db sample_round)"
  by (simp_all add: session_ids_def versions_fit_def sample_round_def sample_session_def
      gameSessionRecordFromDomain_def Let_def)

lemma join_calls:
  "store_read (GetRoom ''room'') sample_env sample_created = (Inr sample_waiting, sample_created\<lparr>w_calls := 5\<rparr>)"
  "store_read (ListRoomPlayersByRoomID ''room'') sample_env (sample_created\<lparr>w_calls := 5\<rparr>) =
     (Inr [], sample_created\<lparr>w_calls := 6\<rparr>)"
  "io_now sample_env (sample_created\<lparr>w_calls := 6\<rparr>) = (Inr 7, sample_created\<lparr>w_calls := 7\<rparr>)"
  "NewRoomPlayer ''room'' ''ann'' 1 7 = Inr sample_member"
  "RecalculateStatus sample_waiting 1 False = Inr (sample_waiting\<lparr>room_Status := RoomStatusReady\<rparr>)"
  "CanJoinAsHumanPlayer (room_Status sample_waiting)" "room_HostUserID sample_waiting = ''ann''"
  "room_CurrentSessionID sample_waiting = None"
  by code_simp+

lemma join_commit:
  "transaction (JoinRoom_tx ''room'' ''ann'' sample_member
     (Room_Touch 7 (sample_waiting\<lparr>room_Status := RoomStatusReady\<rparr>)) 7) sample_env (sample_created\<lparr>w_calls := 7\<rparr>)
   = (Inr (), sample_lobby)"
  by code_simp

lemma again_calls:
  "next_round_no ''room'' sample_env (round_at 48) = (Inr 2, round_at 49)"
  "io_now sample_env (round_at 49) = (Inr 50, round_at 50)"
  "io_uuid sample_env (round_at 50) = (Inr ''r2'', round_at 51)"
  "NewGameSession 50 ''r2'' ''room'' 2 50 =
     Inr (sample_fresh\<lparr>sess_ID := ''r2'', sess_RoundNo := 2, sess_CreatedAt := 50, sess_UpdatedAt := 50\<rparr>)"
  "map_sum id (Room_Touch 50) (RecalculateStatus
     (sample_room\<lparr>room_CurrentSessionID := Some (sess_ID (fst sample_next))\<rparr>) 1 True) = Inr sample_again"
  "Session_Touch 50 (fst sample_next) = fst sample_next" "sess_ID (fst sample_next) = ''r2''"
  by code_simp+

lemma again_commit:
  "transaction (create_round_tx (fst sample_next) (fst (snd sample_next)) (snd (snd sample_next)) sample_again)
     sample_env (round_at 52) = (Inr (), sample_double)"
proof -
  have "fst (transaction (create_round_tx (fst sample_next) (fst (snd sample_next)) (snd (snd sample_next)) sample_again)
     sample_env (round_at 52)) = Inr ()" by code_simp
  then show ?thesis by (simp add: sample_double_def prod_eq_iff)
qed

subsection \<open>The run\<close>

abbreviation sample_svc :: roomService where "sample_svc \<equiv> svc reference_lib"

lemma lobby_overlapped:
  "\<exists>ts. overlapped sample_svc ({}, w_db sample_lobby) ts \<and> ts 2 = None \<and> ts 3 = None"
proof -
  have s: "settled ({}, w_db sample_created)" by (simp add: settled_def no_sessions)
  have "overlapped sample_svc ({}, empty_db) Map.empty" by (simp add: overlapped_def)
  from overlapped_request [OF this, of 0 "ReqCreateRoom ''ann''"]
  have "overlapped sample_svc ({}, empty_db) [0 \<mapsto> act (serve sample_svc (ReqCreateRoom ''ann''))]" by simp
  then have "overlapped sample_svc ({}, w_db sample_created) ([0 \<mapsto> act (serve sample_svc (ReqCreateRoom ''ann''))](0 \<mapsto> tret ()))"
    by (rule overlapped_act [where m = "serve sample_svc (ReqCreateRoom ''ann'')" and e = sample_env
          and w = sample_start and w' = sample_created])
      (simp_all only: serve_create, simp_all add: sample_start_def admitted_def no_sessions del: serve.simps)
  then have "overlapped sample_svc ({}, w_db sample_created) [0 \<mapsto> tret ()]" by simp
  from overlapped_request [OF this, of 1 "ReqJoinRoom ''room'' ''ann''"]
  have join: "overlapped sample_svc ({}, w_db sample_created) [0 \<mapsto> tret (), 1 \<mapsto> tvoid (JoinRoom_t ''room'' ''ann'')]"
    by simp
  let ?tx = "transaction (JoinRoom_tx ''room'' ''ann'' sample_member
     (Room_Touch 7 (sample_waiting\<lparr>room_Status := RoomStatusReady\<rparr>)) 7)"
  have "idle sample_svc ({}, w_db sample_created) (tvoid (JoinRoom_t ''room'' ''ann'')) (tbind (act ?tx) (\<lambda>_. tret ()))"
    unfolding JoinRoom_t_def tvoid_def Let_def
    apply (simp add: tbind_assoc del: One_nat_def)
    apply (rule idle_step [OF s], rule join_calls(1), simp, simp)
    apply (rule idle_guard [OF s], simp add: join_calls)
    apply (rule idle_guard [OF s], simp add: join_calls)
    apply (rule idle_step [OF s], rule join_calls(2), simp, simp)
    apply (rule idle_guard [OF s], simp)
    apply (rule idle_step [OF s], rule join_calls(3), simp, simp)
    apply (rule idle_lift [OF s join_calls(4)])
    apply (simp add: join_calls)
    apply (rule idle_lift [OF s], rule refl)
    apply (rule idle_here)
    done
  from overlapped_idle [OF join _ this, of 1]
  have "overlapped sample_svc ({}, w_db sample_created)
      [0 \<mapsto> tret (), 1 \<mapsto> tbind (act ?tx) (\<lambda>_. tret ())]" by simp
  then have "overlapped sample_svc ({}, w_db sample_lobby)
      ([0 \<mapsto> tret (), 1 \<mapsto> tbind (act ?tx) (\<lambda>_. tret ())](1 \<mapsto> tret ()))"
    by - (drule overlapped_commit [where n = 1 and t = "tret ()" and s' = "({}, w_db sample_lobby)" and m = "?tx"
          and k = "\<lambda>_. tret ()"], simp (no_asm), rule join_commit, simp_all add: admitted_def no_sessions)
  then show ?thesis
    by (intro exI [where x = "[0 \<mapsto> tret (), 1 \<mapsto> tbind (act ?tx) (\<lambda>_. tret ()), 1 \<mapsto> tret ()]"] conjI)
      simp_all
qed

text \<open>Both starts.\<close>

lemma start_checked:
  "idle sample_svc ({}, w_db sample_lobby) (tvoid (StartRoom_t sample_svc ''room'' ''ann''))
     (tvoid (start_create_t sample_svc ''room'' ''ann'' sample_room))"
proof -
  have s: "settled ({}, w_db sample_lobby)" by (simp add: settled_def no_sessions)
  show ?thesis
    unfolding StartRoom_t_def start_check_t_def tvoid_def
    apply (simp add: tbind_assoc del: One_nat_def)
    apply (rule idle_step [OF s], rule start_reads(1), simp, simp)
    apply (rule idle_guard [OF s], simp add: sample_guards)
    apply (rule idle_guard [OF s], simp add: sample_guards)
    apply (rule idle_step [OF s], rule start_reads(2), simp, simp)
    apply (rule idle_guard [OF s], simp add: sample_guards)
    apply (rule idle_guard [OF s], simp add: sample_guards)
    apply (simp add: idle_here)
    done
qed

lemma first_created:
  "idle sample_svc ({}, w_db sample_lobby) (tvoid (start_create_t sample_svc ''room'' ''ann'' sample_room))
     (tbind (act (transaction (create_round_tx sample_session sample_player sample_dealer
        (sample_playing\<lparr>room_UpdatedAt := 16\<rparr>)))) (\<lambda>_. tret ()))"
proof -
  have s: "settled ({}, w_db sample_lobby)" by (simp add: settled_def no_sessions)
  show ?thesis
    unfolding start_create_t_def start_write_t_def tvoid_def Let_def
    apply (simp add: tbind_assoc split_def del: One_nat_def)
    apply (rule idle_step [OF s], rule start_reads(3), simp, simp)
    apply (rule idle_step [OF s], rule start_calls(1), simp, simp)
    apply (rule idle_step [OF s], rule start_calls(2), simp, simp)
    apply (rule idle_lift [OF s start_values(1)])
    apply (rule idle_step [OF s], rule start_calls(3), simp, simp)
    apply (rule idle_lift [OF s start_values(2)])
    apply (simp add: tbind_assoc del: One_nat_def sample_keys)
    apply (rule idle_lift [OF s start_values(3)])
    apply (simp add: start_values idle_here)
    done
qed

lemma second_created:
  "idle sample_svc ({''r1''}, w_db sample_round) (tvoid (start_create_t sample_svc ''room'' ''ann'' sample_room))
     (tbind (act (transaction (create_round_tx (fst sample_next) (fst (snd sample_next)) (snd (snd sample_next))
        sample_again))) (\<lambda>_. tret ()))"
proof -
  have s: "settled ({''r1''}, w_db sample_round)" by (simp add: settled_def one_session)
  obtain room' where room': "RecalculateStatus (sample_room\<lparr>room_CurrentSessionID := Some (sess_ID (fst sample_next))\<rparr>) 1 True
      = Inr room'" "Room_Touch 50 room' = sample_again"
    using again_calls(5)
    by (cases "RecalculateStatus (sample_room\<lparr>room_CurrentSessionID := Some (sess_ID (fst sample_next))\<rparr>) 1 True") simp_all
  show ?thesis
    unfolding start_create_t_def start_write_t_def tvoid_def Let_def
    apply (simp add: tbind_assoc split_def del: One_nat_def)
    apply (rule idle_step [OF s], rule again_calls(1), simp, simp)
    apply (rule idle_step [OF s], rule again_calls(2), simp, simp)
    apply (rule idle_step [OF s], rule again_calls(3), simp, simp)
    apply (rule idle_lift [OF s again_calls(4)])
    apply (rule idle_step [OF s], rule bump_deck [of "round_at 51"], simp, simp)
    apply (rule idle_lift [OF s bump_values(2)])
    apply (rule idle_lift [OF s room'(1)])
    apply (simp add: room' again_calls(6) idle_here)
    done
qed

text \<open>Both rounds are stored.\<close>

lemma double_created:
  "session_ids (w_db sample_double) = {''r1'', ''r2''}"
  "GetSession ''r1'' (w_db sample_double) = Inr sample_session"
proof -
  from again_commit obtain v where tx: "create_round_tx (fst sample_next) (fst (snd sample_next)) (snd (snd sample_next))
      sample_again sample_env (round_at 52) = (Inr (), v)" and tick: "sample_double = tick v"
    unfolding transaction_Inr by blast
  have v: "w_db sample_double = w_db v" unfolding tick by simp
  have "ps_SessionID (fst (snd sample_next)) = sess_ID (fst sample_next)"
    "ds_SessionID (snd (snd sample_next)) = sess_ID (fst sample_next)" by code_simp+
  note made = advances_create [OF tx this]
  from made(2) again_calls(7) one_session(1) v
  show "session_ids (w_db sample_double) = {''r1'', ''r2''}" by auto
  from made(4) [of "''r1''"] one_session(1) have "part ''r1'' (w_db v) = part ''r1'' (w_db sample_round)" by simp
  from part_reads(1) [OF this] v sample_reads(2)
  show "GetSession ''r1'' (w_db sample_double) = Inr sample_session" by simp
qed

lemma double_overlapped:
  "\<exists>ts ts'. overlapped sample_svc ({''r1''}, w_db sample_round) ts
     \<and> (ostep sample_svc)\<^sup>*\<^sup>* (({''r1''}, w_db sample_round), ts) (({''r1'', ''r2''}, w_db sample_double), ts')
     \<and> overlapped sample_svc ({''r1'', ''r2''}, w_db sample_double) ts'"
proof -
  from lobby_overlapped obtain ts where ts: "overlapped sample_svc ({}, w_db sample_lobby) ts" "ts 2 = None"
    "ts 3 = None" by blast
  let ?start = "ReqStartRoom ''room'' ''ann''"
  from overlapped_request [OF ts(1,2), of ?start]
  have "overlapped sample_svc ({}, w_db sample_lobby) (ts(2 \<mapsto> request_thread sample_svc ?start))" .
  from overlapped_idle [OF this _ start_checked, of 2]
  have "overlapped sample_svc ({}, w_db sample_lobby)
      (ts(2 \<mapsto> tvoid (start_create_t sample_svc ''room'' ''ann'' sample_room)))" by simp
  from overlapped_request [OF this, of 3 ?start] ts(3)
  have "overlapped sample_svc ({}, w_db sample_lobby)
      (ts(2 \<mapsto> tvoid (start_create_t sample_svc ''room'' ''ann'' sample_room),
          3 \<mapsto> request_thread sample_svc ?start))" by simp
  from overlapped_idle [OF overlapped_idle [OF this _ start_checked, of 3] _ first_created, of 3]
  have "overlapped sample_svc ({}, w_db sample_lobby)
      (ts(2 \<mapsto> tvoid (start_create_t sample_svc ''room'' ''ann'' sample_room),
          3 \<mapsto> tbind (act (transaction (create_round_tx sample_session sample_player sample_dealer
        (sample_playing\<lparr>room_UpdatedAt := 16\<rparr>)))) (\<lambda>_. tret ())))" by simp
  then have "overlapped sample_svc ({''r1''}, w_db sample_round)
      (ts(2 \<mapsto> tvoid (start_create_t sample_svc ''room'' ''ann'' sample_room),
          3 \<mapsto> tbind (act (transaction (create_round_tx sample_session sample_player sample_dealer
        (sample_playing\<lparr>room_UpdatedAt := 16\<rparr>)))) (\<lambda>_. tret ()), 3 \<mapsto> tret ()))"
    by - (drule overlapped_commit [where n = 3 and t = "tret ()" and s' = "({''r1''}, w_db sample_round)"
          and m = "transaction (create_round_tx sample_session sample_player sample_dealer
            (sample_playing\<lparr>room_UpdatedAt := 16\<rparr>))" and k = "\<lambda>_. tret ()"],
        simp (no_asm), rule start_commit, simp_all add: admitted_def one_session no_sessions)
  note one = this
  let ?ts = "ts(2 \<mapsto> tvoid (start_create_t sample_svc ''room'' ''ann'' sample_room), 3 \<mapsto> tret ())"
  from one have first: "overlapped sample_svc ({''r1''}, w_db sample_round) ?ts" by simp
  let ?tx = "transaction (create_round_tx (fst sample_next) (fst (snd sample_next)) (snd (snd sample_next)) sample_again)"
  have "(ostep sample_svc)\<^sup>*\<^sup>* (({''r1''}, w_db sample_round), ?ts)
      (({''r1''}, w_db sample_round), ?ts(2 \<mapsto> tbind (act ?tx) (\<lambda>_. tret ())))"
    by (rule steps_idle [OF rtranclp.rtrancl_refl _ second_created]) simp
  then have "(ostep sample_svc)\<^sup>*\<^sup>* (({''r1''}, w_db sample_round), ?ts)
      (({''r1'', ''r2''}, w_db sample_double), ?ts(2 \<mapsto> tbind (act ?tx) (\<lambda>_. tret ()), 2 \<mapsto> tret ()))"
    by - (drule steps_commit [where n = 2 and t = "tret ()" and s' = "({''r1'', ''r2''}, w_db sample_double)"
          and m = "?tx" and k = "\<lambda>_. tret ()"], simp (no_asm), rule again_commit,
        auto simp: admitted_def one_session double_created)
  moreover from this first have "overlapped sample_svc ({''r1'', ''r2''}, w_db sample_double)
      (?ts(2 \<mapsto> tbind (act ?tx) (\<lambda>_. tret ()), 2 \<mapsto> tret ()))"
    unfolding overlapped_def by (rule rtranclp_trans [rotated])
  ultimately show ?thesis using first by blast
qed

end
