(* ===== verification/Overlap_Properties.thy ===== *)
theory Overlap_Properties
  imports Sample_Overlap Room_Properties
begin

text \<open>
  What holds when requests overlap, and what does not: the rounds stay consistent and their
  versions order their history, while two starts of the same room can both succeed and a member
  who left can be put back by the mark of a connection that closes.
\<close>

lemma of_session:
  assumes "game_ok lib d" "GetSession i d = Inr s"
  shows "\<exists>p x. ListPlayerStatesBySessionID i d = Inr [p] \<and> GetDealerState i d = Inr x
    \<and> round_ok lib s p x
    \<and> mset (ps_Hand p) + mset (ds_Hand x) + mset (drop (nat (sess_DrawIndex s)) (sess_Deck s))
        = mset factory_deck"
proof -
  from game_ok_session [OF assms] obtain p x where
    r: "ListPlayerStatesBySessionID i d = Inr [p]" "GetDealerState i d = Inr x" "round_ok lib s p x" .
  from r(3) have c: "cards_ok s p x" by (simp add: round_ok_def)
  then have "mset (ps_Hand p) + mset (ds_Hand x) + mset (drop (nat (sess_DrawIndex s)) (sess_Deck s))
      = mset (take (nat (sess_DrawIndex s)) (sess_Deck s) @ drop (nat (sess_DrawIndex s)) (sess_Deck s))"
    by (simp add: cards_ok_def del: append_take_drop_id)
  also have "\<dots> = mset factory_deck" using c by (simp add: cards_ok_def)
  finally show ?thesis using r by blast
qed

subsection \<open>Overlapping requests keep the rounds\<close>

text \<open>
  C6. However requests and worker passes overlap, each cut at its statements with a
  transaction as one step, every stored round is consistent: one player, one dealer, the state
  its status asks for, and the hands with the undrawn rest of the deck are the 52 cards.
\<close>

theorem overlapping_rounds_consistent:
  assumes "lib_documented lib" "overlapped (svc lib) s ts" "GetSession i (snd s) = Inr sess"
  shows "\<exists>p x. ListPlayerStatesBySessionID i (snd s) = Inr [p] \<and> GetDealerState i (snd s) = Inr x
    \<and> round_ok lib sess p x
    \<and> mset (ps_Hand p) + mset (ds_Hand x) + mset (drop (nat (sess_DrawIndex sess)) (sess_Deck sess))
        = mset factory_deck"
  using of_session overlapped_game_ok [OF assms(1,2)] assms(3) by blast

theorem overlapping_rounds_consistent_witness:
  "\<exists>p x. ListPlayerStatesBySessionID ''r1'' (w_db sample_double) = Inr [p]
    \<and> GetDealerState ''r1'' (w_db sample_double) = Inr x \<and> round_ok reference_lib sample_session p x"
proof -
  from double_overlapped obtain ts where "overlapped sample_svc ({''r1'', ''r2''}, w_db sample_double) ts" by blast
  from overlapping_rounds_consistent [OF reference_lib_documented this, of "''r1''"] double_created(2)
  show ?thesis by auto
qed

text \<open>The version of a session is its history: it never goes back, and names one state of the round.\<close>

text \<open>
  C7. However requests overlap, the version of a session never goes back, and two stores of
  one run with the same version of a session have the same round: the version a client names
  is one state of the round.
\<close>

theorem version_fixes_round:
  assumes lib: "lib_documented lib" and now: "overlapped (svc lib) s ts"
    and later: "(ostep (svc lib))\<^sup>*\<^sup>* (s, ts) (s', ts')"
    and a: "GetSession i (snd s) = Inr a" and b: "GetSession i (snd s') = Inr b"
  shows "sess_Version a \<le> sess_Version b \<and> (sess_Version a = sess_Version b \<longrightarrow> b = a
      \<and> ListPlayerStatesBySessionID i (snd s') = ListPlayerStatesBySessionID i (snd s)
      \<and> GetDealerState i (snd s') = GetDealerState i (snd s))"
proof -
  have "together s s'" using osteps_safe [OF lib later] overlapped_safe [OF lib now] by blast
  moreover from GetSession_row [OF a] obtain g where g: "session_row (snd s) i = Some g"
    "gs_Version g = sess_Version a" "i \<in> session_ids (snd s)" by blast
  with overlapped_game_ok [OF lib now] have "i \<in> fst s" by blast
  moreover from GetSession_row [OF b] obtain g' where g': "session_row (snd s') i = Some g'"
    "gs_Version g' = sess_Version b" by blast
  ultimately obtain g0 where g0: "session_row (snd s) i = Some g0"
    and m: "gs_Version g0 < gs_Version g' \<or> part i (snd s') = part i (snd s)"
    by (blast elim: together_row)
  from m show ?thesis
  proof
    assume "gs_Version g0 < gs_Version g'"
    with g g' g0 show ?thesis by simp
  next
    assume same: "part i (snd s') = part i (snd s)"
    with part_reads [OF same] a b show ?thesis by simp
  qed
qed

theorem version_fixes_round_witness:
  "ListPlayerStatesBySessionID ''r1'' (w_db sample_double) = ListPlayerStatesBySessionID ''r1'' (w_db sample_round)"
proof -
  from double_overlapped obtain ts ts' where
    "overlapped sample_svc ({''r1''}, w_db sample_round) ts"
    "(ostep sample_svc)\<^sup>*\<^sup>* (({''r1''}, w_db sample_round), ts) (({''r1'', ''r2''}, w_db sample_double), ts')" by blast
  from version_fixes_round [OF reference_lib_documented this, of "''r1''" sample_session sample_session]
    sample_reads(2) double_created(2)
  show ?thesis by simp
qed

subsection \<open>Two starts\<close>

lemma start_written:
  assumes "run (start_write_t u i user room n) e w = (Inr (r, s), w')"
  obtains sid sess deck s0 p x room' now v v' rnd where
    "NewGameSession now sid i n now = Inr sess" "newShuffledDeck rnd = Inr deck"
    "open_round u now (SetDeck deck sess) user = Inr (s0, p, x)"
    "RecalculateStatus (room\<lparr>room_CurrentSessionID := Some (sess_ID s0)\<rparr>) 1 True = Inr room'"
    "create_round_tx (Session_Touch now s0) p x (Room_Touch now room') e v = (Inr (), v')"
    "w_db v = w_db w" "w_db w' = w_db v'" "r = Room_Touch now room'" "s = Session_Touch now s0"
proof -
  from assms have "bind io_now (\<lambda>now. bind io_uuid (\<lambda>sid.
        bind (lift (NewGameSession now sid i n now)) (\<lambda>sess.
        bind io_deck (\<lambda>deck.
        bind (lift (open_round u now (SetDeck deck sess) user)) (\<lambda>x.
        case x of (sess, pstate, dealer) \<Rightarrow>
        bind (lift (RecalculateStatus (room\<lparr>room_CurrentSessionID := Some (sess_ID sess)\<rparr>) 1 True)) (\<lambda>room.
        bind (transaction (create_round_tx (Session_Touch now sess) pstate dealer (Room_Touch now room))) (\<lambda>_.
        ret (Room_Touch now room, Session_Touch now sess)))))))) e w = (Inr (r, s), w')"
    by (auto simp: start_write_t_def uncut bind_Inr Let_def cong: prod.case_cong)
  then show thesis by (auto simp: prog_elims intro: that)
qed

lemma start_write_aon: "all_or_nothing (run (start_write_t u i user room n))"
  unfolding start_write_t_def Let_def split_def uncut by (intro aon_intros readonly_intros)

text \<open>The number of a started round is the one it read; the same store gives the same number.\<close>

lemma round_number_read:
  assumes "next_round_no i e w = (Inr n, w1)" "next_round_no i e' w' = (Inr n', w1')" "w_db w' = w_db w"
  shows "n' = n"
  using assms by (auto simp: next_round_no_def attempt_def store_read_def store_op_def bind_def ret_def throw_def
      split: option.splits sum.splits if_splits)

lemma StartRoom_number:
  assumes lib: "lib_documented lib" and run: "StartRoom (svc lib) i user e w = (Inr (r, s), w')"
  shows "\<exists>v v'. next_round_no i e v = (Inr (sess_RoundNo s), v') \<and> w_db v = w_db w"
proof -
  from run obtain room n v1 where
    n: "next_round_no i e (tick (tick w)) = (Inr n, v1)" and
    rest: "bind io_now (\<lambda>now.
        bind io_uuid (\<lambda>sid.
        bind (lift (NewGameSession now sid i n now)) (\<lambda>sess.
        bind io_deck (\<lambda>deck.
        bind (lift (open_round (svc lib) now (SetDeck deck sess) user)) (\<lambda>(sess, pstate, dealer).
        let room = room\<lparr>room_CurrentSessionID := Some (sess_ID sess)\<rparr> in
        bind (lift (RecalculateStatus room 1 True)) (\<lambda>room.
        let room = Room_Touch now room; sess = Session_Touch now sess in
        bind (transaction (create_round_tx sess pstate dealer room)) (\<lambda>_.
        ret (room, sess)))))))) e v1 = (Inr (r, s), w')"
    by (simp add: StartRoom_def prog_elims split: if_split_asm) blast
  from rest obtain now sid sess rnd deck z p x where
    new: "NewGameSession now sid i n now = Inr sess" "newShuffledDeck rnd = Inr deck" and
    deal: "open_round (svc lib) now (SetDeck deck sess) user = Inr (z, p, x)" and out: "s = Session_Touch now z"
    by (auto simp: prog_elims Let_def)
  have "sess_RoundNo s = n"
    using open_round_ok(5) [OF lib fresh_round(1) [OF new] deal] fresh_round(6) [OF new] out by simp
  with n have "next_round_no i e (tick (tick w)) = (Inr (sess_RoundNo s), v1) \<and> w_db (tick (tick w)) = w_db w"
    by simp
  then show ?thesis by blast
qed

lemma number_taken:
  assumes "GetSession k d = Inr s" "sess_RoomID t = sess_RoomID s" "sess_RoundNo t = sess_RoundNo s"
  shows "CreateSession t d = Inl unique_violation"
proof -
  from assms(1) obtain g where g: "tbl_first (\<lambda>g. gs_ID g = k) (d_game_sessions d) = Some g"
    and s: "gameSessionRecordToDomain g = Inr s" by (auto simp: GetSession_def gorm_First_Inr split: sum.splits)
  have "g \<in> set (d_game_sessions d)" using g by (simp add: tbl_first_Some)
  moreover have "gs_RoomID g = sess_RoomID s" "gs_RoundNo g = sess_RoundNo s"
    using s by (auto simp: gameSessionRecordToDomain_def Let_def split: sum.splits if_splits)
  ultimately have "list_ex (session_clash (gameSessionRecordFromDomain t)) (d_game_sessions d)"
    using assms(2,3)
    by (auto simp: list_ex_iff session_clash_def gameSessionRecordFromDomain_def intro!: bexI [of _ g])
  then show ?thesis by (simp add: CreateSession_def insert_row_def)
qed

lemma second_start_refused:
  assumes lib: "lib_documented lib" and taken: "GetSession k (w_db w) = Inr s" "sess_RoomID s = i" "sess_RoundNo s = n"
  shows "\<exists>err w'. run (start_write_t (svc lib) i user room n) e w = (Inl err, w') \<and> w_db w' = w_db w"
proof (cases "run (start_write_t (svc lib) i user room n) e w")
  case (Pair r w')
  show ?thesis
  proof (cases r)
    case (Inl err)
    with aonD [OF start_write_aon] Pair show ?thesis by blast
  next
    case (Inr rs)
    obtain r' s' where rs: "rs = (r', s')" by fastforce
    from Pair [unfolded Inr rs] obtain sid sess deck s0 p x room' now v v' rnd where
      new: "NewGameSession now sid i n now = Inr sess" "newShuffledDeck rnd = Inr deck" and
      deal: "open_round (svc lib) now (SetDeck deck sess) user = Inr (s0, p, x)" and
      tx: "create_round_tx (Session_Touch now s0) p x (Room_Touch now room') e v = (Inr (), v')" and
      v: "w_db v = w_db w"
      by (rule start_written)
    note fresh = fresh_round [OF new] and opened = open_round_ok [OF lib fresh_round(1) [OF new] deal]
    have "CreateSession (Session_Touch now s0) (w_db w) = Inl unique_violation"
      by (rule number_taken [OF taken(1)]) (use taken fresh opened in simp_all)
    with create_round_tx_run [OF tx] v show ?thesis by (metis sum.distinct(1))
  qed
qed

text \<open>
  C36. A start that read and checked the room before another start of it committed is not
  stopped by what it read: if it reads its round number after that commit and gets through,
  both rounds are stored, the room plays the second, and the first is left without a room; if
  it read the number before, the unique index on room and round number refuses it, it returns
  an error and the store stays as it is.
\<close>

theorem double_start:
  assumes lib: "lib_documented lib"
    and room: "GetRoom i (w_db w) = Inr room"
    and first: "StartRoom (svc lib) i user e w = (Inr (r1, s1), w1)"
    and same: "w_db w2 = w_db w1"
  shows "(run (start_create_t (svc lib) i user room) e2 w2 = (Inr (r2, s2), w3) \<longrightarrow>
      GetSession (sess_ID s1) (w_db w3) = Inr s1 \<and> GetSession (sess_ID s2) (w_db w3) = Inr s2
      \<and> sess_ID s1 \<noteq> sess_ID s2 \<and> sess_RoomID s1 = i \<and> sess_RoomID s2 = i
      \<and> room_CurrentSessionID r2 = Some (sess_ID s2)
      \<and> (\<exists>t. GetRoom i (w_db w3) = Inr (r2\<lparr>room_UpdatedAt := t\<rparr>)))
    \<and> (next_round_no i e0 w0 = (Inr n, v0) \<and> w_db w0 = w_db w \<longrightarrow>
      (\<exists>err w4. run (start_write_t (svc lib) i user room n) e2 w2 = (Inl err, w4) \<and> w_db w4 = w_db w2))"
proof -
  have one: "round_stored lib i user r1 s1 (w_db w2)" using StartRoom_stored [OF lib first] same by simp
  then have g1: "GetSession (sess_ID s1) (w_db w2) = Inr s1" and i1: "sess_RoomID s1 = i"
    by (simp_all add: round_stored_def)
  have early: "next_round_no i e0 w0 = (Inr n, v0) \<and> w_db w0 = w_db w \<longrightarrow>
      (\<exists>err w4. run (start_write_t (svc lib) i user room n) e2 w2 = (Inl err, w4) \<and> w_db w4 = w_db w2)"
  proof
    assume n: "next_round_no i e0 w0 = (Inr n, v0) \<and> w_db w0 = w_db w"
    from StartRoom_number [OF lib first] obtain v v' where
      "next_round_no i e v = (Inr (sess_RoundNo s1), v')" "w_db v = w_db w" by blast
    with round_number_read n have "sess_RoundNo s1 = n" by metis
    from second_start_refused [OF lib g1 i1 this] show
      "\<exists>err w4. run (start_write_t (svc lib) i user room n) e2 w2 = (Inl err, w4) \<and> w_db w4 = w_db w2" .
  qed
  have late: "run (start_create_t (svc lib) i user room) e2 w2 = (Inr (r2, s2), w3) \<longrightarrow>
      GetSession (sess_ID s1) (w_db w3) = Inr s1 \<and> GetSession (sess_ID s2) (w_db w3) = Inr s2
      \<and> sess_ID s1 \<noteq> sess_ID s2 \<and> sess_RoomID s1 = i \<and> sess_RoomID s2 = i
      \<and> room_CurrentSessionID r2 = Some (sess_ID s2)
      \<and> (\<exists>t. GetRoom i (w_db w3) = Inr (r2\<lparr>room_UpdatedAt := t\<rparr>))"
  proof
    assume "run (start_create_t (svc lib) i user room) e2 w2 = (Inr (r2, s2), w3)"
    then obtain n v0 where n: "next_round_no i e2 w2 = (Inr n, v0)"
      and rest: "run (start_write_t (svc lib) i user room n) e2 v0 = (Inr (r2, s2), w3)"
      by (auto simp: start_create_t_def uncut bind_Inr)
    have v0: "w_db v0 = w_db w2" using readonlyD [OF readonly_round(1) n] .
    from rest obtain sid sess deck s p x room' now v v' rnd where
      new: "NewGameSession now sid i n now = Inr sess" "newShuffledDeck rnd = Inr deck" and
      deal: "open_round (svc lib) now (SetDeck deck sess) user = Inr (s, p, x)" and
      rec: "RecalculateStatus (room\<lparr>room_CurrentSessionID := Some (sess_ID s)\<rparr>) 1 True = Inr room'" and
      tx: "create_round_tx (Session_Touch now s) p x (Room_Touch now room') e2 v = (Inr (), v')" and
      out: "w_db v = w_db v0" "w_db w3 = w_db v'" "r2 = Room_Touch now room'" "s2 = Session_Touch now s"
      by (rule start_written)
    have two: "round_stored lib i user r2 s2 (w_db w3)"
      using round_stored_create [OF lib new deal rec tx _ GetRoom_id [OF room]] out by simp
    have "round_ok lib s p x" by (rule open_round_ok(1) [OF lib fresh_round(1) [OF new] deal])
    then have ids: "ps_SessionID p = sess_ID (Session_Touch now s)" "ds_SessionID x = sess_ID (Session_Touch now s)"
      by (simp_all add: round_ok_def life_ok_def)
    from GetSession_row [OF g1] have old: "sess_ID s1 \<in> session_ids (w_db w2)" by blast
    from old advances_create(3,4) [OF tx ids] out v0
    have neq: "sess_ID s2 \<noteq> sess_ID s1" and "part (sess_ID s1) (w_db w3) = part (sess_ID s1) (w_db w2)" by auto
    from part_reads(1) [OF this(2)] g1 have "GetSession (sess_ID s1) (w_db w3) = Inr s1" by simp
    with one two neq show "GetSession (sess_ID s1) (w_db w3) = Inr s1 \<and> GetSession (sess_ID s2) (w_db w3) = Inr s2
      \<and> sess_ID s1 \<noteq> sess_ID s2 \<and> sess_RoomID s1 = i \<and> sess_RoomID s2 = i
      \<and> room_CurrentSessionID r2 = Some (sess_ID s2)
      \<and> (\<exists>t. GetRoom i (w_db w3) = Inr (r2\<lparr>room_UpdatedAt := t\<rparr>))"
      by (auto simp: round_stored_def)
  qed
  from late early show ?thesis by (rule conjI)
qed

theorem double_start_witness:
  "GetSession ''r1'' (w_db sample_double) = Inr sample_session
    \<and> GetSession ''r2'' (w_db sample_double) = Inr (fst sample_next)
    \<and> (\<exists>err w4. run (start_write_t sample_svc ''room'' ''ann'' sample_room 1) sample_env (round_at 48) = (Inl err, w4)
          \<and> w_db w4 = w_db sample_round)"
proof -
  have first: "StartRoom sample_svc ''room'' ''ann'' sample_env sample_lobby =
      (Inr (sample_playing\<lparr>room_UpdatedAt := 16\<rparr>, sample_session), sample_round)"
    by (simp add: bind_def StartRoom_def start_reads start_calls start_values start_commit
      sample_guards guard_def ret_def lift_def Let_def del: One_nat_def sample_keys)
  obtain room' where "RecalculateStatus (sample_room\<lparr>room_CurrentSessionID := Some ''r2''\<rparr>) 1 True = Inr room'"
    "Room_Touch 50 room' = sample_again"
    using again_calls(5,7)
    by (cases "RecalculateStatus (sample_room\<lparr>room_CurrentSessionID := Some ''r2''\<rparr>) 1 True") simp_all
  then have second: "run (start_create_t sample_svc ''room'' ''ann'' sample_room) sample_env (round_at 48) =
      (Inr (sample_again, fst sample_next), sample_double)"
    by (simp add: start_create_t_def start_write_t_def uncut bind_def again_calls bump_deck bump_values(2) again_commit
      lift_def ret_def split_def Let_def)
  have room: "GetRoom ''room'' (w_db sample_lobby) = Inr sample_room"
    using start_reads(1) by (simp add: store_read_Inr)
  have same: "w_db (round_at 48) = w_db sample_round" by simp
  note both = double_start [OF reference_lib_documented room first same]
  from both [THEN conjunct1, THEN mp, OF second] again_calls(7) have
    "GetSession ''r1'' (w_db sample_double) = Inr sample_session
      \<and> GetSession ''r2'' (w_db sample_double) = Inr (fst sample_next)" by simp
  moreover have "\<exists>err w4. run (start_write_t sample_svc ''room'' ''ann'' sample_room 1) sample_env (round_at 48) = (Inl err, w4)
      \<and> w_db w4 = w_db sample_round"
    using both [THEN conjunct2] start_reads(3) by force
  ultimately show ?thesis by blast
qed

subsection \<open>A member who left\<close>

text \<open>
  C37. When a connection closes and its request has read the member as active before the
  member leaves, its write puts the member back: the one who left is disconnected and counts
  as seated again.
\<close>

theorem leave_undone:
  assumes m: "GetRoomPlayer i user (w_db w) = Inr m" "rp_Status m = RoomPlayerActive"
    and leave: "LeaveRoom i user e w = (Inr r, w1)" and same: "w_db w2 = w_db w1"
    and mark: "run (mark_disconnected_t (Inr m)) e2 w2 = (Inr (), w3)"
  shows "(\<exists>q. GetRoomPlayer i user (w_db w1) = Inr q \<and> rp_Status q = RoomPlayerLeft)
    \<and> GetRoomPlayer i user (w_db w3) = Inr (m\<lparr>rp_Status := RoomPlayerDisconnected\<rparr>)
    \<and> in_room (m\<lparr>rp_Status := RoomPlayerDisconnected\<rparr>)"
proof -
  obtain room tr where r: "r = (room, tr)" by fastforce
  from mark m(2) obtain d where d: "UpdateRoomPlayer (m\<lparr>rp_Status := RoomPlayerDisconnected\<rparr>) (w_db w2) = Inr d"
    "w_db w3 = d"
    by (auto simp: mark_disconnected_t_def uncut prog_elims RoomPlayer_SetStatus_def split: if_splits)
  have "GetRoomPlayer i user d = Inr (m\<lparr>rp_Status := RoomPlayerDisconnected\<rparr>)"
    using room_players.read_same [OF _ d(1)] GetRoomPlayer_id [OF m(1)] by simp
  with leave_frees_seat [OF leave [unfolded r] m(1)] m(2) d(2) show ?thesis
    by (auto simp: in_room_def)
qed

theorem leave_undone_witness:
  "\<exists>w :: world. GetRoomPlayer ''room'' ''ann'' (w_db w) = Inr (sample_member\<lparr>rp_Status := RoomPlayerDisconnected\<rparr>)
    \<and> in_room (sample_member\<lparr>rp_Status := RoomPlayerDisconnected\<rparr>)"
proof -
  have "case fst (LeaveRoom ''room'' ''ann'' sample_env sample_lobby) of Inl _ \<Rightarrow> False | Inr _ \<Rightarrow> True"
    by code_simp
  then obtain r w1 where leave: "LeaveRoom ''room'' ''ann'' sample_env sample_lobby = (Inr r, w1)"
    by (auto split: sum.splits) (metis prod.collapse)
  have "fst (run (mark_disconnected_t (Inr sample_member)) sample_env
      (snd (LeaveRoom ''room'' ''ann'' sample_env sample_lobby))) = Inr ()"
    unfolding mark_disconnected_t_def by (simp only: uncut sum.case if_distrib) code_simp
  with leave obtain w3 where mark: "run (mark_disconnected_t (Inr sample_member)) sample_env w1 = (Inr (), w3)"
    by (metis prod.collapse snd_conv)
  have m: "GetRoomPlayer ''room'' ''ann'' (w_db sample_lobby) = Inr sample_member"
    "rp_Status sample_member = RoomPlayerActive" by code_simp+
  from leave_undone [OF m leave refl mark] show ?thesis by blast
qed

end
