(* ===== verification/Audit_Properties.thy ===== *)
theory Audit_Properties
  imports Ws_Audit Overlap_Properties
begin

text \<open>
  What the audit log and the metrics say is what happened: a request that reached its handler leaves
  one line, with the user of the token and the outcome of the request; the line of a turn names the
  version that is stored; the forfeits that are counted are the rounds that were forfeited.
\<close>

subsection \<open>What a handler may note\<close>

text \<open>A handler writes no line and leaves the user, the request and the keys of the schema alone.\<close>

definition schema_keys :: "string list" where
  "schema_keys = [''timestamp'', ''level'', ''request_id'', ''action_id'', ''room_id'', ''session_id'',
     ''game_session_id'', ''user_id'', ''actor_type'', ''request_type'', ''session_version_before'',
     ''session_version_after'', ''latency_ms'', ''result'', ''error_code'']"

definition only_notes :: "telemetry \<Rightarrow> telemetry \<Rightarrow> bool" where
  "only_notes t t' \<longleftrightarrow> tl_log t' = tl_log t \<and> cx_UserID (tl_context t') = cx_UserID (tl_context t)
     \<and> cx_SessionID (tl_context t') = cx_SessionID (tl_context t)
     \<and> cx_RequestID (tl_context t') = cx_RequestID (tl_context t)
     \<and> (list_all (\<lambda>k. map_of (cx_Extra (tl_context t)) k = None) schema_keys \<longrightarrow>
        list_all (\<lambda>k. map_of (cx_Extra (tl_context t')) k = None) schema_keys)"

lemma only_notes_refl: "only_notes t t"
  by (simp add: only_notes_def)

lemma only_notes_trans: "only_notes t t1 \<Longrightarrow> only_notes t1 t2 \<Longrightarrow> only_notes t t2"
  by (auto simp: only_notes_def)

definition modest :: "(telemetry, 'a) observed \<Rightarrow> bool" where
  "modest m \<longleftrightarrow> (\<forall>t e w r t' w'. m t e w = (Inr (r, t'), w') \<longrightarrow> only_notes t t')"

named_theorems modest_intros \<open>handlers that only take notes\<close>

lemma modest_basic [modest_intros]: "modest (oret x)" "modest (othrow err)" "modest (oact p)"
  by (auto simp: modest_def prog_elims only_notes_refl)

lemma modest_metered [modest_intros]: "modest (metered f)"
  by (simp add: modest_def prog_elims only_notes_def)

lemma modest_in_context [modest_intros]:
  "modest (in_context (SetAuditSessionVersions b a))" "modest (in_context (SetAuditGameSessionID i))"
  "modest (in_context (setAuditGameSessionID s))" "modest (in_context (set_action_id k))"
  "list_all (\<lambda>k. map_of extra k = None) schema_keys \<Longrightarrow> modest (in_context (SetAuditExtra extra))"
  by (simp_all add: modest_def prog_elims only_notes_def SetAuditSessionVersions_def SetAuditGameSessionID_def
      setAuditGameSessionID_def set_action_id_def SetAuditExtra_def)

lemma modest_obind [modest_intros]:
  assumes "modest m" "\<And>x. modest (f x)"
  shows "modest (obind m f)"
  unfolding modest_def
proof (intro allI impI)
  fix t e w r t' w'
  assume run: "obind m f t e w = (Inr (r, t'), w')"
  then obtain q t1 v where m: "m t e w = (Inr (q, t1), v)"
    by (auto simp: obind_def bind_def split: prod.splits sum.splits)
  with assms(1) have "only_notes t t1" unfolding modest_def by blast
  moreover have "only_notes t1 t'"
  proof (cases q)
    case (Inl err)
    with run m show ?thesis by (simp add: obind_def bind_def ret_def only_notes_refl)
  next
    case (Inr x)
    with run m have "f x t1 e v = (Inr (r, t'), w')" by (simp add: obind_def bind_def)
    with assms(2) show ?thesis unfolding modest_def by blast
  qed
  ultimately show "only_notes t t'" by (rule only_notes_trans)
qed

lemma modest_branches [modest_intros]:
  "modest m \<Longrightarrow> modest m' \<Longrightarrow> modest (if b then m else m')"
  "modest m \<Longrightarrow> (\<And>x. modest (f x)) \<Longrightarrow> modest (case oc of None \<Rightarrow> m | Some x \<Rightarrow> f x)"
  "(\<And>err. modest (g err)) \<Longrightarrow> (\<And>x. modest (h x)) \<Longrightarrow> modest (case r of Inl err \<Rightarrow> g err | Inr x \<Rightarrow> h x)"
  "(\<And>x y. modest (k x y)) \<Longrightarrow> modest (case p of (x, y) \<Rightarrow> k x y)"
  by (simp_all split: option.split sum.split prod.split)

lemma modest_handle [modest_intros]:
  "(\<And>err. modest (f err)) \<Longrightarrow> (\<And>x. modest (g x)) \<Longrightarrow> modest (handle_audited call f g)"
  unfolding handle_audited_def by (intro modest_intros)

lemma modest_api: "modest (api_audited r req userID)"
  by (cases req)
    (auto simp: JoinRoom_audited_def LeaveRoom_audited_def GetRoom_audited_def StartRoom_audited_def
      turnAction_audited_def mutation_audited_def schema_keys_def intro!: modest_intros)

subsection \<open>One line for a request\<close>

lemma schema_free:
  "list_all (\<lambda>k. map_of extra k = None) schema_keys \<Longrightarrow> k \<in> set schema_keys \<Longrightarrow> map_of extra k = None"
  by (simp add: list_all_iff)

lemma entry_fields:
  assumes "list_all (\<lambda>k. map_of (cx_Extra c) k = None) schema_keys"
  shows "audit_entry_of rq broken start finished resp c ''user_id'' = Some (Text (cx_UserID c))"
    "audit_entry_of rq broken start finished resp c ''action_id'' = Some (Text (resolveActionID rq c))"
    "audit_entry_of rq broken start finished resp c ''game_session_id'' = Some (text_or_null (cx_GameSessionID c))"
    "audit_entry_of rq broken start finished resp c ''session_version_before'' = Some (number_or_null (cx_VersionBefore c))"
    "audit_entry_of rq broken start finished resp c ''session_version_after'' = Some (number_or_null (cx_VersionAfter c))"
    "audit_entry_of rq broken start finished resp c ''result'' =
       Some (Text (if answered_status resp \<ge> 400 \<or> broken then ''failure'' else ''success''))"
  using schema_free [OF assms] by (simp_all add: audit_entry_of_def split_def Let_def schema_keys_def)

definition honest :: "reply prog \<Rightarrow> bool" where
  "honest h \<longleftrightarrow> (\<forall>e w resp room w'. h e w = (Inr (resp, room), w') \<longrightarrow> succeeded resp \<or> rs_status resp \<ge> 400)"

lemma honest_handle:
  assumes "\<And>err. rs_status (f err) \<ge> 400" "\<And>x. succeeded (fst (g x))"
  shows "honest (handle call f g)"
  unfolding honest_def handle_def
proof (intro allI impI)
  fix e w resp room w'
  assume "bind (attempt call) (\<lambda>r. ret (case r of Inl err \<Rightarrow> (f err, None) | Inr x \<Rightarrow> g x)) e w = (Inr (resp, room), w')"
  then obtain r where "(case r of Inl err \<Rightarrow> (f err, None) | Inr x \<Rightarrow> g x) = (resp, room)"
    by (auto simp: prog_elims)
  with assms show "succeeded resp \<or> rs_status resp \<ge> 400"
    by (cases r) (auto, metis fst_conv)
qed

lemma honest_intros:
  "succeeded resp \<or> rs_status resp \<ge> 400 \<Longrightarrow> honest (ret (resp, room))"
  "honest a \<Longrightarrow> honest b \<Longrightarrow> honest (if c then a else b)"
  "honest a \<Longrightarrow> (\<And>x. honest (k x)) \<Longrightarrow> honest (case oc of None \<Rightarrow> a | Some x \<Rightarrow> k x)"
  "(\<And>s. honest (k' s)) \<Longrightarrow> honest (bind (io_getenv n) k')"
  by (auto simp: honest_def prog_elims split: option.splits)

lemma refusals_honest [simp]:
  "400 \<le> rs_status (fail_with n c m) \<longleftrightarrow> 400 \<le> n" "400 \<le> rs_status (internal_error r err)"
  by (simp_all add: fail_with_def internal_error_def)

lemma errors_honest [simp]:
  "400 \<le> rs_status (play_hint_error r err)" "400 \<le> rs_status (room_error r m err)"
  "400 \<le> rs_status (start_error r err)" "400 \<le> rs_status (join_error r err)"
  "400 \<le> rs_status (leave_error r err)" "400 \<le> rs_status (user_error r err)"
  "400 \<le> rs_status (writeTurnMutationError r err m m')"
  by (auto simp: play_hint_error_def room_error_def start_error_def join_error_def leave_error_def
      user_error_def writeTurnMutationError_def Let_def)

lemma honest_api: "honest (api_handler r req userID)"
  by (cases req) (auto simp: handler_defs intro!: honest_intros honest_handle)

text \<open>
  C25. A request to one of the room and round routes (not login, sign-up, logout or /me) is
  refused by the checks, changes nothing and leaves no line in the audit log, or carries a
  valid token and leaves exactly one line, with the user of that token: a success when it is
  answered with 200 and the handler returned no error, a failure otherwise; and the store is
  as it was unless the answer is 200.
\<close>

theorem one_line_per_handled_request:
  assumes "api_group cfg re rq broken (api_audited r req) s t e w = (Inr (Inr ((resp, room), s'), t'), w')"
    and "\<not> skipJWTAuth (hq_Path rq)" "tl_context t = empty_context"
  shows "(rs_status resp \<in> {401, 403, 429, 500} \<and> w_db w' = w_db w \<and> tl_log t' = tl_log t)
    \<or> (\<exists>tok claims n line. ac_extract cfg (hq_Authorization rq) = Some tok
         \<and> al_parse (ac_auth cfg) (ac_secret cfg) (env_now e n) 0 tok = Some claims
         \<and> tl_log t' = tl_log t @ [line] \<and> line ''user_id'' = Some (Text (cl_Subject claims))
         \<and> line ''result'' = Some (Text (if rs_status resp = 200 \<and> \<not> broken then ''success'' else ''failure''))
         \<and> (rs_status resp = 200 \<or> w_db w' = w_db w))"
  using assms(1,2)
proof (cases rule: api_group_cases)
  case Refused
  then show ?thesis by blast
next
  case (Handled tok claims t1 v t2 v' start finished reqID)
  let ?user = "cl_Subject claims"
  from api_answers_and_keeps [of r req ?user e v] obtain resp1 room1 v1 where
    plain: "api_handler r req ?user e v = (Inr (resp1, room1), v1)"
    "rs_status resp1 = 200 \<or> room1 = None \<and> w_db v1 = w_db v" by blast
  from observes_run [OF audited_is_the_handler plain(1)] Handled(4)
  have same: "resp1 = resp" "room1 = room" "v1 = v'" by (metis prod.inject sum.inject(2))+
  have t1: "cx_UserID (tl_context t1) = ?user" "cx_Extra (tl_context t1) = []"
    by (simp_all add: Handled(7) assms(3) setAuthContextFromToken_def empty_context_def Let_def)
  have quiet: "only_notes t1 t2" using modest_api Handled(4) unfolding modest_def by blast
  then have free: "list_all (\<lambda>k. map_of (cx_Extra (tl_context t2)) k = None) schema_keys"
    using t1(2) by (simp add: only_notes_def list_all_iff)
  have "rs_status resp = 200 \<or> 400 \<le> rs_status resp"
    using honest_api plain(1) same unfolding honest_def succeeded_def by blast
  then have st: "400 \<le> answered_status resp \<longleftrightarrow> rs_status resp \<noteq> 200"
    by (auto simp: answered_status_def)
  from quiet have "tl_log t2 = tl_log t1" "cx_UserID (tl_context t2) = ?user"
    using t1 by (simp_all add: only_notes_def)
  with Handled(1-3,5,6,8) entry_fields [OF free] plain(2) same st show ?thesis by auto
qed

text \<open>A hit in the round of \<open>Sample_Run\<close> over HTTP.\<close>

definition hit_request :: http_request where
  "hit_request = sample_request\<lparr>hq_Path := ''/api/rooms/:id/hit'', hq_Param_id := ''room''\<rparr>"

definition open_config :: api_config where
  "open_config = sample_config\<lparr>ac_limiter := None\<rparr>"

lemma hit_path: "\<not> skipJWTAuth (hq_Path hit_request)"
  by (simp add: hit_request_def skipJWTAuth_def)

lemma hit_turn:
  obtains sess w' where "playerTurn (svc reference_lib) ''room'' ''ann'' 1 ''a1'' True sample_env sample_round =
     (Inr (tc_room (sample_commit True), sess), w')"
proof -
  obtain w' where "transaction (turn_tx 1 (sample_commit True)) sample_env (sample_round\<lparr>w_calls := 30\<rparr>) = (Inr (), w')"
    using sample_tx by (metis prod.collapse)
  then have "playerTurn (svc reference_lib) ''room'' ''ann'' 1 ''a1'' True sample_env sample_round =
     (Inr (tc_room (sample_commit True), tc_sess (sample_commit True)), w')"
    by (simp add: playerTurn_def bind_def sample_prepare ret_def)
  with that show thesis .
qed

lemma sample_hit_over_http:
  "\<exists>room s t w'. api_group open_config (redis_at 0) hit_request False
      (api_audited sample_controller (Api_Hit ''room'' (Some \<lparr>ta_ExpectedVersion = 1, ta_ActionID = ''a1''\<rparr>)))
      Map.empty empty_telemetry sample_env (sample_round\<lparr>w_calls := 20\<rparr>) =
      (Inr (Inr ((ok_with 200 room, Some (room_ID (tc_room (sample_commit True)))), s), t), w')"
proof -
  obtain sess w' where turn: "playerTurn (svc reference_lib) ''room'' ''ann'' 1 ''a1'' True sample_env sample_round =
     (Inr (tc_room (sample_commit True), sess), w')" by (rule hit_turn)
  have now: "env_now sample_env n = int n + 1" for n by (simp add: sample_env_def)
  have calls: "sample_round\<lparr>w_calls := 24\<rparr> = sample_round" by (simp add: sample_round_def)
  have auth: "AuthMiddleware (ac_extract open_config) (ac_auth open_config) (ac_secret open_config) 22 hit_request =
      Inr (Some sample_claims)"
    using sample_token [of 22 "hq_Path hit_request" "''room''"] hit_path
    by (simp add: open_config_def sample_config_def hit_request_def)
  have csrf: "CSRFMiddleware hit_request = None"
    using csrf_spares_tokens [OF bearer_token_documented strict_auth_refuses hit_path] auth
    by (simp add: open_config_def sample_config_def)
  have who: "cl_Subject sample_claims = ''ann''" by (simp add: sample_claims_def)
  have rid: "hq_RequestID hit_request = ''q1''" by (simp add: hit_request_def sample_request_def)
  have lim: "ac_limiter open_config = None" by (simp add: open_config_def)
  show ?thesis
    by (simp add: api_group_def HTTPTelemetryMiddleware_def RequestIDMiddleware_def checked_def AuditLogMiddleware_def
        prog_elims now auth csrf who rid lim RateLimitMiddleware_def turnAction_audited_def mutation_audited_def
        handle_audited_def attempt_Inr Hit_def calls turn sample_controller_def) blast
qed

lemma ok_200: "rs_status (ok_with 200 d) = 200"
  by (simp add: ok_with_def)

theorem one_line_per_handled_request_witness:
  "\<exists>d room s t w' line. api_group open_config (redis_at 0) hit_request False
      (api_audited sample_controller (Api_Hit ''room'' (Some \<lparr>ta_ExpectedVersion = 1, ta_ActionID = ''a1''\<rparr>)))
      Map.empty empty_telemetry sample_env (sample_round\<lparr>w_calls := 20\<rparr>) =
      (Inr (Inr ((ok_with 200 d, room), s), t), w')
    \<and> tl_log t = [line] \<and> line ''result'' = Some (Text ''success'')"
proof -
  from sample_hit_over_http obtain d room s t w' where run: "api_group open_config (redis_at 0) hit_request False
      (api_audited sample_controller (Api_Hit ''room'' (Some \<lparr>ta_ExpectedVersion = 1, ta_ActionID = ''a1''\<rparr>)))
      Map.empty empty_telemetry sample_env (sample_round\<lparr>w_calls := 20\<rparr>) =
      (Inr (Inr ((ok_with 200 d, Some room), s), t), w')" by blast
  have "tl_context empty_telemetry = empty_context" "tl_log empty_telemetry = []" by (simp_all add: empty_telemetry_def)
  with one_line_per_handled_request [OF run hit_path] run show ?thesis by (fastforce simp: ok_200)
qed

subsection \<open>The line of a turn\<close>

lemma playerTurn_reports:
  assumes ok: "db_ok (w_db w)" and run: "playerTurn u i user n a hit e w = (Inr (room, sess), w')"
  shows "\<exists>s'. GetSession (sess_ID sess) (w_db w') = Inr s' \<and> sess_Version s' = sess_Version sess"
proof -
  from run obtain r v where prep: "turn_prepare u i user n a hit e w = (Inr r, v)"
    and rest: "(case r of Inl (room, sess) \<Rightarrow> ret (room, sess)
      | Inr c \<Rightarrow> bind (transaction (turn_tx n c)) (\<lambda>_. ret (tc_room c, tc_sess c))) e v = (Inr (room, sess), w')"
    by (auto simp: playerTurn_def prog_elims)
  have v: "w_db v = w_db w" by (rule readonlyD [OF readonly_round(4) prep])
  show ?thesis
  proof (cases r)
    case (Inl rs)
    with rest have rs: "rs = (room, sess)" "w' = v" by (auto simp: prog_elims split: prod.splits)
    with prep Inl obtain p x v1 where "turn_load i user n e w = (Inr (room, sess, p, x), v1)"
      by (auto simp: turn_prepare_def prog_elims Let_def split: if_splits)
    then obtain sid where "GetSession sid (w_db w) = Inr sess"
      by (auto simp: turn_load_def prog_elims split: option.splits)
    with GetSession_id [OF this] rs v show ?thesis by auto
  next
    case (Inr c)
    with rest obtain x v' where tx: "turn_tx n c e v = (Inr x, v')" "w_db w' = w_db v'" "sess = tc_sess c"
      by (auto simp: prog_elims)
    from turn_committed [OF ok prep [unfolded Inr] tx(1) v] tx show ?thesis by metis
  qed
qed

text \<open>
  C26. The line of a HIT or STAND that succeeded names the action, the version the client
  expected, and the session and version that are in the store afterwards.
\<close>

theorem audit_line_of_turn:
  assumes "reachable u (w_db w)"
    and "api_group cfg re rq False (api_audited r ((if hit then Api_Hit else Api_Stand) i (Some req))) s t e w =
      (Inr (Inr ((resp, room), s'), t'), w')"
    and "rs_status resp = 200" "\<not> skipJWTAuth (hq_Path rq)" "tl_context t = empty_context"
  shows "\<exists>line sess. tl_log t' = tl_log t @ [line] \<and> line ''action_id'' = Some (Text (ta_ActionID req))
     \<and> line ''session_version_before'' = Some (Number (ta_ExpectedVersion req))
     \<and> line ''game_session_id'' = Some (Text (sess_ID sess))
     \<and> line ''session_version_after'' = Some (Number (sess_Version sess))
     \<and> GetSession (sess_ID sess) (w_db w') = Inr sess"
  using assms(2,4)
proof (cases rule: api_group_cases)
  case Refused
  with assms(3) show ?thesis by simp
next
  case (Handled tok claims t1 v t2 v' start finished reqID)
  let ?user = "cl_Subject claims" and ?n = "ta_ExpectedVersion req" and ?a = "ta_ActionID req"
  have api: "api_audited r ((if hit then Api_Hit else Api_Stand) i (Some req)) ?user = turnAction_audited r hit ?user i (Some req)"
    by simp
  have call: "(if hit then Hit (rc_room r) i ?user ?n ?a else Stand (rc_room r) i ?user ?n ?a) =
      playerTurn (rc_room r) i ?user ?n ?a hit" by (simp add: Hit_def Stand_def)
  from Handled(4) assms(3) have args: "0 < ?n" "?a \<noteq> []"
    and m: "mutation_audited r ''room id and expected_version are required'' [] ?n
      (playerTurn (rc_room r) i ?user ?n ?a hit) (t1\<lparr>tl_context := set_action_id ?a (tl_context t1)\<rparr>) e v =
      (Inr (Inr (resp, room), t2), v')"
    by (auto simp: api turnAction_audited_def prog_elims fail_with_def call split: if_splits)
  obtain q v1 where q: "playerTurn (rc_room r) i ?user ?n ?a hit e v = (q, v1)" by fastforce
  show ?thesis
  proof (cases q)
    case (Inl err)
    with q m have "resp = writeTurnMutationError r err ''room id and expected_version are required'' []"
      by (auto simp: mutation_audited_def handle_audited_def prog_elims attempt_Inr)
    with refused_errors(7) assms(3) show ?thesis by (metis succeeded_def)
  next
    case (Inr rs)
    obtain room1 sess where rs: "rs = (room1, sess)" by fastforce
    with Inr q m have t2: "tl_log t2 = tl_log t1" "cx_ActionID (tl_context t2) = ?a"
        "cx_VersionBefore (tl_context t2) = Some ?n" "cx_VersionAfter (tl_context t2) = Some (sess_Version sess)"
        "cx_GameSessionID (tl_context t2) = Some (sess_ID sess)" "cx_Extra (tl_context t2) = cx_Extra (tl_context t1)"
      and v1: "v1 = v'"
      by (auto simp: mutation_audited_def handle_audited_def prog_elims attempt_Inr set_action_id_def
          SetAuditSessionVersions_def setAuditGameSessionID_def SetAuditGameSessionID_def)
    have "cx_Extra (tl_context t1) = []"
      by (simp add: Handled(7) assms(5) setAuthContextFromToken_def empty_context_def Let_def)
    with t2 have free: "list_all (\<lambda>k. map_of (cx_Extra (tl_context t2)) k = None) schema_keys"
      by (simp add: list_all_iff)
    have ok: "db_ok (w_db v)" using reachable_db_ok [OF assms(1)] Handled(3) by simp
    from playerTurn_reports [OF ok] q Inr rs obtain s1 where s1: "GetSession (sess_ID sess) (w_db v1) = Inr s1"
      "sess_Version s1 = sess_Version sess" by blast
    with GetSession_id [OF s1(1)] v1 Handled(5) have "GetSession (sess_ID s1) (w_db w') = Inr s1"
      "sess_ID s1 = sess_ID sess" by simp_all
    with t2 args(2) s1(2) Handled(6,8) entry_fields [OF free] show ?thesis
      by (auto simp: resolveActionID_def intro!: exI [of _ s1])
  qed
qed

theorem audit_line_of_turn_witness:
  "\<exists>(t :: telemetry) line (sess :: GameSession) (w' :: world). tl_log t = [line] \<and> line ''action_id'' = Some (Text ''a1'')
     \<and> line ''session_version_before'' = Some (Number 1)
     \<and> line ''session_version_after'' = Some (Number (sess_Version sess))
     \<and> GetSession (sess_ID sess) (w_db w') = Inr sess"
proof -
  from sample_hit_over_http obtain d room s t w' where run: "api_group open_config (redis_at 0) hit_request False
      (api_audited sample_controller ((if True then Api_Hit else Api_Stand) ''room'' (Some \<lparr>ta_ExpectedVersion = 1, ta_ActionID = ''a1''\<rparr>)))
      Map.empty empty_telemetry sample_env (sample_round\<lparr>w_calls := 20\<rparr>) =
      (Inr (Inr ((ok_with 200 d, Some room), s), t), w')" by auto
  have e: "tl_context empty_telemetry = empty_context" "tl_log empty_telemetry = []" by (simp_all add: empty_telemetry_def)
  have "reachable sample_svc (w_db (sample_round\<lparr>w_calls := 20\<rparr>))" using reachable_sample(4) by simp
  from audit_line_of_turn [OF this run ok_200 hit_path e(1)] e(2) obtain line sess where
    "tl_log t = [line]" "line ''action_id'' = Some (Text ''a1'')" "line ''session_version_before'' = Some (Number 1)"
    "line ''session_version_after'' = Some (Number (sess_Version sess))" "GetSession (sess_ID sess) (w_db w') = Inr sess"
    by auto
  then show ?thesis by blast
qed

subsection \<open>Forfeits and draws\<close>

text \<open>The counter of the forfeits goes up exactly when a round was forfeited.\<close>

lemma forfeit_counted_run:
  "forfeit_counted u room s p x m e w = (Inr (r, m'), w') \<longleftrightarrow>
     forfeit u room s p x e w = (r, w') \<and> m' = (if isl r then m else IncTimeForfeit m)"
  by (cases r) (auto simp: forfeit_counted_def obind_def oact_def onote_def bind_def attempt_def ret_def
      split: prod.splits sum.splits)

lemma obind_cases:
  assumes "obind m f t e w = (Inr (r, t'), w')"
  obtains (Stopped) err where "m t e w = (Inr (Inl err, t'), w')" "r = Inl err"
  | (Went) x t1 v where "m t e w = (Inr (Inr x, t1), v)" "f x t1 e v = (Inr (r, t'), w')"
  using assms by (auto simp: obind_def bind_def ret_def split: prod.splits sum.splits)

lemma playerStand_counted_cases:
  assumes "playerStand_counted u sid m e w = (Inr (r, m'), w')"
    and "TrimSpace (env_getenv e ''BLACKJACK_PLAYER_TIMEOUT_POLICY'') \<noteq> ''heuristic''"
  obtains (Quiet) "m' = m" "w_db w' = w_db w"
  | (Forfeited) sess room p x v where "m' = IncTimeForfeit m" "GetSession sid (w_db w) = Inr sess"
      "sess_Status sess = SessionStatusPlayerTurn" "w_db v = w_db w"
      "load_round sess e (w\<lparr>w_calls := w_calls w + 2\<rparr>) = (Inr (room, p, x), v)"
      "forfeit u room sess p x e v = (Inr (), w')"
  using assms(1) unfolding playerStand_counted_def
proof (cases rule: obind_cases)
  case (Stopped err)
  then have run: "store_read (GetSession sid) e w = (Inl err, w')" "m' = m" by (simp_all add: prog_elims)
  have "readonly (store_read (GetSession sid))" by (intro readonly_intros)
  from readonlyD [where m = "store_read (GetSession sid)", OF this run(1)] run(2) show thesis by (intro Quiet)
next
  case (Went sess m1 v)
  then have s: "GetSession sid (w_db w) = Inr sess" "m1 = m" and v: "v = tick w" by (auto simp: prog_elims)
  let ?t = "env_now e (w_calls v)"
  from Went(2) have step: "(if sess_Status sess \<noteq> SessionStatusPlayerTurn \<or> \<not> due (sess_TurnDeadlineAt sess) ?t then oret ()
      else obind (oact (load_round sess)) (\<lambda>(room, player, dealer).
        timeout_move_counted u sid room sess player dealer)) m e (tick v) = (Inr (r, m'), w')"
    by (simp add: obind_oact io_now_def s)
  show thesis
  proof (cases "sess_Status sess \<noteq> SessionStatusPlayerTurn \<or> \<not> due (sess_TurnDeadlineAt sess) ?t")
    case True
    with step v show thesis by (intro Quiet) (auto simp: prog_elims)
  next
    case False
    with step have "obind (oact (load_round sess)) (\<lambda>(room, player, dealer).
        timeout_move_counted u sid room sess player dealer) m e (tick v) = (Inr (r, m'), w')" by simp
    then show thesis
    proof (cases rule: obind_cases)
      case (Stopped err)
      then have l: "load_round sess e (tick v) = (Inl err, w')" "m' = m" by (simp_all add: prog_elims)
      from readonlyD [where m = "load_round sess", OF readonly_round(5) l(1)] l(2) v show thesis by (intro Quiet) simp_all
    next
      case (Went y m2 v2)
      obtain room p x where y: "y = (room, p, x)" by (cases y)
      from Went(1) y have l: "load_round sess e (tick v) = (Inr (room, p, x), v2)" "m2 = m" by (auto simp: prog_elims)
      have v2: "w_db v2 = w_db w" using load_round_run [OF l(1)] v by simp
      from Went(2) y l(2) assms(2) have "forfeit_counted u room sess p x m e v2 = (Inr (r, m'), w')"
        by (simp add: timeout_move_counted_def obind_oact io_getenv_def)
      then have f: "forfeit u room sess p x e v2 = (r, w')" "m' = (if isl r then m else IncTimeForfeit m)"
        by (auto simp: forfeit_counted_run)
      show thesis
      proof (cases r)
        case (Inl err)
        with f aonD [OF aon_forfeit] v2 show thesis by (intro Quiet) auto
      next
        case (Inr z)
        with f l v v2 s False show thesis by (intro Forfeited [of sess v2 room p x]) (simp_all add: eval_nat_numeral)
      qed
    qed
  qed
qed

text \<open>
  C27. With the heuristic policy off, the worker's step on a session raises the counter of
  forfeits by one exactly when the session went from the player's turn to its result, whatever
  fails on the way.
\<close>

theorem forfeits_are_counted:
  assumes lib: "lib_documented lib" and reach: "reachable (svc lib) (w_db w)"
    and s: "GetSession sid (w_db w) = Inr s"
    and run: "playerStand_counted (svc lib) sid m e w = (Inr (r, m'), w')"
    and pol: "TrimSpace (env_getenv e ''BLACKJACK_PLAYER_TIMEOUT_POLICY'') \<noteq> ''heuristic''"
  shows "\<exists>s'. GetSession sid (w_db w') = Inr s'
    \<and> raised ''blackjack_player_time_forfeit_total'' m' = raised ''blackjack_player_time_forfeit_total'' m
        + (if sess_Status s = SessionStatusPlayerTurn \<and> sess_Status s' = SessionStatusResetting then 1 else 0)"
  using run pol
proof (cases rule: playerStand_counted_cases)
  case Quiet
  with s show ?thesis by auto
next
  case (Forfeited sess room p x v)
  have id: "sess_ID sess = sid" using GetSession_id [OF Forfeited(2)] by simp
  from load_round_run [OF Forfeited(5)] obtain ps where
    p: "ListPlayerStatesBySessionID (sess_ID sess) (w_db v) = Inr (p # ps)" and
    x: "GetDealerState (sess_ID sess) (w_db v) = Inr x" using Forfeited(4) by auto
  have ok: "game_ok lib (w_db v)" using reachable_game_ok [OF lib reach] Forfeited(4) by simp
  have "GetSession (sess_ID sess) (w_db v) = Inr sess" using Forfeited(2,4) id by simp
  from forfeit_stored [OF lib ok this p x Forfeited(6)] id Forfeited(1-3) s show ?thesis
    by (auto simp: IncTimeForfeit_def)
qed

theorem forfeits_are_counted_witness:
  "\<exists>m' w' s'. playerStand_counted sample_svc ''r1'' [] late_env sample_round = (Inr (Inr (), m'), w')
     \<and> GetSession ''r1'' (w_db w') = Inr s' \<and> raised ''blackjack_player_time_forfeit_total'' m' \<le> 1"
proof -
  let ?w = "sample_round\<lparr>w_calls := 29\<rparr>"
  obtain w' where f: "forfeit (svc reference_lib) sample_playing sample_session sample_player
      sample_dealer late_env ?w = (Inr (), w')" using sample_forfeit by (metis prod.collapse)
  have e: "env_fault late_env n = None" "env_now late_env n = 20 * Second + int n"
    "env_getenv late_env i = []" for n i by (simp_all add: late_env_def sample_env_def)
  have d: "due (sess_TurnDeadlineAt sample_session) (20 * Second + int (Suc (w_calls sample_round)))"
    by (simp add: due_def sample_session_def Second_def PlayerTurnTimeout_def sample_round_def)
  have c: "w_calls sample_round = 24" by (simp add: sample_round_def)
  have "playerStand (svc reference_lib) ''r1'' late_env sample_round = (Inr (), w')"
    using d c by (simp add: playerStand_def load_round_def timeout_move_def bind_def store_read_def
        store_op_def io_now_def io_getenv_def ret_def e sample_reads f TrimSpace_def)
  from observes_run [OF observes_playerStand(3) this] obtain m' where
    run: "playerStand_counted (svc reference_lib) ''r1'' [] late_env sample_round = (Inr (Inr (), m'), w')" by metis
  have "TrimSpace (env_getenv late_env ''BLACKJACK_PLAYER_TIMEOUT_POLICY'') \<noteq> ''heuristic''"
    by (simp add: e TrimSpace_def)
  from forfeits_are_counted [OF reference_lib_documented reachable_sample(4) sample_reads(2) run this] run
  show ?thesis by auto
qed

end
