(* ===== verification/Epoch_Store.thy ===== *)
theory Epoch_Store
  imports Ws_Audit
begin

text \<open>
  The epochs of the connections as they are kept in Redis: the keys, the life time of the latest
  epoch, and the three functions of \<open>backend/controller/room_ws_controller.go\<close> over the commands
  \<open>INCR\<close>, \<open>SET\<close> with an expiry and \<open>GET\<close>. \<open>Ws_Hub\<close> keeps the epochs by room and user; here it is shown
  that the keys implement that, and what the passing of time does to a connection that is silent.
\<close>

subsection \<open>Keys\<close>

text \<open>The life time of an epoch before (\<open>ttl0\<close>) and after the configuration.\<close>

definition ConfigureWebSocketConnectionEpochStore :: "time \<Rightarrow> time \<Rightarrow> time" where
  "ConfigureWebSocketConnectionEpochStore ttl ttl0 = (if ttl > 0 then ttl else ttl0)"

definition wsEpochCounterKey :: "string \<Rightarrow> string \<Rightarrow> string" where
  "wsEpochCounterKey roomID userID = ''ws:room:'' @ roomID @ '':user:'' @ userID @ '':epoch_counter''"

definition wsEpochLatestKey :: "string \<Rightarrow> string \<Rightarrow> string" where
  "wsEpochLatestKey roomID userID = ''ws:room:'' @ roomID @ '':user:'' @ userID @ '':latest_epoch''"

text \<open>
  \<open>Ws_Hub\<close> keeps the epochs by room and user; the keys of Redis tell the two apart as long as an id
  has no colon, as the ids of rooms and users (UUIDs) have none.
\<close>

lemma append_colon_inj:
  "r @ CHR '':'' # u = r' @ CHR '':'' # u' \<Longrightarrow> CHR '':'' \<notin> set r \<Longrightarrow> CHR '':'' \<notin> set r' \<Longrightarrow> r = r' \<and> u = u'"
proof (induction r arbitrary: r')
  case Nil
  then show ?case by (cases r') auto
next
  case (Cons c r)
  then show ?case by (cases r') auto
qed

lemma epoch_keys_inj:
  assumes "CHR '':'' \<notin> set r" "CHR '':'' \<notin> set r'" "CHR '':'' \<notin> set u" "CHR '':'' \<notin> set u'"
  shows "wsEpochLatestKey r u = wsEpochLatestKey r' u' \<Longrightarrow> r = r' \<and> u = u'"
    and "wsEpochCounterKey r u = wsEpochCounterKey r' u' \<Longrightarrow> r = r' \<and> u = u'"
    and "wsEpochLatestKey r u \<noteq> wsEpochCounterKey r' u'"
proof -
  have *: "r = r' \<and> u = u' \<and> x = x'"
    if "r @ '':user:'' @ u @ CHR '':'' # x = r' @ '':user:'' @ u' @ CHR '':'' # x'" for x x'
  proof -
    from that assms have 1: "r = r'" "''user:'' @ u @ CHR '':'' # x = ''user:'' @ u' @ CHR '':'' # x'"
      using append_colon_inj [of r "''user:'' @ u @ CHR '':'' # x" r' "''user:'' @ u' @ CHR '':'' # x'"] by auto
    with append_colon_inj [of u x u' x'] assms show ?thesis by simp
  qed
  show "wsEpochLatestKey r u = wsEpochLatestKey r' u' \<Longrightarrow> r = r' \<and> u = u'"
    using * [of "''latest_epoch''" "''latest_epoch''"] by (simp add: wsEpochLatestKey_def)
  show "wsEpochCounterKey r u = wsEpochCounterKey r' u' \<Longrightarrow> r = r' \<and> u = u'"
    using * [of "''epoch_counter''" "''epoch_counter''"] by (simp add: wsEpochCounterKey_def)
  show "wsEpochLatestKey r u \<noteq> wsEpochCounterKey r' u'"
    using * [of "''latest_epoch''" "''epoch_counter''"]
    by (auto simp: wsEpochLatestKey_def wsEpochCounterKey_def)
qed

subsection \<open>Redis\<close>

text \<open>
  A key has a number and, for one written with an expiry, the time it is gone at. \<open>INCR\<close> counts a key
  that is not there as zero and leaves the expiry; \<open>SET\<close> replaces both.
\<close>

type_synonym redis_keys = "string \<rightharpoonup> int \<times> time option"

definition key_entry :: "time \<Rightarrow> redis_keys \<Rightarrow> string \<Rightarrow> (int \<times> time option) option" where
  "key_entry now s key =
     (case s key of
        None \<Rightarrow> None
      | Some (v, until) \<Rightarrow>
          if (case until of None \<Rightarrow> True | Some u \<Rightarrow> now < u) then Some (v, until) else None)"

definition redis_Get :: "time \<Rightarrow> string \<Rightarrow> redis_keys \<Rightarrow> int option" where
  "redis_Get now key s = map_option fst (key_entry now s key)"

definition redis_Incr :: "time \<Rightarrow> string \<Rightarrow> redis_keys \<Rightarrow> int \<times> redis_keys" where
  "redis_Incr now key s =
     (case key_entry now s key of
        None \<Rightarrow> (1, s(key \<mapsto> (1, None)))
      | Some (v, until) \<Rightarrow> (v + 1, s(key \<mapsto> (v + 1, until))))"

definition redis_Set :: "time \<Rightarrow> string \<Rightarrow> int \<Rightarrow> time \<Rightarrow> redis_keys \<Rightarrow> redis_keys" where
  "redis_Set now key v ttl s = s(key \<mapsto> (v, if ttl > 0 then Some (now + ttl) else None))"

text \<open>
  The functions of the controller at a time \<open>now\<close>; \<open>fault\<close> is the error of the command, or of each of
  the two of a registration. An \<open>INCR\<close> that went through is not taken back.
\<close>

definition registerConnectionEpoch_keys ::
    "bool \<Rightarrow> error option \<times> error option \<Rightarrow> time \<Rightarrow> time \<Rightarrow> string \<Rightarrow> string \<Rightarrow> redis_keys \<Rightarrow>
       (error + int) \<times> redis_keys" where
  "registerConnectionEpoch_keys on fault ttl now roomID userID s =
     (if \<not> on then (Inr 0, s)
      else case fst fault of
        Some err \<Rightarrow> (Inl err, s)
      | None \<Rightarrow>
          (case redis_Incr now (wsEpochCounterKey roomID userID) s of
             (epoch, s) \<Rightarrow>
               (case snd fault of
                  Some err \<Rightarrow> (Inl err, s)
                | None \<Rightarrow> (Inr epoch, redis_Set now (wsEpochLatestKey roomID userID) epoch ttl s))))"

definition refreshConnectionEpoch_keys ::
    "bool \<Rightarrow> error option \<Rightarrow> time \<Rightarrow> time \<Rightarrow> string \<Rightarrow> string \<Rightarrow> int \<Rightarrow> redis_keys \<Rightarrow> error + redis_keys" where
  "refreshConnectionEpoch_keys on fault ttl now roomID userID epoch s =
     (if \<not> on \<or> epoch \<le> 0 then Inr s
      else case fault of
        Some err \<Rightarrow> Inl err
      | None \<Rightarrow> Inr (redis_Set now (wsEpochLatestKey roomID userID) epoch ttl s))"

definition isCurrentConnectionEpoch_keys ::
    "bool \<Rightarrow> error option \<Rightarrow> time \<Rightarrow> string \<Rightarrow> string \<Rightarrow> int \<Rightarrow> redis_keys \<Rightarrow> error + bool" where
  "isCurrentConnectionEpoch_keys on fault now roomID userID epoch s =
     (if \<not> on \<or> epoch \<le> 0 then Inr True
      else case fault of
        Some err \<Rightarrow> Inl err
      | None \<Rightarrow>
          (case redis_Get now (wsEpochLatestKey roomID userID) s of
             None \<Rightarrow> Inr False
           | Some current \<Rightarrow> Inr (current = epoch)))"

subsection \<open>The keys implement the epochs\<close>

definition plain :: "string \<Rightarrow> bool" where
  "plain i \<longleftrightarrow> CHR '':'' \<notin> set i"

text \<open>\<open>r\<close> is what the keys say at a time, for ids without a colon.\<close>

definition stored :: "time \<Rightarrow> redis_keys \<Rightarrow> redis \<Rightarrow> bool" where
  "stored now s r \<longleftrightarrow>
     (\<forall>roomID userID. plain roomID \<longrightarrow> plain userID \<longrightarrow>
        rd_counter r (roomID, userID) =
          (case redis_Get now (wsEpochCounterKey roomID userID) s of None \<Rightarrow> 0 | Some n \<Rightarrow> n)
        \<and> rd_latest r (roomID, userID) = redis_Get now (wsEpochLatestKey roomID userID) s)"

definition epochs_at :: "time \<Rightarrow> redis_keys \<Rightarrow> redis" where
  "epochs_at now s =
     \<lparr>rd_counter = (\<lambda>(roomID, userID).
        case redis_Get now (wsEpochCounterKey roomID userID) s of None \<Rightarrow> 0 | Some n \<Rightarrow> n),
      rd_latest = (\<lambda>(roomID, userID). redis_Get now (wsEpochLatestKey roomID userID) s)\<rparr>"

lemma stored_epochs_at: "stored now s (epochs_at now s)"
  by (simp add: stored_def epochs_at_def)

lemma redis_Get_updates:
  "redis_Get now k (s(k' \<mapsto> (v, until))) =
     (if k = k' then if (case until of None \<Rightarrow> True | Some u \<Rightarrow> now < u) then Some v else None
      else redis_Get now k s)"
  by (simp add: redis_Get_def key_entry_def)

lemma redis_Get_Set [simp]:
  "0 < ttl \<Longrightarrow> redis_Get t k (redis_Set now k' v ttl s) =
     (if k = k' then if t < now + ttl then Some v else None else redis_Get t k s)"
  by (simp add: redis_Set_def redis_Get_updates)

lemma redis_Incr_Get:
  assumes "redis_Incr now key s = (n, s')"
  shows "n = (case redis_Get now key s of None \<Rightarrow> 0 | Some v \<Rightarrow> v) + 1"
    and "redis_Get now k s' = (if k = key then Some n else redis_Get now k s)"
  using assms
  by (auto simp: redis_Incr_def redis_Get_updates split: option.splits if_splits prod.splits)
    (auto simp: redis_Get_def key_entry_def split: option.splits if_splits)

lemmas key_facts = epoch_keys_inj [unfolded plain_def [symmetric]]

lemma stored_Set:
  assumes "stored now s r" "plain roomID" "plain userID" "0 < ttl"
  shows "stored now (redis_Set now (wsEpochLatestKey roomID userID) n ttl s)
    (r\<lparr>rd_latest := (rd_latest r)((roomID, userID) \<mapsto> n)\<rparr>)"
  unfolding stored_def
proof (intro allI impI)
  fix room user
  assume "plain room" "plain user"
  with assms key_facts [of room roomID user userID] key_facts(3) [of roomID room userID user]
  show "rd_counter (r\<lparr>rd_latest := (rd_latest r)((roomID, userID) \<mapsto> n)\<rparr>) (room, user) =
      (case redis_Get now (wsEpochCounterKey room user)
        (redis_Set now (wsEpochLatestKey roomID userID) n ttl s) of None \<Rightarrow> 0 | Some n \<Rightarrow> n)
    \<and> rd_latest (r\<lparr>rd_latest := (rd_latest r)((roomID, userID) \<mapsto> n)\<rparr>) (room, user) =
      redis_Get now (wsEpochLatestKey room user) (redis_Set now (wsEpochLatestKey roomID userID) n ttl s)"
    by (auto simp: stored_def)
qed

lemma stored_Incr:
  assumes "stored now s r" "plain roomID" "plain userID"
    and "redis_Incr now (wsEpochCounterKey roomID userID) s = (n, s')"
  shows "n = rd_counter r (roomID, userID) + 1" "stored now s' (r\<lparr>rd_counter := (rd_counter r)((roomID, userID) := n)\<rparr>)"
proof -
  note inc = redis_Incr_Get [OF assms(4)]
  show "n = rd_counter r (roomID, userID) + 1" using inc(1) assms(1-3) by (simp add: stored_def)
  show "stored now s' (r\<lparr>rd_counter := (rd_counter r)((roomID, userID) := n)\<rparr>)"
    unfolding stored_def
  proof (intro allI impI)
    fix room user
    assume "plain room" "plain user"
    with assms(1-3) key_facts [of room roomID user userID]
    show "rd_counter (r\<lparr>rd_counter := (rd_counter r)((roomID, userID) := n)\<rparr>) (room, user) =
        (case redis_Get now (wsEpochCounterKey room user) s' of None \<Rightarrow> 0 | Some n \<Rightarrow> n)
      \<and> rd_latest (r\<lparr>rd_counter := (rd_counter r)((roomID, userID) := n)\<rparr>) (room, user) =
        redis_Get now (wsEpochLatestKey room user) s'"
      by (auto simp: inc(2) stored_def)
  qed
qed

text \<open>
  C23. For ids without a colon, the epochs kept under string keys in Redis with INCR, SET with
  an expiry and GET implement the epochs by room and user: registering, refreshing and asking
  give the same results and related states, also when either command of a registration fails
  (a SET that fails leaves the counter advanced).
\<close>

theorem epoch_store_refines:
  assumes "stored now s r" "plain roomID" "plain userID" "0 < ttl"
  shows "(case (registerConnectionEpoch_keys on faults ttl now roomID userID s,
          registerConnectionEpoch on faults roomID userID r) of
        ((res, s'), (res', r')) \<Rightarrow> res = res' \<and> stored now s' r')
    \<and> (case (refreshConnectionEpoch_keys on fault ttl now roomID userID epoch s,
          refreshConnectionEpoch on fault roomID userID epoch r) of
        (Inr s', Inr r') \<Rightarrow> stored now s' r'
      | (Inl err, Inl err') \<Rightarrow> err = err'
      | _ \<Rightarrow> False)
    \<and> isCurrentConnectionEpoch_keys on fault now roomID userID epoch s =
        isCurrentConnectionEpoch on fault roomID userID epoch r"
proof (intro conjI)
  obtain n s1 where i: "redis_Incr now (wsEpochCounterKey roomID userID) s = (n, s1)" by fastforce
  note inc = stored_Incr [OF assms(1-3) i]
  note both = stored_Set [OF inc(2) assms(2-4), of n]
  show "case (registerConnectionEpoch_keys on faults ttl now roomID userID s,
          registerConnectionEpoch on faults roomID userID r) of
        ((res, s'), (res', r')) \<Rightarrow> res = res' \<and> stored now s' r'"
    using i inc both assms(1)
    by (cases on; cases "fst faults"; cases "snd faults")
      (simp_all add: registerConnectionEpoch_keys_def registerConnectionEpoch_def Let_def)
  from stored_Set [OF assms, of epoch] assms(1)
  show "case (refreshConnectionEpoch_keys on fault ttl now roomID userID epoch s,
          refreshConnectionEpoch on fault roomID userID epoch r) of
        (Inr s', Inr r') \<Rightarrow> stored now s' r'
      | (Inl err, Inl err') \<Rightarrow> err = err'
      | _ \<Rightarrow> False"
    by (cases fault) (auto simp: refreshConnectionEpoch_def refreshConnectionEpoch_keys_def)
  show "isCurrentConnectionEpoch_keys on fault now roomID userID epoch s =
      isCurrentConnectionEpoch on fault roomID userID epoch r"
    using assms(1-3)
    by (simp add: isCurrentConnectionEpoch_def isCurrentConnectionEpoch_keys_def stored_def split: option.split)
qed

text \<open>A registration whose second command fails has used up an epoch, and the latest one stays.\<close>

theorem epoch_store_refines_witness:
  "\<exists>s'. registerConnectionEpoch_keys True (None, Some ErrNotFound) (120 * Second) 0 ''room'' ''ann'' Map.empty
       = (Inl ErrNotFound, s')
     \<and> rd_counter (epochs_at 0 s') (''room'', ''ann'') = 1 \<and> rd_latest (epochs_at 0 s') (''room'', ''ann'') = None"
proof -
  have p: "plain ''room''" "plain ''ann''" "0 < 120 * Second" by (simp_all add: plain_def Second_def)
  let ?r = "epochs_at 0 Map.empty"
  have zero: "rd_counter ?r (''room'', ''ann'') = 0" "rd_latest ?r (''room'', ''ann'') = None"
    by (simp_all add: epochs_at_def redis_Get_def key_entry_def)
  obtain res s' where r: "registerConnectionEpoch_keys True (None, Some ErrNotFound) (120 * Second) 0 ''room'' ''ann''
      Map.empty = (res, s')" by fastforce
  from epoch_store_refines [OF stored_epochs_at p, where on = True and faults = "(None, Some ErrNotFound)"
      and now = 0 and s = Map.empty] r zero
  have res: "res = Inl ErrNotFound" and st: "stored 0 s' (?r\<lparr>rd_counter := (rd_counter ?r)((''room'', ''ann'') := 1)\<rparr>)"
    by (auto simp: registerConnectionEpoch_def Let_def)
  from st [unfolded stored_def, rule_format, OF p(1,2)] zero r res show ?thesis by (auto simp: epochs_at_def)
qed

subsection \<open>Time\<close>

text \<open>As time passes, epochs are forgotten and nothing else happens.\<close>

lemma epochs_forgotten:
  assumes "now \<le> later"
  shows "rd_latest (epochs_at later s) \<subseteq>\<^sub>m rd_latest (epochs_at now s)"
  using assms by (auto simp: map_le_def epochs_at_def redis_Get_def key_entry_def split: option.splits if_splits)

text \<open>
  A connection that refreshed its epoch at \<open>t0\<close>, and whose key nobody has written since, is the current
  one until \<open>t0 + ttl\<close>.
\<close>

lemma current_until:
  assumes "refreshConnectionEpoch_keys True None ttl t0 roomID userID epoch s = Inr s'" "0 < epoch" "0 < ttl"
    and "plain roomID" "plain userID" "stored t1 s' r"
  shows "isCurrentConnectionEpoch True None roomID userID epoch r = Inr (t1 < t0 + ttl)"
proof -
  from assms(1,2) have "s' = redis_Set t0 (wsEpochLatestKey roomID userID) epoch ttl s"
    by (simp add: refreshConnectionEpoch_keys_def)
  with assms(2-6) show ?thesis by (simp add: isCurrentConnectionEpoch_def stored_def)
qed

text \<open>Marking a member who has not left fails only when the database does.\<close>

lemma GetRoomPlayer_row:
  assumes "GetRoomPlayer i user d = Inr m"
  obtains row where "row \<in> set (d_room_players d)" "rpr_key row = (i, user)"
    "rp_RoomID m = i" "rp_UserID m = user" "rp_SeatNo m = rpr_SeatNo row"
  using assms
  by (auto simp: GetRoomPlayer_def gorm_First_Inr roomPlayerRecordToDomain_def rpr_key_def Let_def
      split: sum.splits if_splits dest!: tbl_first_Some)

lemma UpdateRoomPlayer_total:
  assumes "db_ok d" "GetRoomPlayer i user d = Inr m"
  shows "\<exists>d'. UpdateRoomPlayer (m\<lparr>rp_Status := st\<rparr>) d = Inr d'"
proof -
  from assms(2) obtain row where row: "row \<in> set (d_room_players d)" "rpr_key row = (i, user)"
    and m: "rp_RoomID m = i" "rp_UserID m = user" "rp_SeatNo m = rpr_SeatNo row" by (rule GetRoomPlayer_row)
  let ?r = "roomPlayerRecordFromDomain (m\<lparr>rp_Status := st\<rparr>)"
  have r: "rpr_key ?r = (i, user)" "rpr_RoomID ?r = i" "rpr_SeatNo ?r = rpr_SeatNo row"
    using m by (simp_all add: roomPlayerRecordFromDomain_def rpr_key_def)
  have seat: "unique_by (\<lambda>p. (rpr_RoomID p, rpr_SeatNo p)) (d_room_players d)"
    and fk: "room_exists d (rpr_RoomID row)" using assms(1) row(1) by (auto simp: db_ok_def keys_ok_def refs_ok_def)
  have "\<not> list_ex (\<lambda>x. rpr_key x \<noteq> rpr_key ?r \<and> room_player_clash ?r x) (d_room_players d)"
  proof
    assume "list_ex (\<lambda>x. rpr_key x \<noteq> rpr_key ?r \<and> room_player_clash ?r x) (d_room_players d)"
    then obtain x where x: "x \<in> set (d_room_players d)" "rpr_key x \<noteq> (i, user)" "rpr_RoomID x = i"
      "rpr_SeatNo x = rpr_SeatNo row" using r by (auto simp: list_ex_iff room_player_clash_def)
    with row have "x = row" using seat
      by (auto simp: unique_by_def distinct_map rpr_key_def dest!: inj_onD)
    with x(2) row(2) show False by simp
  qed
  moreover have "room_exists d (rpr_RoomID ?r)" using fk r(2) row(2) by (simp add: rpr_key_def)
  ultimately show ?thesis by (simp add: UpdateRoomPlayer_def save_row_def)
qed

lemma MarkDisconnected_marks:
  assumes "db_ok (w_db w)" "GetRoomPlayer i user (w_db w) = Inr m" "rp_Status m \<noteq> RoomPlayerLeft" "i \<noteq> []" "user \<noteq> []"
    and run: "MarkDisconnected i user e w = (r, w')"
  shows "GetRoomPlayer i user (w_db w') = Inr (m\<lparr>rp_Status := RoomPlayerDisconnected\<rparr>)
    \<or> w_db w' = w_db w \<and> (\<exists>k. env_fault e k \<noteq> None)"
proof -
  obtain d' where d': "UpdateRoomPlayer (m\<lparr>rp_Status := RoomPlayerDisconnected\<rparr>) (w_db w) = Inr d'"
    using UpdateRoomPlayer_total [OF assms(1,2)] by blast
  have key: "rp_RoomID m = i" "rp_UserID m = user" using assms(2) by (metis GetRoomPlayer_row)+
  with room_players.read_write [OF _ d', of "(i, user)"]
  have marked: "GetRoomPlayer i user d' = Inr (m\<lparr>rp_Status := RoomPlayerDisconnected\<rparr>)"
    by (simp)
  show ?thesis
  proof (cases "env_fault e (w_calls w) = None \<and> env_fault e (Suc (w_calls w)) = None")
    case True
    with run assms(2-5) d' marked show ?thesis
      by (cases "rp_Status m = RoomPlayerDisconnected")
        (auto simp: MarkDisconnected_def bind_def attempt_def store_read_def store_write_def store_op_def ret_def
          lift_def RoomPlayer_SetStatus_def)
  next
    case False
    with run assms(2-5) show ?thesis
      by (cases "rp_Status m = RoomPlayerDisconnected")
        (auto simp: MarkDisconnected_def bind_def attempt_def store_read_def store_write_def store_op_def ret_def throw_def
          lift_def RoomPlayer_SetStatus_def split: option.splits sum.splits)
  qed
qed

text \<open>
  A connection that closes later than that does not mark its member: it takes itself for an old one.
\<close>

lemma ws_close_epoch:
  assumes "refreshConnectionEpoch_keys True None ttl t0 roomID (meta_userID meta) (meta_epoch meta) s = Inr s'"
    and "0 < meta_epoch meta" "0 < ttl" "plain roomID" "plain (meta_userID meta)" "stored t1 s' (wss_redis st)"
    and "hub_isLatest roomID (meta_userID meta) c (wss_hub st)"
    and "wsShouldMarkDisconnected (env_getenv e ''BLACKJACK_WS_MARK_DISCONNECTED'')"
  shows "ws_close True None roomID c meta st e w =
    (Inr (st\<lparr>wss_hub := hub_remove roomID c (wss_hub st)\<rparr>),
     if t1 < t0 + ttl then snd (MarkDisconnected roomID (meta_userID meta) e w) else w)"
  using current_until [OF assms(1-6)] assms(7,8)
  by (simp add: ws_close_def Let_def bind_def io_getenv_def attempt_def ret_def split: prod.split)

lemma sample_closing:
  "hub_isLatest ''room'' (meta_userID sample_meta) 7 (wss_hub (sample_ws\<lparr>wss_redis := rd\<rparr>))"
  "wsShouldMarkDisconnected (env_getenv sample_env ''BLACKJACK_WS_MARK_DISCONNECTED'')"
  by (simp_all add: sample_ws_def sample_meta_def hub_isLatest_def hub_add_def Let_def sample_env_def
      wsShouldMarkDisconnected_def TrimSpace_def)

text \<open>A client that vanishes and is noticed two minutes later is not marked.\<close>

lemma late_close_never_marks:
  "\<exists>s' st. refreshConnectionEpoch_keys True None (120 * Second) 0 ''room'' ''ann'' 1 Map.empty = Inr s'
     \<and> stored (120 * Second) s' (wss_redis st)
     \<and> ws_close True None ''room'' 7 sample_meta st sample_env sample_round =
       (Inr (st\<lparr>wss_hub := hub_remove ''room'' 7 (wss_hub st)\<rparr>), sample_round)"
proof -
  obtain s' where r: "refreshConnectionEpoch_keys True None (120 * Second) 0 ''room'' ''ann'' 1 Map.empty = Inr s'"
    by (simp add: refreshConnectionEpoch_keys_def)
  let ?st = "sample_ws\<lparr>wss_redis := epochs_at (120 * Second) s'\<rparr>"
  have "stored (120 * Second) s' (wss_redis ?st)" by (simp add: stored_epochs_at)
  moreover note sample_closing
  ultimately have "ws_close True None ''room'' 7 sample_meta ?st sample_env sample_round =
      (Inr (?st\<lparr>wss_hub := hub_remove ''room'' 7 (wss_hub ?st)\<rparr>),
       if 120 * Second < 0 + 120 * Second then snd (MarkDisconnected ''room'' (meta_userID sample_meta) sample_env sample_round)
       else sample_round)"
    using ws_close_epoch [where meta = sample_meta and ttl = "120 * Second" and ?t0.0 = 0 and roomID = "''room''"
        and s = Map.empty and s' = s' and ?t1.0 = "120 * Second" and st = ?st and c = 7 and e = sample_env
        and w = sample_round] r
    by (simp add: sample_meta_def plain_def Second_def)
  with r show ?thesis by (intro exI [of _ s'] exI [of _ ?st]) (simp add: stored_epochs_at)
qed

text \<open>
  C22. With BLACKJACK_WS_MARK_DISCONNECTED on, in a reachable store: a connection that is the
  latest of a member who has not left, that refreshed its epoch at t0 with nobody writing the
  key since, and that closes before t0 plus the life time of an epoch, leaves the member
  DISCONNECTED, unless the database fails, and then the store stays as it is.
\<close>

theorem disconnect_window:
  assumes "reachable u (w_db w)" "GetRoomPlayer roomID (meta_userID meta) (w_db w) = Inr m"
    and "rp_Status m \<noteq> RoomPlayerLeft" "roomID \<noteq> []" "meta_userID meta \<noteq> []"
    and "refreshConnectionEpoch_keys True None ttl t0 roomID (meta_userID meta) (meta_epoch meta) s = Inr s'"
    and "0 < meta_epoch meta" "0 < ttl" "plain roomID" "plain (meta_userID meta)" "stored t1 s' (wss_redis st)"
    and "hub_isLatest roomID (meta_userID meta) c (wss_hub st)"
    and "wsShouldMarkDisconnected (env_getenv e ''BLACKJACK_WS_MARK_DISCONNECTED'')"
    and "t1 < t0 + ttl"
  shows "\<exists>w'. ws_close True None roomID c meta st e w = (Inr (st\<lparr>wss_hub := hub_remove roomID c (wss_hub st)\<rparr>), w')
    \<and> (GetRoomPlayer roomID (meta_userID meta) (w_db w') = Inr (m\<lparr>rp_Status := RoomPlayerDisconnected\<rparr>)
      \<or> w_db w' = w_db w \<and> (\<exists>k. env_fault e k \<noteq> None))"
proof -
  obtain r v where run: "MarkDisconnected roomID (meta_userID meta) e w = (r, v)" by fastforce
  from ws_close_epoch [OF assms(6-13), of w] assms(14) run
  have "ws_close True None roomID c meta st e w = (Inr (st\<lparr>wss_hub := hub_remove roomID c (wss_hub st)\<rparr>), v)"
    by simp
  with MarkDisconnected_marks [OF reachable_db_ok [OF assms(1)] assms(2-5) run] show ?thesis by blast
qed

theorem disconnect_window_witness:
  "let st = sample_ws\<lparr>wss_redis := epochs_at (60 * Second)
         (redis_Set 0 (wsEpochLatestKey ''room'' ''ann'') 1 (120 * Second) Map.empty)\<rparr>;
       w' = snd (ws_close True None ''room'' 7 sample_meta st sample_env sample_round)
   in GetRoomPlayer ''room'' ''ann'' (w_db w') = Inr (sample_member\<lparr>rp_Status := RoomPlayerDisconnected\<rparr>)"
proof -
  let ?s = "redis_Set 0 (wsEpochLatestKey ''room'' ''ann'') 1 (120 * Second) Map.empty"
  let ?st = "sample_ws\<lparr>wss_redis := epochs_at (60 * Second) ?s\<rparr>"
  have m: "GetRoomPlayer ''room'' ''ann'' (w_db sample_round) = Inr sample_member"
    "rp_Status sample_member \<noteq> RoomPlayerLeft" by code_simp+
  have f: "env_fault sample_env k = None" for k by (simp add: sample_env_def)
  have u: "meta_userID sample_meta = ''ann''" "meta_epoch sample_meta = 1" by (simp_all add: sample_meta_def)
  have r: "refreshConnectionEpoch_keys True None (120 * Second) 0 ''room'' ''ann'' 1 Map.empty = Inr ?s"
    by (simp add: refreshConnectionEpoch_keys_def)
  have st: "stored (60 * Second) ?s (wss_redis ?st)" by (simp add: stored_epochs_at)
  have "0 < meta_epoch sample_meta" "plain ''room''" "plain (meta_userID sample_meta)" "0 < 120 * Second"
    "60 * Second < 0 + 120 * Second" "''room'' \<noteq> []" "meta_userID sample_meta \<noteq> []"
    by (simp_all add: u plain_def Second_def)
  from disconnect_window [where meta = sample_meta and roomID = "''room''" and w = sample_round and e = sample_env
      and st = ?st and s = Map.empty and ?t0.0 = 0 and ?t1.0 = "60 * Second" and c = 7,
      OF reachable_sample(4) _ m(2) this(6,7) _ this(1,4,2,3) st sample_closing this(5), unfolded u, OF m(1) r] f
  show ?thesis by auto
qed

end
