(* ===== verification/Start_Up.thy ===== *)
theory Start_Up
  imports Server_Config Go_Duration Migrations Audit_Properties Epoch_Store
begin

text \<open>
  The start of the server and its end: the settings that are durations, the routes
  (\<open>backend/router/game_router.go\<close> and the controllers' \<open>Register\<close>), \<open>runApp\<close> of \<open>backend/run.go\<close> with
  its shutdown, and the loops of the workers (\<open>backend/main.go\<close>). GORM, the Redis clients and echo are
  outside: what they answer are parameters, and what the program asks of them is a list of events in
  the order of the code.
\<close>

subsection \<open>Settings\<close>

text \<open>A setting that is a duration: its default unless it is a positive duration.\<close>

definition positive_duration :: "time \<Rightarrow> string \<Rightarrow> time" where
  "positive_duration dflt v =
     (let raw = TrimSpace v in
      if raw = [] then dflt
      else
        case ParseDuration raw of
          None \<Rightarrow> dflt
        | Some d \<Rightarrow> if d \<le> 0 then dflt else d)"

definition parseWSConnectionEpochTTL :: "(string \<Rightarrow> string) \<Rightarrow> time" where
  "parseWSConnectionEpochTTL environ = positive_duration (120 * Second) (environ ''WS_CONNECTION_EPOCH_TTL'')"

definition wsAuthReadDeadline :: "(string \<Rightarrow> string) \<Rightarrow> time" where
  "wsAuthReadDeadline environ = positive_duration (15 * Second) (environ ''WS_AUTH_DEADLINE'')"

text \<open>\<open>parseRedisAddr\<close> of \<open>Server_Config\<close> as a function of the environment.\<close>

definition redis_addr :: "(string \<Rightarrow> string) \<Rightarrow> string \<Rightarrow> string" where
  "redis_addr environ targetEnv =
     (if TrimSpace (environ targetEnv) \<noteq> [] then TrimSpace (environ targetEnv)
      else if TrimSpace (environ ''REDIS_ADDR'') \<noteq> [] then TrimSpace (environ ''REDIS_ADDR'')
      else ''localhost:6379'')"

lemma parseRedisAddr_eq: "parseRedisAddr targetEnv e w = (Inr (redis_addr (env_getenv e) targetEnv), w)"
  by (simp add: parseRedisAddr_def redis_addr_def bind_def io_getenv_def ret_def)

lemma positive_duration_pos: "0 < dflt \<Longrightarrow> 0 < positive_duration dflt v"
  by (simp add: positive_duration_def Let_def split: option.split)

lemma Second_pos: "0 < Second"
  by (simp add: Second_def)

text \<open>A whole number of a unit, as \<open>120s\<close>, is the setting it says.\<close>

lemma digits_no_space: "list_all (\<lambda>c. \<not> is_space c) (digits_of n)"
proof (induction n rule: digits_of.induct)
  case (1 n)
  have "is_digit c \<Longrightarrow> \<not> is_space c" for c by (auto simp: is_digit_def is_space_def)
  with digit_char(1) [of "n mod 10"] have "\<not> is_space (char_of (48 + n mod 10))" by simp
  with "1.IH" show ?case by (cases "n < 10"; subst digits_of.simps) simp_all
qed

lemma setting_read:
  assumes "unitMap u = Some unit" "0 < n" "n * unit < 2 ^ 63" "environ name = FormatInt n @ u"
  shows "positive_duration dflt (environ name) = n * unit"
proof -
  have u: "list_all (\<lambda>c. \<not> is_space c) u" "0 < unit"
    using assms(1) by (auto simp: unitMap_def is_space_def split: if_splits)
  then have "TrimSpace (FormatInt n @ u) = FormatInt n @ u"
    using assms(2) by (intro TrimSpace_id) (simp add: FormatInt_def digits_no_space)
  moreover have "FormatInt n \<noteq> []" using assms(2) digits_of_first(2) by (simp add: FormatInt_def)
  moreover have "\<not> n * unit \<le> 0" using mult_pos_pos [OF assms(2) u(2)] by linarith
  ultimately show ?thesis
    using duration_roundtrip [OF assms(1) _ assms(3)] assms(2,4)
    by (simp add: positive_duration_def Let_def del: mult_le_0_iff)
qed

subsection \<open>Routes\<close>

datatype endpoint =
    EP_Signup | EP_Login | EP_Logout | EP_Me
  | EP_CreateRoom | EP_ListRooms | EP_JoinRoom | EP_LeaveRoom | EP_GetRoom | EP_GetRoomHistory
  | EP_GetPlayHint | EP_StartRoom | EP_Hit | EP_Stand | EP_ResetRoomDebug
  | EP_RoomWS | EP_health | EP_metrics

definition auth_routes :: "(string \<times> string \<times> endpoint) list" where
  "auth_routes =
     [(''POST'', ''/auth/signup'', EP_Signup), (''POST'', ''/auth/login'', EP_Login),
      (''POST'', ''/auth/logout'', EP_Logout), (''GET'', ''/me'', EP_Me)]"

definition room_routes :: "(string \<times> string \<times> endpoint) list" where
  "room_routes =
     [(''POST'', ''/rooms'', EP_CreateRoom), (''GET'', ''/rooms'', EP_ListRooms),
      (''POST'', ''/rooms/:id/join'', EP_JoinRoom), (''POST'', ''/rooms/:id/leave'', EP_LeaveRoom),
      (''GET'', ''/rooms/:id'', EP_GetRoom), (''GET'', ''/rooms/:id/history'', EP_GetRoomHistory),
      (''GET'', ''/rooms/:id/play_hint'', EP_GetPlayHint), (''POST'', ''/rooms/:id/start'', EP_StartRoom),
      (''POST'', ''/rooms/:id/hit'', EP_Hit), (''POST'', ''/rooms/:id/stand'', EP_Stand),
      (''POST'', ''/rooms/:id/reset'', EP_ResetRoomDebug)]"

definition in_group :: "string \<Rightarrow> (string \<times> string \<times> endpoint) list \<Rightarrow> (string \<times> string \<times> endpoint) list" where
  "in_group prefix routes = map (\<lambda>(meth, path, ep). (meth, prefix @ path, ep)) routes"

definition registered_routes :: "(string \<times> string \<times> endpoint) list" where
  "registered_routes =
     in_group ''/api'' (auth_routes @ room_routes) @ in_group ''/ws'' [(''GET'', ''/rooms/:id'', EP_RoomWS)]"

text \<open>Only signing up, logging in and the WebSocket, which asks for its token itself, need no token.\<close>

lemma routes_checked:
  "(meth, path, ep) \<in> set registered_routes \<Longrightarrow> skipJWTAuth path \<longleftrightarrow> ep \<in> {EP_Signup, EP_Login, EP_RoomWS}"
  by (auto simp: registered_routes_def in_group_def auth_routes_def room_routes_def skipJWTAuth_def)

subsection \<open>The run of the server\<close>

datatype redis_client = RoomRedis | RateLimitRedis

datatype task = RoomSyncSubscriber | AutoStandWorker | SnapshotMetricsWorker | HttpServer string

text \<open>
  The two contexts of \<open>runApp\<close> that can be cancelled. A task gets one of them, or none. Cancelling tells
  its tasks to stop; nothing waits until they have.
\<close>

datatype cancel_ctx = RoomSyncCtx | WorkerCtx

datatype app_event =
    SqlConfigured sql_call
  | RedisOpened redis_client string
  | OriginsConfigured "string list"
  | EpochStoreConfigured redis_client time
  | Registered "(string \<times> string \<times> endpoint) list" string RoomSyncBroker
  | Routed string string endpoint
  | Spawned task "cancel_ctx option"
  | ContextDone
  | Cancelled cancel_ctx
  | ServerShutDown time
  | RedisClosed redis_client
  | DatabaseClosed
  | Logged string
  | Fatal string
  | SignalsReleased

text \<open>\<open>Waiting\<close>: the run waits for its context to be done.\<close>

datatype app_end = Waiting | Returned "string option" | Panicked

record 'g platform =
  pf_gorm :: "'g gorm"
  pf_uuid :: string
  pf_shutdown :: "string option"
  pf_redisClose :: "redis_client \<Rightarrow> string option"
  pf_sqlDB :: "'g \<Rightarrow> (string + unit) option"
  pf_dbClose :: "string option"

definition log_failure :: "string \<Rightarrow> string option \<Rightarrow> app_event list" where
  "log_failure what err = (case err of None \<Rightarrow> [] | Some e \<Rightarrow> [Logged (what @ '': '' @ e)])"

text \<open>From the end of the context to the return.\<close>

definition close_database :: "'g platform \<Rightarrow> 'g \<Rightarrow> app_event list \<times> app_end" where
  "close_database p gdb =
     (case pf_sqlDB p gdb of
        None \<Rightarrow> ([], Panicked)
      | Some (Inl err) \<Rightarrow> ([Logged (''database sql handle: '' @ err)], Returned None)
      | Some (Inr _) \<Rightarrow> (DatabaseClosed # log_failure ''database close'' (pf_dbClose p), Returned None))"

definition shutdown :: "'g platform \<Rightarrow> 'g \<Rightarrow> app_event list \<times> app_end" where
  "shutdown p gdb =
     (case close_database p gdb of
        (evs, r) \<Rightarrow>
          ([Cancelled RoomSyncCtx, Cancelled WorkerCtx, ServerShutDown (30 * Second)] @ log_failure ''server shutdown'' (pf_shutdown p)
           @ [RedisClosed RoomRedis] @ log_failure ''room redis close'' (pf_redisClose p RoomRedis)
           @ [RedisClosed RateLimitRedis] @ log_failure ''rate-limit redis close'' (pf_redisClose p RateLimitRedis)
           @ evs, r))"

definition serving ::
    "'g platform \<Rightarrow> (string \<Rightarrow> string) \<Rightarrow> (string \<Rightarrow> string) \<Rightarrow> string \<Rightarrow> app_event list" where
  "serving p environ getenv jwtSecret =
     (let serverID = TrimSpace (getenv ''SERVER_ID'');
          serverID = (if serverID = [] then pf_uuid p else serverID);
          broker = NewRoomSyncBroker True serverID;
          port = getenv ''PORT'';
          port = (if port = [] then ''8080'' else port)
      in [OriginsConfigured (parseWSAllowedOrigins (environ ''WS_ALLOWED_ORIGINS'')),
          EpochStoreConfigured RoomRedis (parseWSConnectionEpochTTL environ),
          Registered registered_routes jwtSecret broker,
          Spawned RoomSyncSubscriber (Some RoomSyncCtx), Spawned AutoStandWorker (Some WorkerCtx),
          Spawned SnapshotMetricsWorker (Some WorkerCtx),
          Routed ''GET'' ''/health'' EP_health, Routed ''GET'' ''/metrics'' EP_metrics,
          Spawned (HttpServer ('':'' @ port)) None])"

text \<open>\<open>stopped\<close>: the context is done at some time. \<open>environ\<close> is \<open>os.Getenv\<close>.\<close>

definition runApp ::
    "'g platform \<Rightarrow> (string \<Rightarrow> string) \<Rightarrow> bool \<Rightarrow> (string \<Rightarrow> string) \<Rightarrow> app_event list \<times> app_end" where
  "runApp p environ stopped getenv =
     (let dsn = getenv ''DATABASE_URL'' in
      if dsn = [] then
        ([], Returned (Some ''DATABASE_URL is required (set in .env or export in shell)''))
      else
        case db_Open (pf_gorm p) dsn of
          (Inl err, calls) \<Rightarrow> (map SqlConfigured calls, Returned (Some (''database: '' @ err)))
        | (Inr gdb, calls) \<Rightarrow>
            let opened = map SqlConfigured calls
                  @ [RedisOpened RoomRedis (redis_addr environ ''REDIS_ROOM_ADDR''),
                     RedisOpened RateLimitRedis (redis_addr environ ''REDIS_RATE_LIMIT_ADDR'')];
                jwtSecret = TrimSpace (getenv ''JWT_SECRET'')
            in
            if length jwtSecret < 16 then
              (opened, Returned (Some ''JWT_SECRET is required and must be at least 16 bytes''))
            else
              let opened = opened @ serving p environ getenv jwtSecret in
              if \<not> stopped then (opened, Waiting)
              else case shutdown p gdb of (evs, r) \<Rightarrow> (opened @ [ContextDone] @ evs, r))"

text \<open>
  The task of the server: it ends when the server is closed, and takes the process down on every
  other error. \<open>None\<close> is the end without an error.
\<close>

datatype serve_error = ErrServerClosed | ServeError string

definition http_server_task :: "serve_error option \<Rightarrow> string option" where
  "http_server_task err =
     (case err of
        None \<Rightarrow> None
      | Some ErrServerClosed \<Rightarrow> None
      | Some (ServeError e) \<Rightarrow> Some e)"

definition defaultMainEntry :: "'g platform \<Rightarrow> (string \<Rightarrow> string) \<Rightarrow> bool \<Rightarrow> app_event list" where
  "defaultMainEntry p environ stopped =
     (case runApp p environ stopped environ of
        (evs, Returned (Some err)) \<Rightarrow> evs @ [Fatal err]
      | (evs, Returned None) \<Rightarrow> evs @ [SignalsReleased]
      | (evs, Waiting) \<Rightarrow> evs
      | (evs, Panicked) \<Rightarrow> evs @ [SignalsReleased])"

subsection \<open>The loops of the workers\<close>

text \<open>
  What a worker sees: the end of its context, or a tick with the outcome of its call; what it does
  is the rooms it broadcasts and what it logs. \<open>canceled\<close> is \<open>errors.Is\<close> for \<open>context.Canceled\<close>.
\<close>

datatype 'r worker_event = WorkerDone | Ticked "error + 'r"

datatype worker_act = BroadcastsRoom string | LogsError string error | SetsGauges int int

fun runAutoStandWorker ::
    "(error \<Rightarrow> bool) \<Rightarrow> string list worker_event list \<Rightarrow> worker_act list" where
  "runAutoStandWorker canceled [] = []"
| "runAutoStandWorker canceled (WorkerDone # evs) = []"
| "runAutoStandWorker canceled (Ticked (Inl err) # evs) =
     (if canceled err then [] else [LogsError ''auto-stand worker error'' err]) @ runAutoStandWorker canceled evs"
| "runAutoStandWorker canceled (Ticked (Inr roomIDs) # evs) =
     map BroadcastsRoom roomIDs @ runAutoStandWorker canceled evs"

text \<open>The second call is made only when the first has gone through.\<close>

fun runSnapshotMetricsWorker ::
    "(error \<Rightarrow> bool) \<Rightarrow> (int \<times> (error + int)) worker_event list \<Rightarrow> worker_act list" where
  "runSnapshotMetricsWorker canceled [] = []"
| "runSnapshotMetricsWorker canceled (WorkerDone # evs) = []"
| "runSnapshotMetricsWorker canceled (Ticked (Inl err) # evs) =
     (if canceled err then [] else [LogsError ''metrics room count error'' err])
       @ runSnapshotMetricsWorker canceled evs"
| "runSnapshotMetricsWorker canceled (Ticked (Inr (rooms, Inl err)) # evs) =
     (if canceled err then [] else [LogsError ''metrics session count error'' err])
       @ runSnapshotMetricsWorker canceled evs"
| "runSnapshotMetricsWorker canceled (Ticked (Inr (rooms, Inr sessions)) # evs) =
     SetsGauges rooms sessions # runSnapshotMetricsWorker canceled evs"

text \<open>A worker goes on after every error, and does nothing once its context is done.\<close>

lemma worker_goes_on:
  "WorkerDone \<notin> set evs \<Longrightarrow> runAutoStandWorker canceled (evs @ evs') =
     runAutoStandWorker canceled evs @ runAutoStandWorker canceled evs'"
  by (induction canceled evs rule: runAutoStandWorker.induct) simp_all

lemma snapshot_worker_goes_on:
  "WorkerDone \<notin> set evs \<Longrightarrow> runSnapshotMetricsWorker canceled (evs @ evs') =
     runSnapshotMetricsWorker canceled evs @ runSnapshotMetricsWorker canceled evs'"
  by (induction canceled evs rule: runSnapshotMetricsWorker.induct) simp_all

subsection \<open>Properties\<close>

text \<open>The run fails on the three settings it needs, and starts nothing then.\<close>

definition can_serve :: "'g platform \<Rightarrow> (string \<Rightarrow> string) \<Rightarrow> 'g \<Rightarrow> bool" where
  "can_serve p getenv gdb \<longleftrightarrow>
     getenv ''DATABASE_URL'' \<noteq> [] \<and> fst (db_Open (pf_gorm p) (getenv ''DATABASE_URL'')) = Inr gdb
     \<and> 16 \<le> length (TrimSpace (getenv ''JWT_SECRET''))"

definition opened_resources :: "(string \<Rightarrow> string) \<Rightarrow> app_event list" where
  "opened_resources environ =
     map SqlConfigured configureSQLDB
       @ [RedisOpened RoomRedis (redis_addr environ ''REDIS_ROOM_ADDR''),
          RedisOpened RateLimitRedis (redis_addr environ ''REDIS_RATE_LIMIT_ADDR'')]"

lemma runApp_cases:
  obtains (Refused) err where "runApp p environ stopped getenv = ([], Returned (Some err))"
    "\<And>gdb. \<not> can_serve p getenv gdb"
  | (Leaked) err where "runApp p environ stopped getenv = (opened_resources environ, Returned (Some err))"
    "\<And>gdb. \<not> can_serve p getenv gdb"
  | (Served) gdb where "can_serve p getenv gdb"
    "runApp p environ stopped getenv =
       (let evs = opened_resources environ @ serving p environ getenv (TrimSpace (getenv ''JWT_SECRET'')) in
        if \<not> stopped then (evs, Waiting)
        else (evs @ ContextDone # fst (shutdown p gdb), snd (shutdown p gdb)))"
proof (cases "getenv ''DATABASE_URL'' = []")
  case True
  then show thesis by (intro Refused) (auto simp: runApp_def can_serve_def)
next
  case d: False
  show thesis
  proof (cases "fst (db_Open (pf_gorm p) (getenv ''DATABASE_URL''))")
    case (Inl err)
    then have "db_Open (pf_gorm p) (getenv ''DATABASE_URL'') = (Inl err, [])"
      by (auto simp: db_Open_def split: if_splits sum.splits)
    with d show thesis by (intro Refused) (auto simp: runApp_def can_serve_def)
  next
    case (Inr gdb)
    then have o: "db_Open (pf_gorm p) (getenv ''DATABASE_URL'') = (Inr gdb, configureSQLDB)"
      by (auto simp: db_Open_def split: if_splits sum.splits)
    show thesis
    proof (cases "length (TrimSpace (getenv ''JWT_SECRET'')) < 16")
      case True
      with d o show thesis by (intro Leaked) (auto simp: runApp_def can_serve_def opened_resources_def)
    next
      case False
      with d o show thesis
        by (intro Served [of gdb])
          (auto simp: runApp_def can_serve_def opened_resources_def Let_def split: prod.split)
    qed
  qed
qed

lemma log_failure_only:
  "x \<in> set (log_failure what err) \<Longrightarrow> \<exists>s. x = Logged s"
  by (auto simp: log_failure_def split: option.splits)

lemma shutdown_events:
  assumes "x \<in> set (fst (shutdown p gdb))"
  shows "(\<exists>c. x = Cancelled c) \<or> (\<exists>t. x = ServerShutDown t) \<or> (\<exists>s. x = Logged s)
    \<or> (\<exists>c. x = RedisClosed c) \<or> x = DatabaseClosed"
  using assms
  by (auto simp: shutdown_def close_database_def dest!: log_failure_only split: prod.splits option.splits sum.splits)

lemma registered_when_serving:
  assumes "runApp p environ stopped getenv = (evs, r)" "Registered routes secret broker \<in> set evs"
  obtains gdb where "can_serve p getenv gdb" "set (serving p environ getenv secret) \<subseteq> set evs"
    "secret = TrimSpace (getenv ''JWT_SECRET'')" "routes = registered_routes"
proof (cases rule: runApp_cases [of p environ stopped getenv])
  case (Refused err)
  with assms show ?thesis by simp
next
  case (Leaked err)
  with assms show ?thesis by (auto simp: opened_resources_def)
next
  case (Served gdb)
  let ?s = "serving p environ getenv (TrimSpace (getenv ''JWT_SECRET''))"
  from assms Served(2) have "evs = opened_resources environ @ ?s \<or>
      evs = opened_resources environ @ ?s @ ContextDone # fst (shutdown p gdb)"
    by (auto simp: Let_def split: if_splits)
  with assms(2) shutdown_events [of "Registered routes secret broker" p gdb]
  have "set ?s \<subseteq> set evs" "Registered routes secret broker \<in> set ?s"
    by (auto simp: opened_resources_def)
  with Served(1) that show ?thesis by (auto simp: serving_def Let_def)
qed

theorem server_runs_secured:
  assumes "runApp p environ stopped getenv = (evs, r)" "Registered routes secret broker \<in> set evs"
  shows "16 \<le> length secret
    \<and> (\<forall>(meth, path, ep) \<in> set routes. skipJWTAuth path \<longleftrightarrow> ep \<in> {EP_Signup, EP_Login, EP_RoomWS})
    \<and> (\<exists>ttl > 0. EpochStoreConfigured RoomRedis ttl \<in> set evs)"
proof -
  from assms obtain gdb where r: "can_serve p getenv gdb" "set (serving p environ getenv secret) \<subseteq> set evs"
    "secret = TrimSpace (getenv ''JWT_SECRET'')" "routes = registered_routes"
    by (rule registered_when_serving)
  have "EpochStoreConfigured RoomRedis (parseWSConnectionEpochTTL environ) \<in> set evs"
    using r(2) by (auto simp: serving_def Let_def)
  moreover have "0 < parseWSConnectionEpochTTL environ"
    by (simp add: parseWSConnectionEpochTTL_def positive_duration_pos Second_pos)
  ultimately show ?thesis using r routes_checked by (auto simp: can_serve_def)
qed

definition sample_platform :: "unit platform" where
  "sample_platform = \<lparr>pf_gorm = \<lparr>g_open = (\<lambda>_. Inr ()), g_DB = (\<lambda>_. Some (Inr ()))\<rparr>, pf_uuid = ''u1'',
     pf_shutdown = None, pf_redisClose = (\<lambda>_. Some ''gone''), pf_sqlDB = (\<lambda>_. Some (Inr ())), pf_dbClose = None\<rparr>"

definition sample_environ :: "string \<Rightarrow> string" where
  "sample_environ name =
     (if name = ''DATABASE_URL'' then ''postgres'' else if name = ''JWT_SECRET'' then '' 0123456789abcdef '' else [])"

lemma sample_run:
  "\<exists>evs. runApp sample_platform sample_environ True sample_environ = (evs, Returned None)
     \<and> Registered registered_routes ''0123456789abcdef'' (NewRoomSyncBroker True ''u1'') \<in> set evs"
proof -
  have s: "TrimSpace '' 0123456789abcdef '' = ''0123456789abcdef''" "TrimSpace [] = []" by code_simp+
  show ?thesis
    by (simp add: runApp_def sample_environ_def sample_platform_def db_Open_def sqlDBFromGorm_def s serving_def
        shutdown_def close_database_def Let_def)
qed

theorem server_runs_secured_witness:
  "\<exists>evs ttl. runApp sample_platform sample_environ True sample_environ = (evs, Returned None)
     \<and> 0 < ttl \<and> EpochStoreConfigured RoomRedis ttl \<in> set evs"
proof -
  from sample_run obtain evs where r: "runApp sample_platform sample_environ True sample_environ = (evs, Returned None)"
    and g: "Registered registered_routes ''0123456789abcdef'' (NewRoomSyncBroker True ''u1'') \<in> set evs" by blast
  from server_runs_secured [OF r g] r show ?thesis by blast
qed

definition stops :: "app_event \<Rightarrow> bool" where
  "stops ev = (case ev of Cancelled _ \<Rightarrow> True | ServerShutDown _ \<Rightarrow> True | _ \<Rightarrow> False)"

definition closes :: "app_event \<Rightarrow> bool" where
  "closes ev = (case ev of RedisClosed _ \<Rightarrow> True | DatabaseClosed \<Rightarrow> True | _ \<Rightarrow> False)"

lemma flags [simp]:
  "stops (Cancelled c)" "stops (ServerShutDown d)" "\<not> stops (Logged s)" "\<not> stops (RedisClosed rc)"
  "\<not> stops DatabaseClosed" "\<not> closes (Cancelled c)" "\<not> closes (ServerShutDown d)" "\<not> closes (Logged s)"
  by (simp_all add: stops_def closes_def)

lemma log_failure_flags [simp]:
  "list_all (\<lambda>ev. \<not> stops ev) (log_failure what err)" "list_all (\<lambda>ev. \<not> closes ev) (log_failure what err)"
  by (simp_all add: log_failure_def split: option.split)

lemma stops_then_closes:
  assumes "list_all (\<lambda>ev. \<not> closes ev) as" "list_all (\<lambda>ev. \<not> stops ev) bs"
  shows "list_all (\<lambda>ev. \<not> stops ev) (dropWhile (\<lambda>ev. \<not> closes ev) (as @ bs))"
proof -
  have "dropWhile (\<lambda>ev. \<not> closes ev) (as @ bs) = dropWhile (\<lambda>ev. \<not> closes ev) bs"
    using assms(1) by (simp add: dropWhile_append list_all_iff)
  with assms(2) show ?thesis by (auto simp: list_all_iff dest: set_dropWhileD)
qed

lemma shutdown_order:
  "list_all (\<lambda>ev. \<not> stops ev) (dropWhile (\<lambda>ev. \<not> closes ev) (fst (shutdown p gdb)))"
proof -
  let ?as = "[Cancelled RoomSyncCtx, Cancelled WorkerCtx, ServerShutDown (30 * Second)] @ log_failure ''server shutdown'' (pf_shutdown p)"
  let ?bs = "RedisClosed RoomRedis # log_failure ''room redis close'' (pf_redisClose p RoomRedis)
    @ RedisClosed RateLimitRedis # log_failure ''rate-limit redis close'' (pf_redisClose p RateLimitRedis)
    @ fst (close_database p gdb)"
  have "list_all (\<lambda>ev. \<not> stops ev) (fst (close_database p gdb))"
    by (simp add: close_database_def split: option.split sum.split)
  then have "list_all (\<lambda>ev. \<not> stops ev) (dropWhile (\<lambda>ev. \<not> closes ev) (?as @ ?bs))"
    by (intro stops_then_closes) simp_all
  moreover have "fst (shutdown p gdb) = ?as @ ?bs" by (simp add: shutdown_def split: prod.split)
  ultimately show ?thesis by (simp only:)
qed

text \<open>
  C29. A run of the server that returns without an error was told to stop; after that it tells
  every task it began to stop (cancels the context the task was started with, or shuts the
  HTTP server down), then closes both Redis clients and the database (or logs that it has no
  handle), whatever closing answers. It tells every task before it closes anything; it does
  not wait for the workers to end.
\<close>

theorem shutdown_closes_everything:
  assumes "runApp p environ stopped getenv = (evs, Returned None)"
  shows "\<exists>starts ends. evs = starts @ ContextDone # ends
    \<and> (\<forall>t ctx. Spawned t ctx \<in> set starts \<longrightarrow>
         (case ctx of Some c \<Rightarrow> Cancelled c \<in> set ends
          | None \<Rightarrow> (\<exists>a. t = HttpServer a) \<and> ServerShutDown (30 * Second) \<in> set ends))
    \<and> (\<forall>c a. RedisOpened c a \<in> set starts \<longrightarrow> RedisClosed c \<in> set ends)
    \<and> (DatabaseClosed \<in> set ends \<or> (\<exists>err. Logged (''database sql handle: '' @ err) \<in> set ends))
    \<and> list_all (\<lambda>ev. \<not> stops ev) (dropWhile (\<lambda>ev. \<not> closes ev) ends)"
proof (cases rule: runApp_cases [of p environ stopped getenv])
  case (Served gdb)
  let ?starts = "opened_resources environ @ serving p environ getenv (TrimSpace (getenv ''JWT_SECRET''))"
  from Served(2) assms have e: "evs = ?starts @ ContextDone # fst (shutdown p gdb)" "snd (shutdown p gdb) = Returned None"
    by (auto simp: Let_def split: if_splits)
  show ?thesis
  proof (intro exI conjI)
    show "evs = ?starts @ ContextDone # fst (shutdown p gdb)" by (rule e(1))
    show "\<forall>t ctx. Spawned t ctx \<in> set ?starts \<longrightarrow>
        (case ctx of Some c \<Rightarrow> Cancelled c \<in> set (fst (shutdown p gdb))
         | None \<Rightarrow> (\<exists>a. t = HttpServer a) \<and> ServerShutDown (30 * Second) \<in> set (fst (shutdown p gdb)))"
      by (auto simp: opened_resources_def serving_def Let_def shutdown_def split: prod.split)
    show "\<forall>c a. RedisOpened c a \<in> set ?starts \<longrightarrow> RedisClosed c \<in> set (fst (shutdown p gdb))"
      by (auto simp: opened_resources_def serving_def Let_def shutdown_def split: prod.split)
    show "DatabaseClosed \<in> set (fst (shutdown p gdb)) \<or>
        (\<exists>err. Logged (''database sql handle: '' @ err) \<in> set (fst (shutdown p gdb)))"
      using e(2) by (auto simp: shutdown_def close_database_def split: prod.splits option.splits sum.splits)
    show "list_all (\<lambda>ev. \<not> stops ev) (dropWhile (\<lambda>ev. \<not> closes ev) (fst (shutdown p gdb)))"
      by (rule shutdown_order)
  qed
qed (use assms in auto)

theorem shutdown_closes_everything_witness:
  "\<exists>evs. runApp sample_platform sample_environ True sample_environ = (evs, Returned None) \<and> ContextDone \<in> set evs"
proof -
  from sample_run obtain evs where r: "runApp sample_platform sample_environ True sample_environ = (evs, Returned None)"
    by blast
  from shutdown_closes_everything [OF r] r show ?thesis by auto
qed

text \<open>A short secret is only looked at when the database and both clients are open, and none is closed then.\<close>

lemma short_secret_leaves_open:
  assumes "getenv ''DATABASE_URL'' \<noteq> []" "fst (db_Open (pf_gorm p) (getenv ''DATABASE_URL'')) = Inr gdb"
    and "length (TrimSpace (getenv ''JWT_SECRET'')) < 16"
  shows "\<exists>err. runApp p environ stopped getenv = (opened_resources environ, Returned (Some err))"
proof (cases rule: runApp_cases [of p environ stopped getenv])
  case (Refused err)
  then show ?thesis using assms by (auto simp: runApp_def Let_def split: prod.splits sum.splits)
qed (use assms in \<open>auto simp: can_serve_def\<close>)

end
