(* ===== verification/Spec2Isabelle.thy ===== *)
theory Spec2Isabelle
  imports Round_Properties Rematch_Properties Room_Properties Start_Up
begin

text \<open>
  A verification library for the blackjack server under \<open>src/backend\<close> (Go). The server keeps rooms
  with one human player, the host, who plays rounds of blackjack against the dealer over HTTP and
  WebSockets; a worker ends turns and rematch votes whose time is over; several instances share
  one PostgreSQL database and Redis.

  Parts and theories, from the data to the network:
  \<^item> \<open>BJ_Prelude\<close>: results \<open>error + 'a\<close> and their bind, tables as lists of rows, trimming, 64-bit
    counters, and the collections of facts the proofs share.
  \<^item> \<open>Model_Types\<close>, \<open>Card_Deck\<close>, \<open>Entities\<close>, \<open>Round_Rules\<close> (\<open>model/\<close>, \<open>newShuffledDeck\<close>): the
    entities with their operations, the shuffle over any random source, the dealer's policy,
    outcomes and hints over the interfaces of the evaluator. \<open>Lib_Adapter\<close> (\<open>adapter/\<close>) has the
    evaluator and the round engine; the third-party blackjack package is the parameter \<open>bj_lib\<close>,
    and \<open>lib_documented\<close> is what its documentation promises.
  \<^item> \<open>Row_Mapping\<close>, \<open>Pg_Store\<close>, \<open>Store_Schema\<close>, \<open>Store_Laws\<close> (\<open>repository/\<close>, \<open>db/migrate.go\<close>): rows,
    the tables with keys, unique indexes and foreign keys, every operation of the store.
  \<^item> \<open>Service_Monad\<close>, \<open>Prog_Effects\<close>: a program is a function of an environment (clock, random
    source, ids, environment variables, faults of the store) and a world (tables and a count of
    the calls made), and gives an error or a value with the new world. \<open>transaction\<close> restores the
    tables when its body fails. The effects (read only, writes only in transactions, all or
    nothing) are predicates proved once per operation.
  \<^item> \<open>Idempotency\<close>, \<open>Room_Service\<close>, \<open>Round_Service\<close>, \<open>Rematch_Service\<close>, \<open>Room_View\<close>
    (\<open>usecase/\<close>, \<open>buildRoomDTO\<close>): the use cases, the worker's pass and what a viewer is shown.
  \<^item> \<open>User_Auth\<close>, \<open>Rate_Limit\<close> (\<open>usecase/user_usecase.go\<close>, \<open>jwtauth/\<close>, the rate limits): users and
    tokens over bcrypt and JWT packages that behave as \<open>auth_documented\<close> says, and the token
    bucket script. \<open>Http_Api\<close> and \<open>Http_Access\<close> (\<open>controller/\<close>, \<open>dto/\<close>, \<open>middleware/\<close>, \<open>router/\<close>):
    handlers with their error switches, and the checks before them; the token reader of echo-jwt
    is a parameter (\<open>extract_documented\<close>).
  \<^item> \<open>Ws_Hub\<close>, \<open>Ws_Session\<close>, \<open>Ws_Server\<close>, \<open>Room_Sync\<close> (\<open>controller/room_ws_controller.go\<close>,
    \<open>game_ws_controller.go\<close>, \<open>realtime/\<close>): connections, their epochs, one message, broadcasts, any
    order of these over one hub, the messages between instances. \<open>Epoch_Store\<close> has the epochs as
    keys in Redis that expire, shows that they implement the epochs of \<open>Ws_Hub\<close>, and what the expiry
    means for a connection that is silent.
  \<^item> \<open>Resumption\<close>, \<open>Overlap_Service\<close>, \<open>Round_Progress\<close>, \<open>Overlap\<close>: a program as a tree of its
    statements (\<open>Resumption\<close>), the use cases cut that way, and \<open>overlapped\<close>, the states any number of
    requests reach when their statements interleave. \<open>cuts_are_the_code\<close> ties the two translations
    together: a cut use case run alone is the use case. \<open>Sample_Overlap\<close> is a run of two requests, \<open>Overlap_Properties\<close> what
    holds of overlapping requests and what does not.
  \<^item> \<open>Observability\<close>, \<open>Audit_Log\<close>, \<open>Ws_Audit\<close> (\<open>observability/metrics.go\<close>, \<open>auditlog/entry.go\<close>,
    \<open>middleware/audit_log_middleware.go\<close>, \<open>metrics_middleware.go\<close>, \<open>controller/ws_audit.go\<close>): programs
    that take notes (\<open>observed\<close>), the calls to Prometheus, the context a handler fills for its
    audit line, the lines themselves. \<open>observes m p\<close> says that \<open>m\<close> does what the plain program \<open>p\<close> does,
    so what is proved of the handlers holds of the ones that are logged. \<open>Audit_Properties\<close> has
    what the lines and counters say about the store.
  \<^item> \<open>Server_Config\<close>, \<open>Go_Duration\<close>, \<open>Migrations\<close>, \<open>Start_Up\<close> (\<open>main.go\<close>, \<open>run.go\<close>, \<open>db/\<close>,
    \<open>migrations/\<close>, \<open>router/\<close>): settings, \<open>time.ParseDuration\<close>, the health answer, the migrations, the
    routes, the run of the server from its start to its shutdown and the loops of the workers.

  What the lemmas show. \<open>Round_Facts\<close> has one consistent round (\<open>round_ok\<close>) and every move on it;
  \<open>Game_Invariant\<close> lifts it to all rounds of a store (\<open>game_ok\<close>), and \<open>System_Invariant\<close> proves that
  every request keeps it, whatever fails on the way, so it holds in every store of \<open>reachable\<close>, the
  stores that sequences of requests and passes of the worker lead to. \<open>Service_Facts\<close> says what a
  successful call has read and written; \<open>Round_Properties\<close>, \<open>Rematch_Properties\<close> and
  \<open>Room_Properties\<close> draw the behaviour of each use case from it. \<open>Room_Invariant\<close> is the rule of section
  9.1 of the specification on the rows of rooms, seats and sessions (\<open>rooms_ok\<close>), kept by every use
  case while requests come one after another: the status of a room follows from its session and its
  seat, and only the host sits in it. \<open>Sample_Run\<close> is a run from the empty store to an open round,
  and \<open>Sample_Rematch\<close> goes on to a forfeit and a vote; the instances of the theorems use them.

  Bounds. The dealer's loop is a worker pass at a time; 16 steps end every round, because each card
  adds at least one to a hand that stands at 17. Versions are 64-bit and wrap; the theorems about
  overlapping requests take them below the end (\<open>admitted\<close>) and the ids of new rounds as fresh.
  \<open>ParseDuration\<close> ends because each number takes a character off the text. No recursion needs fuel.

  Not modelled. Locks inside the database: statements outside a transaction interleave freely, a
  transaction is one step. A commit that fails after it took effect. The clock columns GORM fills in
  are the clock of the call. Unicode: trimming and lower case are those of ASCII text. Floats (the
  limiter, seconds of a metric, the fraction of a duration) are exact rationals. What Prometheus
  makes of the calls, and the JSON text of an audit line. Sockets, read and write deadlines, pings
  and tickers: opening, one message, closing, a broadcast and a tick are programs to be put in any
  order. Redis delivers what is published to a subscriber at most once: the theorem about events is
  about whichever of them arrive. The two commands of a registration can fail one by one, and the
  counter stays advanced when the second does. JSON other than that of cards: bodies, frames and
  messages are values, and what PostgreSQL does to the text of a jsonb column is outside. At
  start-up, GORM, the Redis clients and echo are parameters, and goroutines are events that say they
  were begun and with which context; cancelling a context is an event too, and nothing waits for the
  goroutine. The parsing of the limiter's reply, which is always three integers. The expiry of an
  epoch is exact, where Redis counts milliseconds.
\<close>

text \<open>
  C1. In every store the program reaches, each stored round has exactly one player and one
  dealer, and the player's hand, the dealer's hand and the undrawn rest of the deck together
  are exactly the 52 cards of the factory deck; no card is in a hand twice.
\<close>

theorem no_card_dealt_twice:
  assumes "lib_documented lib" "reachable (svc lib) d" "GetSession i d = Inr s"
  shows "\<exists>p x. ListPlayerStatesBySessionID i d = Inr [p] \<and> GetDealerState i d = Inr x
    \<and> mset (ps_Hand p) + mset (ds_Hand x) + mset (drop (nat (sess_DrawIndex s)) (sess_Deck s))
        = mset factory_deck
    \<and> distinct (ps_Hand p @ ds_Hand x)"
proof -
  from game_ok_session [OF reachable_game_ok [OF assms(1,2)] assms(3)] obtain p x where
    r: "ListPlayerStatesBySessionID i d = Inr [p]" "GetDealerState i d = Inr x" "round_ok lib s p x" .
  from r(3) have c: "cards_ok s p x" by (simp add: round_ok_def)
  then have "mset (ps_Hand p) + mset (ds_Hand x) + mset (drop (nat (sess_DrawIndex s)) (sess_Deck s))
      = mset (take (nat (sess_DrawIndex s)) (sess_Deck s) @ drop (nat (sess_DrawIndex s)) (sess_Deck s))"
    by (simp add: cards_ok_def del: append_take_drop_id)
  also have "\<dots> = mset factory_deck" using c by (simp add: cards_ok_def)
  finally show ?thesis using r cards_ok_facts(6) [OF c] by blast
qed

theorem no_card_dealt_twice_witness:
  "\<exists>p x. ListPlayerStatesBySessionID ''r1'' (w_db sample_round) = Inr [p]
    \<and> GetDealerState ''r1'' (w_db sample_round) = Inr x \<and> distinct (ps_Hand p @ ds_Hand x)"
  using no_card_dealt_twice [OF reference_lib_documented reachable_sample(4) sample_reads(2)] by blast

lemma stored_statuses:
  assumes "lib_documented lib" "reachable (svc lib) d" "GetSession i d = Inr s"
  shows "sess_Status s \<in> {SessionStatusPlayerTurn, SessionStatusDealerTurn, SessionStatusResetting}"
proof -
  from game_ok_session [OF reachable_game_ok [OF assms(1,2)] assms(3)] obtain p x where "round_ok lib s p x" .
  then show ?thesis by (auto simp: round_ok_def life_ok_def split: SessionStatus.splits)
qed

text \<open>
  C2. In every reachable store the status of a session determines the round: on the player's
  turn the player is active, not over 21, the hole card hidden and a deadline set; on the
  dealer's turn the player has finished and nothing is decided; once there is a result (RESULT
  or RESETTING), an outcome is stored, both scores are the values of the hands, and the hole
  card is shown.
\<close>

theorem round_life_cycle:
  assumes "lib_documented lib" "reachable (svc lib) d" "GetSession i d = Inr s"
    and "ListPlayerStatesBySessionID i d = Inr (p # ps)" "GetDealerState i d = Inr x"
  shows "(sess_Status s = SessionStatusPlayerTurn \<longrightarrow>
        ps_Status p = PlayerStatusActive \<and> ps_Outcome p = None \<and> ds_HoleHidden x
        \<and> ev_Value (NewHandEvaluator lib) (ps_Hand p) \<le> 21 \<and> sess_TurnDeadlineAt s \<noteq> None)
    \<and> (sess_Status s = SessionStatusDealerTurn \<longrightarrow>
        ps_Status p \<in> {PlayerStatusStand, PlayerStatusBust, PlayerStatusBlackjack}
        \<and> ps_Outcome p = None \<and> ds_HoleHidden x \<and> sess_TurnDeadlineAt s = None)
    \<and> (sess_Status s \<in> {SessionStatusResult, SessionStatusResetting} \<longrightarrow>
        (\<exists>oc. ps_Outcome p = Some oc \<and> (oc = OutcomeLose
           \<or> ResolveRoundOutcome (NewHandEvaluator lib) (ps_Hand p) (ds_Hand x) = Inr oc))
        \<and> ps_FinalScore p = Some (ev_Value (NewHandEvaluator lib) (ps_Hand p))
        \<and> ds_FinalScore x = Some (ev_Value (NewHandEvaluator lib) (ds_Hand x))
        \<and> \<not> ds_HoleHidden x \<and> sess_TurnDeadlineAt s = None)"
proof -
  from game_ok_session [OF reachable_game_ok [OF assms(1,2)] assms(3)] assms(4,5)
  have "round_ok lib s p x" by auto
  then show ?thesis by (auto simp: round_ok_def life_ok_def)
qed

theorem round_life_cycle_witness:
  "ps_Status sample_player = PlayerStatusActive \<and> ds_HoleHidden sample_dealer
   \<and> ev_Value (NewHandEvaluator reference_lib) (ps_Hand sample_player) \<le> 21"
proof -
  have "sess_Status sample_session = SessionStatusPlayerTurn" by (simp add: sample_session_def)
  with round_life_cycle [OF reference_lib_documented reachable_sample(4) sample_reads(2,4,5)]
  show ?thesis by simp
qed

lemma aon_void: "all_or_nothing m \<Longrightarrow> all_or_nothing (void m)"
  unfolding void_def by (rule aon_bind_ret)

text \<open>
  C4. A request that returns an error leaves the store as it was, whichever request it is
  (room, turn, vote, view, user or connection mark; the worker's pass over several sessions is
  the one exception, and signing up needs a secret of 16 bytes, as the server has).
\<close>

theorem failed_request_changes_nothing:
  assumes "req \<noteq> WorkerPass" "serve u req e w = (Inl err, w')"
    and "\<And>lib secret name pw. req = ReqSignup lib secret name pw \<Longrightarrow>
       auth_documented lib \<and> 16 \<le> length secret"
  shows "w_db w' = w_db w"
proof -
  have "all_or_nothing (serve u req)"
    using assms(1,3) by (cases req)
      (simp_all add: aon_void aon_room_uc aon_playerTurn aon_StartRoom aon_VoteRematch aon_Signup
        aon_readonly readonly_views readonly_room_uc readonly_auth)
  from aonD [OF this assms(2)] show ?thesis .
qed

theorem failed_request_changes_nothing_witness:
  "fst (serve (svc reference_lib) (ReqStartRoom ''room'' ''bob'') sample_env sample_lobby) = Inl ErrForbiddenAction
   \<and> w_db (snd (serve (svc reference_lib) (ReqStartRoom ''room'' ''bob'') sample_env sample_lobby)) = w_db sample_lobby"
proof -
  have run: "serve (svc reference_lib) (ReqStartRoom ''room'' ''bob'') sample_env sample_lobby =
      (Inl ErrForbiddenAction, lobby_at 13)" by code_simp
  from failed_request_changes_nothing [OF _ run, simplified] run show ?thesis by simp
qed

theorem saved_action_replayed:
  assumes "user_log a" "SaveActionSuccessSnapshot a snap e w = (Inr u, w')"
    and "ActionLog_Validate b = None" "same_action a b" "env_fault e' (w_calls w') = None"
  shows "EnsureActionIdempotency b e' w' =
    ((if al_RequestPayloadHash a = al_RequestPayloadHash b
      then Inr (snap, True) else Inl ErrDuplicateAction), tick w')"
  using Ensure_found [OF assms(3,5)] saved_action_found [OF assms(1,2)] assms(4)
  by (auto simp: same_action_def)

theorem saved_action_replayed_witness:
  "\<exists>w'. SaveActionSuccessSnapshot (sample_log True) ''done'' sample_env sample_round = (Inr (), w')
     \<and> fst (EnsureActionIdempotency (sample_log True) sample_env w') = Inr (''done'', True)
     \<and> fst (EnsureActionIdempotency (sample_log False) sample_env w') = Inl ErrDuplicateAction"
proof -
  have u: "user_log (sample_log True)" "ActionLog_Validate (sample_log True) = None"
    "ActionLog_Validate (sample_log False) = None"
    "same_action (sample_log True) (sample_log True)" "same_action (sample_log True) (sample_log False)"
    "al_RequestPayloadHash (sample_log True) \<noteq> al_RequestPayloadHash (sample_log False)"
    by code_simp+
  have "fst (SaveActionSuccessSnapshot (sample_log True) ''done'' sample_env sample_round) = Inr ()"
    by code_simp
  then obtain w' where s: "SaveActionSuccessSnapshot (sample_log True) ''done'' sample_env sample_round = (Inr (), w')"
    by (metis prod.collapse)
  have f: "env_fault sample_env n = None" for n by (simp add: sample_env_def)
  show ?thesis
    using s saved_action_replayed [OF u(1) s u(2) u(4) f] saved_action_replayed [OF u(1) s u(3) u(5) f] u(6)
    by simp
qed

end
